(* ===== verification/Prelude.thy ===== *)
theory Prelude
  imports Complex_Main "HOL-Library.Product_Lexorder"
begin

text \<open>
  Shared vocabulary of the development: the types that stand for the values the server passes
  around (identifiers, instants, durations), results of fallible code, and database tables as
  lists of rows together with the few statements the repositories issue against them.

  An instant is a count of microseconds since the epoch, which is the resolution both of Python's
  \<open>datetime\<close> and of PostgreSQL's \<open>timestamptz\<close>; a duration is a count of microseconds as well.
  An identifier is the number a UUID denotes, so its order is PostgreSQL's order on \<open>uuid\<close>.
\<close>

type_synonym uuid = nat
type_synonym instant = int
type_synonym duration = int

abbreviation milliseconds :: "int \<Rightarrow> duration" where
  "milliseconds n \<equiv> n * 1000"

abbreviation seconds :: "int \<Rightarrow> duration" where
  "seconds n \<equiv> n * 1000000"

abbreviation minutes :: "int \<Rightarrow> duration" where
  "minutes n \<equiv> n * 60000000"

abbreviation hours :: "int \<Rightarrow> duration" where
  "hours n \<equiv> n * 3600000000"

abbreviation days :: "int \<Rightarrow> duration" where
  "days n \<equiv> n * 86400000000"

text \<open>Facts that unfold the guards and writes of the repositories.\<close>

named_theorems row_simps "projections of updated rows"
named_theorems guard_simps "decoded guards of validated values"

subsection \<open>Results of fallible code\<close>

text \<open>
  Code that may raise returns \<open>Inl\<close> of the exception or \<open>Inr\<close> of its value.
\<close>

definition bind_result :: "'e + 'a \<Rightarrow> ('a \<Rightarrow> 'e + 'b) \<Rightarrow> 'e + 'b" where
  "bind_result m k = (case m of Inl e \<Rightarrow> Inl e | Inr x \<Rightarrow> k x)"

lemma bind_result_simps [simp]:
  "bind_result (Inl e) k = Inl e"
  "bind_result (Inr x) k = k x"
  by (simp_all add: bind_result_def)

lemma bind_result_eq_Inr: "bind_result m k = Inr y \<longleftrightarrow> (\<exists>x. m = Inr x \<and> k x = Inr y)"
  by (cases m) simp_all

lemma bind_result_eq_Inl:
  "bind_result m k = Inl e \<longleftrightarrow> m = Inl e \<or> (\<exists>x. m = Inr x \<and> k x = Inl e)"
  by (cases m) simp_all

lemma if_Inl_eq_Inr: "(if b then Inl e else r) = Inr y \<longleftrightarrow> \<not> b \<and> r = Inr y"
  by simp

lemma ex_unit: "(\<exists>u :: unit. P u) \<longleftrightarrow> P ()"
  by (metis old.unit.exhaust)

lemmas result_simps = bind_result_eq_Inr bind_result_eq_Inl if_Inl_eq_Inr ex_unit

definition require :: "bool \<Rightarrow> 'e \<Rightarrow> 'e + unit" where
  "require b e = (if b then Inr () else Inl e)"

lemma require_eq_Inr [simp]: "require b e = Inr u \<longleftrightarrow> b"
  by (simp add: require_def)

lemma require_eq_Inl [simp]: "require b e = Inl e' \<longleftrightarrow> \<not> b \<and> e' = e"
  by (auto simp: require_def)

lemma require_simps [simp]: "require True e = Inr ()" "require False e = Inl e"
  by (simp_all add: require_def)

definition is_ok :: "'e + 'a \<Rightarrow> bool" where
  "is_ok r = (case r of Inl _ \<Rightarrow> False | Inr _ \<Rightarrow> True)"

lemma is_ok_simps [simp]: "is_ok (Inr x)" "\<not> is_ok (Inl e)"
  by (simp_all add: is_ok_def)

lemma is_ok_iff: "is_ok r \<longleftrightarrow> (\<exists>x. r = Inr x)"
  by (cases r) simp_all

text \<open>A list built one element at a time, the first exception ending it.\<close>

fun map_result :: "('a \<Rightarrow> 'e + 'b) \<Rightarrow> 'a list \<Rightarrow> 'e + 'b list" where
  "map_result f [] = Inr []"
| "map_result f (x # xs) =
     bind_result (f x) (\<lambda>y. bind_result (map_result f xs) (\<lambda>ys. Inr (y # ys)))"

lemma map_result_Inr:
  "(\<And>x. x \<in> set xs \<Longrightarrow> f x = Inr (g x)) \<Longrightarrow> map_result f xs = Inr (map g xs)"
  by (induction xs) simp_all

subsection \<open>Rounding\<close>

text \<open>\<open>timedelta\<close> rounds to the nearest microsecond, ties to even.\<close>

definition py_round :: "rat \<Rightarrow> int" where
  "py_round x =
     (let n = \<lfloor>x\<rfloor>; f = x - of_int n
      in if f < 1 / 2 then n else if 1 / 2 < f then n + 1 else if even n then n else n + 1)"

lemma py_round_of_int [simp]: "py_round (of_int n) = n"
  by (simp add: py_round_def)

lemma py_round_le:
  assumes "x \<le> of_int m"
  shows "py_round x \<le> m"
proof (cases "x = of_int m")
  case True
  then show ?thesis by simp
next
  case False
  with assms have "x < of_int m" by simp
  then have "\<lfloor>x\<rfloor> < m" by (simp add: floor_less_iff)
  then show ?thesis by (simp add: py_round_def Let_def)
qed

lemma py_round_ge:
  assumes "of_int m \<le> x"
  shows "m \<le> py_round x"
proof -
  from assms have "m \<le> \<lfloor>x\<rfloor>" by (simp add: le_floor_iff)
  then show ?thesis by (simp add: py_round_def Let_def)
qed

subsection \<open>Tables\<close>

text \<open>
  A table is the list of its rows. \<open>update_rows P f\<close> is \<open>UPDATE \<dots> SET f WHERE P\<close>,
  \<open>delete_rows P\<close> is \<open>DELETE \<dots> WHERE P\<close>, a selection by primary key is \<open>find\<close>, and
  \<open>ORDER BY k LIMIT n\<close> is \<open>take n (sort_key k \<dots>)\<close>.
\<close>

definition update_rows :: "('r \<Rightarrow> bool) \<Rightarrow> ('r \<Rightarrow> 'r) \<Rightarrow> 'r list \<Rightarrow> 'r list" where
  "update_rows P f t = map (\<lambda>r. if P r then f r else r) t"

definition delete_rows :: "('r \<Rightarrow> bool) \<Rightarrow> 'r list \<Rightarrow> 'r list" where
  "delete_rows P t = filter (\<lambda>r. \<not> P r) t"

definition count_rows :: "('r \<Rightarrow> bool) \<Rightarrow> 'r list \<Rightarrow> nat" where
  "count_rows P t = length (filter P t)"

lemma length_update_rows [simp]: "length (update_rows P f t) = length t"
  by (simp add: update_rows_def)

lemma update_rows_Nil [simp]: "update_rows P f [] = []"
  by (simp add: update_rows_def)

lemma update_rows_Cons [simp]:
  "update_rows P f (r # t) = (if P r then f r else r) # update_rows P f t"
  by (simp add: update_rows_def)

lemma update_rows_append [simp]:
  "update_rows P f (s @ t) = update_rows P f s @ update_rows P f t"
  by (simp add: update_rows_def)

lemma in_update_rows:
  "r' \<in> set (update_rows P f t) \<longleftrightarrow>
     (\<exists>r \<in> set t. r' = (if P r then f r else r))"
  by (auto simp: update_rows_def)

lemma in_update_rowsE:
  assumes "r' \<in> set (update_rows P f t)"
  obtains r where "r \<in> set t" and "P r" and "r' = f r"
    | r where "r \<in> set t" and "\<not> P r" and "r' = r"
  using assms by (auto simp: in_update_rows split: if_splits)

lemma update_rows_id: "(\<And>r. r \<in> set t \<Longrightarrow> \<not> P r) \<Longrightarrow> update_rows P f t = t"
  by (induction t) auto

lemma find_eq_Some_unique:
  "find P t = Some r \<Longrightarrow> r \<in> set t \<and> P r"
  by (auto simp: find_Some_iff)

lemma find_keyI:
  assumes "distinct (map key t)" and "r \<in> set t" and "key r = k"
  shows "find (\<lambda>r. key r = k) t = Some r"
  using assms by (induction t) auto

lemma in_delete_rows [simp]: "r \<in> set (delete_rows P t) \<longleftrightarrow> r \<in> set t \<and> \<not> P r"
  by (simp add: delete_rows_def)

lemma distinct_delete_rows: "distinct (map key t) \<Longrightarrow> distinct (map key (delete_rows P t))"
  by (simp add: delete_rows_def distinct_map_filter)

lemma count_rows_simps [simp]:
  "count_rows P [] = 0"
  "count_rows P (r # t) = (if P r then Suc (count_rows P t) else count_rows P t)"
  "count_rows P (s @ t) = count_rows P s + count_rows P t"
  by (simp_all add: count_rows_def)

lemma count_rows_mono: "(\<And>r. r \<in> set t \<Longrightarrow> P r \<Longrightarrow> Q r) \<Longrightarrow> count_rows P t \<le> count_rows Q t"
  by (induction t) auto

lemma count_rows_cong: "(\<And>r. r \<in> set t \<Longrightarrow> P r \<longleftrightarrow> Q r) \<Longrightarrow> count_rows P t = count_rows Q t"
  by (induction t) auto

subsection \<open>Updates that keep the primary key\<close>

text \<open>
  The contract of every \<open>SET\<close> clause of the server: it does not write the primary key. What
  follows from it (the keys, hence their uniqueness and the row a key selects) is proved once.
\<close>

locale key_keeping =
  fixes key :: "'r \<Rightarrow> 'k" and f :: "'r \<Rightarrow> 'r"
  assumes key_kept: "key (f r) = key r"
begin

lemma keys_update_rows: "map key (update_rows P f t) = map key t"
  by (induction t) (simp_all add: key_kept)

lemma distinct_update_rows: "distinct (map key t) \<Longrightarrow> distinct (map key (update_rows P f t))"
  by (simp add: keys_update_rows)

lemma find_update_rows:
  "find (\<lambda>r. key r = k) (update_rows P f t) =
     map_option (\<lambda>r. if P r then f r else r) (find (\<lambda>r. key r = k) t)"
  by (induction t) (auto simp: key_kept)

lemma filter_update_rows:
  "filter (\<lambda>r. Q (key r)) (update_rows P f t) = update_rows P f (filter (\<lambda>r. Q (key r)) t)"
  by (induction t) (simp_all add: key_kept)

lemma find_update_key:
  assumes "find (\<lambda>r. key r = k) t = Some r"
  shows "find (\<lambda>r. key r = k') (update_rows (\<lambda>r. key r = k \<and> Q r) f t) =
     (if k' = k then Some (if Q r then f r else r) else find (\<lambda>r. key r = k') t)"
proof (cases "k' = k")
  case True
  with assms show ?thesis
    by (auto simp: find_update_rows dest: find_eq_Some_unique)
next
  case False
  then show ?thesis
    by (auto simp: find_update_rows option.map_ident_strong dest!: find_eq_Some_unique
        intro!: option.map_ident_strong)
qed

end

end
