(* ===== verification/Patterns.thy ===== *)
theory Patterns
  imports Prelude
begin

text \<open>
  The regular expressions the source writes down, as data: a small matcher for the fragment of
  Python's \<open>re\<close> that it uses (classes, literals, sequence, alternation, option, class repetition,
  \<open>^\<close> and \<open>$\<close>), with \<open>search\<close> and \<open>fullmatch\<close>. A character stands for one code point,
  and code points are restricted to U+0000..U+00FF.
\<close>

subsection \<open>Character classes\<close>

definition in_range :: "char \<Rightarrow> char \<Rightarrow> char \<Rightarrow> bool" where
  "in_range lo hi c \<longleftrightarrow> of_char lo \<le> (of_char c :: nat) \<and> of_char c \<le> (of_char hi :: nat)"

definition is_lower :: "char \<Rightarrow> bool" where
  "is_lower = in_range (CHR ''a'') (CHR ''z'')"

definition is_upper :: "char \<Rightarrow> bool" where
  "is_upper = in_range (CHR ''A'') (CHR ''Z'')"

definition is_digit :: "char \<Rightarrow> bool" where
  "is_digit = in_range (CHR ''0'') (CHR ''9'')"

definition is_alnum :: "char \<Rightarrow> bool" where
  "is_alnum c \<longleftrightarrow> is_lower c \<or> is_upper c \<or> is_digit c"

text \<open>\<open>str.lower\<close> on ASCII text.\<close>

definition lower_char :: "char \<Rightarrow> char" where
  "lower_char c = (if is_upper c then char_of ((of_char c :: nat) + 32) else c)"

definition py_lower :: "string \<Rightarrow> string" where
  "py_lower = map lower_char"

definition lower_hex_digit :: "char \<Rightarrow> bool" where
  "lower_hex_digit c \<longleftrightarrow> is_digit c \<or> in_range (CHR ''a'') (CHR ''f'') c"

definition url64_char :: "char \<Rightarrow> bool" where
  "url64_char c \<longleftrightarrow> is_alnum c \<or> c = CHR ''_'' \<or> c = CHR ''-''"

subsection \<open>Matching\<close>

datatype rx =
    Cls "char \<Rightarrow> bool"
  | Lit string
  | Cat rx rx
  | Alt rx rx
  | Opt rx
  | Star "char \<Rightarrow> bool"
  | Times nat "char \<Rightarrow> bool"
  | Bol
  | Eol

fun drop_literal :: "string \<Rightarrow> string \<Rightarrow> string option" where
  "drop_literal [] s = Some s"
| "drop_literal (p # ps) [] = None"
| "drop_literal (p # ps) (c # s) = (if p = c then drop_literal ps s else None)"

fun star_rests :: "(char \<Rightarrow> bool) \<Rightarrow> bool \<Rightarrow> string \<Rightarrow> (bool \<times> string) list" where
  "star_rests P b [] = [(b, [])]"
| "star_rests P b (c # s) = (b, c # s) # (if P c then star_rests P False s else [])"

text \<open>
  \<open>rx_run r b s\<close> lists what may remain of \<open>s\<close> after a match of \<open>r\<close> at its front; the flag
  says whether the position is the start of the subject, which is what \<open>^\<close> asks. \<open>$\<close> holds at
  the end and before a final newline.
\<close>

fun rx_run :: "rx \<Rightarrow> bool \<Rightarrow> string \<Rightarrow> (bool \<times> string) list" where
  "rx_run (Cls P) b s = (case s of [] \<Rightarrow> [] | c # s' \<Rightarrow> if P c then [(False, s')] else [])"
| "rx_run (Lit p) b s =
     (case drop_literal p s of None \<Rightarrow> [] | Some s' \<Rightarrow> [(b \<and> p = [], s')])"
| "rx_run (Cat r q) b s = concat (map (\<lambda>(b', s'). rx_run q b' s') (rx_run r b s))"
| "rx_run (Alt r q) b s = rx_run r b s @ rx_run q b s"
| "rx_run (Opt r) b s = rx_run r b s @ [(b, s)]"
| "rx_run (Star P) b s = star_rests P b s"
| "rx_run (Times n P) b s =
     (if n \<le> length s \<and> list_all P (take n s) then [(b \<and> n = 0, drop n s)] else [])"
| "rx_run Bol b s = (if b then [(b, s)] else [])"
| "rx_run Eol b s = (if s = [] \<or> s = [CHR 0x0A] then [(b, s)] else [])"

fun rx_search_from :: "rx \<Rightarrow> bool \<Rightarrow> string \<Rightarrow> bool" where
  "rx_search_from r b [] \<longleftrightarrow> rx_run r b [] \<noteq> []"
| "rx_search_from r b (c # s) \<longleftrightarrow> rx_run r b (c # s) \<noteq> [] \<or> rx_search_from r False s"

definition rx_search :: "rx \<Rightarrow> string \<Rightarrow> bool" where
  "rx_search r s = rx_search_from r True s"

definition rx_fullmatch :: "rx \<Rightarrow> string \<Rightarrow> bool" where
  "rx_fullmatch r s \<longleftrightarrow> list_ex (\<lambda>(b, rest). rest = []) (rx_run r True s)"

lemma drop_literal_Some: "drop_literal p s = Some s' \<longleftrightarrow> s = p @ s'"
  by (induction p s rule: drop_literal.induct) auto

lemma star_rests_empty: "list_ex (\<lambda>(b, rest). rest = []) (star_rests P b s) \<longleftrightarrow> list_all P s"
  by (induction P b s rule: star_rests.induct) auto

lemma fullmatch_Times: "rx_fullmatch (Times n P) s \<longleftrightarrow> length s = n \<and> list_all P s"
  by (auto simp: rx_fullmatch_def)

lemma fullmatch_Star: "rx_fullmatch (Star P) s \<longleftrightarrow> list_all P s"
  by (simp add: rx_fullmatch_def star_rests_empty)

text \<open>Searching finds a match at some position of the subject.\<close>

lemma search_from_iff:
  "rx_search_from r b s \<longleftrightarrow>
     (\<exists>u v. s = u @ v \<and> rx_run r (b \<and> u = []) v \<noteq> [])"
proof (induction r b s rule: rx_search_from.induct)
  case (1 r b)
  then show ?case by auto
next
  case (2 r b c s)
  show ?case
  proof
    assume "rx_search_from r b (c # s)"
    then consider "rx_run r b (c # s) \<noteq> []" | "rx_search_from r False s"
      by auto
    then show "\<exists>u v. c # s = u @ v \<and> rx_run r (b \<and> u = []) v \<noteq> []"
    proof cases
      case 1
      then have "c # s = [] @ (c # s) \<and> rx_run r (b \<and> [] = ([] :: string)) (c # s) \<noteq> []" by simp
      then show ?thesis by blast
    next
      case 2
      with "2.IH" obtain u v where "s = u @ v" "rx_run r False v \<noteq> []" by auto
      then have "c # s = (c # u) @ v \<and> rx_run r (b \<and> c # u = []) v \<noteq> []" by simp
      then show ?thesis by blast
    qed
  next
    assume "\<exists>u v. c # s = u @ v \<and> rx_run r (b \<and> u = []) v \<noteq> []"
    then obtain u v where uv: "c # s = u @ v" "rx_run r (b \<and> u = []) v \<noteq> []" by blast
    show "rx_search_from r b (c # s)"
    proof (cases u)
      case Nil
      with uv have "rx_run r b (c # s) \<noteq> []" by simp
      then show ?thesis by simp
    next
      case (Cons d w)
      with uv have "s = w @ v" "rx_run r (False \<and> w = []) v \<noteq> []" by auto
      with "2.IH" have "rx_search_from r False s" by blast
      then show ?thesis by simp
    qed
  qed
qed

lemma rx_search_iff:
  "rx_search r s \<longleftrightarrow> (\<exists>u v. s = u @ v \<and> rx_run r (u = []) v \<noteq> [])"
  by (simp add: rx_search_def search_from_iff)

text \<open>The matches of each construct, as membership in the list of remainders.\<close>

lemma in_run_Cat:
  "(b', s') \<in> set (rx_run (Cat r q) b s) \<longleftrightarrow>
     (\<exists>b1 s1. (b1, s1) \<in> set (rx_run r b s) \<and> (b', s') \<in> set (rx_run q b1 s1))"
  by auto

lemma in_run_Lit: "(b', s') \<in> set (rx_run (Lit p) b s) \<longleftrightarrow> s = p @ s' \<and> b' = (b \<and> p = [])"
proof (cases "drop_literal p s")
  case None
  then have "s \<noteq> p @ s'" using drop_literal_Some [of p s s'] by simp
  with None show ?thesis by simp
next
  case (Some t)
  then have "s = p @ t" by (simp add: drop_literal_Some)
  with Some show ?thesis by auto
qed

lemma in_run_Alt:
  "x \<in> set (rx_run (Alt r q) b s) \<longleftrightarrow> x \<in> set (rx_run r b s) \<or> x \<in> set (rx_run q b s)"
  by auto

lemma in_run_Opt: "x \<in> set (rx_run (Opt r) b s) \<longleftrightarrow> x \<in> set (rx_run r b s) \<or> x = (b, s)"
  by auto

lemma in_run_Bol: "(b', s') \<in> set (rx_run Bol b s) \<longleftrightarrow> b \<and> b' \<and> s' = s"
  by auto

lemma in_run_Eol:
  "(b', s') \<in> set (rx_run Eol b s) \<longleftrightarrow> (s = [] \<or> s = [CHR 0x0A]) \<and> b' = b \<and> s' = s"
  by auto

lemmas in_run = in_run_Cat in_run_Lit in_run_Alt in_run_Opt in_run_Bol in_run_Eol

lemma run_nonempty: "rx_run r b s \<noteq> [] \<longleftrightarrow> (\<exists>b' s'. (b', s') \<in> set (rx_run r b s))"
  by (cases "rx_run r b s") auto

declare rx_run.simps [simp del]

text \<open>
  \<open>accepts r W\<close>: at every position, the texts \<open>r\<close> consumes are the words of \<open>W\<close>. Expressions
  without anchors have such a language.
\<close>

definition accepts :: "rx \<Rightarrow> string set \<Rightarrow> bool" where
  "accepts r W \<longleftrightarrow>
     (\<forall>b s s'. (\<exists>b'. (b', s') \<in> set (rx_run r b s)) \<longleftrightarrow> (\<exists>w \<in> W. s = w @ s'))"

lemma acceptsD:
  "accepts r W \<Longrightarrow> (\<exists>b'. (b', s') \<in> set (rx_run r b s)) \<longleftrightarrow> (\<exists>w \<in> W. s = w @ s')"
  by (simp add: accepts_def)

lemma accepts_Lit [intro]: "accepts (Lit p) {p}"
  by (simp add: accepts_def in_run_Lit)

lemma accepts_Alt [intro]: "accepts r A \<Longrightarrow> accepts q B \<Longrightarrow> accepts (Alt r q) (A \<union> B)"
  by (simp add: accepts_def in_run_Alt ex_disj_distrib bex_Un)

lemma accepts_Opt [intro]: "accepts r A \<Longrightarrow> accepts (Opt r) (insert [] A)"
  by (auto simp: accepts_def in_run_Opt ex_disj_distrib)

lemma accepts_Cat [intro]:
  assumes r: "accepts r A" and q: "accepts q B"
  shows "accepts (Cat r q) {u @ v |u v. u \<in> A \<and> v \<in> B}"
  unfolding accepts_def
proof (intro allI)
  fix b s s'
  have "(\<exists>b'. (b', s') \<in> set (rx_run (Cat r q) b s)) \<longleftrightarrow>
      (\<exists>s1 b1. (b1, s1) \<in> set (rx_run r b s) \<and> (\<exists>b'. (b', s') \<in> set (rx_run q b1 s1)))"
    unfolding in_run_Cat by blast
  also have "\<dots> \<longleftrightarrow> (\<exists>s1. (\<exists>b1. (b1, s1) \<in> set (rx_run r b s)) \<and> (\<exists>v \<in> B. s1 = v @ s'))"
    by (simp only: acceptsD [OF q]) simp
  also have "\<dots> \<longleftrightarrow> (\<exists>s1. (\<exists>u \<in> A. s = u @ s1) \<and> (\<exists>v \<in> B. s1 = v @ s'))"
    by (simp only: acceptsD [OF r])
  also have "\<dots> \<longleftrightarrow> (\<exists>w \<in> {u @ v |u v. u \<in> A \<and> v \<in> B}. s = w @ s')"
    by force
  finally show "(\<exists>b'. (b', s') \<in> set (rx_run (Cat r q) b s)) \<longleftrightarrow>
      (\<exists>w \<in> {u @ v |u v. u \<in> A \<and> v \<in> B}. s = w @ s')" .
qed

lemma run_Cat_iff:
  assumes "accepts r A" and "\<And>b v. rx_run q b v \<noteq> [] \<longleftrightarrow> Q v"
  shows "rx_run (Cat r q) b s \<noteq> [] \<longleftrightarrow> (\<exists>w v. w \<in> A \<and> s = w @ v \<and> Q v)"
proof -
  have "rx_run (Cat r q) b s \<noteq> [] \<longleftrightarrow>
      (\<exists>s1 b1. (b1, s1) \<in> set (rx_run r b s) \<and> rx_run q b1 s1 \<noteq> [])"
    unfolding run_nonempty in_run_Cat by blast
  also have "\<dots> \<longleftrightarrow> (\<exists>s1. (\<exists>b1. (b1, s1) \<in> set (rx_run r b s)) \<and> Q s1)"
    by (simp only: assms(2)) blast
  also have "\<dots> \<longleftrightarrow> (\<exists>w v. w \<in> A \<and> s = w @ v \<and> Q v)"
    by (simp only: acceptsD [OF assms(1)]) blast
  finally show ?thesis .
qed

end
