(* ===== verification/Job_Documents.thy ===== *)
theory Job_Documents
  imports Patterns "HOL-Library.List_Lexorder" "HOL-Library.Char_ord" "HOL-Library.Multiset"
begin

text \<open>
  JSON documents of durable jobs (\<open>server/src/autplay/domain/jobs.py\<close>): the copy that rejects
  secrets, non-finite numbers, non-string keys and deep nesting, the encoder whose output is
  measured, and the test for credential-shaped keys.
\<close>

subsection \<open>Values\<close>

text \<open>
  A Python value as the copy sees it. \<open>JOther\<close> is any object that is not JSON and \<open>KOther\<close> a
  dictionary key that is not a \<open>str\<close>; a dictionary is its list of items in insertion order. The
  finite floats are kept as rationals.
\<close>

datatype pyfloat = Finite rat | PosInf | NegInf | NotANumber

datatype doc_key = KStr string | KOther

datatype json =
    JNull
  | JBool bool
  | JInt int
  | JFloat pyfloat
  | JStr string
  | JList "json list"
  | JDict "(doc_key \<times> json) list"
  | JOther

definition is_finite :: "pyfloat \<Rightarrow> bool" where
  "is_finite x = (case x of Finite _ \<Rightarrow> True | _ \<Rightarrow> False)"

lemma is_finite_simps [simp]:
  "is_finite (Finite q)" "\<not> is_finite PosInf" "\<not> is_finite NegInf" "\<not> is_finite NotANumber"
  by (simp_all add: is_finite_def)

definition max_job_document_bytes :: int where "max_job_document_bytes = 256 * 1024"
definition max_error_detail_bytes :: int where "max_error_detail_bytes = 64 * 1024"
definition max_json_depth :: nat where "max_json_depth = 32"

subsection \<open>Credential-shaped keys\<close>

text \<open>\<open>re.sub(r"([a-z0-9])([A-Z])", r"\1_\2", key)\<close>: the matches never overlap, because the
  second character of one is not a first character of the next.\<close>

fun split_camel :: "string \<Rightarrow> string" where
  "split_camel (a # b # s) =
     (if (is_lower a \<or> is_digit a) \<and> is_upper b then a # CHR ''_'' # split_camel (b # s)
      else a # split_camel (b # s))"
| "split_camel s = s"

text \<open>\<open>re.sub(r"[^a-zA-Z0-9]+", "_", \<dots>)\<close>: a run of other characters becomes one underscore.\<close>

fun squeeze_from :: "bool \<Rightarrow> string \<Rightarrow> string" where
  "squeeze_from run [] = []"
| "squeeze_from run (c # s) =
     (if is_alnum c then c # squeeze_from False s
      else if run then squeeze_from True s else CHR ''_'' # squeeze_from True s)"

definition strip_char :: "char \<Rightarrow> string \<Rightarrow> string" where
  "strip_char c s = rev (dropWhile (\<lambda>x. x = c) (rev (dropWhile (\<lambda>x. x = c) s)))"

definition normalize_doc_key :: "string \<Rightarrow> string" where
  "normalize_doc_key key = py_lower (strip_char (CHR ''_'') (squeeze_from False (split_camel key)))"

text \<open>The two alternatives of \<open>_SENSITIVE_KEY\<close>, on lower-case text.\<close>

definition sensitive_key_rx :: rx where
  "sensitive_key_rx =
     Alt
       (Cat (Alt Bol (Lit ''_''))
         (Cat (Opt (Alt (Lit ''access'') (Alt (Lit ''auth'') (Lit ''refresh''))))
           (Cat (Opt (Lit ''_'')) (Cat (Lit ''token'') (Alt Eol (Lit ''_''))))))
       (Cat (Alt Bol (Lit ''_''))
         (Cat
           (Alt (Lit ''api_key'') (Alt (Lit ''authorization'') (Alt (Lit ''cookie'')
             (Alt (Lit ''password'') (Alt (Lit ''passwd'') (Alt (Lit ''secret'')
               (Lit ''credential'')))))))
           (Alt Eol (Lit ''_''))))"

definition is_sensitive_key :: "string \<Rightarrow> bool" where
  "is_sensitive_key key = rx_search sensitive_key_rx (normalize_doc_key key)"

subsection \<open>The checked copy\<close>

text \<open>Where a value stands in its document: the path of the error messages.\<close>

datatype segment = Field string | Index nat

datatype doc_reason =
    TooDeep | NonStringKey | SensitiveKey | NonFinite | Unsupported | NotJson | TooLarge int

datatype doc_error = DocumentError doc_reason "segment list" | BoundTooSmall

fun copy_json_value :: "json \<Rightarrow> segment list \<Rightarrow> nat \<Rightarrow> doc_error + json"
  and copy_json_items ::
    "(doc_key \<times> json) list \<Rightarrow> segment list \<Rightarrow> nat \<Rightarrow> doc_error + (doc_key \<times> json) list"
  and copy_json_list :: "json list \<Rightarrow> nat \<Rightarrow> segment list \<Rightarrow> nat \<Rightarrow> doc_error + json list"
where
  "copy_json_value v path depth =
     (if max_json_depth < depth then Inl (DocumentError TooDeep path)
      else (case v of
          JNull \<Rightarrow> Inr v
        | JStr _ \<Rightarrow> Inr v
        | JBool _ \<Rightarrow> Inr v
        | JInt _ \<Rightarrow> Inr v
        | JFloat x \<Rightarrow> if is_finite x then Inr v else Inl (DocumentError NonFinite path)
        | JList xs \<Rightarrow> bind_result (copy_json_list xs 0 path depth) (\<lambda>ys. Inr (JList ys))
        | JDict items \<Rightarrow>
            if max_json_depth < depth then Inl (DocumentError TooDeep path)
            else bind_result (copy_json_items items path depth) (\<lambda>ys. Inr (JDict ys))
        | JOther \<Rightarrow> Inl (DocumentError Unsupported path)))"
| "copy_json_items [] path depth = Inr []"
| "copy_json_items ((k, v) # items) path depth =
     (case k of
        KOther \<Rightarrow> Inl (DocumentError NonStringKey path)
      | KStr key \<Rightarrow>
          if is_sensitive_key key then Inl (DocumentError SensitiveKey (path @ [Field key]))
          else bind_result (copy_json_value v (path @ [Field key]) (Suc depth)) (\<lambda>v'.
               bind_result (copy_json_items items path depth) (\<lambda>rest.
               Inr ((KStr key, v') # rest))))"
| "copy_json_list [] i path depth = Inr []"
| "copy_json_list (x # xs) i path depth =
     bind_result (copy_json_value x (path @ [Index i]) (Suc depth)) (\<lambda>y.
     bind_result (copy_json_list xs (Suc i) path depth) (\<lambda>ys. Inr (y # ys)))"

definition copy_json_object ::
  "(doc_key \<times> json) list \<Rightarrow> segment list \<Rightarrow> nat \<Rightarrow> doc_error + (doc_key \<times> json) list" where
  "copy_json_object items path depth =
     (if max_json_depth < depth then Inl (DocumentError TooDeep path)
      else copy_json_items items path depth)"


declare copy_json_value.simps [simp del]

text \<open>
  What an accepted document is: every key a harmless string, every number finite, nothing that is
  not JSON. \<open>nesting\<close> counts the containers around the innermost element.
\<close>

fun clean_value :: "json \<Rightarrow> bool"
  and clean_items :: "(doc_key \<times> json) list \<Rightarrow> bool"
  and clean_list :: "json list \<Rightarrow> bool"
where
  "clean_value JNull = True"
| "clean_value (JBool b) = True"
| "clean_value (JInt n) = True"
| "clean_value (JStr s) = True"
| "clean_value (JFloat x) = is_finite x"
| "clean_value (JList xs) = clean_list xs"
| "clean_value (JDict items) = clean_items items"
| "clean_value JOther = False"
| "clean_items [] = True"
| "clean_items ((k, v) # items) =
     ((case k of KOther \<Rightarrow> False | KStr key \<Rightarrow> \<not> is_sensitive_key key)
      \<and> clean_value v \<and> clean_items items)"
| "clean_list [] = True"
| "clean_list (x # xs) = (clean_value x \<and> clean_list xs)"

fun nesting :: "json \<Rightarrow> nat"
  and nesting_items :: "(doc_key \<times> json) list \<Rightarrow> nat"
  and nesting_list :: "json list \<Rightarrow> nat"
where
  "nesting (JList xs) = nesting_list xs"
| "nesting (JDict items) = nesting_items items"
| "nesting v = 0"
| "nesting_items [] = 0"
| "nesting_items ((k, v) # items) = max (Suc (nesting v)) (nesting_items items)"
| "nesting_list [] = 0"
| "nesting_list (x # xs) = max (Suc (nesting x)) (nesting_list xs)"

lemma copy_json_iff:
  "copy_json_value v path d = Inr w \<longleftrightarrow>
     w = v \<and> clean_value v \<and> d + nesting v \<le> max_json_depth"
  "d \<le> max_json_depth \<Longrightarrow>
     copy_json_items items path d = Inr items' \<longleftrightarrow>
       items' = items \<and> clean_items items \<and> d + nesting_items items \<le> max_json_depth"
  "d \<le> max_json_depth \<Longrightarrow>
     copy_json_list xs i path d = Inr ys \<longleftrightarrow>
       ys = xs \<and> clean_list xs \<and> d + nesting_list xs \<le> max_json_depth"
proof (induction v path d and items path d and xs i path d
    arbitrary: w and items' and ys
    rule: copy_json_value_copy_json_items_copy_json_list.induct)
  case (1 v path d)
  show ?case
  proof (cases "max_json_depth < d")
    case True
    then show ?thesis by (simp add: copy_json_value.simps)
  next
    case False
    with 1 show ?thesis
      by (cases v) (auto simp: copy_json_value.simps bind_result_eq_Inr)
  qed
next
  case (3 k v items path d)
  show ?case
  proof (cases k)
    case (KStr key)
    with 3 show ?thesis
      by (cases "is_sensitive_key key") (auto simp: bind_result_eq_Inr)
  qed simp
next
  case (5 x xs i path d)
  then show ?case by (auto simp: bind_result_eq_Inr)
qed auto

lemma copy_json_object_iff:
  "copy_json_object items path d = Inr items' \<longleftrightarrow>
     d \<le> max_json_depth \<and> items' = items \<and> clean_items items
       \<and> d + nesting_items items \<le> max_json_depth"
  by (auto simp: copy_json_object_def copy_json_iff)

subsection \<open>The encoder\<close>

text \<open>
  \<open>json.dumps(\<dots>, allow_nan=False, ensure_ascii=False, separators=(",", ":"), sort_keys=True)\<close>.
  \<open>None\<close> is a raised \<open>TypeError\<close> or \<open>ValueError\<close>; an integer beyond 4300 digits is one of them.
  The shortest decimal form of a float (\<open>float.__repr__\<close>) is the parameter \<open>frepr\<close>.
\<close>

fun digit_char :: "nat \<Rightarrow> char" where
  "digit_char d = char_of (48 + d)"

fun nat_digits :: "nat \<Rightarrow> string" where
  "nat_digits n = (if n < 10 then [digit_char n] else nat_digits (n div 10) @ [digit_char (n mod 10)])"

declare nat_digits.simps [simp del]

definition int_repr :: "int \<Rightarrow> string option" where
  "int_repr n =
     (let ds = nat_digits (nat \<bar>n\<bar>)
      in if 4300 < length ds then None else Some (if n < 0 then CHR ''-'' # ds else ds))"

definition hex_char :: "nat \<Rightarrow> char" where
  "hex_char d = (if d < 10 then char_of (48 + d) else char_of (87 + d))"

definition escape_char :: "char \<Rightarrow> string" where
  "escape_char c =
     (let n = (of_char c :: nat)
      in if c = CHR 0x22 then [CHR 0x5C, CHR 0x22]
         else if c = CHR 0x5C then [CHR 0x5C, CHR 0x5C]
         else if n = 10 then [CHR 0x5C, CHR ''n'']
         else if n = 13 then [CHR 0x5C, CHR ''r'']
         else if n = 9 then [CHR 0x5C, CHR ''t'']
         else if n = 12 then [CHR 0x5C, CHR ''f'']
         else if n = 8 then [CHR 0x5C, CHR ''b'']
         else if n < 32
              then CHR 0x5C # ''u00'' @ [hex_char (n div 16), hex_char (n mod 16)]
         else [c])"

definition encode_string :: "string \<Rightarrow> string" where
  "encode_string s = CHR 0x22 # concat (map escape_char s) @ [CHR 0x22]"

fun join_comma :: "string list \<Rightarrow> string" where
  "join_comma [] = []"
| "join_comma [x] = x"
| "join_comma (x # y # xs) = x @ CHR '','' # join_comma (y # xs)"

definition encode_members :: "(string \<times> string) list \<Rightarrow> string" where
  "encode_members ms =
     CHR ''{'' # join_comma (map (\<lambda>(k, t). encode_string k @ CHR '':'' # t) (sort_key fst ms))
       @ [CHR ''}'']"

fun json_dumps :: "(rat \<Rightarrow> string) \<Rightarrow> json \<Rightarrow> string option"
  and dump_items :: "(rat \<Rightarrow> string) \<Rightarrow> (doc_key \<times> json) list \<Rightarrow> (string \<times> string) list option"
  and dump_list :: "(rat \<Rightarrow> string) \<Rightarrow> json list \<Rightarrow> string list option"
where
  "json_dumps frepr JNull = Some ''null''"
| "json_dumps frepr (JBool b) = Some (if b then ''true'' else ''false'')"
| "json_dumps frepr (JInt n) = int_repr n"
| "json_dumps frepr (JFloat x) = (case x of Finite q \<Rightarrow> Some (frepr q) | _ \<Rightarrow> None)"
| "json_dumps frepr (JStr s) = Some (encode_string s)"
| "json_dumps frepr (JList xs) =
     map_option (\<lambda>ts. CHR ''['' # join_comma ts @ [CHR '']'']) (dump_list frepr xs)"
| "json_dumps frepr (JDict items) = map_option encode_members (dump_items frepr items)"
| "json_dumps frepr JOther = None"
| "dump_items frepr [] = Some []"
| "dump_items frepr ((k, v) # items) =
     (case (k, json_dumps frepr v, dump_items frepr items) of
        (KStr key, Some t, Some ms) \<Rightarrow> Some ((key, t) # ms)
      | _ \<Rightarrow> None)"
| "dump_list frepr [] = Some []"
| "dump_list frepr (x # xs) =
     (case (json_dumps frepr x, dump_list frepr xs) of
        (Some t, Some ts) \<Rightarrow> Some (t # ts)
      | _ \<Rightarrow> None)"

definition utf8_length :: "string \<Rightarrow> int" where
  "utf8_length s = sum_list (map (\<lambda>c. if (of_char c :: nat) < 128 then 1 else 2) s)"

definition validate_job_document ::
  "(rat \<Rightarrow> string) \<Rightarrow> (doc_key \<times> json) list \<Rightarrow> string \<Rightarrow> int \<Rightarrow> doc_error + (doc_key \<times> json) list"
where
  "validate_job_document frepr value field maximum_bytes =
     (if maximum_bytes < 2 then Inl BoundTooSmall
      else bind_result (copy_json_object value [Field field] 0) (\<lambda>normalized.
        case json_dumps frepr (JDict normalized) of
          None \<Rightarrow> Inl (DocumentError NotJson [Field field])
        | Some encoded \<Rightarrow>
            if maximum_bytes < utf8_length encoded
            then Inl (DocumentError (TooLarge maximum_bytes) [Field field])
            else Inr normalized))"

definition same_json_document ::
  "(rat \<Rightarrow> string) \<Rightarrow> (doc_key \<times> json) list \<Rightarrow> (doc_key \<times> json) list \<Rightarrow> bool" where
  "same_json_document frepr left right \<longleftrightarrow>
     json_dumps frepr (JDict left) = json_dumps frepr (JDict right)"

subsection \<open>Facts\<close>

lemma validate_job_document_iff:
  "validate_job_document frepr value field n = Inr doc \<longleftrightarrow>
     doc = value \<and> 2 \<le> n \<and> clean_items value \<and> nesting_items value \<le> max_json_depth
     \<and> (\<exists>t. json_dumps frepr (JDict value) = Some t \<and> utf8_length t \<le> n)"
  by (auto simp: validate_job_document_def bind_result_eq_Inr copy_json_object_iff
      split: option.splits)

lemma same_json_document_refl [simp]: "same_json_document frepr d d"
  by (simp add: same_json_document_def)

text \<open>
  The words that make a normalised key sensitive, each delimited by an underscore or by the ends of
  the key.
\<close>

definition credential_words :: "string list" where
  "credential_words =
     [p @ u @ ''token''. p \<leftarrow> [[], ''access'', ''auth'', ''refresh''], u \<leftarrow> [[], ''_'']]
     @ [''api_key'', ''authorization'', ''cookie'', ''password'', ''passwd'', ''secret'',
        ''credential'']"

definition key_boundary :: "string \<Rightarrow> bool" where
  "key_boundary v \<longleftrightarrow> v = [] \<or> v = [CHR 0x0A] \<or> (\<exists>v'. v = CHR ''_'' # v')"

definition boundary_rx :: rx where
  "boundary_rx = Alt Eol (Lit ''_'')"

lemma boundary_run: "rx_run boundary_rx b v \<noteq> [] \<longleftrightarrow> key_boundary v"
  unfolding run_nonempty boundary_rx_def in_run key_boundary_def by auto

lemma prefix_run:
  assumes "\<And>b v. rx_run X b v \<noteq> [] \<longleftrightarrow> Q v"
  shows "rx_run (Cat (Alt Bol (Lit ''_'')) X) b s \<noteq> [] \<longleftrightarrow>
     (b \<and> Q s) \<or> (\<exists>v. s = ''_'' @ v \<and> Q v)"
proof -
  have "rx_run (Cat (Alt Bol (Lit ''_'')) X) b s \<noteq> [] \<longleftrightarrow>
      (\<exists>b1 s1. (b1, s1) \<in> set (rx_run (Alt Bol (Lit ''_'')) b s) \<and> rx_run X b1 s1 \<noteq> [])"
    unfolding run_nonempty in_run_Cat by blast
  also have "\<dots> \<longleftrightarrow> (b \<and> Q s) \<or> (\<exists>v. s = ''_'' @ v \<and> Q v)"
    unfolding assms in_run by auto
  finally show ?thesis .
qed

lemma word_chain:
  "(\<exists>w v. w \<in> A \<and> s = w @ v \<and>
      (\<exists>w v'. w \<in> B \<and> v = w @ v' \<and> (\<exists>w v''. w \<in> {t} \<and> v' = w @ v'' \<and> K v'')))
   \<longleftrightarrow> (\<exists>w v. w \<in> {p @ u @ t |p u. p \<in> A \<and> u \<in> B} \<and> s = w @ v \<and> K v)"
  apply auto
   apply (metis append_assoc)
  apply blast
  done

lemma set_products: "set [p @ u @ t. p \<leftarrow> ps, u \<leftarrow> us] = {p @ u @ t |p u. p \<in> set ps \<and> u \<in> set us}"
  by auto

definition token_words :: "string set" where
  "token_words =
     {p @ u @ ''token'' |p u.
        p \<in> insert [] ({''access''} \<union> ({''auth''} \<union> {''refresh''})) \<and> u \<in> insert [] {''_''}}"

definition secret_words :: "string set" where
  "secret_words = {''api_key''} \<union> ({''authorization''} \<union> ({''cookie''} \<union> ({''password''}
     \<union> ({''passwd''} \<union> ({''secret''} \<union> {''credential''})))))"

lemma set_credential_words: "set credential_words = token_words \<union> secret_words"
  unfolding credential_words_def token_words_def secret_words_def set_append set_products
  by (simp add: insert_commute)

lemma token_run:
  "rx_run (Cat (Opt (Alt (Lit ''access'') (Alt (Lit ''auth'') (Lit ''refresh''))))
       (Cat (Opt (Lit ''_'')) (Cat (Lit ''token'') boundary_rx))) b s \<noteq> [] \<longleftrightarrow>
     (\<exists>w v. w \<in> token_words \<and> s = w @ v \<and> key_boundary v)"
  unfolding token_words_def word_chain [symmetric]
  by (intro run_Cat_iff accepts_Opt accepts_Alt accepts_Lit boundary_run)

lemma secret_run:
  "rx_run (Cat (Alt (Lit ''api_key'') (Alt (Lit ''authorization'') (Alt (Lit ''cookie'')
       (Alt (Lit ''password'') (Alt (Lit ''passwd'') (Alt (Lit ''secret'') (Lit ''credential'')))))))
     boundary_rx) b s \<noteq> [] \<longleftrightarrow>
     (\<exists>w v. w \<in> secret_words \<and> s = w @ v \<and> key_boundary v)"
  unfolding secret_words_def
  by (intro run_Cat_iff accepts_Alt accepts_Lit boundary_run)

lemma sensitive_run:
  "rx_run sensitive_key_rx b s \<noteq> [] \<longleftrightarrow>
     (\<exists>p w v. s = p @ w @ v \<and> w \<in> set credential_words \<and> key_boundary v
        \<and> (b \<and> p = [] \<or> p = ''_''))"
proof -
  have "rx_run sensitive_key_rx b s \<noteq> [] \<longleftrightarrow>
      ((b \<and> (\<exists>w v. w \<in> token_words \<and> s = w @ v \<and> key_boundary v))
        \<or> (\<exists>v. s = ''_'' @ v \<and> (\<exists>w x. w \<in> token_words \<and> v = w @ x \<and> key_boundary x)))
      \<or> ((b \<and> (\<exists>w v. w \<in> secret_words \<and> s = w @ v \<and> key_boundary v))
        \<or> (\<exists>v. s = ''_'' @ v \<and> (\<exists>w x. w \<in> secret_words \<and> v = w @ x \<and> key_boundary x)))"
    unfolding sensitive_key_rx_def boundary_rx_def [symmetric] rx_run.simps(4) append_is_Nil_conv
      de_Morgan_conj prefix_run [OF token_run] prefix_run [OF secret_run] ..
  also have "\<dots> \<longleftrightarrow> (\<exists>p w v. s = p @ w @ v \<and> w \<in> set credential_words \<and> key_boundary v
        \<and> (b \<and> p = [] \<or> p = ''_''))"
    unfolding set_credential_words by (auto simp del: append_Cons; blast)
  finally show ?thesis .
qed

text \<open>Sensitive keys are those whose normal form contains a delimited credential word.\<close>

lemma is_sensitive_key_iff:
  "is_sensitive_key key \<longleftrightarrow>
     (\<exists>p w v. normalize_doc_key key = p @ w @ v \<and> w \<in> set credential_words
        \<and> (p = [] \<or> last p = CHR ''_'') \<and> key_boundary v)"
proof -
  have "is_sensitive_key key \<longleftrightarrow>
      (\<exists>u p w v. normalize_doc_key key = (u @ p) @ w @ v \<and> w \<in> set credential_words
        \<and> key_boundary v \<and> (u = [] \<and> p = [] \<or> p = ''_''))"
    unfolding is_sensitive_key_def rx_search_iff sensitive_run append_assoc by blast
  also have "\<dots> \<longleftrightarrow> (\<exists>p w v. normalize_doc_key key = p @ w @ v \<and> w \<in> set credential_words
        \<and> (p = [] \<or> last p = CHR ''_'') \<and> key_boundary v)"
    (is "?L \<longleftrightarrow> ?R")
  proof
    assume ?L
    then obtain u p w v where *: "normalize_doc_key key = (u @ p) @ w @ v"
      "w \<in> set credential_words" "key_boundary v" "u = [] \<and> p = [] \<or> p = ''_''" by blast
    then have "u @ p = [] \<or> last (u @ p) = CHR ''_''" by auto
    with * show ?R by blast
  next
    assume ?R
    then obtain p w v where *: "normalize_doc_key key = p @ w @ v" "w \<in> set credential_words"
      "p = [] \<or> last p = CHR ''_''" "key_boundary v" by blast
    show ?L
    proof (cases "p = []")
      case True
      with * have "normalize_doc_key key = ([] @ []) @ w @ v" by simp
      with * show ?thesis by blast
    next
      case False
      with * have "p = butlast p @ ''_''" by (metis append_butlast_last_id)
      with * have "normalize_doc_key key = (butlast p @ ''_'') @ w @ v" by simp
      with * show ?thesis by blast
    qed
  qed
  finally show ?thesis .
qed

subsection \<open>The encoding does not depend on the order of the members\<close>

definition dump_member :: "(rat \<Rightarrow> string) \<Rightarrow> doc_key \<times> json \<Rightarrow> (string \<times> string) option" where
  "dump_member frepr = (\<lambda>(k, v).
     case (k, json_dumps frepr v) of (KStr key, Some t) \<Rightarrow> Some (key, t) | _ \<Rightarrow> None)"

lemma dump_items_eq:
  "dump_items frepr items =
     (if \<exists>i \<in> set items. dump_member frepr i = None then None
      else Some (map (\<lambda>i. the (dump_member frepr i)) items))"
  by (induction items)
     (auto simp: dump_member_def split: doc_key.splits option.splits prod.splits)

lemma encode_members_permute:
  assumes "mset ms = mset ms'" and "distinct (map fst ms)"
  shows "encode_members ms = encode_members ms'"
proof -
  have "inj_on fst (set ms)" using assms(2) by (simp add: distinct_map)
  then have "sort_key fst ms = sort_key fst ms'"
    using assms(1) by (intro sort_key_inj_key_eq) simp_all
  then show ?thesis by (simp add: encode_members_def)
qed

lemma same_json_document_permute:
  assumes "mset left = mset right" and "distinct (map fst left)"
  shows "same_json_document frepr left right"
proof (cases "\<exists>i \<in> set left. dump_member frepr i = None")
  case True
  moreover have "set left = set right" using assms(1) by (rule mset_eq_setD)
  ultimately show ?thesis by (simp add: same_json_document_def dump_items_eq)
next
  case False
  have sets: "set left = set right" using assms(1) by (rule mset_eq_setD)
  let ?f = "\<lambda>i. the (dump_member frepr i)"
  have member: "dump_member frepr i = Some m \<Longrightarrow> KStr (fst m) = fst i" for i m
    by (auto simp: dump_member_def split: prod.splits doc_key.splits option.splits)
  have keys: "KStr (fst (?f i)) = fst i" if "i \<in> set left" for i
  proof -
    from that False obtain m where "dump_member frepr i = Some m"
      by (cases "dump_member frepr i") auto
    then show ?thesis by (simp add: member)
  qed
  then have kept: "map (KStr \<circ> fst) (map ?f left) = map fst left" by simp
  have "distinct (map (KStr \<circ> fst) (map ?f left))" unfolding kept by (rule assms(2))
  then have "distinct (map fst (map ?f left))"
    by (auto simp: distinct_map inj_on_def)
  moreover have "mset (map ?f left) = mset (map ?f right)" using assms(1) by simp
  ultimately have "encode_members (map ?f left) = encode_members (map ?f right)"
    by (intro encode_members_permute)
  with False sets show ?thesis by (simp add: same_json_document_def dump_items_eq)
qed

end
