(* ===== verification/Jobs_Domain.thy ===== *)
theory Jobs_Domain
  imports Job_Documents "HOL-Library.Word"
begin

text \<open>
  The values of \<open>server/src/autplay/domain/jobs.py\<close>: job states and outcomes, handler keys, lease
  fences, leases, the retry policy and structured errors, each with the checks its constructor runs.
\<close>

subsection \<open>States and outcomes\<close>

datatype job_state =
  QUEUED | RUNNING | RETRY_WAIT | PAUSED | COMPLETED | FAILED | CANCELLED

definition is_terminal :: "job_state \<Rightarrow> bool" where
  "is_terminal s \<longleftrightarrow> s \<in> {COMPLETED, FAILED, CANCELLED}"

lemma is_terminal_simps [simp]:
  "is_terminal COMPLETED" "is_terminal FAILED" "is_terminal CANCELLED"
  "\<not> is_terminal QUEUED" "\<not> is_terminal RUNNING" "\<not> is_terminal RETRY_WAIT"
  "\<not> is_terminal PAUSED"
  by (simp_all add: is_terminal_def)

datatype attempt_outcome =
    AttemptSuccess | RetryableError | TerminalError | LeaseExpired | ResourceWait | AttemptCancelled

datatype lease_transition = Applied | LeaseCancelled | LostLease

datatype cancel_result = CancelRequested | CancelledNow | AlreadyTerminal | JobNotFound

datatype resource_wait_transition = Granted | Recheck | Deferred | WaitCancelled | WaitLostLease

subsection \<open>Exceptions\<close>

text \<open>
  What the job code raises. \<open>IntegrityError\<close> is PostgreSQL's answer to a statement that breaks a
  constraint, with the constraint's name; any exception rolls the transaction back.
\<close>

datatype job_exn =
    ValueError string
  | JobDocumentError doc_error
  | PersistenceInvariant string
  | IdempotencyConflict
  | IntegrityError string
  | RuntimeError string

definition max_job_type_length :: int where "max_job_type_length = 200"
definition max_worker_id_length :: int where "max_worker_id_length = 300"
definition max_error_code_length :: int where "max_error_code_length = 200"

abbreviation len :: "'a list \<Rightarrow> int" where
  "len xs \<equiv> int (length xs)"

definition require_bounded_text :: "string \<Rightarrow> string \<Rightarrow> int \<Rightarrow> job_exn + unit" where
  "require_bounded_text value field maximum =
     require (1 \<le> len value \<and> len value \<le> maximum) (ValueError field)"

text \<open>A \<open>datetime\<close>: an instant with a time zone, or a naive one, which names no instant.\<close>

datatype py_datetime = Aware instant | Naive instant

definition require_aware :: "py_datetime \<Rightarrow> string \<Rightarrow> job_exn + unit" where
  "require_aware t field =
     (case t of Aware _ \<Rightarrow> Inr () | Naive _ \<Rightarrow> Inl (ValueError field))"

definition require_aware_option :: "py_datetime option \<Rightarrow> string \<Rightarrow> job_exn + unit" where
  "require_aware_option t field = (case t of None \<Rightarrow> Inr () | Some x \<Rightarrow> require_aware x field)"

subsection \<open>Keys, fences and leases\<close>

record job_key =
  jk_type :: string
  jk_version :: int

definition make_job_key :: "string \<Rightarrow> int \<Rightarrow> job_exn + job_key" where
  "make_job_key ty v =
     bind_result (require_bounded_text ty ''job_type'' max_job_type_length) (\<lambda>_.
     if v < 1 then Inl (ValueError ''schema_version'')
     else Inr \<lparr>jk_type = ty, jk_version = v\<rparr>)"

record lease_fence =
  lf_job :: uuid
  lf_worker :: string
  lf_attempt :: int

definition make_lease_fence :: "uuid \<Rightarrow> string \<Rightarrow> int \<Rightarrow> job_exn + lease_fence" where
  "make_lease_fence job worker attempt =
     bind_result (require_bounded_text worker ''worker_id'' max_worker_id_length) (\<lambda>_.
     if attempt < 1 then Inl (ValueError ''attempt_no'')
     else Inr \<lparr>lf_job = job, lf_worker = worker, lf_attempt = attempt\<rparr>)"

type_synonym document = "(doc_key \<times> json) list"

record job_lease =
  jl_fence :: lease_fence
  jl_key :: job_key
  jl_user :: "uuid option"
  jl_priority :: int
  jl_payload :: document
  jl_checkpoint :: "document option"
  jl_deadline :: py_datetime
  jl_cancel_requested_at :: "py_datetime option"
  jl_wait_count :: int

text \<open>\<open>JobLease.__post_init__\<close> on a candidate lease.\<close>

definition check_job_lease :: "job_lease \<Rightarrow> job_exn + job_lease" where
  "check_job_lease l =
     (if \<not> (0 \<le> jl_wait_count l \<and> jl_wait_count l < lf_attempt (jl_fence l))
      then Inl (ValueError ''resource_wait_count'')
      else if \<not> (0 \<le> jl_priority l \<and> jl_priority l \<le> 4) then Inl (ValueError ''priority'')
      else bind_result (require_aware (jl_deadline l) ''lease_deadline'') (\<lambda>_.
           bind_result (require_aware_option (jl_cancel_requested_at l) ''cancel_requested_at'') (\<lambda>_.
           Inr l)))"

definition retry_attempt_no :: "job_lease \<Rightarrow> int" where
  "retry_attempt_no l = lf_attempt (jl_fence l) - jl_wait_count l"

record heartbeat_info =
  hb_deadline :: py_datetime
  hb_cancel_requested_at :: "py_datetime option"

definition make_heartbeat :: "py_datetime \<Rightarrow> py_datetime option \<Rightarrow> job_exn + heartbeat_info" where
  "make_heartbeat deadline cancel =
     bind_result (require_aware deadline ''lease_deadline'') (\<lambda>_.
     bind_result (require_aware_option cancel ''cancel_requested_at'') (\<lambda>_.
     Inr \<lparr>hb_deadline = deadline, hb_cancel_requested_at = cancel\<rparr>))"

definition heartbeat_cancel_requested :: "heartbeat_info \<Rightarrow> bool" where
  "heartbeat_cancel_requested h \<longleftrightarrow> hb_cancel_requested_at h \<noteq> None"

record checkpoint_saved =
  cs_cancel_requested_at :: "py_datetime option"

definition make_checkpoint_saved :: "py_datetime option \<Rightarrow> job_exn + checkpoint_saved" where
  "make_checkpoint_saved cancel =
     bind_result (require_aware_option cancel ''cancel_requested_at'') (\<lambda>_.
     Inr \<lparr>cs_cancel_requested_at = cancel\<rparr>)"

definition checkpoint_cancel_requested :: "checkpoint_saved \<Rightarrow> bool" where
  "checkpoint_cancel_requested c \<longleftrightarrow> cs_cancel_requested_at c \<noteq> None"

subsection \<open>The retry policy\<close>

record retry_policy =
  max_attempts :: int
  base_delay :: duration
  max_delay :: duration
  jitter_ratio :: pyfloat

definition make_retry_policy ::
  "int \<Rightarrow> duration \<Rightarrow> duration \<Rightarrow> pyfloat \<Rightarrow> job_exn + retry_policy" where
  "make_retry_policy attempts base maximum jitter =
     (if \<not> (1 \<le> attempts \<and> attempts \<le> 100) then Inl (ValueError ''max_attempts'')
      else if base \<le> 0 then Inl (ValueError ''base_delay'')
      else if maximum < base then Inl (ValueError ''max_delay'')
      else if days 1 < maximum then Inl (ValueError ''max_delay'')
      else case jitter of
          Finite j \<Rightarrow>
            if 0 \<le> j \<and> j \<le> 1
            then Inr \<lparr>max_attempts = attempts, base_delay = base, max_delay = maximum,
                      jitter_ratio = jitter\<rparr>
            else Inl (ValueError ''jitter_ratio'')
        | _ \<Rightarrow> Inl (ValueError ''jitter_ratio''))"

text \<open>The defaults of the dataclass.\<close>

definition default_retry_policy :: retry_policy where
  "default_retry_policy =
     \<lparr>max_attempts = 5, base_delay = seconds 2, max_delay = minutes 5,
      jitter_ratio = Finite (1 / 4)\<rparr>"

text \<open>A policy the constructor accepts.\<close>

definition policy_ok :: "retry_policy \<Rightarrow> bool" where
  "policy_ok p \<longleftrightarrow>
     1 \<le> max_attempts p \<and> max_attempts p \<le> 100 \<and> 0 < base_delay p \<and> base_delay p \<le> max_delay p
     \<and> max_delay p \<le> days 1
     \<and> (case jitter_ratio p of Finite j \<Rightarrow> 0 \<le> j \<and> j \<le> 1 | _ \<Rightarrow> False)"

lemma make_retry_policy_iff:
  "make_retry_policy a b m j = Inr p \<longleftrightarrow>
     policy_ok p \<and> p = \<lparr>max_attempts = a, base_delay = b, max_delay = m, jitter_ratio = j\<rparr>"
  by (auto simp: make_retry_policy_def policy_ok_def split: pyfloat.splits if_splits)

lemma default_retry_policy_ok: "policy_ok default_retry_policy"
  by (simp add: policy_ok_def default_retry_policy_def)

text \<open>\<open>int.to_bytes(n, "big")\<close>, which raises \<open>OverflowError\<close> beyond its width, and
  \<open>int.from_bytes(\<dots>, "big")\<close>.\<close>

fun be_bytes :: "nat \<Rightarrow> nat \<Rightarrow> 8 word list" where
  "be_bytes 0 n = []"
| "be_bytes (Suc k) n = be_bytes k (n div 256) @ [of_nat (n mod 256)]"

fun be_value :: "8 word list \<Rightarrow> nat" where
  "be_value [] = 0"
| "be_value (b # bs) = unat b * 256 ^ length bs + be_value bs"

lemma be_value_bound: "be_value bs < 256 ^ length bs"
proof (induction bs)
  case (Cons b bs)
  have "unat b \<le> 255" using unsigned_less [of b, where ?'a = nat] by simp
  then have "unat b * 256 ^ length bs \<le> 255 * 256 ^ length bs" by (rule mult_le_mono1)
  moreover have "be_value bs < 256 ^ length bs" by (rule Cons.IH)
  ultimately have "unat b * 256 ^ length bs + be_value bs < 255 * 256 ^ length bs + 256 ^ length bs"
    by linarith
  then show ?case by simp
qed simp

text \<open>
  \<open>RetryPolicy.delay_for\<close>. The digest is \<open>hashlib.sha256\<close>, the parameter \<open>sha256\<close>; the
  arithmetic on floats is done on rationals and rounded once, to microseconds, as \<open>timedelta\<close> does.
\<close>

definition delay_for ::
  "(8 word list \<Rightarrow> 8 word list) \<Rightarrow> retry_policy \<Rightarrow> uuid \<Rightarrow> int \<Rightarrow> job_exn + duration" where
  "delay_for sha256 p job_id attempt_no =
     (if attempt_no < 1 then Inl (ValueError ''attempt_no'')
      else if 2 ^ 64 \<le> attempt_no then Inl (ValueError ''to_bytes'')
      else case jitter_ratio p of
          Finite j \<Rightarrow>
            let exponent = nat (min (attempt_no - 1) 62);
                cap = min (max_delay p) (base_delay p * 2 ^ exponent);
                digest = sha256 (be_bytes 16 job_id @ be_bytes 8 (nat attempt_no));
                unit = of_nat (be_value (take 8 digest)) / (2 ^ 64 - 1);
                factor = (1 - j) + j * unit
            in Inr (py_round (of_int cap * factor))
        | _ \<Rightarrow> Inl (ValueError ''jitter_ratio''))"

definition delay_cap :: "retry_policy \<Rightarrow> int \<Rightarrow> duration" where
  "delay_cap p attempt_no =
     min (max_delay p) (base_delay p * 2 ^ nat (min (attempt_no - 1) 62))"

lemma delay_cap_bounds:
  assumes "policy_ok p" and "1 \<le> n"
  shows "base_delay p \<le> delay_cap p n" and "delay_cap p n \<le> max_delay p"
proof -
  have "base_delay p * 1 \<le> base_delay p * 2 ^ nat (min (n - 1) 62)"
    using assms by (intro mult_left_mono) (auto simp: policy_ok_def)
  with assms show "base_delay p \<le> delay_cap p n"
    by (simp add: delay_cap_def policy_ok_def)
qed (simp add: delay_cap_def)

lemma delay_cap_mono:
  assumes "policy_ok p" and "m \<le> n"
  shows "delay_cap p m \<le> delay_cap p n"
proof -
  have "(2::int) ^ nat (min (m - 1) 62) \<le> 2 ^ nat (min (n - 1) 62)"
    using assms(2) by (intro power_increasing) auto
  then have "base_delay p * 2 ^ nat (min (m - 1) 62) \<le> base_delay p * 2 ^ nat (min (n - 1) 62)"
    using assms(1) by (intro mult_left_mono) (auto simp: policy_ok_def)
  then show ?thesis by (simp add: delay_cap_def)
qed

text \<open>The jitter factor lies between \<open>1 - jitter_ratio\<close> and one.\<close>

lemma jitter_factor_bounds:
  fixes j unit :: rat
  assumes "0 \<le> j" "j \<le> 1" "0 \<le> unit" "unit \<le> 1"
  shows "1 - j \<le> (1 - j) + j * unit" and "(1 - j) + j * unit \<le> 1" and "0 \<le> (1 - j) + j * unit"
  using assms mult_left_le [of unit j] by auto

lemma digest_unit_bounds:
  "0 \<le> (of_nat (be_value (take 8 d)) / (2 ^ 64 - 1) :: rat)"
  "(of_nat (be_value (take 8 d)) / (2 ^ 64 - 1) :: rat) \<le> 1"
proof -
  have "be_value (take 8 d) < 256 ^ length (take 8 d)" by (rule be_value_bound)
  also have "\<dots> \<le> (256::nat) ^ 8" by (intro power_increasing) auto
  finally have "be_value (take 8 d) \<le> 2 ^ 64 - 1" by simp
  then have "(of_nat (be_value (take 8 d)) :: rat) \<le> of_nat (2 ^ 64 - 1)"
    by (simp only: of_nat_le_iff)
  then show "(of_nat (be_value (take 8 d)) / (2 ^ 64 - 1) :: rat) \<le> 1" by simp
qed simp

lemma delay_for_eq:
  assumes "policy_ok p" and "1 \<le> n" and "n < 2 ^ 64"
  obtains j f where "jitter_ratio p = Finite j" and "1 - j \<le> f" and "0 \<le> f" and "f \<le> 1"
    and "delay_for sha256 p job n = Inr (py_round (of_int (delay_cap p n) * f))"
proof -
  from assms(1) obtain j where j: "jitter_ratio p = Finite j" "0 \<le> j" "j \<le> 1"
    by (auto simp: policy_ok_def split: pyfloat.splits)
  let ?u = "of_nat (be_value (take 8 (sha256 (be_bytes 16 job @ be_bytes 8 (nat n))))) / (2 ^ 64 - 1) :: rat"
  have "delay_for sha256 p job n = Inr (py_round (of_int (delay_cap p n) * ((1 - j) + j * ?u)))"
    using assms(2,3) j(1) by (simp add: delay_for_def delay_cap_def Let_def)
  with that [OF j(1)] jitter_factor_bounds [OF j(2,3) digest_unit_bounds] show thesis by blast
qed

text \<open>A retry waits for a non-negative time, never longer than the policy's longest delay.\<close>

lemma delay_for_bounds:
  assumes "policy_ok p" and "1 \<le> n" and "n < 2 ^ 64"
  obtains d where "delay_for sha256 p job n = Inr d" and "0 \<le> d" and "d \<le> delay_cap p n"
    and "d \<le> max_delay p"
proof -
  from delay_for_eq [OF assms, of sha256 job] obtain f where f: "0 \<le> f" "f \<le> 1"
    "delay_for sha256 p job n = Inr (py_round (of_int (delay_cap p n) * f))" by metis
  have "0 < base_delay p" using assms(1) by (simp add: policy_ok_def)
  then have pos: "0 \<le> delay_cap p n" using delay_cap_bounds(1) [OF assms(1,2)] by linarith
  have "0 \<le> of_int (delay_cap p n) * f" using pos f(1) by simp
  then have low: "0 \<le> py_round (of_int (delay_cap p n) * f)" using py_round_ge [of 0] by simp
  have "of_int (delay_cap p n) * f \<le> of_int (delay_cap p n)" using pos f by (simp add: mult_left_le)
  then have "py_round (of_int (delay_cap p n) * f) \<le> delay_cap p n" by (rule py_round_le)
  with that low f(3) delay_cap_bounds(2) [OF assms(1,2)] show thesis by fastforce
qed

subsection \<open>Structured errors\<close>

record job_error =
  je_code :: string
  je_detail :: document

text \<open>\<open>_ERROR_CODE\<close>: a lower-case letter or digit, then letters, digits, underscore, dot, hyphen.\<close>

definition error_code_rx :: rx where
  "error_code_rx =
     Cat (Cls (\<lambda>c. is_lower c \<or> is_digit c))
         (Star (\<lambda>c. is_lower c \<or> is_digit c \<or> c = CHR ''_'' \<or> c = CHR ''.'' \<or> c = CHR ''-''))"

definition validate_error_code :: "string \<Rightarrow> job_exn + unit" where
  "validate_error_code code =
     require (1 \<le> len code \<and> len code \<le> max_error_code_length \<and> rx_fullmatch error_code_rx code)
       (ValueError ''error_code'')"

definition lift_document :: "doc_error + 'a \<Rightarrow> job_exn + 'a" where
  "lift_document r = (case r of Inl e \<Rightarrow> Inl (JobDocumentError e) | Inr x \<Rightarrow> Inr x)"

lemma lift_document_iff [simp]: "lift_document r = Inr x \<longleftrightarrow> r = Inr x"
  by (simp add: lift_document_def split: sum.splits)

definition make_job_error :: "(rat \<Rightarrow> string) \<Rightarrow> string \<Rightarrow> document \<Rightarrow> job_exn + job_error" where
  "make_job_error frepr code detail =
     bind_result (validate_error_code code) (\<lambda>_.
     bind_result (lift_document (validate_job_document frepr detail ''error_detail''
       max_error_detail_bytes)) (\<lambda>normalized.
     Inr \<lparr>je_code = code, je_detail = normalized\<rparr>))"

definition error_ok :: "(rat \<Rightarrow> string) \<Rightarrow> job_error \<Rightarrow> bool" where
  "error_ok frepr e \<longleftrightarrow> make_job_error frepr (je_code e) (je_detail e) = Inr e"

lemma error_ok_code: "error_ok frepr e \<Longrightarrow> 1 \<le> len (je_code e) \<and> len (je_code e) \<le> 200"
  by (auto simp: error_ok_def make_job_error_def validate_error_code_def bind_result_eq_Inr
      max_error_code_length_def)

end
