(* ===== verification/Jobs_Tables.thy ===== *)
theory Jobs_Tables
  imports Jobs_Domain
begin

text \<open>
  The tables of the \<open>jobs\<close> schema, \<open>server/src/autplay/adapters/postgresql/models/jobs.py\<close>: one
  record per row class, its column defaults, and its \<open>CHECK\<close> constraints as a predicate. A
  \<open>jsonb\<close> column holds a document; \<open>None\<close> stands for SQL \<open>NULL\<close> and for the JSON \<open>null\<close> that
  SQLAlchemy writes for \<open>None\<close>, which read back alike. Integer columns are not bounded here.
\<close>

subsection \<open>jobs.job\<close>

record job_row =
  jr_id :: uuid
  jr_type :: string
  jr_version :: int
  jr_user :: "uuid option"
  jr_priority :: int
  jr_state :: job_state
  jr_scope :: "string option"
  jr_key :: "string option"
  jr_payload :: document
  jr_checkpoint :: "document option"
  jr_progress_current :: "int option"
  jr_progress_total :: "int option"
  jr_attempts :: int
  jr_waits :: int
  jr_waiting :: bool
  jr_wake_until :: "instant option"
  jr_scheduled_at :: instant
  jr_lease_owner :: "string option"
  jr_lease_deadline :: "instant option"
  jr_heartbeat_at :: "instant option"
  jr_cancel_at :: "instant option"
  jr_started_at :: "instant option"
  jr_completed_at :: "instant option"
  jr_error_code :: "string option"
  jr_error_detail :: "document option"
  jr_created_at :: instant
  jr_updated_at :: instant
  jr_row_version :: int

definition job_row_checks :: "job_row \<Rightarrow> bool" where
  "job_row_checks r \<longleftrightarrow>
     (1 \<le> len (jr_type r) \<and> len (jr_type r) \<le> 200)
     \<and> 1 \<le> jr_version r
     \<and> (0 \<le> jr_priority r \<and> jr_priority r \<le> 4)
     \<and> (case jr_progress_current r of None \<Rightarrow> True | Some c \<Rightarrow> 0 \<le> c)
     \<and> (case jr_progress_total r of None \<Rightarrow> True | Some t \<Rightarrow> 0 \<le> t)
     \<and> 0 \<le> jr_attempts r
     \<and> (0 \<le> jr_waits r \<and> jr_waits r \<le> jr_attempts r)
     \<and> (jr_waiting r \<longrightarrow> jr_state r = RETRY_WAIT)
     \<and> (jr_wake_until r \<noteq> None \<longrightarrow> jr_waiting r)
     \<and> 1 \<le> jr_row_version r
     \<and> (jr_scope r = None \<longleftrightarrow> jr_key r = None)
     \<and> (case (jr_progress_current r, jr_progress_total r) of
          (Some c, Some t) \<Rightarrow> c \<le> t | _ \<Rightarrow> True)
     \<and> (jr_state r = RUNNING
        \<or> jr_lease_owner r = None \<and> jr_lease_deadline r = None \<and> jr_heartbeat_at r = None)"

text \<open>
  The trigger \<open>app_private.bump_row_version\<close>, which runs before every \<open>UPDATE\<close> of \<open>jobs.job\<close>.
\<close>

definition bump_row_version :: "instant \<Rightarrow> job_row \<Rightarrow> job_row" where
  "bump_row_version clock r =
     r\<lparr>jr_updated_at := clock, jr_row_version := jr_row_version r + 1\<rparr>"

text \<open>\<open>UPDATE jobs.job SET f WHERE P\<close> with the trigger.\<close>

definition update_jobs ::
  "instant \<Rightarrow> (job_row \<Rightarrow> bool) \<Rightarrow> (job_row \<Rightarrow> job_row) \<Rightarrow> job_row list \<Rightarrow> job_row list" where
  "update_jobs clock P f = update_rows P (\<lambda>r. bump_row_version clock (f r))"

subsection \<open>jobs.job_attempt\<close>

record attempt_row =
  ja_id :: uuid
  ja_job :: uuid
  ja_no :: int
  ja_worker :: string
  ja_started_at :: instant
  ja_finished_at :: "instant option"
  ja_outcome :: "attempt_outcome option"
  ja_error_code :: "string option"
  ja_metrics :: document

definition attempt_row_checks :: "attempt_row \<Rightarrow> bool" where
  "attempt_row_checks a \<longleftrightarrow>
     1 \<le> ja_no a
     \<and> (1 \<le> len (ja_worker a) \<and> len (ja_worker a) \<le> 300)
     \<and> (case ja_finished_at a of None \<Rightarrow> True | Some t \<Rightarrow> ja_started_at a \<le> t)"

subsection \<open>jobs.job_dependency\<close>

datatype dependency_policy = RequireSuccess | RequireTerminal

record dependency_row =
  jd_job :: uuid
  jd_on :: uuid
  jd_policy :: dependency_policy

definition dependency_row_checks :: "dependency_row \<Rightarrow> bool" where
  "dependency_row_checks d \<longleftrightarrow> jd_job d \<noteq> jd_on d"

subsection \<open>The schema\<close>

record jobs_db =
  db_jobs :: "job_row list"
  db_attempts :: "attempt_row list"
  db_dependencies :: "dependency_row list"

text \<open>
  The declared keys: primary keys, \<open>uq_job_attempt_number\<close>, the partial unique index
  \<open>uq_job_idempotency\<close> and the foreign key of the attempts.
\<close>

definition job_idempotency :: "job_row \<Rightarrow> (string option \<times> string) option" where
  "job_idempotency r = (case jr_key r of None \<Rightarrow> None | Some k \<Rightarrow> Some (jr_scope r, k))"

definition schema_ok :: "jobs_db \<Rightarrow> bool" where
  "schema_ok db \<longleftrightarrow>
     distinct (map jr_id (db_jobs db))
     \<and> distinct (map job_idempotency (filter (\<lambda>r. jr_key r \<noteq> None) (db_jobs db)))
     \<and> distinct (map ja_id (db_attempts db))
     \<and> distinct (map (\<lambda>a. (ja_job a, ja_no a)) (db_attempts db))
     \<and> list_all job_row_checks (db_jobs db)
     \<and> list_all attempt_row_checks (db_attempts db)
     \<and> list_all dependency_row_checks (db_dependencies db)
     \<and> ja_job ` set (db_attempts db) \<subseteq> jr_id ` set (db_jobs db)"

definition empty_jobs_db :: jobs_db where
  "empty_jobs_db = \<lparr>db_jobs = [], db_attempts = [], db_dependencies = []\<rparr>"

subsection \<open>Reading rows\<close>

definition find_job :: "jobs_db \<Rightarrow> uuid \<Rightarrow> job_row option" where
  "find_job db j = find (\<lambda>r. jr_id r = j) (db_jobs db)"

definition attempts_of :: "jobs_db \<Rightarrow> uuid \<Rightarrow> attempt_row list" where
  "attempts_of db j = filter (\<lambda>a. ja_job a = j) (db_attempts db)"

lemma bump_row_version_simps [simp]:
  "jr_id (bump_row_version c r) = jr_id r"
  "jr_type (bump_row_version c r) = jr_type r"
  "jr_version (bump_row_version c r) = jr_version r"
  "jr_user (bump_row_version c r) = jr_user r"
  "jr_priority (bump_row_version c r) = jr_priority r"
  "jr_state (bump_row_version c r) = jr_state r"
  "jr_scope (bump_row_version c r) = jr_scope r"
  "jr_key (bump_row_version c r) = jr_key r"
  "jr_payload (bump_row_version c r) = jr_payload r"
  "jr_checkpoint (bump_row_version c r) = jr_checkpoint r"
  "jr_progress_current (bump_row_version c r) = jr_progress_current r"
  "jr_progress_total (bump_row_version c r) = jr_progress_total r"
  "jr_attempts (bump_row_version c r) = jr_attempts r"
  "jr_waits (bump_row_version c r) = jr_waits r"
  "jr_waiting (bump_row_version c r) = jr_waiting r"
  "jr_wake_until (bump_row_version c r) = jr_wake_until r"
  "jr_scheduled_at (bump_row_version c r) = jr_scheduled_at r"
  "jr_lease_owner (bump_row_version c r) = jr_lease_owner r"
  "jr_lease_deadline (bump_row_version c r) = jr_lease_deadline r"
  "jr_heartbeat_at (bump_row_version c r) = jr_heartbeat_at r"
  "jr_cancel_at (bump_row_version c r) = jr_cancel_at r"
  "jr_started_at (bump_row_version c r) = jr_started_at r"
  "jr_completed_at (bump_row_version c r) = jr_completed_at r"
  "jr_error_code (bump_row_version c r) = jr_error_code r"
  "jr_error_detail (bump_row_version c r) = jr_error_detail r"
  "jr_created_at (bump_row_version c r) = jr_created_at r"
  "jr_updated_at (bump_row_version c r) = c"
  "jr_row_version (bump_row_version c r) = jr_row_version r + 1"
  by (simp_all add: bump_row_version_def)

lemma find_job_in: "find_job db j = Some r \<Longrightarrow> r \<in> set (db_jobs db) \<and> jr_id r = j"
  by (auto simp: find_job_def dest: find_eq_Some_unique)

lemma in_find_job: "schema_ok db \<Longrightarrow> r \<in> set (db_jobs db) \<Longrightarrow> find_job db (jr_id r) = Some r"
  by (simp add: find_job_def schema_ok_def find_keyI)

lemma in_attempts_of [simp]: "a \<in> set (attempts_of db j) \<longleftrightarrow> a \<in> set (db_attempts db) \<and> ja_job a = j"
  by (auto simp: attempts_of_def)

end
