(* ===== verification/Jobs_Runtime.thy ===== *)
theory Jobs_Runtime
  imports Jobs_Tables
begin

text \<open>
  \<open>PostgresJobRepository\<close> of \<open>server/src/autplay/adapters/postgresql/jobs_runtime.py\<close>, every
  operation but \<open>defer_for_resource\<close> (theory \<open>Job_Deferral\<close>), with the commands and results of
  \<open>server/src/autplay/ports/jobs.py\<close>.

  An operation takes the transaction's \<open>now()\<close>, the readings \<open>clock 0, clock 1, \<dots>\<close> of
  \<open>clock_timestamp()\<close> its statements make through the row trigger, its arguments and the schema; it
  returns its result and the schema after it, or the exception that rolls the transaction back. The
  row locks the statements take make an operation atomic towards the others; rows another open
  transaction holds are those a parameter \<open>locked\<close> names, and \<open>SKIP LOCKED\<close> passes over them.
\<close>

subsection \<open>Commands and results\<close>

record enqueue_job =
  ej_key :: job_key
  ej_user :: "uuid option"
  ej_payload :: document
  ej_priority :: int
  ej_scheduled_at :: "py_datetime option"
  ej_scope :: "string option"
  ej_idempotency_key :: "string option"

record enqueue_result =
  er_job :: uuid
  er_replayed :: bool

record recovered_job =
  rj_job :: uuid
  rj_attempt :: int
  rj_state :: job_state

subsection \<open>Argument checks\<close>

definition validate_bounded_text :: "string \<Rightarrow> string \<Rightarrow> int \<Rightarrow> job_exn + unit" where
  "validate_bounded_text value field maximum =
     require (1 \<le> len value \<and> len value \<le> maximum) (ValueError field)"

definition validate_worker_id :: "string \<Rightarrow> job_exn + unit" where
  "validate_worker_id w = validate_bounded_text w ''worker_id'' max_worker_id_length"

definition validate_lease_interval :: "duration \<Rightarrow> job_exn + unit" where
  "validate_lease_interval d =
     require (\<not> (d < seconds 1 \<or> hours 1 < d)) (ValueError ''lease_interval'')"

definition validate_limit :: "int \<Rightarrow> int \<Rightarrow> string \<Rightarrow> job_exn + unit" where
  "validate_limit n maximum field = require (1 \<le> n \<and> n \<le> maximum) (ValueError field)"

definition max_claim_batch :: int where "max_claim_batch = 100"
definition max_recovery_batch :: int where "max_recovery_batch = 100"
definition max_idempotency_scope_length :: int where "max_idempotency_scope_length = 100"
definition max_idempotency_key_length :: int where "max_idempotency_key_length = 200"

definition validate_progress :: "int option \<Rightarrow> int option \<Rightarrow> job_exn + unit" where
  "validate_progress cur tot =
     (case cur of
        Some c \<Rightarrow>
          if c < 0 then Inl (ValueError ''progress_current'')
          else (case tot of
              Some t \<Rightarrow>
                if t < 0 then Inl (ValueError ''progress_total'')
                else if t < c then Inl (ValueError ''progress_current'')
                else Inr ()
            | None \<Rightarrow> Inr ())
      | None \<Rightarrow>
          (case tot of
             Some t \<Rightarrow> if t < 0 then Inl (ValueError ''progress_total'') else Inr ()
           | None \<Rightarrow> Inr ()))"

definition validate_enqueue :: "enqueue_job \<Rightarrow> job_exn + unit" where
  "validate_enqueue c =
     (if \<not> (0 \<le> ej_priority c \<and> ej_priority c \<le> 4) then Inl (ValueError ''priority'')
      else bind_result (require_aware_option (ej_scheduled_at c) ''scheduled_at'') (\<lambda>_.
        case (ej_scope c, ej_idempotency_key c) of
          (None, None) \<Rightarrow> Inr ()
        | (Some scope, Some key) \<Rightarrow>
            bind_result (validate_bounded_text scope ''idempotency_scope''
              max_idempotency_scope_length) (\<lambda>_.
            validate_bounded_text key ''idempotency_key'' max_idempotency_key_length)
        | _ \<Rightarrow> Inl (ValueError ''idempotency_key'')))"

subsection \<open>Enqueueing\<close>

definition aware_instant :: "py_datetime \<Rightarrow> instant" where
  "aware_instant t = (case t of Aware i \<Rightarrow> i | Naive i \<Rightarrow> i)"

text \<open>The row \<open>_ENQUEUE\<close> inserts, with the defaults of the columns it does not name.\<close>

definition new_job_row :: "uuid \<Rightarrow> instant \<Rightarrow> enqueue_job \<Rightarrow> document \<Rightarrow> job_row" where
  "new_job_row i now c payload =
     \<lparr>jr_id = i, jr_type = jk_type (ej_key c), jr_version = jk_version (ej_key c),
      jr_user = ej_user c, jr_priority = ej_priority c, jr_state = QUEUED,
      jr_scope = ej_scope c, jr_key = ej_idempotency_key c, jr_payload = payload,
      jr_checkpoint = None, jr_progress_current = None, jr_progress_total = None,
      jr_attempts = 0, jr_waits = 0, jr_waiting = False, jr_wake_until = None,
      jr_scheduled_at = (case ej_scheduled_at c of None \<Rightarrow> now | Some t \<Rightarrow> aware_instant t),
      jr_lease_owner = None, jr_lease_deadline = None, jr_heartbeat_at = None,
      jr_cancel_at = None, jr_started_at = None, jr_completed_at = None,
      jr_error_code = None, jr_error_detail = None,
      jr_created_at = now, jr_updated_at = now, jr_row_version = 1\<rparr>"

definition same_enqueue ::
  "(rat \<Rightarrow> string) \<Rightarrow> job_row \<Rightarrow> enqueue_job \<Rightarrow> document \<Rightarrow> bool" where
  "same_enqueue frepr stored c payload \<longleftrightarrow>
     jr_type stored = jk_type (ej_key c)
     \<and> jr_version stored = jk_version (ej_key c)
     \<and> jr_user stored = ej_user c
     \<and> jr_priority stored = ej_priority c
     \<and> same_json_document frepr (jr_payload stored) payload
     \<and> (case ej_scheduled_at c of
          None \<Rightarrow> jr_scheduled_at stored = jr_created_at stored
        | Some t \<Rightarrow> jr_scheduled_at stored = aware_instant t)"

text \<open>
  \<open>_FIND_IDEMPOTENT\<close>; SQL's \<open>=\<close> holds for no \<open>NULL\<close>, and the \<open>ON CONFLICT\<close> target is the same
  pair. \<open>known_user\<close> are the keys of \<open>account.user_account\<close>, which the foreign key asks for.
\<close>

definition find_idempotent :: "string \<Rightarrow> string \<Rightarrow> jobs_db \<Rightarrow> job_row option" where
  "find_idempotent scope key db =
     find (\<lambda>r. jr_scope r = Some scope \<and> jr_key r = Some key) (db_jobs db)"

definition enqueue ::
  "(rat \<Rightarrow> string) \<Rightarrow> (uuid \<Rightarrow> bool) \<Rightarrow> instant \<Rightarrow> uuid \<Rightarrow> enqueue_job \<Rightarrow> jobs_db
   \<Rightarrow> job_exn + (enqueue_result \<times> jobs_db)" where
  "enqueue frepr known_user now new_id c db =
     bind_result (lift_document (validate_job_document frepr (ej_payload c) ''payload''
       max_job_document_bytes)) (\<lambda>payload.
     bind_result (validate_enqueue c) (\<lambda>_.
     let conflict = (case (ej_scope c, ej_idempotency_key c) of
           (Some scope, Some key) \<Rightarrow> find_idempotent scope key db | _ \<Rightarrow> None)
     in case conflict of
          Some stored \<Rightarrow>
            if same_enqueue frepr stored c payload
            then Inr (\<lparr>er_job = jr_id stored, er_replayed = True\<rparr>, db)
            else Inl IdempotencyConflict
        | None \<Rightarrow>
            if find_job db new_id \<noteq> None then Inl (IntegrityError ''job_pkey'')
            else if (case ej_user c of None \<Rightarrow> False | Some u \<Rightarrow> \<not> known_user u)
            then Inl (IntegrityError ''job_user_id_fkey'')
            else Inr (\<lparr>er_job = new_id, er_replayed = False\<rparr>,
                      db\<lparr>db_jobs := db_jobs db @ [new_job_row new_id now c payload]\<rparr>)))"

subsection \<open>Claiming\<close>

definition key_supported :: "job_key list \<Rightarrow> job_row \<Rightarrow> bool" where
  "key_supported supported r \<longleftrightarrow>
     list_ex (\<lambda>k. jr_type r = jk_type k \<and> jr_version r = jk_version k) supported"

definition dependency_open :: "jobs_db \<Rightarrow> uuid \<Rightarrow> bool" where
  "dependency_open db j \<longleftrightarrow>
     list_ex (\<lambda>d. jd_job d = j \<and>
       list_ex (\<lambda>p. jr_id p = jd_on d \<and>
         (case jd_policy d of
            RequireSuccess \<Rightarrow> jr_state p \<noteq> COMPLETED
          | RequireTerminal \<Rightarrow> \<not> is_terminal (jr_state p))) (db_jobs db))
     (db_dependencies db)"

definition claimable :: "instant \<Rightarrow> job_key list \<Rightarrow> jobs_db \<Rightarrow> job_row \<Rightarrow> bool" where
  "claimable now supported db r \<longleftrightarrow>
     (jr_state r = QUEUED \<or> jr_state r = RETRY_WAIT)
     \<and> jr_scheduled_at r \<le> now
     \<and> jr_cancel_at r = None
     \<and> key_supported supported r
     \<and> \<not> dependency_open db (jr_id r)"

text \<open>\<open>ORDER BY\<close> of the candidates; \<open>b DESC\<close> on a boolean is the order of its negation.\<close>

definition claim_order :: "job_row \<Rightarrow> bool \<times> bool \<times> int \<times> instant \<times> instant \<times> uuid" where
  "claim_order r =
     (\<not> (jr_wake_until r \<noteq> None), jr_waiting r, jr_priority r, jr_scheduled_at r,
      jr_created_at r, jr_id r)"

definition claim_candidates ::
  "(uuid \<Rightarrow> bool) \<Rightarrow> instant \<Rightarrow> job_key list \<Rightarrow> int \<Rightarrow> jobs_db \<Rightarrow> job_row list" where
  "claim_candidates locked now supported limit db =
     take (nat limit) (sort_key claim_order
       (filter (\<lambda>r. claimable now supported db r \<and> \<not> locked (jr_id r)) (db_jobs db)))"

definition claim_row :: "string \<Rightarrow> instant \<Rightarrow> duration \<Rightarrow> job_row \<Rightarrow> job_row" where
  "claim_row worker now interval r =
     r\<lparr>jr_state := RUNNING, jr_waiting := False, jr_wake_until := None,
       jr_lease_owner := Some worker, jr_lease_deadline := Some (now + interval),
       jr_heartbeat_at := Some now,
       jr_started_at := (case jr_started_at r of None \<Rightarrow> Some now | Some t \<Rightarrow> Some t),
       jr_attempts := jr_attempts r + 1,
       jr_completed_at := None, jr_error_code := None, jr_error_detail := None\<rparr>"

definition new_attempt :: "(uuid \<Rightarrow> uuid) \<Rightarrow> instant \<Rightarrow> string \<Rightarrow> job_row \<Rightarrow> attempt_row" where
  "new_attempt attempt_id now worker r =
     \<lparr>ja_id = attempt_id (jr_id r), ja_job = jr_id r, ja_no = jr_attempts r, ja_worker = worker,
      ja_started_at = now, ja_finished_at = None, ja_outcome = None, ja_error_code = None,
      ja_metrics = []\<rparr>"

definition lease_from_row :: "job_row \<Rightarrow> job_exn + job_lease" where
  "lease_from_row r =
     (case jr_lease_owner r of
        None \<Rightarrow> Inl (PersistenceInvariant ''lease_owner'')
      | Some owner \<Rightarrow>
          bind_result (make_lease_fence (jr_id r) owner (jr_attempts r)) (\<lambda>fence.
          bind_result (make_job_key (jr_type r) (jr_version r)) (\<lambda>key.
          case jr_lease_deadline r of
            None \<Rightarrow> Inl (PersistenceInvariant ''lease_deadline'')
          | Some deadline \<Rightarrow>
              check_job_lease
                \<lparr>jl_fence = fence, jl_key = key, jl_user = jr_user r, jl_priority = jr_priority r,
                 jl_payload = jr_payload r, jl_checkpoint = jr_checkpoint r,
                 jl_deadline = Aware deadline,
                 jl_cancel_requested_at = map_option Aware (jr_cancel_at r),
                 jl_wait_count = jr_waits r\<rparr>)))"

text \<open>
  The outer \<open>SELECT\<close> orders the claimed rows again, by the flags the candidate had and the columns
  the claim leaves alone. \<open>attempt_id\<close> gives the \<open>uuidv7()\<close> drawn for each claimed job's attempt.
\<close>

definition claimed_order ::
  "job_row \<times> job_row \<Rightarrow> bool \<times> bool \<times> int \<times> instant \<times> instant \<times> uuid" where
  "claimed_order = (\<lambda>(candidate, r).
     (\<not> (jr_wake_until candidate \<noteq> None), jr_waiting candidate, jr_priority r, jr_scheduled_at r,
      jr_created_at r, jr_id r))"

definition claim ::
  "(uuid \<Rightarrow> bool) \<Rightarrow> instant \<Rightarrow> instant \<Rightarrow> (uuid \<Rightarrow> uuid) \<Rightarrow> string \<Rightarrow> job_key list \<Rightarrow> duration \<Rightarrow> int
   \<Rightarrow> jobs_db \<Rightarrow> job_exn + (job_lease list \<times> jobs_db)" where
  "claim locked now clock attempt_id worker supported interval limit db =
     bind_result (validate_worker_id worker) (\<lambda>_.
     bind_result (validate_lease_interval interval) (\<lambda>_.
     bind_result (validate_limit limit max_claim_batch ''claim limit'') (\<lambda>_.
     if supported = [] then Inr ([], db)
     else
       let candidates = claim_candidates locked now supported limit db;
           claimed = map (\<lambda>r. (r, bump_row_version clock (claim_row worker now interval r))) candidates;
           opened = map (\<lambda>(_, r). new_attempt attempt_id now worker r) claimed;
           db' = db\<lparr>db_jobs := update_jobs clock (\<lambda>r. jr_id r \<in> jr_id ` set candidates)
                                (claim_row worker now interval) (db_jobs db),
                    db_attempts := db_attempts db @ opened\<rparr>
       in if \<not> distinct (map ja_id (db_attempts db'))
          then Inl (IntegrityError ''job_attempt_pkey'')
          else if \<not> distinct (map (\<lambda>a. (ja_job a, ja_no a)) (db_attempts db'))
          then Inl (IntegrityError ''uq_job_attempt_number'')
          else bind_result (map_result (\<lambda>(_, r). lease_from_row r) (sort_key claimed_order claimed))
            (\<lambda>leases. Inr (leases, db')))))"

subsection \<open>Renewing and saving\<close>

definition fenced :: "lease_fence \<Rightarrow> job_row \<Rightarrow> bool" where
  "fenced f r \<longleftrightarrow>
     jr_id r = lf_job f \<and> jr_state r = RUNNING \<and> jr_lease_owner r = Some (lf_worker f)
     \<and> jr_attempts r = lf_attempt f"

definition active_lease :: "instant \<Rightarrow> lease_fence \<Rightarrow> job_row \<Rightarrow> bool" where
  "active_lease now f r \<longleftrightarrow>
     fenced f r \<and> (case jr_lease_deadline r of None \<Rightarrow> False | Some d \<Rightarrow> now < d)"

definition heartbeat_row :: "instant \<Rightarrow> duration \<Rightarrow> job_row \<Rightarrow> job_row" where
  "heartbeat_row now interval r =
     r\<lparr>jr_heartbeat_at := Some now, jr_lease_deadline := Some (now + interval)\<rparr>"

definition heartbeat ::
  "instant \<Rightarrow> instant \<Rightarrow> lease_fence \<Rightarrow> duration \<Rightarrow> jobs_db
   \<Rightarrow> job_exn + (heartbeat_info option \<times> jobs_db)" where
  "heartbeat now clock f interval db =
     bind_result (validate_lease_interval interval) (\<lambda>_.
     let db' = db\<lparr>db_jobs := update_jobs clock (active_lease now f) (heartbeat_row now interval)
                              (db_jobs db)\<rparr>
     in case find (active_lease now f) (db_jobs db) of
          None \<Rightarrow> Inr (None, db')
        | Some r \<Rightarrow>
            bind_result (make_heartbeat (Aware (now + interval)) (map_option Aware (jr_cancel_at r)))
              (\<lambda>h. Inr (Some h, db')))"

definition checkpoint_row ::
  "document \<Rightarrow> int option \<Rightarrow> int option \<Rightarrow> job_row \<Rightarrow> job_row" where
  "checkpoint_row checkpoint cur tot r =
     r\<lparr>jr_checkpoint := Some checkpoint, jr_progress_current := cur,
       jr_progress_total := tot\<rparr>"

definition save_checkpoint ::
  "(rat \<Rightarrow> string) \<Rightarrow> instant \<Rightarrow> instant \<Rightarrow> lease_fence \<Rightarrow> document \<Rightarrow> int option \<Rightarrow> int option
   \<Rightarrow> jobs_db \<Rightarrow> job_exn + (checkpoint_saved option \<times> jobs_db)" where
  "save_checkpoint frepr now clock f checkpoint cur tot db =
     bind_result (lift_document (validate_job_document frepr checkpoint ''checkpoint''
       max_job_document_bytes)) (\<lambda>normalized.
     bind_result (validate_progress cur tot) (\<lambda>_.
     let db' = db\<lparr>db_jobs := update_jobs clock (active_lease now f)
                              (checkpoint_row normalized cur tot) (db_jobs db)\<rparr>
     in case find (active_lease now f) (db_jobs db) of
          None \<Rightarrow> Inr (None, db')
        | Some r \<Rightarrow>
            bind_result (make_checkpoint_saved (map_option Aware (jr_cancel_at r)))
              (\<lambda>c. Inr (Some c, db'))))"

subsection \<open>Closing an attempt\<close>

text \<open>\<open>_lock_active_lease\<close>: whether cancellation is requested, or \<open>None\<close> without an active lease.\<close>

definition lock_active_lease :: "instant \<Rightarrow> lease_fence \<Rightarrow> jobs_db \<Rightarrow> bool option" where
  "lock_active_lease now f db =
     (case find (active_lease now f) (db_jobs db) of
        None \<Rightarrow> None | Some r \<Rightarrow> Some (jr_cancel_at r \<noteq> None))"

definition open_attempt :: "lease_fence \<Rightarrow> attempt_row \<Rightarrow> bool" where
  "open_attempt f a \<longleftrightarrow>
     ja_job a = lf_job f \<and> ja_no a = lf_attempt f \<and> ja_worker a = lf_worker f
     \<and> ja_finished_at a = None \<and> ja_outcome a = None"

definition close_row ::
  "instant \<Rightarrow> attempt_outcome \<Rightarrow> string option \<Rightarrow> attempt_row \<Rightarrow> attempt_row" where
  "close_row now outcome code a =
     a\<lparr>ja_finished_at := Some now, ja_outcome := Some outcome, ja_error_code := code,
       ja_metrics := []\<rparr>"

definition try_close_attempt ::
  "instant \<Rightarrow> lease_fence \<Rightarrow> attempt_outcome \<Rightarrow> string option \<Rightarrow> jobs_db
   \<Rightarrow> job_exn + (bool \<times> jobs_db)" where
  "try_close_attempt now f outcome code db =
     (let db' = db\<lparr>db_attempts := update_rows (open_attempt f) (close_row now outcome code)
                                    (db_attempts db)\<rparr>
      in if list_ex (\<lambda>a. open_attempt f a \<and> now < ja_started_at a) (db_attempts db)
         then Inl (IntegrityError ''ck_job_attempt_finish'')
         else Inr (list_ex (open_attempt f) (db_attempts db), db'))"

definition set_state_row ::
  "instant \<Rightarrow> job_state \<Rightarrow> job_error option \<Rightarrow> duration \<Rightarrow> job_row \<Rightarrow> job_row" where
  "set_state_row now s err delay r =
     r\<lparr>jr_state := s, jr_waiting := False, jr_wake_until := None,
       jr_scheduled_at := (if s = RETRY_WAIT then now + delay else jr_scheduled_at r),
       jr_lease_owner := None, jr_lease_deadline := None, jr_heartbeat_at := None,
       jr_completed_at := (if s \<in> {COMPLETED, FAILED, CANCELLED} then Some now else None),
       jr_error_code := map_option je_code err, jr_error_detail := map_option je_detail err\<rparr>"

definition set_job_state ::
  "instant \<Rightarrow> instant \<Rightarrow> lease_fence \<Rightarrow> job_state \<Rightarrow> job_error option \<Rightarrow> duration \<Rightarrow> jobs_db
   \<Rightarrow> job_exn + jobs_db" where
  "set_job_state now clock f s err delay db =
     (if list_ex (fenced f) (db_jobs db)
      then Inr (db\<lparr>db_jobs := update_jobs clock (fenced f) (set_state_row now s err delay)
                               (db_jobs db)\<rparr>)
      else Inl (PersistenceInvariant ''locked job transition lost its lease fence''))"

definition finish ::
  "instant \<Rightarrow> instant \<Rightarrow> lease_fence \<Rightarrow> attempt_outcome \<Rightarrow> job_state \<Rightarrow> job_error option \<Rightarrow> duration
   \<Rightarrow> string option \<Rightarrow> jobs_db \<Rightarrow> job_exn + jobs_db" where
  "finish now clock f outcome s err delay attempt_code db =
     (let code = (case attempt_code of
            Some c \<Rightarrow> if c \<noteq> [] then Some c else map_option je_code err
          | None \<Rightarrow> map_option je_code err)
      in bind_result (try_close_attempt now f outcome code db) (\<lambda>(closed, db').
         if \<not> closed
         then Inl (PersistenceInvariant ''active job has no matching open attempt'')
         else set_job_state now clock f s err delay db'))"

definition with_transition :: "lease_transition \<Rightarrow> job_exn + jobs_db
   \<Rightarrow> job_exn + (lease_transition \<times> jobs_db)" where
  "with_transition t r = bind_result r (\<lambda>db. Inr (t, db))"

definition complete ::
  "instant \<Rightarrow> instant \<Rightarrow> lease_fence \<Rightarrow> jobs_db \<Rightarrow> job_exn + (lease_transition \<times> jobs_db)" where
  "complete now clock f db =
     (case lock_active_lease now f db of
        None \<Rightarrow> Inr (LostLease, db)
      | Some True \<Rightarrow> with_transition LeaseCancelled
          (finish now clock f AttemptCancelled CANCELLED None 0 None db)
      | Some False \<Rightarrow> with_transition Applied
          (finish now clock f AttemptSuccess COMPLETED None 0 None db))"

text \<open>\<open>_retry_after_seconds\<close>: a bounded hint in the error's detail.\<close>

definition retry_after_seconds :: "job_error \<Rightarrow> int" where
  "retry_after_seconds e =
     (case map_of (je_detail e) (KStr ''retry_after_seconds'') of
        Some (JInt n) \<Rightarrow> min 86400 (max 0 n) | _ \<Rightarrow> 0)"

definition repo_retry_attempt_no :: "lease_fence \<Rightarrow> jobs_db \<Rightarrow> job_exn + int" where
  "repo_retry_attempt_no f db =
     (case find_job db (lf_job f) of
        None \<Rightarrow> Inl (PersistenceInvariant ''invalid resource wait count'')
      | Some r \<Rightarrow>
          if 0 \<le> jr_waits r \<and> jr_waits r < lf_attempt f then Inr (lf_attempt f - jr_waits r)
          else Inl (PersistenceInvariant ''invalid resource wait count''))"

definition exhausted_detail :: "string \<Rightarrow> document" where
  "exhausted_detail code =
     [(KStr ''last_error_code'', JStr code), (KStr ''retry_exhausted'', JBool True)]"

definition fail_retryable ::
  "(rat \<Rightarrow> string) \<Rightarrow> (8 word list \<Rightarrow> 8 word list) \<Rightarrow> instant \<Rightarrow> instant \<Rightarrow> lease_fence \<Rightarrow> job_error
   \<Rightarrow> retry_policy \<Rightarrow> jobs_db \<Rightarrow> job_exn + (lease_transition \<times> jobs_db)" where
  "fail_retryable frepr sha256 now clock f err policy db =
     (case lock_active_lease now f db of
        None \<Rightarrow> Inr (LostLease, db)
      | Some True \<Rightarrow> with_transition LeaseCancelled
          (finish now clock f AttemptCancelled CANCELLED None 0 None db)
      | Some False \<Rightarrow>
          bind_result (repo_retry_attempt_no f db) (\<lambda>retry_attempt.
          if max_attempts policy \<le> retry_attempt
          then bind_result (make_job_error frepr ''job.retry_exhausted''
                 (exhausted_detail (je_code err))) (\<lambda>exhausted.
               with_transition Applied
                 (finish now clock f RetryableError FAILED (Some exhausted) 0
                   (Some (je_code err)) db))
          else bind_result (delay_for sha256 policy (lf_job f) retry_attempt) (\<lambda>delay.
               with_transition Applied
                 (finish now clock f RetryableError RETRY_WAIT (Some err)
                   (max delay (seconds (retry_after_seconds err))) None db))))"

definition fail_terminal ::
  "instant \<Rightarrow> instant \<Rightarrow> lease_fence \<Rightarrow> job_error \<Rightarrow> jobs_db
   \<Rightarrow> job_exn + (lease_transition \<times> jobs_db)" where
  "fail_terminal now clock f err db =
     (case lock_active_lease now f db of
        None \<Rightarrow> Inr (LostLease, db)
      | Some True \<Rightarrow> with_transition LeaseCancelled
          (finish now clock f AttemptCancelled CANCELLED None 0 None db)
      | Some False \<Rightarrow> with_transition Applied
          (finish now clock f TerminalError FAILED (Some err) 0 None db))"

definition acknowledge_cancel ::
  "instant \<Rightarrow> instant \<Rightarrow> lease_fence \<Rightarrow> jobs_db \<Rightarrow> job_exn + (lease_transition \<times> jobs_db)" where
  "acknowledge_cancel now clock f db =
     (case lock_active_lease now f db of
        Some True \<Rightarrow> with_transition LeaseCancelled
          (finish now clock f AttemptCancelled CANCELLED None 0 None db)
      | _ \<Rightarrow> Inr (LostLease, db))"

subsection \<open>Cancelling\<close>

definition owned_by :: "uuid \<Rightarrow> uuid \<Rightarrow> job_row \<Rightarrow> bool" where
  "owned_by j owner r \<longleftrightarrow> jr_id r = j \<and> jr_user r = Some owner"

definition coalesce :: "'a option \<Rightarrow> 'a \<Rightarrow> 'a option" where
  "coalesce x y = (case x of None \<Rightarrow> Some y | Some v \<Rightarrow> Some v)"

definition request_cancel_row :: "instant \<Rightarrow> job_row \<Rightarrow> job_row" where
  "request_cancel_row now r = r\<lparr>jr_cancel_at := coalesce (jr_cancel_at r) now\<rparr>"

definition cancel_pending_row :: "instant \<Rightarrow> job_row \<Rightarrow> job_row" where
  "cancel_pending_row now r =
     r\<lparr>jr_state := CANCELLED, jr_waiting := False, jr_wake_until := None,
       jr_cancel_at := coalesce (jr_cancel_at r) now, jr_completed_at := Some now,
       jr_error_code := None, jr_error_detail := None\<rparr>"

definition request_cancel_for_owner ::
  "instant \<Rightarrow> instant \<Rightarrow> uuid \<Rightarrow> uuid \<Rightarrow> jobs_db \<Rightarrow> job_exn + (cancel_result \<times> jobs_db)" where
  "request_cancel_for_owner now clock j owner db =
     (case find (owned_by j owner) (db_jobs db) of
        None \<Rightarrow> Inr (JobNotFound, db)
      | Some row \<Rightarrow>
          if is_terminal (jr_state row) then Inr (AlreadyTerminal, db)
          else if jr_state row = RUNNING then
            let P = \<lambda>r. owned_by j owner r \<and> jr_state r = RUNNING
            in if list_ex P (db_jobs db)
               then Inr (CancelRequested,
                 db\<lparr>db_jobs := update_jobs clock P (request_cancel_row now) (db_jobs db)\<rparr>)
               else Inl (PersistenceInvariant ''locked running job was not cancellable'')
          else
            let P = \<lambda>r. owned_by j owner r \<and> jr_state r \<in> {QUEUED, RETRY_WAIT, PAUSED}
            in if list_ex P (db_jobs db)
               then Inr (CancelledNow,
                 db\<lparr>db_jobs := update_jobs clock P (cancel_pending_row now) (db_jobs db)\<rparr>)
               else Inl (PersistenceInvariant ''locked pending job was not cancellable''))"

subsection \<open>Recovering expired leases\<close>

definition expired_lease :: "instant \<Rightarrow> job_key list \<Rightarrow> job_row \<Rightarrow> bool" where
  "expired_lease now supported r \<longleftrightarrow>
     jr_state r = RUNNING
     \<and> (case jr_lease_deadline r of None \<Rightarrow> False | Some d \<Rightarrow> d \<le> now)
     \<and> key_supported supported r"

definition deadline_order :: "job_row \<Rightarrow> instant \<times> uuid" where
  "deadline_order r = (case jr_lease_deadline r of None \<Rightarrow> 0 | Some d \<Rightarrow> d, jr_id r)"

definition lock_expired ::
  "(uuid \<Rightarrow> bool) \<Rightarrow> instant \<Rightarrow> job_key list \<Rightarrow> int \<Rightarrow> jobs_db \<Rightarrow> job_row list" where
  "lock_expired locked now supported limit db =
     take (nat limit) (sort_key deadline_order
       (filter (\<lambda>r. expired_lease now supported r \<and> \<not> locked (jr_id r)) (db_jobs db)))"

text \<open>One pass of the loop, for one locked row.\<close>

definition recover_row ::
  "(rat \<Rightarrow> string) \<Rightarrow> (8 word list \<Rightarrow> 8 word list) \<Rightarrow> instant \<Rightarrow> instant \<Rightarrow> retry_policy \<Rightarrow> job_row
   \<Rightarrow> jobs_db \<Rightarrow> job_exn + (recovered_job \<times> jobs_db)" where
  "recover_row frepr sha256 now clock policy row db =
     (case jr_lease_owner row of
        None \<Rightarrow> Inl (PersistenceInvariant ''lease_owner'')
      | Some worker \<Rightarrow>
        let job = jr_id row; attempt_no = jr_attempts row; retry_attempt = attempt_no - jr_waits row
        in bind_result (make_lease_fence job worker attempt_no) (\<lambda>fence.
           bind_result
             (if jr_cancel_at row \<noteq> None
              then bind_result (try_close_attempt now fence AttemptCancelled None db)
                (\<lambda>(closed, db'). Inr (CANCELLED, closed, None, db'))
              else
                let state = if max_attempts policy \<le> retry_attempt then FAILED else RETRY_WAIT
                in bind_result (try_close_attempt now fence LeaseExpired (Some ''job.lease_expired'') db)
                     (\<lambda>(closed, db').
                   bind_result
                     (if state = FAILED
                      then make_job_error frepr ''job.retry_exhausted''
                             (exhausted_detail ''job.lease_expired'')
                      else make_job_error frepr ''job.lease_expired'' [])
                     (\<lambda>e. Inr (state, closed, Some e, db'))))
             (\<lambda>(state, closed, err, db').
           bind_result
             (if closed then Inr (state, err)
              else bind_result (make_job_error frepr ''job.persistence_invariant''
                     [(KStr ''missing_open_attempt'', JBool True)])
                     (\<lambda>e. Inr (FAILED, Some e)))
             (\<lambda>(state, err).
           bind_result
             (if state = RETRY_WAIT then delay_for sha256 policy job retry_attempt else Inr 0) (\<lambda>delay.
           bind_result (set_job_state now clock fence state err delay db') (\<lambda>db''.
           Inr (\<lparr>rj_job = job, rj_attempt = attempt_no, rj_state = state\<rparr>, db'')))))))"

fun recover_rows ::
  "(rat \<Rightarrow> string) \<Rightarrow> (8 word list \<Rightarrow> 8 word list) \<Rightarrow> instant \<Rightarrow> (nat \<Rightarrow> instant) \<Rightarrow> retry_policy
   \<Rightarrow> job_row list \<Rightarrow> nat \<Rightarrow> jobs_db \<Rightarrow> job_exn + (recovered_job list \<times> jobs_db)" where
  "recover_rows frepr sha256 now clock policy [] i db = Inr ([], db)"
| "recover_rows frepr sha256 now clock policy (row # rows) i db =
     bind_result (recover_row frepr sha256 now (clock i) policy row db) (\<lambda>(job, db').
     bind_result (recover_rows frepr sha256 now clock policy rows (Suc i) db') (\<lambda>(jobs, db'').
     Inr (job # jobs, db'')))"

definition recover_expired ::
  "(rat \<Rightarrow> string) \<Rightarrow> (8 word list \<Rightarrow> 8 word list) \<Rightarrow> (uuid \<Rightarrow> bool) \<Rightarrow> instant \<Rightarrow> (nat \<Rightarrow> instant)
   \<Rightarrow> job_key list \<Rightarrow> int \<Rightarrow> retry_policy \<Rightarrow> jobs_db
   \<Rightarrow> job_exn + (recovered_job list \<times> jobs_db)" where
  "recover_expired frepr sha256 locked now clock supported limit policy db =
     bind_result (validate_limit limit max_recovery_batch ''recovery limit'') (\<lambda>_.
     if supported = [] then Inr ([], db)
     else recover_rows frepr sha256 now clock policy
            (lock_expired locked now supported limit db) 0 db)"

end
