(* ===== verification/Jobs_Invariants.thy ===== *)
theory Jobs_Invariants
  imports Jobs_Runtime
begin

text \<open>
  What the repository keeps of its tables beyond the declared constraints: the attempts of a job are
  its claims, numbered without gaps, and the newest one is open exactly while the job runs. From
  this the operations never meet the broken state their \<open>JobPersistenceInvariantError\<close> reports.
\<close>

subsection \<open>The invariant\<close>

text \<open>
  A job and its attempts: attempt \<open>n\<close> is the \<open>n\<close>-th claim; every attempt is closed but the newest
  one of a running job, whose worker holds the lease; the resource waits counted are the attempts
  that ended in one; an attempt succeeds only as the last one, of a completed job.
\<close>

definition job_history :: "job_row \<Rightarrow> attempt_row list \<Rightarrow> bool" where
  "job_history r as \<longleftrightarrow>
     map ja_no as = [1..jr_attempts r]
     \<and> (\<forall>a \<in> set as. ja_job a = jr_id r)
     \<and> (\<forall>a \<in> set as. ja_finished_at a = None \<longleftrightarrow> ja_outcome a = None)
     \<and> (\<forall>a \<in> set as. ja_outcome a = None \<longleftrightarrow> jr_state r = RUNNING \<and> ja_no a = jr_attempts r)
     \<and> (\<forall>a \<in> set as. ja_outcome a = None \<longrightarrow> jr_lease_owner r = Some (ja_worker a))
     \<and> (\<forall>a \<in> set as. ja_outcome a = Some AttemptSuccess \<longleftrightarrow>
          jr_state r = COMPLETED \<and> ja_no a = jr_attempts r)
     \<and> jr_waits r = int (count_rows (\<lambda>a. ja_outcome a = Some ResourceWait) as)
     \<and> (jr_state r = RUNNING \<or> jr_state r = COMPLETED \<longrightarrow> 1 \<le> jr_attempts r)
     \<and> (jr_state r = RUNNING \<longrightarrow> jr_lease_deadline r \<noteq> None)
     \<and> (is_terminal (jr_state r) \<longleftrightarrow> jr_completed_at r \<noteq> None)"

definition jobs_inv :: "jobs_db \<Rightarrow> bool" where
  "jobs_inv db \<longleftrightarrow>
     schema_ok db \<and> (\<forall>r \<in> set (db_jobs db). job_history r (attempts_of db (jr_id r)))"

lemma jobs_inv_empty: "jobs_inv empty_jobs_db"
  by (simp add: jobs_inv_def schema_ok_def empty_jobs_db_def)

lemma jobs_inv_schema: "jobs_inv db \<Longrightarrow> schema_ok db"
  by (simp add: jobs_inv_def)

lemma jobs_inv_row:
  "jobs_inv db \<Longrightarrow> r \<in> set (db_jobs db) \<Longrightarrow>
     job_row_checks r \<and> job_history r (attempts_of db (jr_id r))"
  by (auto simp: jobs_inv_def schema_ok_def list_all_iff)

subsection \<open>Histories\<close>

lemma job_historyD:
  assumes "job_history r as"
  shows "map ja_no as = [1..jr_attempts r]"
    and "a \<in> set as \<Longrightarrow> ja_job a = jr_id r"
    and "a \<in> set as \<Longrightarrow> ja_finished_at a = None \<longleftrightarrow> ja_outcome a = None"
    and "a \<in> set as \<Longrightarrow> ja_outcome a = None \<longleftrightarrow> jr_state r = RUNNING \<and> ja_no a = jr_attempts r"
    and "a \<in> set as \<Longrightarrow> ja_outcome a = None \<Longrightarrow> jr_lease_owner r = Some (ja_worker a)"
    and "a \<in> set as \<Longrightarrow> ja_outcome a = Some AttemptSuccess \<longleftrightarrow>
          jr_state r = COMPLETED \<and> ja_no a = jr_attempts r"
    and "jr_waits r = int (count_rows (\<lambda>a. ja_outcome a = Some ResourceWait) as)"
    and "jr_state r = RUNNING \<or> jr_state r = COMPLETED \<Longrightarrow> 1 \<le> jr_attempts r"
    and "jr_state r = RUNNING \<Longrightarrow> jr_lease_deadline r \<noteq> None"
    and "is_terminal (jr_state r) \<longleftrightarrow> jr_completed_at r \<noteq> None"
  using assms unfolding job_history_def by blast+

lemma history_no_le:
  assumes "job_history r as" and "a \<in> set as"
  shows "1 \<le> ja_no a" and "ja_no a \<le> jr_attempts r"
proof -
  have "ja_no a \<in> set (map ja_no as)" using assms(2) by simp
  then show "1 \<le> ja_no a" "ja_no a \<le> jr_attempts r"
    unfolding job_historyD(1) [OF assms(1)] by simp_all
qed

lemma history_nos_less:
  assumes "map ja_no as @ [n] = [1..n]" and "a \<in> set as"
  shows "ja_no a < n"
proof -
  have "distinct (map ja_no as @ [n])" unfolding assms(1) by simp
  moreover have "set (map ja_no as) \<subseteq> {1..n}"
    using arg_cong [OF assms(1), of set] by auto
  ultimately show ?thesis using assms(2) by force
qed

text \<open>The attempts of a running job: closed ones, then the open one.\<close>

lemma history_running:
  assumes "job_history r as" and "jr_state r = RUNNING"
  obtains as0 a where "as = as0 @ [a]" and "ja_no a = jr_attempts r" and "ja_job a = jr_id r"
    and "ja_outcome a = None" and "ja_finished_at a = None"
    and "jr_lease_owner r = Some (ja_worker a)"
    and "\<And>b. b \<in> set as0 \<Longrightarrow> ja_no b < jr_attempts r"
    and "\<And>b. b \<in> set as0 \<Longrightarrow> ja_outcome b \<noteq> None \<and> ja_finished_at b \<noteq> None"
    and "map ja_no as0 = [1..jr_attempts r - 1]"
proof -
  let ?n = "jr_attempts r"
  from assms have pos: "1 \<le> ?n" and nos: "map ja_no as = [1..?n]"
    by (simp_all add: job_history_def)
  from pos have split: "[1..?n] = [1..?n - 1] @ [?n]" by (simp add: upto_rec2)
  have "map ja_no as = [1..?n - 1] @ [?n]" using nos by (simp only: split)
  then obtain as0 as1 where "as = as0 @ as1" "map ja_no as0 = [1..?n - 1]" "map ja_no as1 = [?n]"
    by (metis map_eq_append_conv)
  then obtain a where as: "as = as0 @ [a]" "map ja_no as0 = [1..?n - 1]" "ja_no a = ?n"
    by (auto simp: map_eq_Cons_conv)
  have all: "map ja_no as0 @ [?n] = [1..?n]" by (simp only: as(2) split)
  have less: "ja_no b < ?n" if "b \<in> set as0" for b
    using all that by (rule history_nos_less)
  have "ja_outcome a = None" using assms as by (simp add: job_history_def)
  moreover from this have "ja_finished_at a = None" "jr_lease_owner r = Some (ja_worker a)"
    "ja_job a = jr_id r" using assms as by (simp_all add: job_history_def)
  moreover have "ja_outcome b \<noteq> None \<and> ja_finished_at b \<noteq> None" if "b \<in> set as0" for b
  proof -
    from that have "b \<in> set as" using as(1) by simp
    then have "ja_outcome b = None \<longleftrightarrow> ja_no b = ?n" "ja_finished_at b = None \<longleftrightarrow> ja_outcome b = None"
      using assms unfolding job_history_def by blast+
    with less [OF that] show ?thesis by simp
  qed
  ultimately show thesis using that [OF as(1) as(3)] less as(2) by presburger
qed

lemma history_waits_less:
  assumes "job_history r as" and "jr_state r = RUNNING"
  shows "0 \<le> jr_waits r" and "jr_waits r < jr_attempts r"
proof -
  from history_running [OF assms] obtain as0 a where as: "as = as0 @ [a]"
    "ja_outcome a = None" "map ja_no as0 = [1..jr_attempts r - 1]" by metis
  have "jr_waits r = int (count_rows (\<lambda>a. ja_outcome a = Some ResourceWait) as0)"
    using assms(1) as(1,2) by (simp add: job_history_def)
  also have "\<dots> \<le> int (length as0)" by (simp add: count_rows_def)
  also have "length as0 = nat (jr_attempts r - 1)"
    using arg_cong [OF as(3), of length] by simp
  finally show "jr_waits r < jr_attempts r" using assms by (simp add: job_history_def)
  show "0 \<le> jr_waits r" using assms(1) by (simp add: job_history_def)
qed

lemma fenced_open_attempt:
  assumes "job_history r as" and "fenced f r"
  obtains as0 a where "as = as0 @ [a]" and "open_attempt f a"
    and "\<And>b. b \<in> set as0 \<Longrightarrow> \<not> open_attempt f b"
    and "\<And>b. b \<in> set as0 \<Longrightarrow> ja_outcome b \<noteq> None \<and> ja_finished_at b \<noteq> None \<and> ja_no b < jr_attempts r"
proof -
  from assms(2) have run: "jr_state r = RUNNING" by (simp add: fenced_def)
  from history_running [OF assms(1) run] obtain as0 a where as: "as = as0 @ [a]"
    "ja_no a = jr_attempts r" "ja_job a = jr_id r" "ja_outcome a = None" "ja_finished_at a = None"
    "jr_lease_owner r = Some (ja_worker a)" "\<And>b. b \<in> set as0 \<Longrightarrow> ja_no b < jr_attempts r"
    "\<And>b. b \<in> set as0 \<Longrightarrow> ja_outcome b \<noteq> None \<and> ja_finished_at b \<noteq> None" by metis
  show thesis
  proof (rule that [OF as(1)])
    show "open_attempt f a" using assms(2) as by (simp add: open_attempt_def fenced_def)
    show "\<not> open_attempt f b" if "b \<in> set as0" for b
      using as(8) [OF that] by (auto simp: open_attempt_def)
  qed (use as in blast)
qed

text \<open>The newest attempt of a running job ends, and the job with it or until a retry.\<close>

lemma history_close:
  assumes "job_history r as" and "fenced f r"
    and "jr_id r' = jr_id r" and "jr_attempts r' = jr_attempts r" and "jr_state r' \<noteq> RUNNING"
    and "jr_waits r' = jr_waits r + (if outcome = ResourceWait then 1 else 0)"
    and "is_terminal (jr_state r') \<longleftrightarrow> jr_completed_at r' \<noteq> None"
    and "outcome = AttemptSuccess \<longleftrightarrow> jr_state r' = COMPLETED"
  shows "job_history r' (update_rows (open_attempt f) (close_row now outcome code) as)"
proof -
  have run: "jr_state r = RUNNING" and pos: "1 \<le> jr_attempts r"
    using assms(1,2) by (auto simp: fenced_def job_history_def)
  from fenced_open_attempt [OF assms(1,2)] obtain as0 a where as: "as = as0 @ [a]"
    "open_attempt f a" "\<And>b. b \<in> set as0 \<Longrightarrow> \<not> open_attempt f b"
    "\<And>b. b \<in> set as0 \<Longrightarrow> ja_outcome b \<noteq> None \<and> ja_finished_at b \<noteq> None \<and> ja_no b < jr_attempts r"
    by metis
  have eq: "update_rows (open_attempt f) (close_row now outcome code) as =
      as0 @ [close_row now outcome code a]"
    using as(1-3) by (simp add: update_rows_id)
  have no: "ja_no a = jr_attempts r" "ja_outcome a = None"
    using as(2) assms(2) by (auto simp: open_attempt_def fenced_def)
  have old: "ja_outcome b \<noteq> Some AttemptSuccess" if "b \<in> set as0" for b
    using job_historyD(6) [OF assms(1), of b] that run as(1) by simp
  note hist = job_historyD [OF assms(1), unfolded as(1)]
  show ?thesis unfolding job_history_def eq
  proof (intro conjI ballI impI)
    show "map ja_no (as0 @ [close_row now outcome code a]) = [1..jr_attempts r']"
      using hist(1) assms(4) by (simp add: close_row_def)
    show "jr_waits r' = int (count_rows (\<lambda>a. ja_outcome a = Some ResourceWait)
        (as0 @ [close_row now outcome code a]))"
      using hist(7) assms(6) no(2) by (simp add: close_row_def)
    show "is_terminal (jr_state r') = (jr_completed_at r' \<noteq> None)" by (rule assms(7))
  next
    fix b assume "b \<in> set (as0 @ [close_row now outcome code a])"
    then consider "b = close_row now outcome code a" | "b \<in> set as0" by auto
    note cases = this
    show "ja_job b = jr_id r'" using cases hist(2) assms(3)
      by cases (simp_all add: close_row_def)
    show "(ja_finished_at b = None) = (ja_outcome b = None)" using cases as(4) [of b]
      by cases (auto simp: close_row_def)
    show "(ja_outcome b = None) = (jr_state r' = RUNNING \<and> ja_no b = jr_attempts r')"
      using cases as(4) [of b] assms(5) by cases (auto simp: close_row_def)
    show "jr_lease_owner r' = Some (ja_worker b)" if "ja_outcome b = None"
      using cases as(4) [of b] that by cases (auto simp: close_row_def)
    show "(ja_outcome b = Some AttemptSuccess) =
        (jr_state r' = COMPLETED \<and> ja_no b = jr_attempts r')"
      using cases
    proof cases
      case 1
      then show ?thesis using assms(8) no(1) assms(4) by (simp add: close_row_def)
    next
      case 2
      then show ?thesis using old as(4) [of b] assms(4) by auto
    qed
  qed (use assms(4,5) pos in auto)
qed

lemma history_bump [simp]: "job_history (bump_row_version clock r) as = job_history r as"
  by (simp add: job_history_def)

lemma checks_bump [simp]: "job_row_checks r \<Longrightarrow> job_row_checks (bump_row_version clock r)"
  by (simp add: job_row_checks_def)

text \<open>A claim opens the next attempt.\<close>

lemma history_claim:
  assumes "job_history r as" and "jr_state r = QUEUED \<or> jr_state r = RETRY_WAIT"
    and "0 \<le> jr_attempts r"
  shows "job_history (claim_row worker now interval r)
     (as @ [new_attempt attempt_id now worker (bump_row_version clock (claim_row worker now interval r))])"
proof -
  have "[1..jr_attempts r + 1] = [1..jr_attempts r] @ [jr_attempts r + 1]"
    using assms(3) by (simp add: upto_rec2)
  moreover have "ja_no a \<le> jr_attempts r \<and> ja_outcome a \<noteq> None
      \<and> ja_outcome a \<noteq> Some AttemptSuccess" if "a \<in> set as" for a
    using history_no_le(2) [OF assms(1) that] job_historyD(4,6) [OF assms(1) that] assms(2)
    by auto
  ultimately show ?thesis
    using assms by (fastforce simp: job_history_def claim_row_def new_attempt_def)
qed

text \<open>A write that leaves the columns of the history alone.\<close>

lemma history_frame:
  assumes "job_history r as" and "jr_id r' = jr_id r" and "jr_attempts r' = jr_attempts r"
    and "jr_state r' = jr_state r" and "jr_waits r' = jr_waits r"
    and "jr_lease_owner r' = jr_lease_owner r" and "jr_completed_at r' = jr_completed_at r"
    and "jr_lease_deadline r' = jr_lease_deadline r \<or> jr_lease_deadline r' \<noteq> None"
  shows "job_history r' as"
  using assms by (auto simp: job_history_def)

lemma history_stop:
  assumes "job_history r as" and "jr_state r \<noteq> RUNNING" and "\<not> is_terminal (jr_state r)"
    and "jr_id r' = jr_id r" and "jr_attempts r' = jr_attempts r"
    and "jr_state r' = CANCELLED" and "jr_waits r' = jr_waits r" and "jr_completed_at r' \<noteq> None"
  shows "job_history r' as"
proof -
  have "jr_state r \<noteq> COMPLETED" using assms(3) by auto
  with assms show ?thesis by (auto simp: job_history_def)
qed

end
