(* ===== verification/Jobs_Correct.thy ===== *)
theory Jobs_Correct
  imports Jobs_Invariants
begin

text \<open>
  Every operation of the repository keeps the invariant of \<open>Jobs_Invariants\<close>, and what each one
  does to the row and the attempt its fence names.
\<close>

subsection \<open>Writes that keep the keys of a job\<close>

text \<open>
  \<open>job_keys\<close> are the columns of the unique indexes of \<open>jobs.job\<close>; no \<open>SET\<close> clause writes them.
\<close>

definition job_keys :: "job_row \<Rightarrow> uuid \<times> (string option \<times> string) option" where
  "job_keys r = (jr_id r, job_idempotency r)"

lemma job_keysI:
  "jr_id r' = jr_id r \<Longrightarrow> jr_scope r' = jr_scope r \<Longrightarrow> jr_key r' = jr_key r \<Longrightarrow> job_keys r' = job_keys r"
  by (simp add: job_keys_def job_idempotency_def split: option.split)

interpretation claim_write: key_keeping job_keys
  "\<lambda>r. bump_row_version clock (claim_row worker now interval r)" for clock worker now interval
  by unfold_locales (rule job_keysI; simp add: claim_row_def)

interpretation heartbeat_write: key_keeping job_keys
  "\<lambda>r. bump_row_version clock (heartbeat_row now interval r)" for clock now interval
  by unfold_locales (rule job_keysI; simp add: heartbeat_row_def)

interpretation checkpoint_write: key_keeping job_keys
  "\<lambda>r. bump_row_version clock (checkpoint_row doc cur tot r)" for clock doc cur tot
  by unfold_locales (rule job_keysI; simp add: checkpoint_row_def)

interpretation state_write: key_keeping job_keys
  "\<lambda>r. bump_row_version clock (set_state_row now s err delay r)" for clock now s err delay
  by unfold_locales (rule job_keysI; simp add: set_state_row_def)

interpretation cancel_request_write: key_keeping job_keys
  "\<lambda>r. bump_row_version clock (request_cancel_row now r)" for clock now
  by unfold_locales (rule job_keysI; simp add: request_cancel_row_def)

interpretation cancel_pending_write: key_keeping job_keys
  "\<lambda>r. bump_row_version clock (cancel_pending_row now r)" for clock now
  by unfold_locales (rule job_keysI; simp add: cancel_pending_row_def)

interpretation attempt_id_write: key_keeping ja_id "close_row now outcome code"
  for now outcome code by unfold_locales (simp add: close_row_def)

interpretation attempt_job_write: key_keeping ja_job "close_row now outcome code"
  for now outcome code by unfold_locales (simp add: close_row_def)

interpretation attempt_no_write: key_keeping "\<lambda>a. (ja_job a, ja_no a)" "close_row now outcome code"
  for now outcome code by unfold_locales (simp add: close_row_def)

lemmas job_keys_kept =
  claim_write.keys_update_rows heartbeat_write.keys_update_rows checkpoint_write.keys_update_rows
  state_write.keys_update_rows cancel_request_write.keys_update_rows
  cancel_pending_write.keys_update_rows

subsection \<open>From rows to the schema\<close>

lemma job_keys_schema:
  assumes "map job_keys js' = map job_keys js"
  shows "map jr_id js' = map jr_id js"
    and "map job_idempotency (filter (\<lambda>r. jr_key r \<noteq> None) js') =
         map job_idempotency (filter (\<lambda>r. jr_key r \<noteq> None) js)"
proof -
  have *: "map jr_id ks = map fst (map job_keys ks)"
    "map job_idempotency (filter (\<lambda>r. jr_key r \<noteq> None) ks) =
     filter (\<lambda>x. x \<noteq> None) (map snd (map job_keys ks))" for ks
    by (induction ks) (auto simp: job_keys_def job_idempotency_def)
  show "map jr_id js' = map jr_id js"
    "map job_idempotency (filter (\<lambda>r. jr_key r \<noteq> None) js') =
     map job_idempotency (filter (\<lambda>r. jr_key r \<noteq> None) js)"
    unfolding * assms by (rule refl)+
qed

lemma inv_update:
  assumes "jobs_inv db" and keys: "map job_keys js' = map job_keys (db_jobs db)"
    and rows: "\<And>r. r \<in> set js' \<Longrightarrow>
      job_row_checks r \<and> job_history r (filter (\<lambda>a. ja_job a = jr_id r) as')"
    and "distinct (map ja_id as')" and "distinct (map (\<lambda>a. (ja_job a, ja_no a)) as')"
    and "\<And>a. a \<in> set as' \<Longrightarrow> attempt_row_checks a"
    and "ja_job ` set as' \<subseteq> jr_id ` set (db_jobs db)"
  shows "jobs_inv (db\<lparr>db_jobs := js', db_attempts := as'\<rparr>)"
proof -
  note ids = job_keys_schema [OF keys]
  have "jr_id ` set js' = jr_id ` set (db_jobs db)"
    using arg_cong [OF ids(1), of set] by simp
  with assms(1,3-) ids show ?thesis
    by (simp add: jobs_inv_def schema_ok_def attempts_of_def list_all_iff)
qed

lemma inv_update_jobs:
  assumes inv: "jobs_inv db"
    and keys: "map job_keys (update_jobs clock P f (db_jobs db)) = map job_keys (db_jobs db)"
    and rows: "\<And>r. P r \<Longrightarrow> job_row_checks r \<Longrightarrow>
      job_history r (attempts_of db (jr_id r)) \<Longrightarrow>
      jr_id (f r) = jr_id r \<and> job_row_checks (f r) \<and> job_history (f r) (attempts_of db (jr_id r))"
  shows "jobs_inv (db\<lparr>db_jobs := update_jobs clock P f (db_jobs db)\<rparr>)"
proof -
  have "jobs_inv (db\<lparr>db_jobs := update_jobs clock P f (db_jobs db), db_attempts := db_attempts db\<rparr>)"
  proof (rule inv_update [OF inv keys])
    fix r' assume "r' \<in> set (update_jobs clock P f (db_jobs db))"
    then obtain r where r: "r \<in> set (db_jobs db)"
      "r' = (if P r then bump_row_version clock (f r) else r)"
      by (auto simp: update_jobs_def in_update_rows)
    show "job_row_checks r' \<and> job_history r' (filter (\<lambda>a. ja_job a = jr_id r') (db_attempts db))"
      using rows [of r] jobs_inv_row [OF inv r(1)] r(2) by (auto simp: attempts_of_def)
  qed (use inv in \<open>auto simp: jobs_inv_def schema_ok_def list_all_iff\<close>)
  then show ?thesis by simp
qed

lemma attempt_job_known:
  "jobs_inv db \<Longrightarrow> a \<in> set (db_attempts db) \<Longrightarrow> ja_job a \<in> jr_id ` set (db_jobs db)"
  by (auto simp: jobs_inv_def schema_ok_def)

subsection \<open>Writes to the row of a job\<close>

lemma heartbeat_row_ok:
  "job_row_checks r \<Longrightarrow> jr_state r = RUNNING \<Longrightarrow> job_row_checks (heartbeat_row now interval r)"
  by (auto simp: heartbeat_row_def job_row_checks_def)

lemma checkpoint_row_ok:
  "job_row_checks r \<Longrightarrow> validate_progress cur tot = Inr u \<Longrightarrow>
   job_row_checks (checkpoint_row d cur tot r)"
  by (simp add: checkpoint_row_def job_row_checks_def validate_progress_def
      split: option.splits if_splits)

lemma request_cancel_row_ok:
  "job_row_checks r \<Longrightarrow> job_row_checks (request_cancel_row now r)"
  by (simp add: request_cancel_row_def job_row_checks_def)

lemma cancel_pending_row_ok:
  "job_row_checks r \<Longrightarrow> jr_state r \<noteq> RUNNING \<Longrightarrow> job_row_checks (cancel_pending_row now r)"
  by (simp add: cancel_pending_row_def job_row_checks_def)

lemma set_state_row_ok:
  "job_row_checks r \<Longrightarrow> job_row_checks (set_state_row now s err delay r)"
  by (simp add: set_state_row_def job_row_checks_def)

lemma claim_row_ok:
  "job_row_checks r \<Longrightarrow> job_row_checks (claim_row worker now interval r)"
  by (simp add: claim_row_def job_row_checks_def)

subsection \<open>Leases\<close>

lemma heartbeat_inv:
  assumes "jobs_inv db" and "heartbeat now clock f interval db = Inr (h, db')"
  shows "jobs_inv db'"
proof -
  have "jobs_inv (db\<lparr>db_jobs := update_jobs clock (active_lease now f) (heartbeat_row now interval)
      (db_jobs db)\<rparr>)"
    by (rule inv_update_jobs [OF assms(1)])
      (auto simp: update_jobs_def job_keys_kept active_lease_def fenced_def heartbeat_row_ok,
       auto simp: heartbeat_row_def elim!: history_frame)
  with assms(2) show ?thesis
    by (auto simp: heartbeat_def bind_result_eq_Inr Let_def split: option.splits)
qed

lemma save_checkpoint_inv:
  assumes "jobs_inv db" and "save_checkpoint frepr now clock f doc cur tot db = Inr (c, db')"
  shows "jobs_inv db'"
proof -
  from assms(2) have ok: "validate_progress cur tot = Inr ()"
    by (auto simp: save_checkpoint_def bind_result_eq_Inr)
  have "jobs_inv (db\<lparr>db_jobs := update_jobs clock (active_lease now f) (checkpoint_row d cur tot)
      (db_jobs db)\<rparr>)" for d
    by (rule inv_update_jobs [OF assms(1)])
      (auto simp: update_jobs_def job_keys_kept checkpoint_row_ok [OF _ ok],
       auto simp: checkpoint_row_def elim!: history_frame)
  with assms(2) show ?thesis
    by (auto simp: save_checkpoint_def bind_result_eq_Inr Let_def split: option.splits)
qed

subsection \<open>Cancellation by the owner\<close>

lemma request_cancel_inv:
  assumes "jobs_inv db" and "request_cancel_for_owner now clock j owner db = Inr (c, db')"
  shows "jobs_inv db'"
proof -
  have running: "jobs_inv (db\<lparr>db_jobs := update_jobs clock
      (\<lambda>r. owned_by j owner r \<and> jr_state r = RUNNING) (request_cancel_row now) (db_jobs db)\<rparr>)"
    by (rule inv_update_jobs [OF assms(1)])
      (auto simp: update_jobs_def job_keys_kept request_cancel_row_ok,
       auto simp: request_cancel_row_def elim!: history_frame)
  have pending: "jobs_inv (db\<lparr>db_jobs := update_jobs clock
      (\<lambda>r. owned_by j owner r \<and> jr_state r \<in> {QUEUED, RETRY_WAIT, PAUSED}) (cancel_pending_row now)
      (db_jobs db)\<rparr>)"
    by (rule inv_update_jobs [OF assms(1)])
      (auto simp: update_jobs_def job_keys_kept cancel_pending_row_ok,
       auto simp: cancel_pending_row_def elim!: history_stop)
  from assms running pending show ?thesis
    by (auto simp: request_cancel_for_owner_def Let_def split: option.splits if_splits)
qed

subsection \<open>Closing an attempt\<close>

definition closed_db ::
  "instant \<Rightarrow> lease_fence \<Rightarrow> attempt_outcome \<Rightarrow> string option \<Rightarrow> (job_row \<Rightarrow> job_row) \<Rightarrow> jobs_db \<Rightarrow> jobs_db"
where
  "closed_db now f outcome code g db =
     db\<lparr>db_jobs := update_rows (fenced f) g (db_jobs db),
        db_attempts := update_rows (open_attempt f) (close_row now outcome code) (db_attempts db)\<rparr>"

lemma open_attempt_fenced:
  assumes "job_history r (attempts_of db (jr_id r))" and "a \<in> set (attempts_of db (jr_id r))"
    and "open_attempt f a"
  shows "fenced f r"
  using job_historyD(4,5) [OF assms(1,2)] assms(2,3)
  by (auto simp: open_attempt_def fenced_def)

lemma closed_inv:
  assumes inv: "jobs_inv db"
    and started: "\<not> list_ex (\<lambda>a. open_attempt f a \<and> now < ja_started_at a) (db_attempts db)"
    and keys: "map job_keys (update_rows (fenced f) g (db_jobs db)) = map job_keys (db_jobs db)"
    and row: "\<And>r. fenced f r \<Longrightarrow> job_row_checks r \<Longrightarrow> jr_waits r < jr_attempts r \<Longrightarrow>
      job_row_checks (g r) \<and> jr_id (g r) = jr_id r \<and> jr_attempts (g r) = jr_attempts r
      \<and> jr_state (g r) \<noteq> RUNNING
      \<and> jr_waits (g r) = jr_waits r + (if outcome = ResourceWait then 1 else 0)
      \<and> (is_terminal (jr_state (g r)) \<longleftrightarrow> jr_completed_at (g r) \<noteq> None)
      \<and> (outcome = AttemptSuccess \<longleftrightarrow> jr_state (g r) = COMPLETED)"
  shows "jobs_inv (closed_db now f outcome code g db)"
  unfolding closed_db_def
proof (rule inv_update [OF inv keys])
  let ?close = "update_rows (open_attempt f) (close_row now outcome code)"
  fix r' assume "r' \<in> set (update_rows (fenced f) g (db_jobs db))"
  then obtain r where r: "r \<in> set (db_jobs db)" "r' = (if fenced f r then g r else r)"
    by (auto simp: in_update_rows)
  note row_ok = jobs_inv_row [OF inv r(1)]
  have commute: "filter (\<lambda>a. ja_job a = jr_id r) (?close (db_attempts db)) =
      ?close (attempts_of db (jr_id r))"
    unfolding attempts_of_def by (rule attempt_job_write.filter_update_rows)
  show "job_row_checks r' \<and> job_history r' (filter (\<lambda>a. ja_job a = jr_id r') (?close (db_attempts db)))"
  proof (cases "fenced f r")
    case True
    then have "jr_waits r < jr_attempts r"
      using history_waits_less(2) [OF conjunct2 [OF row_ok]] by (simp add: fenced_def)
    with True row row_ok have g: "job_row_checks (g r)" "jr_id (g r) = jr_id r"
      "jr_attempts (g r) = jr_attempts r" "jr_state (g r) \<noteq> RUNNING"
      "jr_waits (g r) = jr_waits r + (if outcome = ResourceWait then 1 else 0)"
      "is_terminal (jr_state (g r)) \<longleftrightarrow> jr_completed_at (g r) \<noteq> None"
      "outcome = AttemptSuccess \<longleftrightarrow> jr_state (g r) = COMPLETED"
      by blast+
    have "job_history (g r) (?close (attempts_of db (jr_id r)))"
      using row_ok True g(2-) by (intro history_close) auto
    with True r(2) g(1,2) commute show ?thesis by simp
  next
    case False
    then have "?close (attempts_of db (jr_id r)) = attempts_of db (jr_id r)"
      using open_attempt_fenced row_ok by (intro update_rows_id) blast
    with False r(2) row_ok commute show ?thesis by simp
  qed
next
  fix a assume "a \<in> set (update_rows (open_attempt f) (close_row now outcome code) (db_attempts db))"
  then obtain b where b: "b \<in> set (db_attempts db)"
    "a = (if open_attempt f b then close_row now outcome code b else b)"
    by (auto simp: in_update_rows)
  with inv started show "attempt_row_checks a"
    by (auto simp: jobs_inv_def schema_ok_def list_all_iff list_ex_iff attempt_row_checks_def
        close_row_def)
next
  show "ja_job ` set (update_rows (open_attempt f) (close_row now outcome code) (db_attempts db))
      \<subseteq> jr_id ` set (db_jobs db)"
    using attempt_job_known [OF inv] by (auto simp: in_update_rows close_row_def)
qed (use inv in \<open>simp_all add: attempt_id_write.keys_update_rows attempt_no_write.keys_update_rows
       jobs_inv_def schema_ok_def\<close>)

text \<open>What \<open>_finish\<close> does.\<close>

definition finished_db ::
  "instant \<Rightarrow> instant \<Rightarrow> lease_fence \<Rightarrow> attempt_outcome \<Rightarrow> string option \<Rightarrow> job_state
   \<Rightarrow> job_error option \<Rightarrow> duration \<Rightarrow> jobs_db \<Rightarrow> jobs_db" where
  "finished_db now clock f outcome code s err delay db =
     closed_db now f outcome code
       (\<lambda>r. bump_row_version clock (set_state_row now s err delay r)) db"

definition finish_code :: "string option \<Rightarrow> job_error option \<Rightarrow> string option" where
  "finish_code attempt_code err =
     (case attempt_code of
        Some c \<Rightarrow> if c \<noteq> [] then Some c else map_option je_code err
      | None \<Rightarrow> map_option je_code err)"

lemma finish_Inr_iff:
  "finish now clock f outcome s err delay code db = Inr db' \<longleftrightarrow>
     list_ex (open_attempt f) (db_attempts db)
     \<and> \<not> list_ex (\<lambda>a. open_attempt f a \<and> now < ja_started_at a) (db_attempts db)
     \<and> list_ex (fenced f) (db_jobs db)
     \<and> db' = finished_db now clock f outcome (finish_code code err) s err delay db"
  by (auto simp: finish_def try_close_attempt_def set_job_state_def finished_db_def closed_db_def
      finish_code_def update_jobs_def Let_def)

lemma finished_inv:
  assumes "jobs_inv db"
    and "\<not> list_ex (\<lambda>a. open_attempt f a \<and> now < ja_started_at a) (db_attempts db)"
    and "s \<noteq> RUNNING" and "outcome \<noteq> ResourceWait" and "outcome = AttemptSuccess \<longleftrightarrow> s = COMPLETED"
  shows "jobs_inv (finished_db now clock f outcome code s err delay db)"
  unfolding finished_db_def
  by (rule closed_inv [OF assms(1,2) state_write.keys_update_rows])
    (use assms(3-) in \<open>simp add: set_state_row_ok, simp add: set_state_row_def is_terminal_def\<close>)

lemma finish_inv:
  assumes "jobs_inv db" and "finish now clock f outcome s err delay code db = Inr db'"
    and "s \<noteq> RUNNING" and "outcome \<noteq> ResourceWait" and "outcome = AttemptSuccess \<longleftrightarrow> s = COMPLETED"
  shows "jobs_inv db'"
  using assms by (auto simp: finish_Inr_iff intro!: finished_inv)

lemma with_transition_Inr: "with_transition t r = Inr (t', db) \<longleftrightarrow> t' = t \<and> r = Inr db"
  by (cases r) (auto simp: with_transition_def)

lemma complete_inv:
  "jobs_inv db \<Longrightarrow> complete now clock f db = Inr (t, db') \<Longrightarrow> jobs_inv db'"
  by (auto simp: complete_def with_transition_Inr elim: finish_inv
      split: option.splits bool.splits)

lemma fail_terminal_inv:
  "jobs_inv db \<Longrightarrow> fail_terminal now clock f err db = Inr (t, db') \<Longrightarrow> jobs_inv db'"
  by (auto simp: fail_terminal_def with_transition_Inr elim: finish_inv
      split: option.splits bool.splits)

lemma acknowledge_cancel_inv:
  "jobs_inv db \<Longrightarrow> acknowledge_cancel now clock f db = Inr (t, db') \<Longrightarrow> jobs_inv db'"
  by (auto simp: acknowledge_cancel_def with_transition_Inr elim: finish_inv
      split: option.splits bool.splits)

lemma fail_retryable_inv:
  "jobs_inv db \<Longrightarrow> fail_retryable frepr sha256 now clock f err policy db = Inr (t, db') \<Longrightarrow> jobs_inv db'"
  by (auto simp: fail_retryable_def with_transition_Inr bind_result_eq_Inr elim: finish_inv
      split: option.splits bool.splits if_splits)

text \<open>In a consistent schema a fence that names a running job names its open attempt.\<close>

lemma fenced_has_open_attempt:
  assumes "jobs_inv db" and "r \<in> set (db_jobs db)" and "fenced f r"
  shows "list_ex (open_attempt f) (db_attempts db)"
proof -
  from jobs_inv_row [OF assms(1,2)] have "job_history r (attempts_of db (jr_id r))" by simp
  from fenced_open_attempt [OF this assms(3)] obtain as0 a where
    "attempts_of db (jr_id r) = as0 @ [a]" "open_attempt f a" by metis
  then have "a \<in> set (attempts_of db (jr_id r))" by simp
  then show ?thesis using \<open>open_attempt f a\<close> by (auto simp: list_ex_iff)
qed

lemma finish_result:
  assumes "jobs_inv db" and "r \<in> set (db_jobs db)" and "fenced f r"
  shows "finish now clock f outcome s err delay code db =
     (if list_ex (\<lambda>a. open_attempt f a \<and> now < ja_started_at a) (db_attempts db)
      then Inl (IntegrityError ''ck_job_attempt_finish'')
      else Inr (finished_db now clock f outcome (finish_code code err) s err delay db))"
proof -
  have "list_ex (fenced f) (db_jobs db)" using assms(2,3) by (auto simp: list_ex_iff)
  with fenced_has_open_attempt [OF assms] show ?thesis
    by (auto simp: finish_def try_close_attempt_def set_job_state_def finished_db_def closed_db_def
        finish_code_def update_jobs_def Let_def)
qed

subsection \<open>Enqueueing\<close>

lemma new_job_row_ok:
  assumes "validate_enqueue c = Inr u" and "is_ok (make_job_key (jk_type (ej_key c)) (jk_version (ej_key c)))"
  shows "job_row_checks (new_job_row i now c payload)"
  using assms
  by (auto simp: new_job_row_def job_row_checks_def validate_enqueue_def make_job_key_def
      require_bounded_text_def max_job_type_length_def bind_result_eq_Inr is_ok_iff
      split: if_splits option.splits prod.splits)

lemma new_job_history: "job_history (new_job_row i now c payload) []"
  by (simp add: job_history_def new_job_row_def)

lemma enqueue_inv:
  assumes inv: "jobs_inv db"
    and key: "is_ok (make_job_key (jk_type (ej_key c)) (jk_version (ej_key c)))"
    and run: "enqueue frepr known now i c db = Inr (res, db')"
  shows "jobs_inv db'"
proof (cases "db' = db")
  case False
  with run obtain payload where valid: "validate_enqueue c = Inr ()"
    and fresh: "find_job db i = None"
    and unique: "\<And>scope k. ej_scope c = Some scope \<Longrightarrow> ej_idempotency_key c = Some k \<Longrightarrow>
      find_idempotent scope k db = None"
    and db': "db' = db\<lparr>db_jobs := db_jobs db @ [new_job_row i now c payload]\<rparr>"
    by (auto simp: enqueue_def bind_result_eq_Inr Let_def split: option.splits if_splits prod.splits)
  let ?r = "new_job_row i now c payload"
  note schema = jobs_inv_schema [OF inv]
  have no_id: "i \<notin> jr_id ` set (db_jobs db)"
    using fresh by (auto simp: find_job_def find_None_iff)
  then have none: "attempts_of db i = []"
    using schema by (auto simp: attempts_of_def schema_ok_def filter_empty_conv)
  have "job_idempotency ?r \<notin> job_idempotency ` {r \<in> set (db_jobs db). jr_key r \<noteq> None}"
    if "jr_key ?r \<noteq> None"
  proof
    assume "job_idempotency ?r \<in> job_idempotency ` {r \<in> set (db_jobs db). jr_key r \<noteq> None}"
    then obtain r where r: "r \<in> set (db_jobs db)" "jr_key r \<noteq> None"
      "job_idempotency ?r = job_idempotency r" by auto
    from that valid obtain scope k where c: "ej_scope c = Some scope" "ej_idempotency_key c = Some k"
      by (auto simp: validate_enqueue_def new_job_row_def bind_result_eq_Inr
          split: if_splits option.splits)
    with r have "jr_scope r = Some scope \<and> jr_key r = Some k"
      by (auto simp: job_idempotency_def new_job_row_def)
    with r(1) unique [OF c] show False by (auto simp: find_idempotent_def find_None_iff)
  qed
  moreover have "jr_id ?r = i" by (simp add: new_job_row_def)
  ultimately show ?thesis
    using inv no_id none new_job_row_ok [OF valid key] new_job_history
    unfolding db' jobs_inv_def schema_ok_def
    by (auto simp: attempts_of_def image_iff)
qed (use inv in simp)

subsection \<open>Claiming\<close>

lemma distinct_take_sorted:
  "distinct (map k xs) \<Longrightarrow> distinct (map k (take n (sort_key o' (filter P xs))))"
proof -
  assume "distinct (map k xs)"
  then have "distinct (map k (sort_key o' (filter P xs)))"
    by (auto simp: distinct_map distinct_sort intro: inj_on_subset)
  then show ?thesis by (simp add: take_map [symmetric])
qed

lemma set_take_sorted: "x \<in> set (take n (sort_key k (filter P xs))) \<Longrightarrow> x \<in> set xs \<and> P x"
  by (drule in_set_takeD) simp

lemma claim_candidates_in:
  assumes "r \<in> set (claim_candidates locked now supported limit db)"
  shows "r \<in> set (db_jobs db)" and "claimable now supported db r" and "\<not> locked (jr_id r)"
  using set_take_sorted [OF assms [unfolded claim_candidates_def]] by auto

lemma claim_candidates_distinct:
  "schema_ok db \<Longrightarrow> distinct (map jr_id (claim_candidates locked now supported limit db))"
  unfolding claim_candidates_def schema_ok_def by (intro distinct_take_sorted) simp

definition opened_attempts ::
  "(uuid \<Rightarrow> uuid) \<Rightarrow> instant \<Rightarrow> instant \<Rightarrow> string \<Rightarrow> duration \<Rightarrow> job_row list \<Rightarrow> attempt_row list" where
  "opened_attempts attempt_id now clock worker interval =
     map (\<lambda>r. new_attempt attempt_id now worker
       (bump_row_version clock (claim_row worker now interval r)))"

definition claimed_db ::
  "(uuid \<Rightarrow> uuid) \<Rightarrow> instant \<Rightarrow> instant \<Rightarrow> string \<Rightarrow> duration \<Rightarrow> job_row list \<Rightarrow> jobs_db \<Rightarrow> jobs_db" where
  "claimed_db attempt_id now clock worker interval cs db =
     db\<lparr>db_jobs := update_jobs clock (\<lambda>r. jr_id r \<in> jr_id ` set cs) (claim_row worker now interval)
          (db_jobs db),
        db_attempts := db_attempts db @ opened_attempts attempt_id now clock worker interval cs\<rparr>"

lemma opened_attempts_of:
  assumes "distinct (map jr_id cs)"
  shows "c \<in> set cs \<Longrightarrow>
      filter (\<lambda>a. ja_job a = jr_id c) (opened_attempts attempt_id now clock worker interval cs) =
      [new_attempt attempt_id now worker (bump_row_version clock (claim_row worker now interval c))]"
    and "j \<notin> jr_id ` set cs \<Longrightarrow>
      filter (\<lambda>a. ja_job a = j) (opened_attempts attempt_id now clock worker interval cs) = []"
proof -
  have job: "ja_job (new_attempt attempt_id now worker
      (bump_row_version clock (claim_row worker now interval r))) = jr_id r" for r
    by (simp add: new_attempt_def claim_row_def)
  show none: "filter (\<lambda>a. ja_job a = j) (opened_attempts attempt_id now clock worker interval cs) = []"
    if "j \<notin> jr_id ` set cs" for cs j
    using that by (auto simp: opened_attempts_def filter_empty_conv job)
  show "c \<in> set cs \<Longrightarrow>
      filter (\<lambda>a. ja_job a = jr_id c) (opened_attempts attempt_id now clock worker interval cs) =
      [new_attempt attempt_id now worker (bump_row_version clock (claim_row worker now interval c))]"
    using assms
  proof (induction cs)
    case (Cons d cs)
    show ?case
    proof (cases "d = c")
      case True
      with Cons.prems none [of "jr_id c" cs] show ?thesis by (simp add: opened_attempts_def job)
    next
      case False
      with Cons have "jr_id d \<noteq> jr_id c" by auto
      with Cons False show ?thesis by (simp add: opened_attempts_def job)
    qed
  qed simp
qed

lemma claimed_inv:
  assumes inv: "jobs_inv db" and worker: "validate_worker_id worker = Inr u"
    and cs: "\<And>r. r \<in> set cs \<Longrightarrow> r \<in> set (db_jobs db) \<and> (jr_state r = QUEUED \<or> jr_state r = RETRY_WAIT)"
    and distinct: "distinct (map jr_id cs)"
    and ids: "distinct (map ja_id (db_attempts db @ opened_attempts attempt_id now clock worker interval cs))"
    and nos: "distinct (map (\<lambda>a. (ja_job a, ja_no a))
      (db_attempts db @ opened_attempts attempt_id now clock worker interval cs))"
  shows "jobs_inv (claimed_db attempt_id now clock worker interval cs db)"
  unfolding claimed_db_def
proof (rule inv_update [OF inv])
  let ?opened = "opened_attempts attempt_id now clock worker interval cs"
  fix r' assume "r' \<in> set (update_jobs clock (\<lambda>r. jr_id r \<in> jr_id ` set cs)
      (claim_row worker now interval) (db_jobs db))"
  then obtain r where r: "r \<in> set (db_jobs db)" "r' = (if jr_id r \<in> jr_id ` set cs
      then bump_row_version clock (claim_row worker now interval r) else r)"
    by (auto simp: update_jobs_def in_update_rows)
  note row_ok = jobs_inv_row [OF inv r(1)]
  show "job_row_checks r' \<and> job_history r' (filter (\<lambda>a. ja_job a = jr_id r') (db_attempts db @ ?opened))"
  proof (cases "jr_id r \<in> jr_id ` set cs")
    case True
    then obtain c where "c \<in> set cs" "jr_id c = jr_id r" by auto
    moreover from this have "c = r"
      using cs r(1) inv by (auto simp: jobs_inv_def schema_ok_def distinct_map inj_on_def)
    ultimately have c: "r \<in> set cs" by simp
    have "0 \<le> jr_attempts r" using row_ok by (simp add: job_row_checks_def)
    with row_ok cs [OF c] have "job_history (claim_row worker now interval r)
      (attempts_of db (jr_id r) @ [new_attempt attempt_id now worker
        (bump_row_version clock (claim_row worker now interval r))])"
      by (intro history_claim) auto
    moreover have "jr_id (claim_row worker now interval r) = jr_id r" by (simp add: claim_row_def)
    ultimately show ?thesis
      using r(2) True row_ok opened_attempts_of(1) [OF distinct c]
      by (simp add: claim_row_ok attempts_of_def)
  next
    case False
    with r(2) row_ok opened_attempts_of(2) [OF distinct False] show ?thesis
      by (simp add: attempts_of_def)
  qed
next
  fix a assume "a \<in> set (db_attempts db @ opened_attempts attempt_id now clock worker interval cs)"
  then consider "a \<in> set (db_attempts db)" | r where "r \<in> set cs"
    "a = new_attempt attempt_id now worker (bump_row_version clock (claim_row worker now interval r))"
    by (auto simp: opened_attempts_def)
  then show "attempt_row_checks a"
  proof cases
    case 1
    then show ?thesis using inv by (simp add: jobs_inv_def schema_ok_def list_all_iff)
  next
    case 2
    from cs [OF 2(1)] jobs_inv_row [OF inv] have "0 \<le> jr_attempts r"
      by (simp add: job_row_checks_def)
    with 2(2) worker show ?thesis
      by (simp add: attempt_row_checks_def new_attempt_def claim_row_def validate_worker_id_def
          validate_bounded_text_def max_worker_id_length_def)
  qed
next
  show "ja_job ` set (db_attempts db @ opened_attempts attempt_id now clock worker interval cs)
      \<subseteq> jr_id ` set (db_jobs db)"
    using inv cs by (auto simp: jobs_inv_def schema_ok_def opened_attempts_def new_attempt_def
        claim_row_def)
qed (use ids nos in \<open>simp_all add: update_jobs_def claim_write.keys_update_rows\<close>)

lemma claim_eq:
  assumes "supported \<noteq> []" and cs_def: "cs = claim_candidates locked now supported limit db"
  shows "claim locked now clock attempt_id worker supported interval limit db =
     bind_result (validate_worker_id worker) (\<lambda>_.
     bind_result (validate_lease_interval interval) (\<lambda>_.
     bind_result (validate_limit limit max_claim_batch ''claim limit'') (\<lambda>_.
     if \<not> distinct (map ja_id (db_attempts db @ opened_attempts attempt_id now clock worker interval cs))
     then Inl (IntegrityError ''job_attempt_pkey'')
     else if \<not> distinct (map (\<lambda>a. (ja_job a, ja_no a))
       (db_attempts db @ opened_attempts attempt_id now clock worker interval cs))
     then Inl (IntegrityError ''uq_job_attempt_number'')
     else bind_result (map_result (\<lambda>(_, r). lease_from_row r) (sort_key claimed_order
            (map (\<lambda>r. (r, bump_row_version clock (claim_row worker now interval r))) cs)))
       (\<lambda>leases. Inr (leases, claimed_db attempt_id now clock worker interval cs db)))))"
proof -
  have "map (\<lambda>(_, r). new_attempt attempt_id now worker r)
      (map (\<lambda>r. (r, bump_row_version clock (claim_row worker now interval r))) cs) =
    opened_attempts attempt_id now clock worker interval cs" for cs
    by (simp add: opened_attempts_def)
  then show ?thesis
    using assms(1) by (simp only: claim_def Let_def cs_def claimed_db_def if_False) simp
qed

lemma claim_Inr:
  assumes "claim locked now clock attempt_id worker supported interval limit db = Inr (leases, db')"
    and "supported \<noteq> []"
  defines "cs \<equiv> claim_candidates locked now supported limit db"
  shows "db' = claimed_db attempt_id now clock worker interval cs db"
    and "validate_worker_id worker = Inr ()" and "validate_lease_interval interval = Inr ()"
    and "1 \<le> limit" and "limit \<le> 100"
    and "distinct (map ja_id (db_attempts db @ opened_attempts attempt_id now clock worker interval cs))"
    and "distinct (map (\<lambda>a. (ja_job a, ja_no a))
      (db_attempts db @ opened_attempts attempt_id now clock worker interval cs))"
  using assms(1) unfolding claim_eq [OF assms(2) refl] cs_def result_simps
    validate_limit_def max_claim_batch_def require_eq_Inr
  by (auto simp only: sum.inject prod.inject)

lemma claim_inv:
  assumes "jobs_inv db"
    and "claim locked now clock attempt_id worker supported interval limit db = Inr (leases, db')"
  shows "jobs_inv db'"
proof (cases "supported = []")
  case True
  with assms show ?thesis by (auto simp: claim_def bind_result_eq_Inr)
next
  case False
  note run = claim_Inr [OF assms(2) False]
  show ?thesis unfolding run(1)
  proof (rule claimed_inv [OF assms(1) run(2)])
    fix r assume "r \<in> set (claim_candidates locked now supported limit db)"
    from claim_candidates_in [OF this]
    show "r \<in> set (db_jobs db) \<and> (jr_state r = QUEUED \<or> jr_state r = RETRY_WAIT)"
      by (simp add: claimable_def)
  qed (use claim_candidates_distinct [OF jobs_inv_schema [OF assms(1)]] run(6,7) in auto)
qed

end
