(* ===== verification/Jobs_Recovery.thy ===== *)
theory Jobs_Recovery
  imports Jobs_Correct
begin

text \<open>
  The loop of \<open>recover_expired\<close>: every locked row leaves the running state through its open attempt,
  the loop keeps the invariant, and in a consistent schema it meets no broken row.
\<close>

subsection \<open>One row\<close>

lemma close_then_set:
  assumes "try_close_attempt now f outcome code db = Inr (shut, db1)"
    and "set_job_state now clock f s err delay db1 = Inr db2"
  shows "\<not> list_ex (\<lambda>a. open_attempt f a \<and> now < ja_started_at a) (db_attempts db)"
    and "list_ex (fenced f) (db_jobs db)"
    and "db2 = finished_db now clock f outcome code s err delay db"
  using assms
  by (auto simp: try_close_attempt_def set_job_state_def finished_db_def closed_db_def update_jobs_def
      Let_def split: if_splits)

text \<open>What a row's recovery writes, and when.\<close>

definition recovery_outcome :: "job_row \<Rightarrow> attempt_outcome \<times> string option" where
  "recovery_outcome row =
     (if jr_cancel_at row \<noteq> None then (AttemptCancelled, None)
      else (LeaseExpired, Some ''job.lease_expired''))"

definition recovery_state :: "retry_policy \<Rightarrow> job_row \<Rightarrow> job_state" where
  "recovery_state policy row =
     (if jr_cancel_at row \<noteq> None then CANCELLED
      else if max_attempts policy \<le> jr_attempts row - jr_waits row then FAILED
      else RETRY_WAIT)"

lemma recover_row_cases:
  assumes "recover_row frepr sha256 now clock policy row db = Inr (job, db')"
  obtains worker f shut s err delay where
    "jr_lease_owner row = Some worker"
    and "f = \<lparr>lf_job = jr_id row, lf_worker = worker, lf_attempt = jr_attempts row\<rparr>"
    and "shut = list_ex (open_attempt f) (db_attempts db)"
    and "s = (if shut then recovery_state policy row else FAILED)"
    and "job = \<lparr>rj_job = jr_id row, rj_attempt = jr_attempts row, rj_state = s\<rparr>"
    and "\<not> list_ex (\<lambda>a. open_attempt f a \<and> now < ja_started_at a) (db_attempts db)"
    and "list_ex (fenced f) (db_jobs db)"
    and "db' = finished_db now clock f (fst (recovery_outcome row)) (snd (recovery_outcome row))
           s err delay db"
    and "0 \<le> jr_attempts row - jr_waits row \<Longrightarrow> s = RETRY_WAIT \<Longrightarrow>
           delay_for sha256 policy (jr_id row) (jr_attempts row - jr_waits row) = Inr delay"
proof -
  from assms obtain worker where w: "jr_lease_owner row = Some worker"
    by (cases "jr_lease_owner row") (simp_all add: recover_row_def)
  let ?f = "\<lparr>lf_job = jr_id row, lf_worker = worker, lf_attempt = jr_attempts row\<rparr>"
  let ?o = "recovery_outcome row"
  from assms w obtain shut s err delay db1 where
    close: "try_close_attempt now ?f (fst ?o) (snd ?o) db = Inr (shut, db1)"
    and set: "set_job_state now clock ?f s err delay db1 = Inr db'"
    and s: "s = (if shut then recovery_state policy row else FAILED)"
    and job: "job = \<lparr>rj_job = jr_id row, rj_attempt = jr_attempts row, rj_state = s\<rparr>"
    and delay: "s = RETRY_WAIT \<Longrightarrow>
      delay_for sha256 policy (jr_id row) (jr_attempts row - jr_waits row) = Inr delay"
    by (auto simp: recover_row_def make_lease_fence_def recovery_outcome_def recovery_state_def
        bind_result_eq_Inr Let_def split: if_splits prod.splits)
  from close have "shut = list_ex (open_attempt ?f) (db_attempts db)"
    by (auto simp: try_close_attempt_def Let_def split: if_splits)
  from that [OF w refl this s job close_then_set [OF close set] delay] show thesis by blast
qed

lemma recovery_state_not: "recovery_state policy row \<notin> {RUNNING, COMPLETED, QUEUED, PAUSED}"
  by (simp add: recovery_state_def)

lemma recover_row_inv:
  assumes "jobs_inv db" and "recover_row frepr sha256 now clock policy row db = Inr (job, db')"
  shows "jobs_inv db'"
  using assms(2)
proof (cases rule: recover_row_cases)
  case (1 worker f shut s err delay)
  show ?thesis unfolding 1(8)
    by (rule finished_inv [OF assms(1) 1(6)])
      (use 1(4) recovery_state_not [of policy row] in \<open>auto simp: recovery_outcome_def\<close>)
qed

lemma recover_rows_inv:
  "jobs_inv db \<Longrightarrow> recover_rows frepr sha256 now clock policy rows i db = Inr (js, db') \<Longrightarrow> jobs_inv db'"
  by (induction rows arbitrary: i db js)
    (fastforce simp: bind_result_eq_Inr dest: recover_row_inv)+

lemma recover_expired_inv:
  assumes "jobs_inv db"
    and "recover_expired frepr sha256 locked now clock supported limit policy db = Inr (js, db')"
  shows "jobs_inv db'"
  using assms by (auto simp: recover_expired_def bind_result_eq_Inr split: if_splits
      intro: recover_rows_inv)

subsection \<open>The errors the repository writes itself\<close>

lemma document_text_bound:
  "utf8_length (encode_string s) \<le> 12 * len s + 2"
proof -
  have digits: "length (escape_char c) \<le> 6" for c
    by (simp add: escape_char_def Let_def)
  have one: "utf8_length s \<le> 2 * len s" for s
    by (induction s) (auto simp: utf8_length_def)
  have app: "utf8_length (s @ t) = utf8_length s + utf8_length t" for s t
    by (simp add: utf8_length_def)
  have all: "utf8_length (concat (map escape_char s)) \<le> 12 * len s" for s
  proof (induction s)
    case (Cons c s)
    have "utf8_length (escape_char c) \<le> 12" using one [of "escape_char c"] digits [of c] by simp
    with Cons show ?case by (simp add: app)
  qed (simp add: utf8_length_def)
  have "utf8_length (encode_string s) = utf8_length (concat (map escape_char s)) + 2"
    by (simp add: encode_string_def utf8_length_def)
  with all [of s] show ?thesis by simp
qed

lemma harmless_keys:
  "\<not> is_sensitive_key ''last_error_code''" "\<not> is_sensitive_key ''retry_exhausted''"
  "\<not> is_sensitive_key ''missing_open_attempt''"
  by code_simp+

lemma own_error_codes:
  "validate_error_code ''job.retry_exhausted'' = Inr ()"
  "validate_error_code ''job.lease_expired'' = Inr ()"
  "validate_error_code ''job.persistence_invariant'' = Inr ()"
  by code_simp+

lemma make_job_error_Inr:
  "make_job_error frepr code detail = Inr e \<longleftrightarrow>
     validate_error_code code = Inr ()
     \<and> validate_job_document frepr detail ''error_detail'' max_error_detail_bytes = Inr detail
     \<and> e = \<lparr>je_code = code, je_detail = detail\<rparr>"
  by (auto simp: make_job_error_def bind_result_eq_Inr validate_job_document_iff)

lemma utf8_length_append: "utf8_length (s @ t) = utf8_length s + utf8_length t"
  by (simp add: utf8_length_def)

lemma exhausted_detail_dump:
  "json_dumps frepr (JDict (exhausted_detail code)) =
     Some (''{'' @ encode_string ''last_error_code'' @ '':'' @ encode_string code @ '',''
       @ encode_string ''retry_exhausted'' @ '':true}'')"
proof -
  have "''last_error_code'' \<le> ''retry_exhausted''" by code_simp
  then have "sort_key fst [(''last_error_code'', encode_string code), (''retry_exhausted'', ''true'')] =
    [(''last_error_code'', encode_string code), (''retry_exhausted'', ''true'')]"
    by simp
  then show ?thesis by (simp add: exhausted_detail_def encode_members_def)
qed

lemma exhausted_error:
  assumes "len code \<le> max_error_code_length"
  shows "make_job_error frepr ''job.retry_exhausted'' (exhausted_detail code) =
     Inr \<lparr>je_code = ''job.retry_exhausted'', je_detail = exhausted_detail code\<rparr>"
proof -
  have "utf8_length (encode_string code) \<le> 2402"
    using document_text_bound [of code] assms by (simp add: max_error_code_length_def)
  moreover have "utf8_length (encode_string ''last_error_code'') \<le> 200"
    "utf8_length (encode_string ''retry_exhausted'') \<le> 200"
    using document_text_bound [of "''last_error_code''"] document_text_bound [of "''retry_exhausted''"]
    by simp_all
  moreover have "utf8_length ''{'' = 1" "utf8_length '':'' = 1" "utf8_length '','' = 1"
    "utf8_length '':true}'' = 6" by code_simp+
  ultimately have "utf8_length (''{'' @ encode_string ''last_error_code'' @ '':'' @ encode_string code
      @ '','' @ encode_string ''retry_exhausted'' @ '':true}'') \<le> max_error_detail_bytes"
    by (simp only: utf8_length_append max_error_detail_bytes_def)
  moreover have "clean_items (exhausted_detail code)" "nesting_items (exhausted_detail code) \<le> max_json_depth"
    by (simp_all add: exhausted_detail_def harmless_keys max_json_depth_def)
  ultimately show ?thesis
    unfolding make_job_error_Inr validate_job_document_iff exhausted_detail_dump
    by (simp add: own_error_codes max_error_detail_bytes_def)
qed

lemma lease_expired_error:
  "make_job_error frepr ''job.lease_expired'' [] = Inr \<lparr>je_code = ''job.lease_expired'', je_detail = []\<rparr>"
proof -
  have "utf8_length (encode_members []) \<le> max_error_detail_bytes" by code_simp
  then show ?thesis
    unfolding make_job_error_Inr validate_job_document_iff
    by (simp add: own_error_codes max_error_detail_bytes_def max_json_depth_def)
qed

subsection \<open>Every locked row is recovered\<close>

text \<open>
  A row the statement locked is recovered without an exception when no clock went backwards since
  its claim and its attempt number fits the eight bytes the retry policy hashes.
\<close>

definition started_by :: "instant \<Rightarrow> jobs_db \<Rightarrow> bool" where
  "started_by now db \<longleftrightarrow> (\<forall>a \<in> set (db_attempts db). ja_outcome a = None \<longrightarrow> ja_started_at a \<le> now)"

lemma started_by_open:
  "started_by now db \<Longrightarrow> \<not> list_ex (\<lambda>a. open_attempt f a \<and> now < ja_started_at a) (db_attempts db)"
  by (auto simp: started_by_def list_ex_iff open_attempt_def)

lemma recover_row_ok:
  assumes inv: "jobs_inv db" and row: "row \<in> set (db_jobs db)" and run: "jr_state row = RUNNING"
    and started: "started_by now db" and policy: "policy_ok policy" and small: "jr_attempts row < 2 ^ 64"
  obtains db' where "recover_row frepr sha256 now clock policy row db =
     Inr (\<lparr>rj_job = jr_id row, rj_attempt = jr_attempts row, rj_state = recovery_state policy row\<rparr>, db')"
proof -
  from jobs_inv_row [OF inv row] have hist: "job_history row (attempts_of db (jr_id row))" by simp
  from history_running [OF hist run] obtain as0 a where a: "attempts_of db (jr_id row) = as0 @ [a]"
    "ja_outcome a = None" "jr_lease_owner row = Some (ja_worker a)" by metis
  let ?f = "\<lparr>lf_job = jr_id row, lf_worker = ja_worker a, lf_attempt = jr_attempts row\<rparr>"
  have "a \<in> set (attempts_of db (jr_id row))" unfolding a(1) by simp
  then have "a \<in> set (db_attempts db)" by simp
  with inv have worker: "1 \<le> len (ja_worker a)" "len (ja_worker a) \<le> 300"
    by (auto simp: jobs_inv_def schema_ok_def list_all_iff attempt_row_checks_def)
  have fence: "fenced ?f row" using run a(3) by (simp add: fenced_def)
  have pos: "1 \<le> jr_attempts row - jr_waits row" "jr_attempts row - jr_waits row < 2 ^ 64" "1 \<le> jr_attempts row"
    using history_waits_less [OF hist run] small by linarith+
  obtain d where d: "delay_for sha256 policy (jr_id row) (jr_attempts row - jr_waits row) = Inr d"
    using delay_for_bounds [OF policy pos(1,2)] by metis
  have close: "try_close_attempt now ?f out code db = Inr (True,
      db\<lparr>db_attempts := update_rows (open_attempt ?f) (close_row now out code) (db_attempts db)\<rparr>)"
    for out code
    using started_by_open [OF started, of ?f] fenced_has_open_attempt [OF inv row fence]
    by (simp add: try_close_attempt_def)
  have set: "set_job_state now clock ?f s e delay (db\<lparr>db_attempts := as\<rparr>) =
      Inr (db\<lparr>db_jobs := update_jobs clock (fenced ?f) (set_state_row now s e delay) (db_jobs db),
              db_attempts := as\<rparr>)"
    for s e delay as
    using row fence by (auto simp: set_job_state_def list_ex_iff)
  have "\<exists>db'. recover_row frepr sha256 now clock policy row db =
     Inr (\<lparr>rj_job = jr_id row, rj_attempt = jr_attempts row, rj_state = recovery_state policy row\<rparr>, db')"
    using worker pos a(3) d set
      exhausted_error [of "''job.lease_expired''" frepr]
    by (auto simp: recover_row_def make_lease_fence_def require_bounded_text_def
        max_worker_id_length_def close recovery_state_def lease_expired_error
        max_error_code_length_def Let_def)
  with that show thesis by blast
qed

lemma finished_db_other:
  assumes "row \<in> set (db_jobs db)" and "jr_id row \<noteq> lf_job f"
  shows "row \<in> set (db_jobs (finished_db now clock f outcome code s err delay db))"
  using assms by (auto simp: finished_db_def closed_db_def in_update_rows fenced_def)

lemma finished_db_started:
  "started_by now' db \<Longrightarrow> started_by now' (finished_db now clock f outcome code s err delay db)"
  by (auto simp: started_by_def finished_db_def closed_db_def in_update_rows close_row_def
      split: if_splits)

lemma recover_row_shape:
  assumes "recover_row frepr sha256 now clock policy row db = Inr (job, db')"
  shows "\<exists>f out code s e d. lf_job f = jr_id row \<and> db' = finished_db now clock f out code s e d db"
  using assms
proof (cases rule: recover_row_cases)
  case (1 worker f shut s err delay)
  then have "lf_job f = jr_id row" by simp
  with 1(8) show ?thesis by blast
qed

definition recovered_as :: "retry_policy \<Rightarrow> job_row \<Rightarrow> recovered_job" where
  "recovered_as policy row =
     \<lparr>rj_job = jr_id row, rj_attempt = jr_attempts row, rj_state = recovery_state policy row\<rparr>"

lemma recover_rows_ok:
  assumes "jobs_inv db" and "policy_ok policy" and "started_by now db"
    and "distinct (map jr_id rows)"
    and "\<And>r. r \<in> set rows \<Longrightarrow> r \<in> set (db_jobs db) \<and> jr_state r = RUNNING \<and> jr_attempts r < 2 ^ 64"
  shows "\<exists>db'. recover_rows frepr sha256 now clock policy rows i db =
     Inr (map (recovered_as policy) rows, db')"
  using assms
proof (induction rows arbitrary: i db)
  case (Cons row rows)
  from Cons.prems(5) [of row] have row: "row \<in> set (db_jobs db)" "jr_state row = RUNNING"
    "jr_attempts row < 2 ^ 64" by simp_all
  from recover_row_ok [OF Cons.prems(1) row(1,2) Cons.prems(3,2) row(3)] obtain db1 where
    step: "recover_row frepr sha256 now (clock i) policy row db = Inr (recovered_as policy row, db1)"
    unfolding recovered_as_def by metis
  from recover_row_shape [OF step] obtain f out code s e d where f: "lf_job f = jr_id row"
    "db1 = finished_db now (clock i) f out code s e d db" by blast
  have "\<exists>db'. recover_rows frepr sha256 now clock policy rows (Suc i) db1 =
     Inr (map (recovered_as policy) rows, db')"
  proof (rule Cons.IH)
    show "jobs_inv db1" using Cons.prems(1) step by (rule recover_row_inv)
    show "started_by now db1" unfolding f(2) using Cons.prems(3) by (rule finished_db_started)
    show "r \<in> set (db_jobs db1) \<and> jr_state r = RUNNING \<and> jr_attempts r < 2 ^ 64"
      if "r \<in> set rows" for r
    proof -
      have "jr_id r \<in> jr_id ` set rows" using that by (rule imageI)
      moreover have "jr_id row \<notin> jr_id ` set rows" using Cons.prems(4) by simp
      ultimately have "jr_id r \<noteq> lf_job f" unfolding f(1) by metis
      then have "r \<in> set (db_jobs db1)"
        using that Cons.prems(5) [of r] unfolding f(2) by (intro finished_db_other) simp_all
      with that Cons.prems(5) [of r] show ?thesis by simp
    qed
  qed (use Cons.prems in auto)
  then show ?case using step by auto
qed simp

lemma lock_expired_in:
  assumes "r \<in> set (lock_expired locked now supported limit db)"
  shows "r \<in> set (db_jobs db)" and "expired_lease now supported r" and "\<not> locked (jr_id r)"
  using set_take_sorted [OF assms [unfolded lock_expired_def]] by auto

lemma lock_expired_distinct:
  "schema_ok db \<Longrightarrow> distinct (map jr_id (lock_expired locked now supported limit db))"
  unfolding lock_expired_def schema_ok_def by (intro distinct_take_sorted) simp

end
