(* ===== verification/Resource_Domain.thy ===== *)
theory Resource_Domain
  imports Jobs_Domain
begin

text \<open>
  The values of \<open>server/src/autplay/domain/resource_admission.py\<close> and \<open>resource_policy.py\<close>: account
  limits and their overrides, the measured global budget, fenced admissions with their deadlines, and
  the versioned quota edits.
\<close>

subsection \<open>Bounds\<close>

definition max_limit :: int where "max_limit = 1000000"
definition lease_ttl :: duration where "lease_ttl = seconds 30"
definition reservation_ttl :: duration where "reservation_ttl = seconds 15"
definition waiting_ttl :: duration where "waiting_ttl = seconds 45"
definition io_permit_ttl :: duration where "io_permit_ttl = seconds 5"
definition terminal_retention :: duration where "terminal_retention = days 7"
definition max_waiting_per_account :: nat where "max_waiting_per_account = 20"

subsection \<open>Kinds, states, errors\<close>

datatype resource_kind = PLAYBACK | TRANSFER

datatype admission_state = Waiting | Active | Released | Expired

datatype authority_kind = DeviceSession | ServerAcquisition | LocalBridge

datatype resource_type =
  PlayInstance | DownloadIntent | UploadIntent | InternetAcquisition | DiscoveryAcquisition

datatype resource_exn =
    ResourceAdmissionError string
  | ResourceValueError
  | ResourceIntegrityError string

abbreviation admission_unavailable :: resource_exn where
  "admission_unavailable \<equiv> ResourceAdmissionError ''resource_admission_unavailable''"

subsection \<open>Limits\<close>

definition positive_limit :: "int \<Rightarrow> resource_exn + int" where
  "positive_limit v =
     (if \<not> (1 \<le> v \<and> v \<le> max_limit) then Inl (ResourceAdmissionError ''resource_limit_invalid'')
      else Inr v)"

record account_limits =
  al_devices :: int
  al_playbacks :: int
  al_transfers :: int

definition make_account_limits :: "int \<Rightarrow> int \<Rightarrow> int \<Rightarrow> resource_exn + account_limits" where
  "make_account_limits devices playbacks transfers =
     bind_result (positive_limit devices) (\<lambda>_.
     bind_result (positive_limit playbacks) (\<lambda>_.
     bind_result (positive_limit transfers) (\<lambda>_.
     Inr \<lparr>al_devices = devices, al_playbacks = playbacks, al_transfers = transfers\<rparr>)))"

definition limit_for_kind :: "account_limits \<Rightarrow> resource_kind \<Rightarrow> int" where
  "limit_for_kind l k = (if k = PLAYBACK then al_playbacks l else al_transfers l)"

record limit_override =
  lo_devices :: "int option"
  lo_playbacks :: "int option"
  lo_transfers :: "int option"

definition optional_limit :: "int option \<Rightarrow> resource_exn + unit" where
  "optional_limit v =
     (case v of None \<Rightarrow> Inr () | Some n \<Rightarrow> bind_result (positive_limit n) (\<lambda>_. Inr ()))"

definition make_limit_override ::
  "int option \<Rightarrow> int option \<Rightarrow> int option \<Rightarrow> resource_exn + limit_override" where
  "make_limit_override devices playbacks transfers =
     bind_result (optional_limit devices) (\<lambda>_.
     bind_result (optional_limit playbacks) (\<lambda>_.
     bind_result (optional_limit transfers) (\<lambda>_.
     Inr \<lparr>lo_devices = devices, lo_playbacks = playbacks, lo_transfers = transfers\<rparr>)))"

definition override_value :: "int \<Rightarrow> int option \<Rightarrow> int" where
  "override_value std v = (case v of None \<Rightarrow> std | Some n \<Rightarrow> n)"

definition effective_limits :: "limit_override \<Rightarrow> account_limits \<Rightarrow> resource_exn + account_limits" where
  "effective_limits o' defaults =
     make_account_limits (override_value (al_devices defaults) (lo_devices o'))
       (override_value (al_playbacks defaults) (lo_playbacks o'))
       (override_value (al_transfers defaults) (lo_transfers o'))"

lemma positive_limit_Inr [simp]: "positive_limit v = Inr w \<longleftrightarrow> w = v \<and> 1 \<le> v \<and> v \<le> max_limit"
  by (auto simp: positive_limit_def)

lemma make_account_limits_Inr:
  "make_account_limits d p t = Inr l \<longleftrightarrow>
     l = \<lparr>al_devices = d, al_playbacks = p, al_transfers = t\<rparr>
     \<and> (\<forall>v \<in> {d, p, t}. 1 \<le> v \<and> v \<le> max_limit)"
  by (auto simp: make_account_limits_def bind_result_eq_Inr)

lemma make_limit_override_Inr:
  "make_limit_override d p t = Inr l \<longleftrightarrow>
     l = \<lparr>lo_devices = d, lo_playbacks = p, lo_transfers = t\<rparr>
     \<and> (\<forall>v. Some v \<in> {d, p, t} \<longrightarrow> 1 \<le> v \<and> v \<le> max_limit)"
  by (auto simp: make_limit_override_def optional_limit_def bind_result_eq_Inr split: option.splits)

text \<open>A measured budget stays below the ceilings that were measured.\<close>

record global_budget =
  gb_playbacks :: int
  gb_transfers :: int
  gb_playback_ceiling :: int
  gb_transfer_ceiling :: int
  gb_evidence :: string

definition make_global_budget ::
  "int \<Rightarrow> int \<Rightarrow> int \<Rightarrow> int \<Rightarrow> string \<Rightarrow> resource_exn + global_budget" where
  "make_global_budget p t pc tc evidence =
     bind_result (positive_limit p) (\<lambda>_.
     bind_result (positive_limit t) (\<lambda>_.
     bind_result (positive_limit pc) (\<lambda>_.
     bind_result (positive_limit tc) (\<lambda>_.
     if pc < p \<or> tc < t then Inl (ResourceAdmissionError ''resource_budget_exceeded'')
     else if \<not> (1 \<le> len evidence \<and> len evidence \<le> 240)
             \<or> list_ex (\<lambda>c. (of_char c :: nat) < 32) evidence
     then Inl (ResourceAdmissionError ''resource_budget_evidence_required'')
     else Inr \<lparr>gb_playbacks = p, gb_transfers = t, gb_playback_ceiling = pc,
               gb_transfer_ceiling = tc, gb_evidence = evidence\<rparr>))))"

subsection \<open>Authorities, requests, fences\<close>

record activation_fence =
  af_operation :: uuid
  af_activation :: uuid
  af_generation :: int

definition make_activation_fence :: "uuid \<Rightarrow> uuid \<Rightarrow> int \<Rightarrow> resource_exn + activation_fence" where
  "make_activation_fence op activation generation =
     (if \<not> (1 \<le> generation \<and> generation \<le> 2 ^ 53 - 1)
      then Inl (ResourceAdmissionError ''resource_activation_invalid'')
      else Inr \<lparr>af_operation = op, af_activation = activation, af_generation = generation\<rparr>)"

record resource_authority =
  ra_user :: uuid
  ra_generation :: int
  ra_kind :: authority_kind
  ra_device :: "uuid option"
  ra_session_family :: "uuid option"
  ra_session_mode :: "string option"
  ra_job :: "uuid option"
  ra_job_worker :: "string option"
  ra_job_attempt :: "int option"
  ra_acquisition_attempt :: "uuid option"
  ra_source_authorization :: "uuid option"
  ra_source_revision :: "int option"
  ra_policy :: "uuid option"
  ra_policy_revision :: "int option"

record resource_request =
  rq_operation :: uuid
  rq_kind :: resource_kind
  rq_type :: resource_type
  rq_resource :: uuid
  rq_target :: "uuid option"

definition check_resource_request :: "resource_request \<Rightarrow> resource_exn + resource_request" where
  "check_resource_request q =
     (let playback = rq_kind q = PLAYBACK \<and> rq_type q = PlayInstance \<and> rq_target q = None;
          transfer = rq_kind q = TRANSFER
            \<and> rq_type q \<in> {DownloadIntent, UploadIntent, InternetAcquisition, DiscoveryAcquisition}
            \<and> rq_target q \<noteq> None
      in if \<not> (playback \<or> transfer) then Inl (ResourceAdmissionError ''resource_request_invalid'')
         else Inr q)"

text \<open>
  The actors of a request: an authenticated principal (\<open>domain/auth.py\<close>, kept as an identifier), a
  worker's acquisition claim, the local bridge. \<open>uuid5\<close> is the RFC 4122 name hash, a parameter.
\<close>

record acquisition_claim =
  ac_fence :: lease_fence
  ac_type :: resource_type
  ac_acquisition :: uuid

definition make_acquisition_claim ::
  "lease_fence \<Rightarrow> resource_type \<Rightarrow> uuid \<Rightarrow> resource_exn + acquisition_claim" where
  "make_acquisition_claim f ty acquisition =
     (if ty \<notin> {InternetAcquisition, DiscoveryAcquisition}
      then Inl (ResourceAdmissionError ''resource_request_invalid'')
      else Inr \<lparr>ac_fence = f, ac_type = ty, ac_acquisition = acquisition\<rparr>)"

definition claim_request ::
  "(resource_type \<Rightarrow> uuid \<Rightarrow> uuid) \<Rightarrow> acquisition_claim \<Rightarrow> resource_exn + resource_request" where
  "claim_request worker_uuid5 c =
     check_resource_request
       \<lparr>rq_operation = worker_uuid5 (ac_type c) (ac_acquisition c), rq_kind = TRANSFER,
        rq_type = ac_type c, rq_resource = ac_acquisition c, rq_target = Some (ac_acquisition c)\<rparr>"

record bridge_claim =
  bc_user :: uuid
  bc_device :: uuid

definition make_bridge_claim :: "(uuid \<Rightarrow> uuid) \<Rightarrow> uuid \<Rightarrow> uuid \<Rightarrow> resource_exn + bridge_claim" where
  "make_bridge_claim bridge_uuid5 user device =
     (if device \<noteq> bridge_uuid5 user then Inl (ResourceAdmissionError ''resource_request_invalid'')
      else Inr \<lparr>bc_user = user, bc_device = device\<rparr>)"

subsection \<open>Admissions\<close>

record resource_admission =
  ad_authority :: resource_authority
  ad_request :: resource_request
  ad_sha256 :: "8 word list"
  ad_state :: admission_state
  ad_activation :: "uuid option"
  ad_generation :: int
  ad_created_at :: instant
  ad_updated_at :: instant
  ad_enqueued_at :: instant
  ad_waiting_until :: "instant option"
  ad_lease_until :: "instant option"
  ad_claim_until :: "instant option"
  ad_claimed_at :: "instant option"
  ad_terminal_at :: "instant option"
  ad_attachment_revision :: int
  ad_current_recording :: "uuid option"
  ad_next_recording :: "uuid option"

definition after :: "instant option \<Rightarrow> instant \<Rightarrow> bool" where
  "after t now = (case t of None \<Rightarrow> False | Some x \<Rightarrow> now < x)"

definition up_to :: "instant option \<Rightarrow> instant \<Rightarrow> bool" where
  "up_to t now = (case t of None \<Rightarrow> False | Some x \<Rightarrow> x \<le> now)"

definition admission_fence :: "resource_admission \<Rightarrow> resource_exn + activation_fence option" where
  "admission_fence a =
     (case ad_activation a of
        None \<Rightarrow> Inr None
      | Some i \<Rightarrow>
          bind_result (make_activation_fence (rq_operation (ad_request a)) i (ad_generation a))
            (\<lambda>f. Inr (Some f)))"

definition active_at :: "resource_admission \<Rightarrow> instant \<Rightarrow> bool" where
  "active_at a now \<longleftrightarrow>
     ad_state a = Active \<and> after (ad_lease_until a) now
     \<and> (ad_claimed_at a \<noteq> None \<or> after (ad_claim_until a) now)"

definition expire :: "instant \<Rightarrow> resource_admission \<Rightarrow> resource_admission" where
  "expire now a =
     (if ad_state a \<in> {Waiting, Active}
         \<and> (if ad_state a = Active then \<not> active_at a now
            else ra_job (ad_authority a) = None
                 \<and> (case ad_waiting_until a of None \<Rightarrow> True | Some t \<Rightarrow> t \<le> now))
      then a\<lparr>ad_state := Expired, ad_terminal_at := Some now, ad_updated_at := now\<rparr>
      else a)"

record resource_usage =
  ru_account :: nat
  ru_device :: nat
  ru_server :: nat

datatype waiting_reason = AccountCapacity | DeviceCapacity | ServerCapacity

record admission_status =
  as_operation :: resource_admission
  as_limits :: account_limits
  as_usage :: resource_usage
  as_server_limit :: int
  as_waiting_reason :: "waiting_reason option"
  as_retry_after :: int

record io_permit =
  ip_id :: uuid
  ip_fence :: activation_fence
  ip_target :: uuid
  ip_expires_at :: instant

lemma expire_idem [simp]: "expire now (expire now a) = expire now a"
  by (simp add: expire_def)

lemma expire_active: "ad_state (expire now a) = Active \<Longrightarrow> active_at (expire now a) now"
  by (auto simp: expire_def active_at_def split: if_splits)

subsection \<open>Quota edits\<close>

record global_limits =
  gl_playbacks :: int
  gl_transfers :: int

definition make_global_limits :: "int \<Rightarrow> int \<Rightarrow> resource_exn + global_limits" where
  "make_global_limits p t =
     bind_result (positive_limit p) (\<lambda>_. bind_result (positive_limit t) (\<lambda>_.
     Inr \<lparr>gl_playbacks = p, gl_transfers = t\<rparr>))"

datatype quota_action = Defaults | Override | Budget

datatype quota_values =
    DefaultValues account_limits
  | OverrideValues limit_override
  | BudgetValues global_limits

record quota_change =
  qc_operation :: uuid
  qc_global_revision :: int
  qc_values :: quota_values
  qc_target :: "uuid option"
  qc_account_revision :: "int option"

definition check_quota_change :: "quota_change \<Rightarrow> resource_exn + quota_change" where
  "check_quota_change c =
     (if \<not> (1 \<le> qc_global_revision c \<and> qc_global_revision c < 2 ^ 53)
      then Inl (ResourceAdmissionError ''resource_revision_invalid'')
      else case qc_values c of
          OverrideValues _ \<Rightarrow>
            if qc_target c = None
               \<or> (case qc_account_revision c of None \<Rightarrow> True | Some r \<Rightarrow> \<not> (0 \<le> r \<and> r < 2 ^ 53))
            then Inl (ResourceAdmissionError ''resource_revision_invalid'') else Inr c
        | _ \<Rightarrow>
            if qc_target c \<noteq> None \<or> qc_account_revision c \<noteq> None
            then Inl (ResourceAdmissionError ''resource_request_invalid'') else Inr c)"

definition quota_action :: "quota_change \<Rightarrow> quota_action" where
  "quota_action c =
     (case qc_values c of OverrideValues _ \<Rightarrow> Override | DefaultValues _ \<Rightarrow> Defaults
      | BudgetValues _ \<Rightarrow> Budget)"

record quota_policy_snapshot =
  qs_global_revision :: int
  qs_defaults :: account_limits
  qs_global_playbacks :: "int option"
  qs_global_transfers :: "int option"
  qs_playback_ceiling :: "int option"
  qs_transfer_ceiling :: "int option"
  qs_target :: "uuid option"
  qs_account_revision :: int
  qs_override :: limit_override

definition snapshot_effective :: "quota_policy_snapshot \<Rightarrow> resource_exn + account_limits" where
  "snapshot_effective s = effective_limits (qs_override s) (qs_defaults s)"

text \<open>Valid defaults and a valid override always give valid limits.\<close>

lemma effective_limits_total:
  assumes "make_account_limits (al_devices d) (al_playbacks d) (al_transfers d) = Inr d"
    and "make_limit_override (lo_devices o') (lo_playbacks o') (lo_transfers o') = Inr o'"
  shows "is_ok (effective_limits o' d)"
  using assms
  by (auto simp: effective_limits_def make_account_limits_Inr make_limit_override_Inr is_ok_iff
      override_value_def split: option.splits)

end
