(* ===== verification/Job_Deferral.thy ===== *)
theory Job_Deferral
  imports Jobs_Recovery Resource_Domain
begin

text \<open>
  \<open>PostgresJobRepository.defer_for_resource\<close>: a worker whose admission still waits gives its claim
  back without using up a retry. The rows of \<open>account.resource_admission\<close> are read only; they are the
  admissions of \<open>Resource_Domain\<close>.
\<close>

definition resource_wait_row :: "job_row \<Rightarrow> job_row" where
  "resource_wait_row r = r\<lparr>jr_waits := jr_waits r + 1, jr_waiting := True\<rparr>"

definition matching_admission ::
  "lease_fence \<Rightarrow> uuid \<Rightarrow> uuid option \<Rightarrow> string \<Rightarrow> resource_admission \<Rightarrow> bool" where
  "matching_admission f operation_id user job_type a \<longleftrightarrow>
     rq_operation (ad_request a) = operation_id
     \<and> user = Some (ra_user (ad_authority a))
     \<and> ra_job (ad_authority a) = Some (lf_job f)
     \<and> ra_job_worker (ad_authority a) = Some (lf_worker f)
     \<and> ra_job_attempt (ad_authority a) = Some (lf_attempt f)
     \<and> rq_kind (ad_request a) = TRANSFER
     \<and> (rq_type (ad_request a) = InternetAcquisition \<and> job_type = ''music.internet.acquire''
        \<or> rq_type (ad_request a) = DiscoveryAcquisition \<and> job_type = ''discovery.acquire'')"

text \<open>
  \<open>clock 0\<close> and \<open>clock 1\<close> are the two reads of \<open>clock_timestamp()\<close> the method makes itself;
  \<open>clock 2\<close> and \<open>clock 3\<close> are those of the row trigger.
\<close>

definition defer_for_resource ::
  "instant \<Rightarrow> (nat \<Rightarrow> instant) \<Rightarrow> resource_admission list \<Rightarrow> lease_fence \<Rightarrow> uuid \<Rightarrow> duration \<Rightarrow> jobs_db
   \<Rightarrow> job_exn + (resource_wait_transition \<times> jobs_db)" where
  "defer_for_resource now clock admissions f operation_id delay db =
     (if \<not> (seconds 1 \<le> delay \<and> delay \<le> seconds 30) then Inl (ValueError ''delay'')
      else case find (fenced f) (db_jobs db) of
        None \<Rightarrow> Inr (WaitLostLease, db)
      | Some job \<Rightarrow>
          case jr_lease_deadline job of
            None \<Rightarrow> Inl (PersistenceInvariant ''lease_deadline'')
          | Some deadline \<Rightarrow>
              if deadline \<le> clock 0 then Inr (WaitLostLease, db)
              else if jr_cancel_at job \<noteq> None
              then bind_result (finish now (clock 2) f AttemptCancelled CANCELLED None 0 None db)
                     (\<lambda>db'. Inr (WaitCancelled, db'))
              else case find (matching_admission f operation_id (jr_user job) (jr_type job)) admissions of
                  None \<Rightarrow> Inl (PersistenceInvariant ''resource wait has no matching admission'')
                | Some operation \<Rightarrow>
                    (case ad_state operation of
                       Released \<Rightarrow>
                         Inl (PersistenceInvariant ''resource wait has no matching admission'')
                     | Expired \<Rightarrow> Inr (Recheck, db)
                     | Active \<Rightarrow>
                         (case ad_lease_until operation of
                            None \<Rightarrow> Inl (PersistenceInvariant ''lease_until'')
                          | Some lease \<Rightarrow>
                              if \<not> clock 1 < lease then Inr (Recheck, db)
                              else if ad_claimed_at operation \<noteq> None then Inr (Granted, db)
                              else case ad_claim_until operation of
                                  None \<Rightarrow> Inl (PersistenceInvariant ''claim_until'')
                                | Some c \<Rightarrow> Inr (if clock 1 < c then Granted else Recheck, db))
                     | Waiting \<Rightarrow>
                         bind_result (finish now (clock 2) f ResourceWait RETRY_WAIT None delay None db)
                           (\<lambda>db'. Inr (Deferred,
                              db'\<lparr>db_jobs := update_jobs (clock 3) (\<lambda>r. jr_id r = lf_job f)
                                               resource_wait_row (db_jobs db')\<rparr>))))"

text \<open>The two updates of a deferral are one write to the fenced row.\<close>

definition deferred_row :: "instant \<Rightarrow> (nat \<Rightarrow> instant) \<Rightarrow> duration \<Rightarrow> job_row \<Rightarrow> job_row" where
  "deferred_row now clock delay r =
     bump_row_version (clock 3) (resource_wait_row
       (bump_row_version (clock 2) (set_state_row now RETRY_WAIT None delay r)))"

interpretation deferred_write: key_keeping job_keys "deferred_row now clock delay"
  for now clock delay
  by unfold_locales (rule job_keysI; simp add: deferred_row_def resource_wait_row_def set_state_row_def)

lemma deferred_jobs:
  assumes "distinct (map jr_id jobs)" and "row \<in> set jobs" and "fenced f row"
  shows "update_jobs (clock 3) (\<lambda>r. jr_id r = lf_job f) resource_wait_row
      (update_rows (fenced f) (\<lambda>r. bump_row_version (clock 2) (set_state_row now RETRY_WAIT None delay r)) jobs) =
    update_rows (fenced f) (deferred_row now clock delay) jobs"
proof -
  have "r = row" if "r \<in> set jobs" "jr_id r = lf_job f" for r
    using assms that inj_onD [of jr_id "set jobs" r row] by (simp add: distinct_map fenced_def)
  then have only: "jr_id r = lf_job f \<longleftrightarrow> fenced f r" if "r \<in> set jobs" for r
    using assms(3) that by (auto simp: fenced_def)
  have id: "jr_id (set_state_row now RETRY_WAIT None delay r) = jr_id r" for r
    by (simp add: set_state_row_def)
  show ?thesis
    unfolding update_jobs_def update_rows_def map_map
    by (rule map_cong [OF refl]) (simp add: deferred_row_def only id)
qed

interpretation resource_wait_write: key_keeping job_keys
  "\<lambda>r. bump_row_version clock (resource_wait_row r)" for clock
  by unfold_locales (rule job_keysI; simp add: resource_wait_row_def)

lemma defer_for_resource_cases:
  assumes "defer_for_resource now clock admissions f operation_id delay db = Inr (t, db')"
  obtains (unchanged) "db' = db" and "t \<notin> {Deferred, WaitCancelled}"
    | (cancelled) row where "find (fenced f) (db_jobs db) = Some row" and "jr_cancel_at row \<noteq> None"
        and "finish now (clock 2) f AttemptCancelled CANCELLED None 0 None db = Inr db'"
        and "t = WaitCancelled"
    | (deferred) row db1 where "find (fenced f) (db_jobs db) = Some row" and "jr_cancel_at row = None"
        and "finish now (clock 2) f ResourceWait RETRY_WAIT None delay None db = Inr db1"
        and "db' = db1\<lparr>db_jobs := update_jobs (clock 3) (\<lambda>r. jr_id r = lf_job f) resource_wait_row
               (db_jobs db1)\<rparr>"
        and "t = Deferred"
  using assms
  by (auto simp: defer_for_resource_def bind_result_eq_Inr
      split: if_splits option.splits admission_state.splits)

lemma defer_for_resource_inv:
  assumes inv: "jobs_inv db"
    and run: "defer_for_resource now clock admissions f operation_id delay db = Inr (t, db')"
  shows "jobs_inv db'"
  using run
proof (cases rule: defer_for_resource_cases)
  case unchanged
  with inv show ?thesis by simp
next
  case cancelled
  show ?thesis by (rule finish_inv [OF inv cancelled(3)]) auto
next
  case (deferred row db1)
  show ?thesis
  proof -
    from deferred(3) have started: "\<not> list_ex (\<lambda>a. open_attempt f a \<and> now < ja_started_at a) (db_attempts db)"
      and row: "list_ex (fenced f) (db_jobs db)"
      and db1: "db1 = finished_db now (clock 2) f ResourceWait None RETRY_WAIT None delay db"
      by (simp_all add: finish_Inr_iff finish_code_def)
    from row obtain r where r: "r \<in> set (db_jobs db)" "fenced f r" by (auto simp: list_ex_iff)
    have "distinct (map jr_id (db_jobs db))" using inv by (simp add: jobs_inv_def schema_ok_def)
    with r have "db' = closed_db now f ResourceWait None (deferred_row now clock delay) db"
      unfolding deferred(4) db1 finished_db_def closed_db_def by (simp add: deferred_jobs)
    moreover have "jobs_inv (closed_db now f ResourceWait None (deferred_row now clock delay) db)"
    proof (rule closed_inv [OF inv started deferred_write.keys_update_rows])
      fix r assume "fenced f r" "job_row_checks r" "jr_waits r < jr_attempts r"
      then show "job_row_checks (deferred_row now clock delay r)
        \<and> jr_id (deferred_row now clock delay r) = jr_id r
        \<and> jr_attempts (deferred_row now clock delay r) = jr_attempts r
        \<and> jr_state (deferred_row now clock delay r) \<noteq> RUNNING
        \<and> jr_waits (deferred_row now clock delay r) =
            jr_waits r + (if ResourceWait = ResourceWait then 1 else 0)
        \<and> (is_terminal (jr_state (deferred_row now clock delay r)) \<longleftrightarrow>
            jr_completed_at (deferred_row now clock delay r) \<noteq> None)
        \<and> (ResourceWait = AttemptSuccess \<longleftrightarrow> jr_state (deferred_row now clock delay r) = COMPLETED)"
        by (simp add: deferred_row_def resource_wait_row_def set_state_row_def job_row_checks_def)
    qed
    ultimately show ?thesis by simp
  qed
qed

end
