(* ===== verification/Job_Lifecycle.thy ===== *)
theory Job_Lifecycle
  imports Job_Deferral
begin

text \<open>
  What any repository operation may do to the row of a job: the lifecycle of \<open>JobState\<close>, the
  monotone counters behind fencing, and the weight of a cancellation request.
\<close>

subsection \<open>One write to one job\<close>

definition job_moves :: "(job_state \<times> job_state) set" where
  "job_moves =
     {(QUEUED, RUNNING), (RETRY_WAIT, RUNNING),
      (RUNNING, RETRY_WAIT), (RUNNING, COMPLETED), (RUNNING, FAILED), (RUNNING, CANCELLED),
      (QUEUED, CANCELLED), (RETRY_WAIT, CANCELLED), (PAUSED, CANCELLED)}"

text \<open>The columns written once, by the insertion.\<close>

definition job_identity :: "job_row \<Rightarrow> uuid \<times> string \<times> int \<times> uuid option \<times> int \<times> string option
    \<times> string option \<times> document \<times> instant" where
  "job_identity r =
     (jr_id r, jr_type r, jr_version r, jr_user r, jr_priority r, jr_scope r, jr_key r, jr_payload r,
      jr_created_at r)"

text \<open>
  The lifecycle of a row: a terminal row is never written again; only a claim counts an attempt, and
  it is the only way into the running state; a lease never changes hands within an attempt; a
  requested cancellation stays requested and only leads to the cancelled state; a row goes back to
  wait with attempts left under the policy \<open>p\<close>, or for a resource, without using one up.
\<close>

definition row_step :: "retry_policy \<Rightarrow> job_row \<Rightarrow> job_row \<Rightarrow> bool" where
  "row_step p r r' \<longleftrightarrow>
     job_identity r' = job_identity r
     \<and> (jr_state r' = jr_state r \<or> (jr_state r, jr_state r') \<in> job_moves)
     \<and> (is_terminal (jr_state r) \<longrightarrow> r' = r)
     \<and> jr_attempts r' =
         (if jr_state r \<noteq> RUNNING \<and> jr_state r' = RUNNING then jr_attempts r + 1 else jr_attempts r)
     \<and> (jr_state r = RUNNING \<and> jr_state r' = RUNNING \<longrightarrow> jr_lease_owner r' = jr_lease_owner r)
     \<and> (jr_cancel_at r \<noteq> None \<longrightarrow>
          jr_cancel_at r' = jr_cancel_at r \<and> jr_state r' \<in> {jr_state r, CANCELLED})
     \<and> jr_waits r' \<in> {jr_waits r, jr_waits r + 1}
     \<and> (jr_waits r' \<noteq> jr_waits r \<longrightarrow> jr_state r = RUNNING \<and> jr_state r' = RETRY_WAIT)
     \<and> (jr_state r = RUNNING \<and> jr_state r' = RETRY_WAIT \<longrightarrow>
          jr_attempts r' - jr_waits r' < max_attempts p \<or> jr_waits r' = jr_waits r + 1)
     \<and> jr_row_version r \<le> jr_row_version r'"

lemma row_stepI:
  assumes "job_identity r' = job_identity r"
    and "jr_state r' = jr_state r \<or> (jr_state r, jr_state r') \<in> job_moves"
    and "is_terminal (jr_state r) \<Longrightarrow> r' = r"
    and "jr_attempts r' =
         (if jr_state r \<noteq> RUNNING \<and> jr_state r' = RUNNING then jr_attempts r + 1 else jr_attempts r)"
    and "jr_state r = RUNNING \<Longrightarrow> jr_state r' = RUNNING \<Longrightarrow> jr_lease_owner r' = jr_lease_owner r"
    and "jr_cancel_at r \<noteq> None \<Longrightarrow>
          jr_cancel_at r' = jr_cancel_at r \<and> jr_state r' \<in> {jr_state r, CANCELLED}"
    and "jr_waits r' \<in> {jr_waits r, jr_waits r + 1}"
    and "jr_waits r' \<noteq> jr_waits r \<Longrightarrow> jr_state r = RUNNING \<and> jr_state r' = RETRY_WAIT"
    and "jr_state r = RUNNING \<Longrightarrow> jr_state r' = RETRY_WAIT \<Longrightarrow>
          jr_attempts r' - jr_waits r' < max_attempts p \<or> jr_waits r' = jr_waits r + 1"
    and "jr_row_version r \<le> jr_row_version r'"
  shows "row_step p r r'"
  using assms unfolding row_step_def by blast

lemma row_step_refl [simp]: "row_step p r r"
  by (auto simp: row_step_def)

definition jobs_step :: "retry_policy \<Rightarrow> jobs_db \<Rightarrow> jobs_db \<Rightarrow> bool" where
  "jobs_step p db db' \<longleftrightarrow> (\<forall>r \<in> set (db_jobs db). \<exists>r' \<in> set (db_jobs db'). row_step p r r')"

lemma jobs_step_refl [simp]: "jobs_step p db db"
  by (auto simp: jobs_step_def intro: row_step_refl)

lemma jobs_step_update:
  assumes "db_jobs db' = update_rows P g (db_jobs db)"
    and "\<And>r. r \<in> set (db_jobs db) \<Longrightarrow> P r \<Longrightarrow> row_step p r (g r)"
  shows "jobs_step p db db'"
proof -
  have "row_step p r (if P r then g r else r)" if "r \<in> set (db_jobs db)" for r
    using assms(2) that by simp
  then show ?thesis unfolding jobs_step_def assms(1) update_rows_def set_map by blast
qed

lemma heartbeat_row_step: "jr_state r = RUNNING \<Longrightarrow> row_step p r (bump_row_version c (heartbeat_row now d r))"
  by (simp add: row_step_def job_identity_def heartbeat_row_def)

lemma checkpoint_row_step:
  "jr_state r = RUNNING \<Longrightarrow> row_step p r (bump_row_version c (checkpoint_row doc cur tot r))"
  by (simp add: row_step_def job_identity_def checkpoint_row_def)

lemma request_cancel_row_step:
  "jr_state r = RUNNING \<Longrightarrow> row_step p r (bump_row_version c (request_cancel_row now r))"
  by (auto simp: row_step_def job_identity_def request_cancel_row_def coalesce_def)

lemma cancel_pending_row_step:
  "jr_state r \<in> {QUEUED, RETRY_WAIT, PAUSED} \<Longrightarrow> row_step p r (bump_row_version c (cancel_pending_row now r))"
  by (rule row_stepI)
    (auto simp: job_identity_def cancel_pending_row_def coalesce_def job_moves_def)

lemma claim_row_step:
  "jr_state r \<in> {QUEUED, RETRY_WAIT} \<Longrightarrow> jr_cancel_at r = None \<Longrightarrow>
   row_step p r (bump_row_version c (claim_row worker now d r))"
  by (rule row_stepI) (auto simp: job_identity_def claim_row_def job_moves_def)

lemma set_state_row_step:
  "jr_state r = RUNNING \<Longrightarrow> s \<in> {RETRY_WAIT, COMPLETED, FAILED, CANCELLED} \<Longrightarrow>
   jr_cancel_at r = None \<or> s = CANCELLED \<Longrightarrow>
   s \<noteq> RETRY_WAIT \<or> jr_attempts r - jr_waits r < max_attempts p \<Longrightarrow>
   row_step p r (bump_row_version c (set_state_row now s err delay r))"
  by (rule row_stepI)
    (auto simp: job_identity_def set_state_row_def job_moves_def)

lemma deferred_row_step:
  "jr_state r = RUNNING \<Longrightarrow> jr_cancel_at r = None \<Longrightarrow> row_step p r (deferred_row now clock delay r)"
  by (rule row_stepI)
    (simp_all add: job_identity_def deferred_row_def resource_wait_row_def set_state_row_def
      job_moves_def)

subsection \<open>The operations\<close>

lemma same_job:
  "jobs_inv db \<Longrightarrow> r \<in> set (db_jobs db) \<Longrightarrow> s \<in> set (db_jobs db) \<Longrightarrow> jr_id r = jr_id s \<Longrightarrow> r = s"
  unfolding jobs_inv_def schema_ok_def distinct_map by (blast dest: inj_onD)

lemma finished_step:
  assumes "jobs_inv db" and "row \<in> set (db_jobs db)" and "jr_id row = lf_job f"
    and "s \<in> {RETRY_WAIT, COMPLETED, FAILED, CANCELLED}"
    and "jr_cancel_at row \<noteq> None \<Longrightarrow> s = CANCELLED"
    and "s = RETRY_WAIT \<Longrightarrow> jr_attempts row - jr_waits row < max_attempts p"
  shows "jobs_step p db (finished_db now clock f outcome code s err delay db)"
proof (rule jobs_step_update)
  fix r assume r: "r \<in> set (db_jobs db)" "fenced f r"
  then have "r = row" using same_job [OF assms(1) r(1) assms(2)] assms(3) by (simp add: fenced_def)
  moreover have "jr_cancel_at row = None \<or> s = CANCELLED"
    "s \<noteq> RETRY_WAIT \<or> jr_attempts row - jr_waits row < max_attempts p"
    using assms(5,6) by blast+
  ultimately show "row_step p r (bump_row_version clock (set_state_row now s err delay r))"
    using r(2) assms(4) by (intro set_state_row_step) (simp_all add: fenced_def)
qed (simp add: finished_db_def closed_db_def)

lemma lock_active_lease_Some:
  assumes "lock_active_lease now f db = Some c"
  obtains r where "r \<in> set (db_jobs db)" and "active_lease now f r" and "fenced f r"
    and "jr_id r = lf_job f" and "c = (jr_cancel_at r \<noteq> None)"
proof -
  from assms obtain r where r: "find (active_lease now f) (db_jobs db) = Some r"
    "c = (jr_cancel_at r \<noteq> None)"
    by (auto simp: lock_active_lease_def split: option.splits)
  from find_eq_Some_unique [OF r(1)] have "r \<in> set (db_jobs db)" "active_lease now f r" by auto
  then show thesis using that r(2) by (auto simp: active_lease_def fenced_def)
qed

lemma finish_step:
  assumes "jobs_inv db" and "lock_active_lease now f db = Some c"
    and "finish now clock f outcome s err delay code db = Inr db'"
    and "s \<in> {RETRY_WAIT, COMPLETED, FAILED, CANCELLED}" and "c \<Longrightarrow> s = CANCELLED"
    and "s = RETRY_WAIT \<Longrightarrow> \<exists>n. repo_retry_attempt_no f db = Inr n \<and> n < max_attempts p"
  shows "jobs_step p db db'"
proof -
  from assms(2) obtain r where r: "r \<in> set (db_jobs db)" "jr_id r = lf_job f" "fenced f r"
    "c = (jr_cancel_at r \<noteq> None)"
    by (rule lock_active_lease_Some)
  have "find_job db (lf_job f) = Some r"
    using in_find_job [OF jobs_inv_schema [OF assms(1)] r(1)] r(2) by simp
  then have "s = RETRY_WAIT \<Longrightarrow> jr_attempts r - jr_waits r < max_attempts p"
    using assms(6) r(3) by (auto simp: repo_retry_attempt_no_def fenced_def split: if_splits)
  with assms(1,3-5) r show ?thesis by (auto simp: finish_Inr_iff intro!: finished_step)
qed

lemma complete_step:
  "jobs_inv db \<Longrightarrow> complete now clock f db = Inr (t, db') \<Longrightarrow> jobs_step p db db'"
  by (auto simp: complete_def with_transition_Inr elim: finish_step split: option.splits bool.splits)

lemma fail_terminal_step:
  "jobs_inv db \<Longrightarrow> fail_terminal now clock f err db = Inr (t, db') \<Longrightarrow> jobs_step p db db'"
  by (auto simp: fail_terminal_def with_transition_Inr elim: finish_step
      split: option.splits bool.splits)

lemma acknowledge_cancel_step:
  "jobs_inv db \<Longrightarrow> acknowledge_cancel now clock f db = Inr (t, db') \<Longrightarrow> jobs_step p db db'"
  by (auto simp: acknowledge_cancel_def with_transition_Inr elim: finish_step
      split: option.splits bool.splits)

lemma fail_retryable_step:
  "jobs_inv db \<Longrightarrow> fail_retryable frepr sha256 now clock f err p db = Inr (t, db') \<Longrightarrow>
   jobs_step p db db'"
  by (auto simp: fail_retryable_def with_transition_Inr bind_result_eq_Inr elim: finish_step
      split: option.splits bool.splits if_splits)

lemma heartbeat_step:
  assumes "heartbeat now clock f interval db = Inr (h, db')"
  shows "jobs_step p db db'"
proof -
  have "db_jobs db' = update_rows (active_lease now f)
      (\<lambda>r. bump_row_version clock (heartbeat_row now interval r)) (db_jobs db)"
    using assms by (auto simp: heartbeat_def update_jobs_def Let_def bind_result_eq_Inr
        split: option.splits)
  then show ?thesis
    by (rule jobs_step_update) (simp add: heartbeat_row_step active_lease_def fenced_def)
qed

lemma save_checkpoint_step:
  assumes "save_checkpoint frepr now clock f doc cur tot db = Inr (c, db')"
  shows "jobs_step p db db'"
proof -
  obtain d where "db_jobs db' = update_rows (active_lease now f)
      (\<lambda>r. bump_row_version clock (checkpoint_row d cur tot r)) (db_jobs db)"
    using assms by (auto simp: save_checkpoint_def update_jobs_def Let_def bind_result_eq_Inr
        split: option.splits)
  then show ?thesis
    by (rule jobs_step_update) (simp add: checkpoint_row_step active_lease_def fenced_def)
qed

lemma request_cancel_step:
  assumes "request_cancel_for_owner now clock j owner db = Inr (c, db')"
  shows "jobs_step p db db'"
proof -
  consider "db' = db"
    | "db_jobs db' = update_rows (\<lambda>r. owned_by j owner r \<and> jr_state r = RUNNING)
        (\<lambda>r. bump_row_version clock (request_cancel_row now r)) (db_jobs db)"
    | "db_jobs db' = update_rows (\<lambda>r. owned_by j owner r \<and> jr_state r \<in> {QUEUED, RETRY_WAIT, PAUSED})
        (\<lambda>r. bump_row_version clock (cancel_pending_row now r)) (db_jobs db)"
    using assms by (auto simp: request_cancel_for_owner_def update_jobs_def Let_def
        split: option.splits if_splits)
  then show ?thesis
  proof cases
    case 2
    then show ?thesis by (rule jobs_step_update) (simp add: request_cancel_row_step)
  next
    case 3
    then show ?thesis by (rule jobs_step_update) (rule cancel_pending_row_step, simp)
  qed simp
qed

lemma enqueue_step:
  "enqueue frepr known now i c db = Inr (res, db') \<Longrightarrow> jobs_step p db db'"
  by (fastforce simp: enqueue_def bind_result_eq_Inr Let_def jobs_step_def
      split: option.splits if_splits prod.splits intro: row_step_refl)

lemma claim_step:
  assumes inv: "jobs_inv db"
    and run: "claim locked now clock attempt_id worker supported interval limit db = Inr (leases, db')"
  shows "jobs_step p db db'"
proof (cases "supported = []")
  case True
  with run show ?thesis by (auto simp: claim_def bind_result_eq_Inr)
next
  case False
  let ?cs = "claim_candidates locked now supported limit db"
  have "db_jobs db' = update_rows (\<lambda>r. jr_id r \<in> jr_id ` set ?cs)
      (\<lambda>r. bump_row_version clock (claim_row worker now interval r)) (db_jobs db)"
    using claim_Inr(1) [OF run False] by (simp add: claimed_db_def update_jobs_def)
  then show ?thesis
  proof (rule jobs_step_update)
    fix r assume r: "r \<in> set (db_jobs db)" "jr_id r \<in> jr_id ` set ?cs"
    then obtain c where c: "c \<in> set ?cs" "jr_id r = jr_id c" by auto
    from claim_candidates_in [OF c(1)] have "c \<in> set (db_jobs db)" "claimable now supported db c"
      by simp_all
    moreover from this have "r = c" using same_job [OF inv r(1)] c(2) by simp
    ultimately show "row_step p r (bump_row_version clock (claim_row worker now interval r))"
      by (intro claim_row_step) (auto simp: claimable_def)
  qed
qed

lemma defer_for_resource_step:
  assumes inv: "jobs_inv db"
    and run: "defer_for_resource now clock admissions f operation_id delay db = Inr (t, db')"
  shows "jobs_step p db db'"
  using run
proof (cases rule: defer_for_resource_cases)
  case (cancelled row)
  from find_eq_Some_unique [OF cancelled(1)] have "row \<in> set (db_jobs db)" "jr_id row = lf_job f"
    by (simp_all add: fenced_def)
  with inv cancelled(3) show ?thesis by (auto simp: finish_Inr_iff intro!: finished_step)
next
  case (deferred row db1)
  from find_eq_Some_unique [OF deferred(1)] have row: "row \<in> set (db_jobs db)" "fenced f row"
    by simp_all
  have "distinct (map jr_id (db_jobs db))" using inv by (simp add: jobs_inv_def schema_ok_def)
  with row deferred(3) have
    "db_jobs db' = update_rows (fenced f) (deferred_row now clock delay) (db_jobs db)"
    unfolding deferred(4) by (simp add: finish_Inr_iff finished_db_def closed_db_def deferred_jobs)
  then show ?thesis
  proof (rule jobs_step_update)
    fix r assume r: "r \<in> set (db_jobs db)" "fenced f r"
    with row same_job [OF inv r(1) row(1)] have "r = row" by (simp add: fenced_def)
    with r deferred(2) show "row_step p r (deferred_row now clock delay r)"
      by (intro deferred_row_step) (auto simp: fenced_def)
  qed
qed simp

subsection \<open>The recovery loop\<close>

lemma recover_row_step:
  assumes inv: "jobs_inv db" and row: "row \<in> set (db_jobs db)"
    and run: "recover_row frepr sha256 now clock p row db = Inr (job, db')"
  shows "jobs_step p db db'"
    and "r \<in> set (db_jobs db) \<Longrightarrow> jr_id r \<noteq> jr_id row \<Longrightarrow> r \<in> set (db_jobs db')"
proof -
  from run show "jobs_step p db db'"
  proof (cases rule: recover_row_cases)
    case (1 worker f shut s err delay)
    from 1(7) obtain q where q: "q \<in> set (db_jobs db)" "fenced f q" by (auto simp: list_ex_iff)
    have shut: "shut" using 1(3) fenced_has_open_attempt [OF inv q] by simp
    have "s = recovery_state p row" using 1(4) shut by simp
    then show ?thesis unfolding 1(8)
      using 1(2) by (intro finished_step [OF inv row]) (auto simp: recovery_state_def split: if_splits)
  qed
  from recover_row_shape [OF run]
  show "r \<in> set (db_jobs db) \<Longrightarrow> jr_id r \<noteq> jr_id row \<Longrightarrow> r \<in> set (db_jobs db')"
    by (auto intro: finished_db_other)
qed

lemma recover_rows_step:
  assumes "jobs_inv db" and "distinct (map jr_id rows)" and "set rows \<subseteq> set (db_jobs db)"
    and "recover_rows frepr sha256 now clock p rows i db = Inr (js, db')"
  shows "jobs_step p db db' \<and> (\<forall>r \<in> set (db_jobs db). jr_id r \<notin> jr_id ` set rows \<longrightarrow> r \<in> set (db_jobs db'))"
  using assms
proof (induction rows arbitrary: i db js)
  case (Cons row rows)
  from Cons.prems(4) obtain job db1 js' where
    first: "recover_row frepr sha256 now (clock i) p row db = Inr (job, db1)"
    and rest: "recover_rows frepr sha256 now clock p rows (Suc i) db1 = Inr (js', db')"
    by (auto simp: bind_result_eq_Inr)
  have row: "row \<in> set (db_jobs db)" using Cons.prems(3) by simp
  note keep = recover_row_step(2) [OF Cons.prems(1) row first]
  have other: "jr_id r \<noteq> jr_id row" if "r \<in> set rows" for r
    using that Cons.prems(2) by (metis distinct.simps(2) image_eqI list.simps(9) set_map)
  have "set rows \<subseteq> set (db_jobs db1)"
    using Cons.prems(3) other keep by auto
  from Cons.IH [OF recover_row_inv [OF Cons.prems(1) first] _ this rest] Cons.prems(2)
  have ih: "jobs_step p db1 db'"
    "\<And>r. r \<in> set (db_jobs db1) \<Longrightarrow> jr_id r \<notin> jr_id ` set rows \<Longrightarrow> r \<in> set (db_jobs db')" by auto
  have "\<exists>r' \<in> set (db_jobs db'). row_step p r r'" if r: "r \<in> set (db_jobs db)" for r
  proof (cases "jr_id r = jr_id row")
    case True
    from recover_row_step(1) [OF Cons.prems(1) row first] r obtain r' where
      r': "r' \<in> set (db_jobs db1)" "row_step p r r'" by (auto simp: jobs_step_def)
    then have "jr_id r' = jr_id row" using True by (simp add: row_step_def job_identity_def)
    moreover have "jr_id row \<notin> jr_id ` set rows" using Cons.prems(2) by simp
    ultimately have "r' \<in> set (db_jobs db')" using ih(2) r'(1) by simp
    with r'(2) show ?thesis by blast
  next
    case False
    with keep r ih(1) show ?thesis by (auto simp: jobs_step_def)
  qed
  moreover have "r \<in> set (db_jobs db')"
    if "r \<in> set (db_jobs db)" "jr_id r \<notin> jr_id ` set (row # rows)" for r
    using that keep ih(2) by simp
  ultimately show ?case by (auto simp: jobs_step_def)
qed simp

lemma recover_expired_step:
  assumes "jobs_inv db"
    and "recover_expired frepr sha256 locked now clock supported limit p db = Inr (js, db')"
  shows "jobs_step p db db'"
proof (cases "supported = []")
  case False
  with assms(2) have run: "recover_rows frepr sha256 now clock p
      (lock_expired locked now supported limit db) 0 db = Inr (js, db')"
    by (auto simp: recover_expired_def bind_result_eq_Inr)
  have "set (lock_expired locked now supported limit db) \<subseteq> set (db_jobs db)"
    by (auto dest: lock_expired_in(1))
  from recover_rows_step [OF assms(1) lock_expired_distinct [OF jobs_inv_schema [OF assms(1)]] this run]
  show ?thesis by blast
qed (use assms(2) in \<open>auto simp: recover_expired_def bind_result_eq_Inr\<close>)

end
