(* ===== verification/Transitions.thy ===== *)
theory Transitions
  imports Prelude
begin

text \<open>
  Runs of a component: the states its operations lead to. An interpretation of \<open>component\<close> says that
  an invariant survives every step; of \<open>monotone_component\<close>, that every step moves the state along a
  preorder. Both then hold of whole runs.
\<close>

locale component =
  fixes step :: "'s \<Rightarrow> 's \<Rightarrow> bool" and inv :: "'s \<Rightarrow> bool"
  assumes step_inv: "inv s \<Longrightarrow> step s t \<Longrightarrow> inv t"
begin

lemma run_inv: "step\<^sup>*\<^sup>* s t \<Longrightarrow> inv s \<Longrightarrow> inv t"
  by (induction rule: rtranclp_induct) (auto intro: step_inv)

lemma run_step_inv: "step\<^sup>*\<^sup>* s t \<Longrightarrow> step t u \<Longrightarrow> inv s \<Longrightarrow> inv t \<and> inv u"
  using run_inv step_inv by blast

end

locale monotone_component = component step inv
  for step :: "'s \<Rightarrow> 's \<Rightarrow> bool" and inv :: "'s \<Rightarrow> bool" +
  fixes above :: "'s \<Rightarrow> 's \<Rightarrow> bool"
  assumes above_refl: "above s s"
    and above_trans: "above s t \<Longrightarrow> above t u \<Longrightarrow> above s u"
    and step_above: "inv s \<Longrightarrow> step s t \<Longrightarrow> above s t"
begin

lemma run_above: "step\<^sup>*\<^sup>* s t \<Longrightarrow> inv s \<Longrightarrow> above s t"
proof (induction rule: rtranclp_induct)
  case base
  show ?case by (rule above_refl)
next
  case (step t u)
  then show ?case using run_inv step_above above_trans by blast
qed

end

end
