(* ===== verification/Job_System.thy ===== *)
theory Job_System
  imports Job_Lifecycle Transitions
begin

text \<open>
  All writers of the jobs schema as one transition system: the operations of the repository, called
  in any order, with any arguments, at any times, and the two writes from outside, the scheduler's
  wake hint and new dependencies. Runs keep the invariant, and the properties of fencing, retries and
  terminal states are stated on them.
\<close>

text \<open>
  The wake hint of \<open>SqlAlchemyResourceAdmissionRepository.advance\<close> for a job that waits for its turn.
\<close>

definition resource_wake_row :: "instant \<Rightarrow> job_row \<Rightarrow> job_row" where
  "resource_wake_row now r = r\<lparr>jr_wake_until := Some (now + reservation_ttl), jr_scheduled_at := now\<rparr>"

definition wakeable :: "uuid \<Rightarrow> job_row \<Rightarrow> bool" where
  "wakeable j r \<longleftrightarrow> jr_id r = j \<and> jr_state r = RETRY_WAIT \<and> jr_waiting r \<and> jr_wake_until r = None"

definition wake_job :: "instant \<Rightarrow> instant \<Rightarrow> uuid \<Rightarrow> jobs_db \<Rightarrow> jobs_db" where
  "wake_job now clock j db =
     db\<lparr>db_jobs := update_jobs clock (wakeable j) (resource_wake_row now) (db_jobs db)\<rparr>"

interpretation wake_write: key_keeping job_keys
  "\<lambda>r. bump_row_version clock (resource_wake_row now r)" for clock now
  by unfold_locales (rule job_keysI; simp add: resource_wake_row_def)

lemma wake_job_inv: "jobs_inv db \<Longrightarrow> jobs_inv (wake_job now clock j db)"
  unfolding wake_job_def
  by (rule inv_update_jobs, assumption, simp add: update_jobs_def wake_write.keys_update_rows)
    (auto simp: resource_wake_row_def wakeable_def job_row_checks_def elim!: history_frame)

lemma wake_job_step: "jobs_step p db (wake_job now clock j db)"
  unfolding wake_job_def update_jobs_def
  by (rule jobs_step_update [where P = "wakeable j"
        and g = "\<lambda>r. bump_row_version clock (resource_wake_row now r)"])
    (simp, rule row_stepI, auto simp: wakeable_def resource_wake_row_def job_identity_def)

inductive job_step ::
  "(rat \<Rightarrow> string) \<Rightarrow> (8 word list \<Rightarrow> 8 word list) \<Rightarrow> retry_policy \<Rightarrow> jobs_db \<Rightarrow> jobs_db \<Rightarrow> bool"
  for frepr sha256 policy where
  step_enqueue: "is_ok (make_job_key (jk_type (ej_key c)) (jk_version (ej_key c))) \<Longrightarrow>
    enqueue frepr known now i c db = Inr (res, db') \<Longrightarrow> job_step frepr sha256 policy db db'"
| step_claim: "claim locked now clock attempt_id worker supported interval limit db = Inr (leases, db') \<Longrightarrow>
    job_step frepr sha256 policy db db'"
| step_heartbeat: "heartbeat now clock f interval db = Inr (h, db') \<Longrightarrow>
    job_step frepr sha256 policy db db'"
| step_checkpoint: "save_checkpoint frepr now clock f doc cur tot db = Inr (saved, db') \<Longrightarrow>
    job_step frepr sha256 policy db db'"
| step_complete: "complete now clock f db = Inr (t, db') \<Longrightarrow> job_step frepr sha256 policy db db'"
| step_retryable: "fail_retryable frepr sha256 now clock f err policy db = Inr (t, db') \<Longrightarrow>
    job_step frepr sha256 policy db db'"
| step_terminal: "fail_terminal now clock f err db = Inr (t, db') \<Longrightarrow> job_step frepr sha256 policy db db'"
| step_cancel: "request_cancel_for_owner now clock j owner db = Inr (res, db') \<Longrightarrow>
    job_step frepr sha256 policy db db'"
| step_acknowledge: "acknowledge_cancel now clock f db = Inr (t, db') \<Longrightarrow>
    job_step frepr sha256 policy db db'"
| step_defer: "defer_for_resource now clocks admissions f op delay db = Inr (w, db') \<Longrightarrow>
    job_step frepr sha256 policy db db'"
| step_recover: "recover_expired frepr sha256 locked now clocks supported limit policy db = Inr (js, db') \<Longrightarrow>
    job_step frepr sha256 policy db db'"
| step_wake: "job_step frepr sha256 policy db (wake_job now clock j db)"
| step_dependencies: "list_all dependency_row_checks ds \<Longrightarrow>
    job_step frepr sha256 policy db (db\<lparr>db_dependencies := ds\<rparr>)"

lemma dependencies_inv:
  "jobs_inv db \<Longrightarrow> list_all dependency_row_checks ds \<Longrightarrow> jobs_inv (db\<lparr>db_dependencies := ds\<rparr>)"
  by (simp add: jobs_inv_def schema_ok_def attempts_of_def)

lemma job_step_inv: "jobs_inv db \<Longrightarrow> job_step frepr sha256 policy db db' \<Longrightarrow> jobs_inv db'"
  by (erule job_step.cases)
    (auto dest: enqueue_inv claim_inv heartbeat_inv save_checkpoint_inv complete_inv
      fail_retryable_inv fail_terminal_inv request_cancel_inv acknowledge_cancel_inv
      defer_for_resource_inv recover_expired_inv intro: wake_job_inv dependencies_inv)

lemma job_step_jobs:
  assumes "jobs_inv db" and "job_step frepr sha256 policy db db'"
  shows "jobs_step policy db db'"
  using assms(2,1)
proof cases
  case (step_dependencies ds)
  then show ?thesis by (auto simp: jobs_step_def intro: row_step_refl)
qed (auto dest: enqueue_step claim_step heartbeat_step save_checkpoint_step complete_step
      fail_retryable_step fail_terminal_step request_cancel_step acknowledge_cancel_step
      defer_for_resource_step recover_expired_step intro: wake_job_step)

subsection \<open>What runs preserve\<close>

text \<open>Rows of the same job in an earlier and a later state.\<close>

definition row_later :: "job_row \<Rightarrow> job_row \<Rightarrow> bool" where
  "row_later r r' \<longleftrightarrow>
     job_identity r' = job_identity r
     \<and> jr_attempts r \<le> jr_attempts r'
     \<and> jr_waits r \<le> jr_waits r'
     \<and> jr_row_version r \<le> jr_row_version r'
     \<and> (is_terminal (jr_state r) \<longrightarrow> r' = r)
     \<and> (jr_cancel_at r \<noteq> None \<longrightarrow>
          jr_cancel_at r' = jr_cancel_at r \<and> jr_state r' \<in> {jr_state r, CANCELLED})
     \<and> (jr_attempts r' = jr_attempts r \<and> jr_state r' = RUNNING \<longrightarrow>
          jr_state r = RUNNING \<and> jr_lease_owner r' = jr_lease_owner r \<and> jr_waits r' = jr_waits r)"

lemma row_laterI: "row_step p r r' \<Longrightarrow> row_later r r'"
  by (auto simp: row_step_def row_later_def split: if_splits)

lemma row_later_trans: "row_later r s \<Longrightarrow> row_later s t \<Longrightarrow> row_later r t"
proof -
  assume rs: "row_later r s" and st: "row_later s t"
  note rs' = rs [unfolded row_later_def] and st' = st [unfolded row_later_def]
  have "jr_attempts t = jr_attempts r \<Longrightarrow> jr_attempts s = jr_attempts r" using rs' st' by linarith
  then have "jr_attempts t = jr_attempts r \<and> jr_state t = RUNNING \<longrightarrow>
      jr_state r = RUNNING \<and> jr_lease_owner t = jr_lease_owner r \<and> jr_waits t = jr_waits r"
    using rs' st' by metis
  moreover have "jr_cancel_at r \<noteq> None \<longrightarrow>
      jr_cancel_at t = jr_cancel_at r \<and> jr_state t \<in> {jr_state r, CANCELLED}"
    using rs' st' by (metis insert_iff)
  moreover have "is_terminal (jr_state r) \<longrightarrow> t = r" using rs' st' by metis
  moreover have "jr_attempts r \<le> jr_attempts t" "jr_waits r \<le> jr_waits t"
    "jr_row_version r \<le> jr_row_version t"
    using rs' st' by linarith+
  moreover have "job_identity t = job_identity r"
    using conjunct1 [OF rs'] conjunct1 [OF st'] by simp
  ultimately show ?thesis unfolding row_later_def by blast
qed

definition jobs_later :: "jobs_db \<Rightarrow> jobs_db \<Rightarrow> bool" where
  "jobs_later db db' \<longleftrightarrow> (\<forall>r \<in> set (db_jobs db). \<exists>r' \<in> set (db_jobs db'). row_later r r')"

interpretation jobs: monotone_component "job_step frepr sha256 policy" jobs_inv jobs_later
  for frepr sha256 policy
proof unfold_locales
  show "jobs_later db db" for db
    unfolding jobs_later_def using row_laterI [OF row_step_refl] by blast
  show "jobs_later a c" if "jobs_later a b" "jobs_later b c" for a b c
    using that unfolding jobs_later_def using row_later_trans by blast
  show "jobs_later db db'" if "jobs_inv db" "job_step frepr sha256 policy db db'" for db db'
    using job_step_jobs [OF that] row_laterI unfolding jobs_step_def jobs_later_def by blast
qed (rule job_step_inv)

subsection \<open>Attempts under a retry policy\<close>

text \<open>
  A job that failed and waits has attempts left; the attempts that count never exceed the policy's.
\<close>

definition retry_within :: "retry_policy \<Rightarrow> job_row \<Rightarrow> bool" where
  "retry_within p r \<longleftrightarrow>
     jr_attempts r - jr_waits r \<le> max_attempts p
     \<and> (jr_state r = QUEUED \<longrightarrow> jr_attempts r = 0 \<and> jr_waits r = 0)
     \<and> (jr_state r = RETRY_WAIT \<longrightarrow> jr_attempts r - jr_waits r < max_attempts p)
     \<and> jr_state r \<noteq> PAUSED"

definition retries_within :: "retry_policy \<Rightarrow> jobs_db \<Rightarrow> bool" where
  "retries_within p db \<longleftrightarrow> (\<forall>r \<in> set (db_jobs db). retry_within p r)"

lemma row_stepD:
  assumes "row_step p r r'"
  shows "jr_state r' = jr_state r \<or> (jr_state r, jr_state r') \<in> job_moves"
    and "jr_attempts r' =
         (if jr_state r \<noteq> RUNNING \<and> jr_state r' = RUNNING then jr_attempts r + 1 else jr_attempts r)"
    and "jr_waits r' \<in> {jr_waits r, jr_waits r + 1}"
    and "jr_waits r' \<noteq> jr_waits r \<Longrightarrow> jr_state r = RUNNING \<and> jr_state r' = RETRY_WAIT"
    and "jr_state r = RUNNING \<Longrightarrow> jr_state r' = RETRY_WAIT \<Longrightarrow>
          jr_attempts r' - jr_waits r' < max_attempts p \<or> jr_waits r' = jr_waits r + 1"
  using assms unfolding row_step_def by blast+

lemma row_step_retry:
  assumes "row_step p r r'" and "retry_within p r" and "policy_ok p"
  shows "retry_within p r'"
proof -
  note step = row_stepD [OF assms(1)]
  have max: "1 \<le> max_attempts p" using assms(3) by (simp add: policy_ok_def)
  show ?thesis
  proof (cases "jr_state r' = jr_state r")
    case True
    then have "jr_attempts r' = jr_attempts r" using step(2) by auto
    moreover have "jr_waits r' = jr_waits r"
      by (cases "jr_waits r' = jr_waits r") (use step(4) True in auto)
    ultimately show ?thesis using True assms(2) by (simp add: retry_within_def)
  next
    case False
    then have "(jr_state r, jr_state r') \<in> job_moves" using step(1) by simp
    with step(2-5) assms(2) max show ?thesis
      by (auto simp: job_moves_def retry_within_def)
  qed
qed

text \<open>No row appears but by an insertion, which starts at zero.\<close>

definition same_jobs :: "jobs_db \<Rightarrow> jobs_db \<Rightarrow> bool" where
  "same_jobs db db' \<longleftrightarrow> map jr_id (db_jobs db') = map jr_id (db_jobs db)"

lemma same_jobsI: "map job_keys (db_jobs db') = map job_keys (db_jobs db) \<Longrightarrow> same_jobs db db'"
  unfolding same_jobs_def by (rule job_keys_schema(1))

lemma same_jobs_refl [simp]: "same_jobs db db"
  by (simp add: same_jobs_def)

lemma finish_same_jobs:
  "finish now clock f outcome s err delay code db = Inr db' \<Longrightarrow> same_jobs db db'"
  by (rule same_jobsI)
    (simp add: finish_Inr_iff finished_db_def closed_db_def state_write.keys_update_rows)

lemma recover_rows_same_jobs:
  "recover_rows frepr sha256 now clock policy rows i db = Inr (js, db') \<Longrightarrow> same_jobs db db'"
proof (induction rows arbitrary: i db js)
  case (Cons row rows)
  from Cons.prems obtain job db1 js' where
    first: "recover_row frepr sha256 now (clock i) policy row db = Inr (job, db1)"
    and rest: "recover_rows frepr sha256 now clock policy rows (Suc i) db1 = Inr (js', db')"
    by (auto simp: bind_result_eq_Inr)
  from recover_row_shape [OF first] have "same_jobs db db1"
    by (auto intro!: same_jobsI simp: finished_db_def closed_db_def state_write.keys_update_rows)
  with Cons.IH [OF rest] show ?case by (simp add: same_jobs_def)
qed (simp add: same_jobs_def)

lemma enqueue_shape:
  assumes "enqueue frepr known now i c db = Inr (res, db')"
  shows "db' = db \<or> (\<exists>payload. db' = db\<lparr>db_jobs := db_jobs db @ [new_job_row i now c payload]\<rparr>)"
  using assms
  by (auto simp: enqueue_def bind_result_eq_Inr Let_def split: option.splits if_splits prod.splits;
      blast)

lemma job_step_same_jobs:
  assumes "job_step frepr sha256 policy db db'"
  shows "same_jobs db db' \<or> (\<exists>i now c payload. db_jobs db' = db_jobs db @ [new_job_row i now c payload])"
  using assms
proof cases
  case (step_enqueue c known now i res)
  from enqueue_shape [OF step_enqueue(2)] show ?thesis
  proof
    assume "\<exists>payload. db' = db\<lparr>db_jobs := db_jobs db @ [new_job_row i now c payload]\<rparr>"
    then obtain payload where "db' = db\<lparr>db_jobs := db_jobs db @ [new_job_row i now c payload]\<rparr>" ..
    then have "db_jobs db' = db_jobs db @ [new_job_row i now c payload]" by simp
    then show ?thesis by blast
  qed (simp add: same_jobs_def)
next
  case (step_claim locked now clock attempt_id worker supported interval limit leases)
  show ?thesis
  proof (cases "supported = []")
    case True
    with step_claim show ?thesis by (auto simp: claim_def bind_result_eq_Inr same_jobs_def)
  next
    case False
    from claim_Inr(1) [OF step_claim False] show ?thesis
      by (auto intro!: same_jobsI simp: claimed_db_def update_jobs_def claim_write.keys_update_rows)
  qed
next
  case (step_heartbeat now clock f interval h)
  then show ?thesis
    by (auto simp: heartbeat_def bind_result_eq_Inr Let_def update_jobs_def job_keys_kept
        split: option.splits intro!: same_jobsI)
next
  case (step_checkpoint now clock f doc cur tot saved)
  then show ?thesis
    by (auto simp: save_checkpoint_def bind_result_eq_Inr Let_def update_jobs_def job_keys_kept
        split: option.splits intro!: same_jobsI)
next
  case (step_cancel now clock j owner res)
  then show ?thesis
    by (auto simp: request_cancel_for_owner_def Let_def update_jobs_def job_keys_kept
        split: option.splits if_splits intro!: same_jobsI)
next
  case (step_defer now clocks admissions f op delay w)
  then have "same_jobs db db'"
  proof (cases rule: defer_for_resource_cases)
    case (deferred row db1)
    have "same_jobs db1 db'"
      unfolding deferred(4)
      by (rule same_jobsI) (simp add: update_jobs_def resource_wait_write.keys_update_rows)
    with finish_same_jobs [OF deferred(3)] show ?thesis by (simp add: same_jobs_def)
  qed (auto simp: intro: finish_same_jobs)
  then show ?thesis ..
next
  case (step_recover locked now clocks supported limit js)
  then show ?thesis
    by (auto simp: recover_expired_def bind_result_eq_Inr
        split: if_splits intro: recover_rows_same_jobs)
next
  case (step_wake now clock j)
  then show ?thesis
    by (auto simp: wake_job_def update_jobs_def wake_write.keys_update_rows intro!: same_jobsI)
next
  case (step_dependencies ds)
  then show ?thesis by (simp add: same_jobs_def)
qed (auto simp: complete_def fail_retryable_def fail_terminal_def acknowledge_cancel_def
      with_transition_Inr bind_result_eq_Inr
      split: option.splits bool.splits if_splits intro: finish_same_jobs)

lemma job_step_retries:
  assumes inv: "jobs_inv db" and policy: "policy_ok policy" and within: "retries_within policy db"
    and step: "job_step frepr sha256 policy db db'"
  shows "retries_within policy db'"
  unfolding retries_within_def
proof
  fix r' assume r': "r' \<in> set (db_jobs db')"
  note inv' = job_step_inv [OF inv step]
  show "retry_within policy r'"
  proof (cases "jr_id r' \<in> jr_id ` set (db_jobs db)")
    case True
    then obtain r where r: "r \<in> set (db_jobs db)" "jr_id r = jr_id r'" by auto
    from job_step_jobs [OF inv step] r(1) obtain r'' where
      r'': "r'' \<in> set (db_jobs db')" "row_step policy r r''" by (auto simp: jobs_step_def)
    then have "jr_id r'' = jr_id r" by (simp add: row_step_def job_identity_def)
    with same_job [OF inv' r''(1) r'] r(2) have "r'' = r'" by simp
    with row_step_retry [OF r''(2) _ policy] r(1) within show ?thesis
      by (simp add: retries_within_def)
  next
    case False
    from job_step_same_jobs [OF step] show ?thesis
    proof
      assume "same_jobs db db'"
      then have "jr_id ` set (db_jobs db') = jr_id ` set (db_jobs db)"
        unfolding same_jobs_def by (metis set_map)
      with False r' show ?thesis by auto
    next
      assume "\<exists>i now c payload. db_jobs db' = db_jobs db @ [new_job_row i now c payload]"
      with False r' policy show ?thesis
        by (auto simp: new_job_row_def retry_within_def policy_ok_def)
    qed
  qed
qed

interpretation jobs_retry: component "job_step frepr sha256 policy"
    "\<lambda>db. jobs_inv db \<and> policy_ok policy \<and> retries_within policy db"
  for frepr sha256 policy
  by unfold_locales (blast intro: job_step_inv job_step_retries)

end
