(* ===== verification/Job_Facts.thy ===== *)
theory Job_Facts
  imports Job_System
begin

text \<open>
  The facts behind the properties of the durable jobs: what a dead fence can still do, which leases a
  claim hands out, where recovery leaves a row, and how an insertion is found again.
\<close>

subsection \<open>Dead fences\<close>

lemma dead_fence_stays_dead:
  assumes inv: "jobs_inv db" and r: "r \<in> set (db_jobs db)" "jr_id r = lf_job f"
    "lf_attempt f \<le> jr_attempts r" "\<not> fenced f r"
    and run: "(job_step frepr sha256 policy)\<^sup>*\<^sup>* db db'"
  shows "\<forall>r' \<in> set (db_jobs db'). \<not> fenced f r'"
proof (intro ballI notI)
  fix r' assume r': "r' \<in> set (db_jobs db')" "fenced f r'"
  from jobs.run_above [OF run inv] r(1) obtain r'' where
    r'': "r'' \<in> set (db_jobs db')" "row_later r r''" unfolding jobs_later_def by blast
  from r''(2) have "job_identity r'' = job_identity r" unfolding row_later_def by blast
  then have "jr_id r'' = jr_id r" by (simp add: job_identity_def)
  with r' r(2) same_job [OF jobs.run_inv [OF run inv] r''(1) r'(1)] have "r'' = r'"
    by (simp add: fenced_def)
  with r''(2) have "row_later r r'" by simp
  moreover have "jr_state r' = RUNNING" using r'(2) by (simp add: fenced_def)
  ultimately have later: "jr_attempts r \<le> jr_attempts r'"
    "jr_attempts r' = jr_attempts r \<Longrightarrow> jr_state r = RUNNING \<and> jr_lease_owner r' = jr_lease_owner r"
    unfolding row_later_def by blast+
  from r' have "jr_attempts r' = lf_attempt f" by (simp add: fenced_def)
  with later(1) r(3) have "jr_attempts r' = jr_attempts r" by simp
  with later(2) r' r(2,4) show False by (auto simp: fenced_def)
qed

lemma no_fence_no_lease:
  assumes "\<forall>r \<in> set (db_jobs db). \<not> fenced f r"
  shows "lock_active_lease now f db = None" and "find (fenced f) (db_jobs db) = None"
    and "find (active_lease now f) (db_jobs db) = None"
    and "update_jobs clock (active_lease now f) g (db_jobs db) = db_jobs db"
proof -
  show none: "find (fenced f) (db_jobs db) = None" "find (active_lease now f) (db_jobs db) = None"
    using assms by (auto simp: find_None_iff active_lease_def)
  then show "lock_active_lease now f db = None" by (simp add: lock_active_lease_def)
  show "update_jobs clock (active_lease now f) g (db_jobs db) = db_jobs db"
    unfolding update_jobs_def using assms by (intro update_rows_id) (auto simp: active_lease_def)
qed

subsection \<open>Claims\<close>

lemma sorted_claim_candidates: "sorted (map claim_order (claim_candidates locked now supported limit db))"
  unfolding claim_candidates_def by (simp add: take_map [symmetric] sorted_wrt_take)

lemma claimed_pairs_sorted:
  "sort_key claimed_order
     (map (\<lambda>r. (r, bump_row_version clock (claim_row worker now interval r)))
       (claim_candidates locked now supported limit db)) =
   map (\<lambda>r. (r, bump_row_version clock (claim_row worker now interval r)))
     (claim_candidates locked now supported limit db)"
proof -
  have "claimed_order (r, bump_row_version clock (claim_row worker now interval r)) = claim_order r" for r
    by (simp add: claimed_order_def claim_order_def claim_row_def)
  then have "map claimed_order (map (\<lambda>r. (r, bump_row_version clock (claim_row worker now interval r))) cs) =
      map claim_order cs" for cs by simp
  then show ?thesis by (intro sort_key_id_if_sorted) (simp only: sorted_claim_candidates)
qed

definition claimed_fence :: "string \<Rightarrow> job_row \<Rightarrow> lease_fence" where
  "claimed_fence worker r = \<lparr>lf_job = jr_id r, lf_worker = worker, lf_attempt = jr_attempts r + 1\<rparr>"

definition claimed_lease :: "string \<Rightarrow> instant \<Rightarrow> duration \<Rightarrow> job_row \<Rightarrow> job_lease" where
  "claimed_lease worker now interval r =
     \<lparr>jl_fence = claimed_fence worker r, jl_key = \<lparr>jk_type = jr_type r, jk_version = jr_version r\<rparr>,
      jl_user = jr_user r, jl_priority = jr_priority r, jl_payload = jr_payload r,
      jl_checkpoint = jr_checkpoint r, jl_deadline = Aware (now + interval),
      jl_cancel_requested_at = map_option Aware (jr_cancel_at r), jl_wait_count = jr_waits r\<rparr>"

lemma lease_from_claimed_row:
  assumes "job_row_checks r" and "validate_worker_id worker = Inr ()"
  shows "lease_from_row (bump_row_version clock (claim_row worker now interval r)) =
    Inr (claimed_lease worker now interval r)"
proof -
  from assms(2) have w: "1 \<le> len worker" "len worker \<le> max_worker_id_length"
    by (simp_all add: validate_worker_id_def validate_bounded_text_def)
  have "require_aware_option (map_option Aware c) x = Inr ()" for c x
    by (cases c) (simp_all add: require_aware_option_def require_aware_def)
  with w assms(1) show ?thesis
    by (simp add: lease_from_row_def claim_row_def make_lease_fence_def make_job_key_def
        require_bounded_text_def max_job_type_length_def check_job_lease_def require_aware_def
        claimed_lease_def claimed_fence_def job_row_checks_def)
qed

lemma fresh_attempts:
  assumes inv: "jobs_inv db" and cs: "set cs \<subseteq> set (db_jobs db)" "distinct (map jr_id cs)"
    and fresh: "inj_on attempt_id (jr_id ` set (db_jobs db))"
      "attempt_id ` jr_id ` set (db_jobs db) \<inter> ja_id ` set (db_attempts db) = {}"
  shows "distinct (map ja_id (db_attempts db @ opened_attempts attempt_id now clock worker interval cs))"
    and "distinct (map (\<lambda>a. (ja_job a, ja_no a))
      (db_attempts db @ opened_attempts attempt_id now clock worker interval cs))"
proof -
  let ?o = "opened_attempts attempt_id now clock worker interval cs"
  have ids: "map ja_id ?o = map attempt_id (map jr_id cs)"
    by (simp add: opened_attempts_def new_attempt_def claim_row_def)
  have nos: "map (\<lambda>a. (ja_job a, ja_no a)) ?o = map (\<lambda>r. (jr_id r, jr_attempts r + 1)) cs"
    by (simp add: opened_attempts_def new_attempt_def claim_row_def)
  have old: "distinct (map ja_id (db_attempts db))" "distinct (map (\<lambda>a. (ja_job a, ja_no a)) (db_attempts db))"
    using inv by (simp_all add: jobs_inv_def schema_ok_def)
  have "inj_on attempt_id (jr_id ` set cs)" using cs(1) by (intro inj_on_subset [OF fresh(1)]) auto
  then have "distinct (map attempt_id (map jr_id cs))" using cs(2) by (simp add: distinct_map comp_inj_on)
  moreover have "ja_id ` set (db_attempts db) \<inter> attempt_id ` jr_id ` set cs = {}"
    using fresh(2) cs(1) by blast
  ultimately show "distinct (map ja_id (db_attempts db @ ?o))"
    using old(1) by (simp only: map_append ids distinct_append set_map image_image)
  have "(ja_job a, ja_no a) \<noteq> (jr_id r, jr_attempts r + 1)"
    if "a \<in> set (db_attempts db)" "r \<in> set cs" for a r
  proof
    assume eq: "(ja_job a, ja_no a) = (jr_id r, jr_attempts r + 1)"
    with that(1) have "a \<in> set (attempts_of db (jr_id r))" by simp
    moreover have "job_history r (attempts_of db (jr_id r))" using jobs_inv_row [OF inv] that(2) cs(1) by blast
    ultimately have "ja_no a \<le> jr_attempts r" by (intro history_no_le(2))
    with eq show False by simp
  qed
  moreover have "distinct (map (\<lambda>r. (jr_id r, jr_attempts r + 1)) cs)"
    using cs(2) by (auto simp: distinct_map inj_on_def)
  ultimately show "distinct (map (\<lambda>a. (ja_job a, ja_no a)) (db_attempts db @ ?o))"
    using old(2) unfolding map_append nos distinct_append by auto
qed

lemma claim_total:
  assumes inv: "jobs_inv db" and "supported \<noteq> []"
    and args: "validate_worker_id worker = Inr ()" "validate_lease_interval interval = Inr ()"
      "1 \<le> limit" "limit \<le> 100"
    and fresh: "inj_on attempt_id (jr_id ` set (db_jobs db))"
      "attempt_id ` jr_id ` set (db_jobs db) \<inter> ja_id ` set (db_attempts db) = {}"
  shows "claim locked now clock attempt_id worker supported interval limit db =
    Inr (map (claimed_lease worker now interval) (claim_candidates locked now supported limit db),
         claimed_db attempt_id now clock worker interval
           (claim_candidates locked now supported limit db) db)"
proof -
  let ?cs = "claim_candidates locked now supported limit db"
  have sub: "set ?cs \<subseteq> set (db_jobs db)" by (auto dest: claim_candidates_in(1))
  note distinct = fresh_attempts [OF inv sub claim_candidates_distinct [OF jobs_inv_schema [OF inv]] fresh]
  have "map_result (\<lambda>(_, r). lease_from_row r)
      (map (\<lambda>r. (r, bump_row_version clock (claim_row worker now interval r))) ?cs) =
    Inr (map (\<lambda>(c, _). claimed_lease worker now interval c)
      (map (\<lambda>r. (r, bump_row_version clock (claim_row worker now interval r))) ?cs))"
    using sub jobs_inv_row [OF inv]
    by (intro map_result_Inr) (auto simp: lease_from_claimed_row [OF _ args(1)])
  moreover have "map (\<lambda>(c, _). claimed_lease worker now interval c)
      (map (\<lambda>r. (r, bump_row_version clock (claim_row worker now interval r))) cs) =
    map (claimed_lease worker now interval) cs" for cs
    by simp
  ultimately show ?thesis
    using args distinct
    by (simp add: claim_eq [OF assms(2) refl] claimed_pairs_sorted validate_limit_def max_claim_batch_def
        del: map_map)
qed

lemma claimed_active:
  assumes "r \<in> set (db_jobs db)" and "r \<in> set cs" and "0 < interval"
  shows "\<exists>r' \<in> set (db_jobs (claimed_db attempt_id now clock worker interval cs db)).
    active_lease now (claimed_fence worker r) r'"
proof -
  have "bump_row_version clock (claim_row worker now interval r)
    \<in> set (db_jobs (claimed_db attempt_id now clock worker interval cs db))"
    using assms(1,2) by (force simp: claimed_db_def update_jobs_def in_update_rows)
  moreover have "active_lease now (claimed_fence worker r)
      (bump_row_version clock (claim_row worker now interval r))"
    using assms(3) by (simp add: active_lease_def fenced_def claimed_fence_def claim_row_def)
  ultimately show ?thesis by blast
qed

text \<open>The leases of a claim that returned.\<close>

lemma claim_leases:
  assumes inv: "jobs_inv db" and "supported \<noteq> []"
    and run: "claim locked now clock attempt_id worker supported interval limit db = Inr (leases, db')"
  shows "leases = map (claimed_lease worker now interval)
      (claim_candidates locked now supported limit db)"
proof -
  let ?cs = "claim_candidates locked now supported limit db"
  have "map_result (\<lambda>(_, r). lease_from_row r)
      (map (\<lambda>r. (r, bump_row_version clock (claim_row worker now interval r))) ?cs) =
    Inr (map (\<lambda>(c, _). claimed_lease worker now interval c)
      (map (\<lambda>r. (r, bump_row_version clock (claim_row worker now interval r))) ?cs))"
    using jobs_inv_row [OF inv] claim_Inr(2) [OF run assms(2)]
    by (intro map_result_Inr) (auto simp: lease_from_claimed_row dest: claim_candidates_in(1))
  with run show ?thesis
    unfolding claim_eq [OF assms(2) refl] claimed_pairs_sorted result_simps by auto
qed

text \<open>The candidates are the first ones in the order of the statement.\<close>

lemma first_of_sorted:
  assumes "x \<in> set xs" and "x \<notin> set (take n (sort_key k xs))" and "y \<in> set (take n (sort_key k xs))"
  shows "k y \<le> k x"
proof -
  have "x \<in> set (drop n (sort_key k xs))"
    using assms(1,2) by (metis UnE append_take_drop_id set_append set_sort)
  moreover have "sorted (map k (take n (sort_key k xs) @ drop n (sort_key k xs)))" by simp
  ultimately show ?thesis using assms(3) unfolding map_append sorted_append by auto
qed

lemma missing_means_full:
  assumes "x \<in> set xs" and "x \<notin> set (take n (sort_key k xs))"
  shows "length (take n (sort_key k xs)) = n"
proof -
  have "\<not> length (sort_key k xs) \<le> n" using assms by auto
  then show ?thesis by simp
qed

lemma claim_candidates_first:
  assumes "r \<in> set (db_jobs db)" and "claimable now supported db r" and "\<not> locked (jr_id r)"
    and "r \<notin> set (claim_candidates locked now supported limit db)"
  shows "length (claim_candidates locked now supported limit db) = nat limit"
    and "c \<in> set (claim_candidates locked now supported limit db) \<Longrightarrow> claim_order c \<le> claim_order r"
proof -
  let ?open = "filter (\<lambda>r. claimable now supported db r \<and> \<not> locked (jr_id r)) (db_jobs db)"
  have r: "r \<in> set ?open" using assms(1-3) by simp
  note out = assms(4) [unfolded claim_candidates_def]
  show "length (claim_candidates locked now supported limit db) = nat limit"
    unfolding claim_candidates_def by (rule missing_means_full [OF r out])
  show "c \<in> set (claim_candidates locked now supported limit db) \<Longrightarrow> claim_order c \<le> claim_order r"
    unfolding claim_candidates_def by (rule first_of_sorted [OF r out])
qed

subsection \<open>Recovered rows\<close>

definition recovered_in :: "retry_policy \<Rightarrow> job_row \<Rightarrow> jobs_db \<Rightarrow> bool" where
  "recovered_in policy row db \<longleftrightarrow>
     (\<exists>r \<in> set (db_jobs db). jr_id r = jr_id row \<and> jr_state r = recovery_state policy row
        \<and> jr_attempts r = jr_attempts row \<and> jr_lease_owner r = None)"

lemma recover_row_result:
  assumes inv: "jobs_inv db" and row: "row \<in> set (db_jobs db)"
    and run: "recover_row frepr sha256 now clock policy row db = Inr (job, db')"
  shows "recovered_in policy row db'"
  using run
proof (cases rule: recover_row_cases)
  case (1 worker f shut s err delay)
  from 1(7) obtain q where q: "q \<in> set (db_jobs db)" "fenced f q" by (auto simp: list_ex_iff)
  then have "q = row" using same_job [OF inv q(1) row] 1(2) by (simp add: fenced_def)
  have "shut" using 1(3) fenced_has_open_attempt [OF inv q] by simp
  then have s: "s = recovery_state policy row" using 1(4) by simp
  let ?r = "bump_row_version clock (set_state_row now s err delay row)"
  have "?r \<in> set (db_jobs db')"
    unfolding 1(8) using q \<open>q = row\<close> by (force simp: finished_db_def closed_db_def in_update_rows)
  moreover have "jr_id ?r = jr_id row" "jr_state ?r = recovery_state policy row"
    "jr_attempts ?r = jr_attempts row" "jr_lease_owner ?r = None"
    by (simp_all add: set_state_row_def s)
  ultimately show ?thesis unfolding recovered_in_def by blast
qed

lemma recover_rows_result:
  assumes "jobs_inv db" and "distinct (map jr_id rows)" and "set rows \<subseteq> set (db_jobs db)"
    and "recover_rows frepr sha256 now clock policy rows i db = Inr (js, db')"
  shows "\<forall>row \<in> set rows. recovered_in policy row db'"
  using assms
proof (induction rows arbitrary: i db js)
  case (Cons row rows)
  from Cons.prems(4) obtain job db1 js' where
    first: "recover_row frepr sha256 now (clock i) policy row db = Inr (job, db1)"
    and rest: "recover_rows frepr sha256 now clock policy rows (Suc i) db1 = Inr (js', db')"
    by (auto simp: bind_result_eq_Inr)
  have row: "row \<in> set (db_jobs db)" using Cons.prems(3) by simp
  have fresh: "jr_id row \<notin> jr_id ` set rows" using Cons.prems(2) by simp
  note inv1 = recover_row_inv [OF Cons.prems(1) first]
  have "jr_id r \<noteq> jr_id row" if "r \<in> set rows" for r
    using imageI [OF that, of jr_id] fresh by metis
  then have sub: "set rows \<subseteq> set (db_jobs db1)"
    using Cons.prems(3) recover_row_step(2) [OF Cons.prems(1) row first] by auto
  from recover_row_result [OF Cons.prems(1) row first] obtain r where r: "r \<in> set (db_jobs db1)"
    "jr_id r = jr_id row" "jr_state r = recovery_state policy row"
    "jr_attempts r = jr_attempts row" "jr_lease_owner r = None" by (auto simp: recovered_in_def)
  moreover have "r \<in> set (db_jobs db')"
    using recover_rows_step [OF inv1 _ sub rest] Cons.prems(2) r(1,2) fresh by auto
  ultimately have "recovered_in policy row db'" unfolding recovered_in_def by blast
  with Cons.IH [OF inv1 _ sub rest] Cons.prems(2) show ?case by simp
qed simp

subsection \<open>Finding an insertion again\<close>

lemma find_idempotent_unique:
  assumes "schema_ok db" and "r \<in> set (db_jobs db)" and "jr_scope r = Some s" and "jr_key r = Some k"
  shows "find_idempotent s k db = Some r"
proof -
  have r: "r \<in> set (filter (\<lambda>r. jr_key r \<noteq> None) (db_jobs db))" using assms(2,4) by simp
  have inj: "inj_on job_idempotency (set (filter (\<lambda>r. jr_key r \<noteq> None) (db_jobs db)))"
    using assms(1) unfolding schema_ok_def distinct_map by blast
  have "find_idempotent s k db \<noteq> None"
    using assms(2-4) by (auto simp: find_idempotent_def find_None_iff)
  then obtain q where q: "find_idempotent s k db = Some q" by blast
  from find_eq_Some_unique [OF this [unfolded find_idempotent_def]] have
    "q \<in> set (db_jobs db)" "jr_scope q = Some s" "jr_key q = Some k" by auto
  with assms(3,4) inj_onD [OF inj _ _ r, of q] have "q = r" by (simp add: job_idempotency_def)
  with q show ?thesis by simp
qed

definition enqueued_as :: "(rat \<Rightarrow> string) \<Rightarrow> job_row \<Rightarrow> enqueue_job \<Rightarrow> bool" where
  "enqueued_as frepr r c \<longleftrightarrow>
     jr_type r = jk_type (ej_key c) \<and> jr_version r = jk_version (ej_key c) \<and> jr_user r = ej_user c
     \<and> jr_priority r = ej_priority c \<and> jr_scope r = ej_scope c \<and> jr_key r = ej_idempotency_key c
     \<and> same_json_document frepr (jr_payload r) (ej_payload c)"

definition requested_time :: "enqueue_job \<Rightarrow> job_row \<Rightarrow> instant" where
  "requested_time c r = (case ej_scheduled_at c of None \<Rightarrow> jr_created_at r | Some t \<Rightarrow> aware_instant t)"

lemma enqueue_result_row:
  assumes "jobs_inv db" and "enqueue frepr known now i c db = Inr (res, db1)"
    and "ej_scope c = Some s" and "ej_idempotency_key c = Some k"
  obtains r where "r \<in> set (db_jobs db1)" and "jr_id r = er_job res" and "enqueued_as frepr r c"
    and "jr_scheduled_at r = requested_time c r"
proof (cases "find_idempotent s k db")
  case None
  with assms(2-4) obtain payload where p:
    "validate_job_document frepr (ej_payload c) ''payload'' max_job_document_bytes = Inr payload"
    "db1 = db\<lparr>db_jobs := db_jobs db @ [new_job_row i now c payload]\<rparr>" "er_job res = i"
    by (auto simp: enqueue_def bind_result_eq_Inr split: if_splits)
  have "payload = ej_payload c" using p(1) by (simp add: validate_job_document_iff)
  with that [of "new_job_row i now c payload"] p(2,3) show thesis
    by (auto simp: new_job_row_def enqueued_as_def requested_time_def split: option.splits)
next
  case (Some r)
  then have r: "r \<in> set (db_jobs db)" "jr_scope r = Some s" "jr_key r = Some k"
    by (auto simp: find_idempotent_def dest: find_eq_Some_unique)
  from Some assms(2-4) obtain payload where p:
    "validate_job_document frepr (ej_payload c) ''payload'' max_job_document_bytes = Inr payload"
    "same_enqueue frepr r c payload" "db1 = db" "er_job res = jr_id r"
    by (auto simp: enqueue_def bind_result_eq_Inr split: if_splits)
  have "payload = ej_payload c" using p(1) by (simp add: validate_job_document_iff)
  with that [of r] p r assms(3,4) show thesis
    by (auto simp: same_enqueue_def enqueued_as_def requested_time_def split: option.splits)
qed

lemma enqueue_again:
  assumes "jobs_inv db" and "r \<in> set (db_jobs db)" and "enqueued_as frepr r c"
    and "ej_scope c = Some s" and "ej_idempotency_key c = Some k"
    and "is_ok (enqueue frepr known now i c db0)"
  shows "enqueue frepr known' now' i' c db =
    (if jr_scheduled_at r = requested_time c r
     then Inr (\<lparr>er_job = jr_id r, er_replayed = True\<rparr>, db) else Inl IdempotencyConflict)"
proof -
  from assms(6) obtain payload where p:
    "validate_job_document frepr (ej_payload c) ''payload'' max_job_document_bytes = Inr payload"
    "validate_enqueue c = Inr ()"
    by (auto simp: enqueue_def is_ok_iff bind_result_eq_Inr)
  have "payload = ej_payload c" using p(1) by (simp add: validate_job_document_iff)
  moreover have "find_idempotent s k db = Some r"
    using assms(3-5) by (intro find_idempotent_unique [OF jobs_inv_schema [OF assms(1)] assms(2)])
      (simp_all add: enqueued_as_def)
  ultimately show ?thesis
    using p assms(3-5)
    by (simp add: enqueue_def lift_document_def same_enqueue_def enqueued_as_def requested_time_def
        split: option.splits)
qed

end
