(* ===== verification/Job_Examples.thy ===== *)
theory Job_Examples
  imports Job_Facts
begin

text \<open>
  A concrete jobs schema, built by the operations themselves: one job inserted, claimed, failed once
  with a retry, claimed again. The parameters of the model are a constant digest and a constant float
  representation. The witnesses of the job properties evaluate them here.
\<close>

definition ex_frepr :: "rat \<Rightarrow> string" where "ex_frepr q = ''0.0''"

definition ex_sha256 :: "8 word list \<Rightarrow> 8 word list" where "ex_sha256 bs = replicate 32 0"

definition ex_key :: job_key where "ex_key = \<lparr>jk_type = ''import.run'', jk_version = 1\<rparr>"

definition ex_command :: enqueue_job where
  "ex_command =
     \<lparr>ej_key = ex_key, ej_user = Some 3, ej_payload = [(KStr ''import_id'', JInt 5)],
      ej_priority = 3, ej_scheduled_at = None, ej_scope = Some ''import'',
      ej_idempotency_key = Some ''5''\<rparr>"

definition ex_row :: job_row where
  "ex_row = new_job_row 7 (seconds 100) ex_command (ej_payload ex_command)"

definition ex_queued :: jobs_db where
  "ex_queued = \<lparr>db_jobs = [ex_row], db_attempts = [], db_dependencies = []\<rparr>"

definition ex_running_row :: job_row where
  "ex_running_row = bump_row_version (seconds 101) (claim_row ''worker-1'' (seconds 101) (seconds 60) ex_row)"

definition ex_attempt :: attempt_row where
  "ex_attempt =
     \<lparr>ja_id = 107, ja_job = 7, ja_no = 1, ja_worker = ''worker-1'', ja_started_at = seconds 101,
      ja_finished_at = None, ja_outcome = None, ja_error_code = None, ja_metrics = []\<rparr>"

definition ex_running :: jobs_db where
  "ex_running = \<lparr>db_jobs = [ex_running_row], db_attempts = [ex_attempt], db_dependencies = []\<rparr>"

definition ex_fence :: lease_fence where
  "ex_fence = \<lparr>lf_job = 7, lf_worker = ''worker-1'', lf_attempt = 1\<rparr>"

definition ex_error :: job_error where
  "ex_error = \<lparr>je_code = ''provider.timeout'', je_detail = []\<rparr>"

text \<open>The digest above makes the jitter factor its least, three quarters of two seconds.\<close>

definition ex_waiting :: jobs_db where
  "ex_waiting = finished_db (seconds 110) (seconds 110) ex_fence RetryableError
     (Some ''provider.timeout'') RETRY_WAIT (Some ex_error) (milliseconds 1500) ex_running"

definition ex_cancelling :: jobs_db where
  "ex_cancelling = ex_running\<lparr>db_jobs :=
     [bump_row_version (seconds 105) (request_cancel_row (seconds 105) ex_running_row)]\<rparr>"

definition ex_completed :: jobs_db where
  "ex_completed = finished_db (seconds 110) (seconds 110) ex_fence AttemptSuccess None COMPLETED
     None 0 ex_running"

lemma ex_key_ok: "is_ok (make_job_key (jk_type (ej_key ex_command)) (jk_version (ej_key ex_command)))"
  by code_simp

lemma ex_enqueue:
  "enqueue ex_frepr (\<lambda>u. u = 3) (seconds 100) 7 ex_command empty_jobs_db =
     Inr (\<lparr>er_job = 7, er_replayed = False\<rparr>, ex_queued)"
  by code_simp

lemma ex_claim:
  "claim (\<lambda>_. False) (seconds 101) (seconds 101) (\<lambda>j. j + 100) ''worker-1'' [ex_key]
     (seconds 60) 5 ex_queued =
   Inr ([claimed_lease ''worker-1'' (seconds 101) (seconds 60) ex_row], ex_running)"
  by code_simp

lemma be_value_zeros: "be_value (replicate n 0) = 0"
  by (induction n) simp_all

lemma ex_delay: "delay_for ex_sha256 default_retry_policy 7 1 = Inr (milliseconds 1500)"
  by (simp add: delay_for_def default_retry_policy_def ex_sha256_def be_value_zeros Let_def
      py_round_def)

lemma ex_failure:
  "fail_retryable ex_frepr ex_sha256 (seconds 110) (seconds 110) ex_fence ex_error
     default_retry_policy ex_running = Inr (Applied, ex_waiting)"
proof -
  have "lock_active_lease (seconds 110) ex_fence ex_running = Some False"
    "repo_retry_attempt_no ex_fence ex_running = Inr 1" "retry_after_seconds ex_error = 0"
    "finish (seconds 110) (seconds 110) ex_fence RetryableError RETRY_WAIT (Some ex_error)
       (milliseconds 1500) None ex_running = Inr ex_waiting"
    by code_simp+
  then show ?thesis
    using ex_delay
    by (simp add: fail_retryable_def with_transition_def default_retry_policy_def ex_fence_def)
qed

lemma ex_cancel:
  "request_cancel_for_owner (seconds 105) (seconds 105) 7 3 ex_running =
     Inr (CancelRequested, ex_cancelling)"
  by code_simp

lemma ex_completion:
  "complete (seconds 110) (seconds 110) ex_fence ex_running = Inr (Applied, ex_completed)"
  by code_simp

lemma ex_invs: "jobs_inv ex_queued" "jobs_inv ex_running" "jobs_inv ex_waiting"
  "jobs_inv ex_cancelling" "jobs_inv ex_completed"
proof -
  show q: "jobs_inv ex_queued" by (rule enqueue_inv [OF jobs_inv_empty ex_key_ok ex_enqueue])
  show r: "jobs_inv ex_running" by (rule claim_inv [OF q ex_claim])
  show "jobs_inv ex_waiting" by (rule fail_retryable_inv [OF r ex_failure])
  show "jobs_inv ex_cancelling" by (rule request_cancel_inv [OF r ex_cancel])
  show "jobs_inv ex_completed" by (rule complete_inv [OF r ex_completion])
qed

abbreviation ex_step :: "jobs_db \<Rightarrow> jobs_db \<Rightarrow> bool" where
  "ex_step \<equiv> job_step ex_frepr ex_sha256 default_retry_policy"

lemma ex_steps:
  "ex_step empty_jobs_db ex_queued" "ex_step ex_queued ex_running" "ex_step ex_running ex_waiting"
  "ex_step ex_running ex_cancelling" "ex_step ex_running ex_completed"
  using step_enqueue [OF ex_key_ok ex_enqueue] step_claim [OF ex_claim]
    step_retryable [OF ex_failure] step_cancel [OF ex_cancel] step_complete [OF ex_completion]
  by blast+

lemma ex_reachable: "ex_step\<^sup>*\<^sup>* empty_jobs_db ex_waiting"
  using ex_steps by (meson converse_rtranclp_into_rtranclp rtranclp.rtrancl_refl)

text \<open>The same job as an acquisition, whose admission still waits.\<close>

definition ex_acquiring :: jobs_db where
  "ex_acquiring = ex_running\<lparr>db_jobs := [ex_running_row\<lparr>jr_type := ''music.internet.acquire''\<rparr>]\<rparr>"

definition ex_worker_authority :: resource_authority where
  "ex_worker_authority =
     \<lparr>ra_user = 3, ra_generation = 1, ra_kind = DeviceSession, ra_device = Some 31,
      ra_session_family = Some 32, ra_session_mode = Some ''V2'', ra_job = Some 7,
      ra_job_worker = Some ''worker-1'', ra_job_attempt = Some 1, ra_acquisition_attempt = None,
      ra_source_authorization = None, ra_source_revision = None, ra_policy = None,
      ra_policy_revision = None\<rparr>"

definition ex_waiting_admission :: resource_admission where
  "ex_waiting_admission =
     \<lparr>ad_authority = ex_worker_authority,
      ad_request = \<lparr>rq_operation = 50, rq_kind = TRANSFER, rq_type = InternetAcquisition,
                    rq_resource = 51, rq_target = Some 51\<rparr>,
      ad_sha256 = replicate 32 0, ad_state = Waiting, ad_activation = None, ad_generation = 0,
      ad_created_at = seconds 102, ad_updated_at = seconds 102, ad_enqueued_at = seconds 102,
      ad_waiting_until = None, ad_lease_until = None, ad_claim_until = None, ad_claimed_at = None,
      ad_terminal_at = None, ad_attachment_revision = 0, ad_current_recording = None,
      ad_next_recording = None\<rparr>"

lemma ex_acquiring_inv: "jobs_inv ex_acquiring"
  by code_simp

definition ex_deferred :: jobs_db where
  "ex_deferred = ex_acquiring
     \<lparr>db_jobs := map (deferred_row (seconds 103) (\<lambda>_. seconds 103) (seconds 2)) (db_jobs ex_acquiring),
      db_attempts := map (close_row (seconds 103) ResourceWait None) (db_attempts ex_acquiring)\<rparr>"

lemma ex_deferral:
  "defer_for_resource (seconds 103) (\<lambda>_. seconds 103) [ex_waiting_admission] ex_fence 50 (seconds 2)
     ex_acquiring = Inr (Deferred, ex_deferred)"
  by code_simp

end
