(* ===== verification/Job_Properties.thy ===== *)
theory Job_Properties
  imports Job_Examples
begin

text \<open>
  The properties of the durable jobs, each followed by its witness on the schema of \<open>Job_Examples\<close>.
\<close>

text \<open>C2. Whatever the order, the arguments and the times of the repository's calls, the jobs schema
  satisfies its constraints, and every job's attempts are numbered without gaps, with an open one
  exactly while the job runs, held by the lease's owner.\<close>

theorem jobs_runs_consistent:
  assumes "(job_step frepr sha256 policy)\<^sup>*\<^sup>* empty_jobs_db db"
  shows "jobs_inv db"
  using assms jobs_inv_empty by (rule jobs.run_inv)

theorem jobs_runs_consistent_witness: "jobs_inv ex_waiting"
  by (rule jobs_runs_consistent [OF ex_reachable])



text \<open>C3. A claim hands out the due, supported, unblocked and unlocked jobs that come first in the
  order of the statement, at most \<open>limit\<close> of them, each under the fence of its next attempt, which is
  then the active lease of the job.\<close>

theorem claim_takes_the_first_due_jobs:
  assumes "jobs_inv db" and "supported \<noteq> []"
    and "validate_worker_id worker = Inr ()" and "validate_lease_interval interval = Inr ()"
    and "1 \<le> limit" and "limit \<le> 100"
    and "inj_on attempt_id (jr_id ` set (db_jobs db))"
    and "attempt_id ` jr_id ` set (db_jobs db) \<inter> ja_id ` set (db_attempts db) = {}"
  shows "\<exists>cs db'. claim locked now clock attempt_id worker supported interval limit db =
      Inr (map (claimed_lease worker now interval) cs, db')
    \<and> distinct (map jr_id cs) \<and> int (length cs) \<le> limit \<and> sorted (map claim_order cs)
    \<and> (\<forall>c \<in> set cs. c \<in> set (db_jobs db) \<and> claimable now supported db c \<and> \<not> locked (jr_id c)
         \<and> (\<exists>r' \<in> set (db_jobs db'). active_lease now (claimed_fence worker c) r'))
    \<and> (\<forall>r \<in> set (db_jobs db) - set cs. claimable now supported db r \<longrightarrow> \<not> locked (jr_id r) \<longrightarrow>
         int (length cs) = limit \<and> (\<forall>c \<in> set cs. claim_order c \<le> claim_order r))"
proof -
  let ?cs = "claim_candidates locked now supported limit db"
  let ?db' = "claimed_db attempt_id now clock worker interval ?cs db"
  have "int (length ?cs) \<le> limit" using assms(5) by (simp add: claim_candidates_def)
  moreover have "0 < interval"
    using assms(4) by (simp add: validate_lease_interval_def)
  then have "\<forall>c \<in> set ?cs. c \<in> set (db_jobs db) \<and> claimable now supported db c \<and> \<not> locked (jr_id c)
       \<and> (\<exists>r' \<in> set (db_jobs ?db'). active_lease now (claimed_fence worker c) r')"
    using claim_candidates_in claimed_active [where cs = ?cs] by (intro ballI conjI) simp_all
  moreover have "\<forall>r \<in> set (db_jobs db) - set ?cs. claimable now supported db r \<longrightarrow> \<not> locked (jr_id r) \<longrightarrow>
       int (length ?cs) = limit \<and> (\<forall>c \<in> set ?cs. claim_order c \<le> claim_order r)"
    using claim_candidates_first [where limit = limit] assms(5) by auto
  ultimately show ?thesis
    using claim_total [OF assms] claim_candidates_distinct [OF jobs_inv_schema [OF assms(1)]]
      sorted_claim_candidates by blast
qed

theorem claim_takes_the_first_due_jobs_witness:
  "\<exists>cs db'. claim (\<lambda>_. False) (seconds 101) (seconds 101) (\<lambda>j. j + 100) ''worker-1'' [ex_key]
      (seconds 60) 5 ex_queued = Inr (map (claimed_lease ''worker-1'' (seconds 101) (seconds 60)) cs, db')"
proof -
  have args: "[ex_key] \<noteq> []" "validate_worker_id ''worker-1'' = Inr ()"
    "validate_lease_interval (seconds 60) = Inr ()" "(1::int) \<le> 5" "(5::int) \<le> 100" by code_simp+
  have fresh: "inj_on (\<lambda>j. j + 100) (jr_id ` set (db_jobs ex_queued))"
    "(\<lambda>j. j + 100) ` jr_id ` set (db_jobs ex_queued) \<inter> ja_id ` set (db_attempts ex_queued) = {}"
    by (auto simp: inj_on_def ex_queued_def)
  show ?thesis
    using claim_takes_the_first_due_jobs [OF ex_invs(1) args fresh,
        where locked = "\<lambda>_. False" and now = "seconds 101" and clock = "seconds 101"]
    by (elim exE conjE) (intro exI)
qed



text \<open>C24. Once a cancellation is requested it stays requested, and the job can only become cancelled:
  it neither completes, fails, nor waits for a retry.\<close>

theorem cancellation_wins:
  assumes "jobs_inv db" and "r \<in> set (db_jobs db)" and "jr_cancel_at r \<noteq> None"
    and "(job_step frepr sha256 policy)\<^sup>*\<^sup>* db db'"
  shows "\<exists>r' \<in> set (db_jobs db'). jr_id r' = jr_id r \<and> jr_cancel_at r' = jr_cancel_at r
    \<and> jr_state r' \<in> {jr_state r, CANCELLED}"
proof -
  from jobs.run_above [OF assms(4,1)] assms(2) obtain r' where
    r': "r' \<in> set (db_jobs db')" "row_later r r'" unfolding jobs_later_def by blast
  then have "job_identity r' = job_identity r" unfolding row_later_def by blast
  then have "jr_id r' = jr_id r" by (simp add: job_identity_def)
  moreover have "jr_cancel_at r' = jr_cancel_at r \<and> jr_state r' \<in> {jr_state r, CANCELLED}"
    using r'(2) assms(3) unfolding row_later_def by blast
  ultimately show ?thesis using r'(1) by blast
qed

theorem cancellation_wins_witness:
  "\<exists>r' \<in> set (db_jobs ex_cancelling). jr_id r' = 7 \<and> jr_state r' \<in> {RUNNING, CANCELLED}"
proof -
  let ?r = "hd (db_jobs ex_cancelling)"
  have r: "?r \<in> set (db_jobs ex_cancelling)" "jr_cancel_at ?r \<noteq> None" "jr_id ?r = 7"
    "jr_state ?r = RUNNING" by code_simp+
  from cancellation_wins [OF ex_invs(4) r(1,2) rtranclp.rtrancl_refl] r(3,4) show ?thesis by auto
qed

text \<open>C23. Under a valid policy no job's attempts, its resource waits apart, ever exceed the policy's
  maximum, and a job that waits for a retry has an attempt left.\<close>

theorem attempts_bounded_by_policy:
  assumes "policy_ok policy" and "(job_step frepr sha256 policy)\<^sup>*\<^sup>* empty_jobs_db db"
    and "r \<in> set (db_jobs db)"
  shows "jr_attempts r - jr_waits r \<le> max_attempts policy
    \<and> (jr_state r = RETRY_WAIT \<longrightarrow> jr_attempts r - jr_waits r < max_attempts policy)"
proof -
  have "jobs_inv empty_jobs_db \<and> policy_ok policy \<and> retries_within policy empty_jobs_db"
    using assms(1) jobs_inv_empty by (simp add: retries_within_def empty_jobs_db_def)
  from jobs_retry.run_inv [OF assms(2) this] assms(3) have "retry_within policy r"
    by (simp add: retries_within_def)
  then show ?thesis by (simp add: retry_within_def)
qed

theorem attempts_bounded_by_policy_witness:
  "jr_attempts (hd (db_jobs ex_waiting)) - jr_waits (hd (db_jobs ex_waiting)) < 5"
proof -
  have "hd (db_jobs ex_waiting) \<in> set (db_jobs ex_waiting)"
    "jr_state (hd (db_jobs ex_waiting)) = RETRY_WAIT" "max_attempts default_retry_policy = 5"
    by code_simp+
  with attempts_bounded_by_policy [OF default_retry_policy_ok ex_reachable] show ?thesis by metis
qed





text \<open>C21. Recovery takes every job it locked out of the running state: to cancelled when the owner asked,
  to failed when the policy is exhausted, to a retry otherwise, without an exception.\<close>

theorem recovery_total:
  assumes "jobs_inv db" and "started_by now db" and "policy_ok policy" and "supported \<noteq> []"
    and "1 \<le> limit" and "limit \<le> 100" and "\<forall>r \<in> set (db_jobs db). jr_attempts r < 2 ^ 64"
  shows "\<exists>db'. recover_expired frepr sha256 locked now clock supported limit policy db =
      Inr (map (recovered_as policy) (lock_expired locked now supported limit db), db')
    \<and> (\<forall>row \<in> set (lock_expired locked now supported limit db). recovered_in policy row db')"
proof -
  let ?rows = "lock_expired locked now supported limit db"
  have in_db: "set ?rows \<subseteq> set (db_jobs db)" by (auto dest: lock_expired_in(1))
  note distinct = lock_expired_distinct [OF jobs_inv_schema [OF assms(1)], of locked now supported limit]
  have "r \<in> set (db_jobs db) \<and> jr_state r = RUNNING \<and> jr_attempts r < 2 ^ 64" if "r \<in> set ?rows" for r
    using that lock_expired_in(1,2) [OF that] assms(7) by (simp add: expired_lease_def)
  from recover_rows_ok [OF assms(1,3,2) distinct this] obtain db' where
    "recover_rows frepr sha256 now clock policy ?rows 0 db = Inr (map (recovered_as policy) ?rows, db')"
    by blast
  with recover_rows_result [OF assms(1) distinct in_db this] assms(4-6) show ?thesis
    by (simp add: recover_expired_def validate_limit_def max_recovery_batch_def)
qed

theorem recovery_total_witness:
  "\<exists>db'. recover_expired ex_frepr ex_sha256 (\<lambda>_. False) (seconds 200) (\<lambda>_. seconds 200) [ex_key] 10
     default_retry_policy ex_running =
     Inr (map (recovered_as default_retry_policy)
       (lock_expired (\<lambda>_. False) (seconds 200) [ex_key] 10 ex_running), db')"
proof -
  have "started_by (seconds 200) ex_running" "[ex_key] \<noteq> []" "(1::int) \<le> 10" "(10::int) \<le> 100"
    "\<forall>r \<in> set (db_jobs ex_running). jr_attempts r < 2 ^ 64" by code_simp+
  from recovery_total [OF ex_invs(2) this(1) default_retry_policy_ok this(2-5)] show ?thesis by blast
qed

text \<open>C30. A deferral for a resource gives the claim back and costs no attempt: the retry ordinal of the
  next claim is the one of the attempt given up, and the admission it waits for is still waiting.\<close>

theorem deferral_costs_no_attempt:
  assumes "jobs_inv db"
    and "defer_for_resource now clock admissions f operation_id delay db = Inr (Deferred, db')"
  shows "\<exists>r \<in> set (db_jobs db). \<exists>r' \<in> set (db_jobs db'). fenced f r \<and> jr_id r' = jr_id r
    \<and> jr_state r' = RETRY_WAIT \<and> jr_waiting r' \<and> jr_lease_owner r' = None
    \<and> jr_scheduled_at r' = now + delay
    \<and> (jr_attempts r' + 1) - jr_waits r' = jr_attempts r - jr_waits r"
  using assms(2)
proof (cases rule: defer_for_resource_cases)
  case (deferred row db1)
  from find_eq_Some_unique [OF deferred(1)] have row: "row \<in> set (db_jobs db)" "fenced f row" by simp_all
  have "distinct (map jr_id (db_jobs db))" using assms(1) by (simp add: jobs_inv_def schema_ok_def)
  with row deferred(3) have
    "db_jobs db' = update_rows (fenced f) (deferred_row now clock delay) (db_jobs db)"
    unfolding deferred(4) by (simp add: finish_Inr_iff finished_db_def closed_db_def deferred_jobs)
  with row have "deferred_row now clock delay row \<in> set (db_jobs db')" by (force simp: in_update_rows)
  with row show ?thesis
    by (intro bexI [of _ row] bexI [of _ "deferred_row now clock delay row"])
      (simp_all add: deferred_row_def resource_wait_row_def set_state_row_def)
qed auto

theorem deferral_costs_no_attempt_witness:
  "\<exists>r \<in> set (db_jobs ex_acquiring). \<exists>r' \<in> set (db_jobs ex_deferred). fenced ex_fence r \<and> jr_id r' = jr_id r
    \<and> jr_state r' = RETRY_WAIT \<and> jr_waiting r' \<and> jr_lease_owner r' = None
    \<and> jr_scheduled_at r' = seconds 103 + seconds 2
    \<and> (jr_attempts r' + 1) - jr_waits r' = jr_attempts r - jr_waits r"
  by (rule deferral_costs_no_attempt [OF ex_acquiring_inv ex_deferral])

text \<open>C37. The delay before a retry is at least zero and at most the exponential backoff of the attempt,
  which itself stays below the policy's longest delay.\<close>

theorem retry_delay_bounds:
  assumes "policy_ok p" and "1 \<le> n" and "n < 2 ^ 64"
  shows "\<exists>d. delay_for sha256 p job n = Inr d \<and> 0 \<le> d \<and> d \<le> delay_cap p n \<and> d \<le> max_delay p"
  using delay_for_bounds [OF assms, of sha256 job] by metis

theorem retry_delay_bounds_witness:
  "\<exists>d. delay_for ex_sha256 default_retry_policy 7 3 = Inr d \<and> d \<le> minutes 5"
  using retry_delay_bounds [OF default_retry_policy_ok, of 3 ex_sha256 7]
  by (auto simp: default_retry_policy_def)

text \<open>C38. A document is stored as it is exactly when it is clean (string keys that name no secret,
  finite numbers, JSON values only), no deeper than 32 containers, and its canonical encoding fits the
  bound; otherwise it is refused.\<close>

theorem stored_documents_characterised:
  "validate_job_document frepr value field n = Inr doc \<longleftrightarrow>
     doc = value \<and> 2 \<le> n \<and> clean_items value \<and> nesting_items value \<le> max_json_depth
     \<and> (\<exists>t. json_dumps frepr (JDict value) = Some t \<and> utf8_length t \<le> n)"
  by (rule validate_job_document_iff)

text \<open>C39. A key is sensitive exactly when its normal form holds one of the credential words, delimited
  by underscores or by its ends.\<close>

theorem sensitive_keys_characterised:
  "is_sensitive_key key \<longleftrightarrow>
     (\<exists>u w v. normalize_doc_key key = u @ w @ v \<and> w \<in> set credential_words
        \<and> (u = [] \<or> last u = CHR ''_'') \<and> key_boundary v)"
  by (rule is_sensitive_key_iff)

text \<open>C40. The comparison behind a replay does not depend on the order of the payload's top-level keys.\<close>

theorem payload_comparison_ignores_key_order:
  assumes "mset left = mset right" and "distinct (map fst left)"
  shows "same_json_document frepr left right"
  using assms by (rule same_json_document_permute)

theorem payload_comparison_ignores_key_order_witness:
  "same_json_document ex_frepr [(KStr ''a'', JInt 1), (KStr ''b'', JNull)]
     [(KStr ''b'', JNull), (KStr ''a'', JInt 1)]"
  by (rule payload_comparison_ignores_key_order) simp_all

end
