(* ===== verification/Job_Worker.thy ===== *)
theory Job_Worker
  imports Job_Facts
begin

text \<open>
  The CPU worker of \<open>server/src/autplay/application/job_worker.py\<close>: its settings, the registry of
  handlers, the safe points of \<open>JobExecutionContext\<close>, and one iteration of \<open>JobWorker\<close>.

  Every call of the repository is a transaction of its own, and other processes run between two of
  them: \<open>sr_env i\<close> is what they do to the jobs schema before the \<open>i\<close>-th transaction of an iteration.
  A handler is code of other modules; of it the worker sees the calls it makes on its context and how
  it ends, a script. The heartbeat thread's renewals stand in the script where they happened.
\<close>

subsection \<open>Settings and registry\<close>

record worker_settings =
  ws_lease_interval :: duration
  ws_heartbeat_interval :: duration
  ws_idle_poll_interval :: duration
  ws_recovery_batch :: int
  ws_retry_policy :: retry_policy

definition make_worker_settings ::
  "duration \<Rightarrow> duration \<Rightarrow> duration \<Rightarrow> int \<Rightarrow> retry_policy \<Rightarrow> job_exn + worker_settings" where
  "make_worker_settings lease beat idle batch policy =
     (if \<not> (seconds 2 \<le> lease \<and> lease \<le> hours 1) then Inl (ValueError ''lease_interval'')
      else if \<not> milliseconds 100 \<le> beat then Inl (ValueError ''heartbeat_interval'')
      else if py_round (of_int lease / 2) < beat then Inl (ValueError ''heartbeat_interval'')
      else if \<not> (milliseconds 10 \<le> idle \<and> idle \<le> minutes 1)
      then Inl (ValueError ''idle_poll_interval'')
      else if \<not> (1 \<le> batch \<and> batch \<le> 100) then Inl (ValueError ''recovery_batch_size'')
      else Inr \<lparr>ws_lease_interval = lease, ws_heartbeat_interval = beat,
                ws_idle_poll_interval = idle, ws_recovery_batch = batch, ws_retry_policy = policy\<rparr>)"

definition default_worker_settings :: worker_settings where
  "default_worker_settings =
     \<lparr>ws_lease_interval = seconds 60, ws_heartbeat_interval = seconds 20,
      ws_idle_poll_interval = seconds 1, ws_recovery_batch = 20,
      ws_retry_policy = default_retry_policy\<rparr>"

text \<open>The ends of a handler and the calls on its context.\<close>

datatype handler_exn =
    ResourceWaitRaised bool
  | CancellationRaised
  | LeaseLostRaised
  | RetryableRaised job_error
  | TerminalRaised job_error
  | OtherRaised string

datatype context_call =
    Checkpoint document "int option" "int option"
  | Beat
  | SafePoint
  | DeferFor uuid duration
  | MonitorBeat

record script =
  sc_calls :: "context_call list"
  sc_end :: "handler_exn option"
  sc_late_beats :: nat
  sc_monitor_stuck :: bool

type_synonym registry = "(job_key \<times> (job_lease \<Rightarrow> script)) list"

definition key_order :: "job_key \<Rightarrow> string \<times> int" where
  "key_order k = (jk_type k, jk_version k)"

definition registry_supported :: "registry \<Rightarrow> job_key list" where
  "registry_supported reg = sort_key key_order (map fst reg)"

definition handler_for :: "registry \<Rightarrow> job_key \<Rightarrow> job_exn + (job_lease \<Rightarrow> script)" where
  "handler_for reg k =
     (case map_of reg k of
        None \<Rightarrow> Inl (RuntimeError ''claimed job has no registered handler'')
      | Some h \<Rightarrow> Inr h)"

subsection \<open>Transactions among other processes\<close>

record surroundings =
  sr_env :: "nat \<Rightarrow> jobs_db \<Rightarrow> jobs_db"
  sr_now :: "nat \<Rightarrow> instant"
  sr_clock :: "nat \<Rightarrow> nat \<Rightarrow> instant"
  sr_locked :: "nat \<Rightarrow> uuid \<Rightarrow> bool"
  sr_attempt_id :: "uuid \<Rightarrow> uuid"
  sr_admissions :: "nat \<Rightarrow> resource_admission list"

record worker_state =
  wk_db :: jobs_db
  wk_transactions :: nat
  wk_cancel_requested :: bool
  wk_lease_lost :: bool
  wk_monitor_failed :: bool

text \<open>\<open>with self._uow_factory() as unit: x = op(unit); unit.commit()\<close>.\<close>

definition transact ::
  "surroundings \<Rightarrow> (instant \<Rightarrow> (nat \<Rightarrow> instant) \<Rightarrow> jobs_db \<Rightarrow> job_exn + ('x \<times> jobs_db)) \<Rightarrow> worker_state
   \<Rightarrow> (job_exn + 'x) \<times> worker_state" where
  "transact sr op st =
     (let i = wk_transactions st; db = sr_env sr i (wk_db st)
      in case op (sr_now sr i) (sr_clock sr i) db of
           Inl e \<Rightarrow> (Inl e, st\<lparr>wk_db := db, wk_transactions := Suc i\<rparr>)
         | Inr (x, db') \<Rightarrow> (Inr x, st\<lparr>wk_db := db', wk_transactions := Suc i\<rparr>))"

definition exn_name :: "job_exn \<Rightarrow> string" where
  "exn_name e =
     (case e of ValueError _ \<Rightarrow> ''ValueError'' | JobDocumentError _ \<Rightarrow> ''JobDocumentError''
      | PersistenceInvariant _ \<Rightarrow> ''JobPersistenceInvariantError''
      | IdempotencyConflict \<Rightarrow> ''JobIdempotencyConflict'' | IntegrityError _ \<Rightarrow> ''IntegrityError''
      | RuntimeError _ \<Rightarrow> ''RuntimeError'')"

subsection \<open>The execution context\<close>

definition raise_if_cancelled :: "worker_state \<Rightarrow> handler_exn option" where
  "raise_if_cancelled st =
     (if wk_lease_lost st then Some LeaseLostRaised
      else if wk_cancel_requested st then Some CancellationRaised
      else None)"

definition context_heartbeat ::
  "surroundings \<Rightarrow> duration \<Rightarrow> lease_fence \<Rightarrow> worker_state \<Rightarrow> handler_exn option \<times> worker_state" where
  "context_heartbeat sr interval f st =
     (case transact sr (\<lambda>now clock. heartbeat now (clock 0) f interval) st of
        (Inl e, st') \<Rightarrow> (Some (OtherRaised (exn_name e)), st')
      | (Inr None, st') \<Rightarrow> (Some LeaseLostRaised, st'\<lparr>wk_lease_lost := True\<rparr>)
      | (Inr (Some h), st') \<Rightarrow>
          (None, if heartbeat_cancel_requested h then st'\<lparr>wk_cancel_requested := True\<rparr> else st'))"

definition context_checkpoint ::
  "(rat \<Rightarrow> string) \<Rightarrow> surroundings \<Rightarrow> lease_fence \<Rightarrow> document \<Rightarrow> int option \<Rightarrow> int option \<Rightarrow> worker_state
   \<Rightarrow> handler_exn option \<times> worker_state" where
  "context_checkpoint frepr sr f doc cur tot st =
     (case raise_if_cancelled st of
        Some e \<Rightarrow> (Some e, st)
      | None \<Rightarrow>
          case transact sr (\<lambda>now clock. save_checkpoint frepr now (clock 0) f doc cur tot) st of
            (Inl e, st') \<Rightarrow> (Some (OtherRaised (exn_name e)), st')
          | (Inr None, st') \<Rightarrow> (Some LeaseLostRaised, st'\<lparr>wk_lease_lost := True\<rparr>)
          | (Inr (Some saved), st') \<Rightarrow>
              let st'' = (if checkpoint_cancel_requested saved
                          then st'\<lparr>wk_cancel_requested := True\<rparr> else st')
              in (raise_if_cancelled st'', st''))"

definition context_defer ::
  "surroundings \<Rightarrow> lease_fence \<Rightarrow> uuid \<Rightarrow> duration \<Rightarrow> worker_state \<Rightarrow> handler_exn option \<times> worker_state" where
  "context_defer sr f operation_id delay st =
     (case raise_if_cancelled st of
        Some e \<Rightarrow> (Some e, st)
      | None \<Rightarrow>
          case transact sr (\<lambda>now clock. defer_for_resource now clock
              (sr_admissions sr (wk_transactions st)) f operation_id delay) st of
            (Inl e, st') \<Rightarrow> (Some (OtherRaised (exn_name e)), st')
          | (Inr t, st') \<Rightarrow>
              if t = Granted \<or> t = Recheck then (None, st')
              else if t = WaitLostLease then (Some LeaseLostRaised, st'\<lparr>wk_lease_lost := True\<rparr>)
              else (Some (ResourceWaitRaised (t = WaitCancelled)), st'))"

text \<open>\<open>_HeartbeatMonitor._run\<close>: the thread ends with its first failure, which it keeps.\<close>

definition monitor_beat ::
  "surroundings \<Rightarrow> duration \<Rightarrow> lease_fence \<Rightarrow> worker_state \<Rightarrow> worker_state" where
  "monitor_beat sr interval f st =
     (if wk_monitor_failed st then st
      else case context_heartbeat sr interval f st of
          (Some _, st') \<Rightarrow> st'\<lparr>wk_monitor_failed := True\<rparr>
        | (None, st') \<Rightarrow> st')"

fun run_calls ::
  "(rat \<Rightarrow> string) \<Rightarrow> surroundings \<Rightarrow> duration \<Rightarrow> lease_fence \<Rightarrow> context_call list \<Rightarrow> worker_state
   \<Rightarrow> handler_exn option \<times> worker_state" where
  "run_calls frepr sr interval f [] st = (None, st)"
| "run_calls frepr sr interval f (call # calls) st =
     (let (raised, st') =
        (case call of
           Checkpoint doc cur tot \<Rightarrow> context_checkpoint frepr sr f doc cur tot st
         | Beat \<Rightarrow> context_heartbeat sr interval f st
         | SafePoint \<Rightarrow> (raise_if_cancelled st, st)
         | DeferFor operation_id delay \<Rightarrow> context_defer sr f operation_id delay st
         | MonitorBeat \<Rightarrow> (None, monitor_beat sr interval f st))
      in case raised of
           Some e \<Rightarrow> (Some e, st')
         | None \<Rightarrow> run_calls frepr sr interval f calls st')"

fun late_beats :: "surroundings \<Rightarrow> duration \<Rightarrow> lease_fence \<Rightarrow> nat \<Rightarrow> worker_state \<Rightarrow> worker_state" where
  "late_beats sr interval f 0 st = st"
| "late_beats sr interval f (Suc n) st = late_beats sr interval f n (monitor_beat sr interval f st)"

text \<open>The body of the \<open>with monitor\<close> block, and the monitor's exit.\<close>

definition run_handler ::
  "(rat \<Rightarrow> string) \<Rightarrow> surroundings \<Rightarrow> duration \<Rightarrow> lease_fence \<Rightarrow> script \<Rightarrow> worker_state
   \<Rightarrow> handler_exn option \<times> worker_state" where
  "run_handler frepr sr interval f sc st =
     (let (raised, st1) =
        (case raise_if_cancelled st of
           Some e \<Rightarrow> (Some e, st)
         | None \<Rightarrow>
             case run_calls frepr sr interval f (sc_calls sc) st of
               (Some e, st') \<Rightarrow> (Some e, st')
             | (None, st') \<Rightarrow>
                 (case sc_end sc of
                    Some e \<Rightarrow> (Some e, st')
                  | None \<Rightarrow> (raise_if_cancelled st', st')));
        st2 = late_beats sr interval f (sc_late_beats sc) st1
      in (raised, if sc_monitor_stuck sc then st2\<lparr>wk_monitor_failed := True\<rparr> else st2))"

subsection \<open>One iteration\<close>

datatype worker_outcome =
    WorkerIdle | WorkerCompleted | WorkerRetryScheduled | WorkerFailed | WorkerCancelled
  | WorkerLeaseLost | WorkerResourceWait

record worker_tick =
  wt_outcome :: worker_outcome
  wt_recovered :: nat
  wt_job :: "uuid option"

definition outcome_for_transition :: "lease_transition \<Rightarrow> worker_outcome \<Rightarrow> worker_outcome" where
  "outcome_for_transition t applied =
     (if t = LostLease then WorkerLeaseLost
      else if t = LeaseCancelled then WorkerCancelled
      else applied)"

definition settle ::
  "surroundings \<Rightarrow> (instant \<Rightarrow> (nat \<Rightarrow> instant) \<Rightarrow> jobs_db \<Rightarrow> job_exn + (lease_transition \<times> jobs_db))
   \<Rightarrow> worker_outcome \<Rightarrow> worker_state \<Rightarrow> (job_exn + worker_outcome) \<times> worker_state" where
  "settle sr op applied st =
     (case transact sr op st of
        (Inl e, st') \<Rightarrow> (Inl e, st')
      | (Inr t, st') \<Rightarrow> (Inr (outcome_for_transition t applied), st'))"

definition worker_execute ::
  "(rat \<Rightarrow> string) \<Rightarrow> (8 word list \<Rightarrow> 8 word list) \<Rightarrow> surroundings \<Rightarrow> worker_settings \<Rightarrow> job_lease \<Rightarrow> script
   \<Rightarrow> worker_state \<Rightarrow> (job_exn + worker_outcome) \<times> worker_state" where
  "worker_execute frepr sha256 sr settings lease sc st =
     (let f = jl_fence lease; policy = ws_retry_policy settings;
          (raised, st') = run_handler frepr sr (ws_lease_interval settings) f sc st
      in case raised of
           None \<Rightarrow>
             if wk_monitor_failed st' then (Inr WorkerLeaseLost, st')
             else settle sr (\<lambda>now clock. complete now (clock 0) f) WorkerCompleted st'
         | Some (ResourceWaitRaised cancelled) \<Rightarrow>
             (Inr (if cancelled then WorkerCancelled else WorkerResourceWait), st')
         | Some CancellationRaised \<Rightarrow>
             settle sr (\<lambda>now clock. acknowledge_cancel now (clock 0) f) WorkerCancelled st'
         | Some LeaseLostRaised \<Rightarrow> (Inr WorkerLeaseLost, st')
         | Some (RetryableRaised e) \<Rightarrow>
             settle sr (\<lambda>now clock. fail_retryable frepr sha256 now (clock 0) f e policy)
               (if max_attempts policy \<le> retry_attempt_no lease then WorkerFailed
                else WorkerRetryScheduled) st'
         | Some (TerminalRaised e) \<Rightarrow>
             settle sr (\<lambda>now clock. fail_terminal now (clock 0) f e) WorkerFailed st'
         | Some (OtherRaised name) \<Rightarrow>
             (case make_job_error frepr ''job.unhandled_error''
                 [(KStr ''exception_type'', JStr (take 200 name))] of
                Inl e \<Rightarrow> (Inl e, st')
              | Inr safe \<Rightarrow> settle sr (\<lambda>now clock. fail_terminal now (clock 0) f safe) WorkerFailed st'))"

definition fresh_worker :: "jobs_db \<Rightarrow> worker_state" where
  "fresh_worker db =
     \<lparr>wk_db = db, wk_transactions = 0, wk_cancel_requested = False, wk_lease_lost = False,
      wk_monitor_failed = False\<rparr>"

definition run_once ::
  "(rat \<Rightarrow> string) \<Rightarrow> (8 word list \<Rightarrow> 8 word list) \<Rightarrow> surroundings \<Rightarrow> string \<Rightarrow> registry \<Rightarrow> worker_settings
   \<Rightarrow> jobs_db \<Rightarrow> (job_exn + worker_tick) \<times> jobs_db" where
  "run_once frepr sha256 sr worker reg settings db =
     (let supported = registry_supported reg in
      if supported = []
      then (Inr \<lparr>wt_outcome = WorkerIdle, wt_recovered = 0, wt_job = None\<rparr>, db)
      else case transact sr (\<lambda>now clock. recover_expired frepr sha256 (sr_locked sr 0) now clock supported
                  (ws_recovery_batch settings) (ws_retry_policy settings)) (fresh_worker db) of
          (Inl e, st) \<Rightarrow> (Inl e, wk_db st)
        | (Inr recovered, st) \<Rightarrow>
            (case transact sr (\<lambda>now clock. claim (sr_locked sr 1) now (clock 0) (sr_attempt_id sr) worker
                     supported (ws_lease_interval settings) 1) st of
               (Inl e, st') \<Rightarrow> (Inl e, wk_db st')
             | (Inr [], st') \<Rightarrow>
                 (Inr \<lparr>wt_outcome = WorkerIdle, wt_recovered = length recovered, wt_job = None\<rparr>, wk_db st')
             | (Inr (lease # _), st') \<Rightarrow>
                 (case handler_for reg (jl_key lease) of
                    Inl e \<Rightarrow> (Inl e, wk_db st')
                  | Inr h \<Rightarrow>
                      (case worker_execute frepr sha256 sr settings lease (h lease) st' of
                         (Inl e, st'') \<Rightarrow> (Inl e, wk_db st'')
                       | (Inr outcome, st'') \<Rightarrow>
                           (Inr \<lparr>wt_outcome = outcome, wt_recovered = length recovered,
                                 wt_job = Some (lf_job (jl_fence lease))\<rparr>, wk_db st'')))))"

end
