(* ===== verification/Job_Worker_Facts.thy ===== *)
theory Job_Worker_Facts
  imports Job_Worker
begin

text \<open>
  What an iteration of the worker does to the jobs schema: it is a run of the repository's operations
  among those of other processes, and the outcome it reports is the state the job was left in.
\<close>

subsection \<open>The schema as other processes see it\<close>

text \<open>Other workers may run under other retry policies.\<close>

definition any_job_step ::
  "(rat \<Rightarrow> string) \<Rightarrow> (8 word list \<Rightarrow> 8 word list) \<Rightarrow> jobs_db \<Rightarrow> jobs_db \<Rightarrow> bool" where
  "any_job_step frepr sha256 db db' \<longleftrightarrow> (\<exists>p. job_step frepr sha256 p db db')"

interpretation world: monotone_component "any_job_step frepr sha256" jobs_inv jobs_later
  for frepr sha256
proof unfold_locales
  show "jobs_inv t" if "jobs_inv s" "any_job_step frepr sha256 s t" for s t
    using that jobs.step_inv unfolding any_job_step_def by blast
  show "jobs_later s t" if "jobs_inv s" "any_job_step frepr sha256 s t" for s t
    using that jobs.step_above unfolding any_job_step_def by blast
qed (fact jobs.above_refl, fact jobs.above_trans)

definition outside_runs ::
  "(rat \<Rightarrow> string) \<Rightarrow> (8 word list \<Rightarrow> 8 word list) \<Rightarrow> surroundings \<Rightarrow> bool" where
  "outside_runs frepr sha256 sr \<longleftrightarrow>
     (\<forall>i db. (any_job_step frepr sha256)\<^sup>*\<^sup>* db (sr_env sr i db))"

lemma transact_runs:
  assumes "outside_runs frepr sha256 sr"
    and "\<And>now clock db x db'. op now clock db = Inr (x, db') \<Longrightarrow> any_job_step frepr sha256 db db'"
  shows "(any_job_step frepr sha256)\<^sup>*\<^sup>* (wk_db st) (wk_db (snd (transact sr op st)))"
proof -
  have env: "(any_job_step frepr sha256)\<^sup>*\<^sup>* (wk_db st) (sr_env sr (wk_transactions st) (wk_db st))"
    using assms(1) by (simp add: outside_runs_def)
  show ?thesis
    using rtranclp.rtrancl_into_rtrancl [OF env assms(2)] env
    by (auto simp: transact_def Let_def split: sum.split)
qed

lemma transactE:
  assumes "transact sr op st = (Inr x, st')"
  obtains now clock where
    "op now clock (sr_env sr (wk_transactions st) (wk_db st)) = Inr (x, wk_db st')"
  using assms by (auto simp: transact_def Let_def split: sum.splits)

lemmas job_step_any = any_job_step_def [THEN iffD2, OF exI]

text \<open>What the worker's transactions are, as steps.\<close>

lemmas worker_steps =
  step_heartbeat [THEN job_step_any] step_checkpoint [THEN job_step_any]
  step_complete [THEN job_step_any] step_retryable [THEN job_step_any]
  step_terminal [THEN job_step_any] step_acknowledge [THEN job_step_any]
  step_defer [THEN job_step_any] step_recover [THEN job_step_any] step_claim [THEN job_step_any]

text \<open>The flags of a worker are not part of the schema.\<close>

lemma context_heartbeat_runs:
  assumes "outside_runs frepr sha256 sr"
  shows "(any_job_step frepr sha256)\<^sup>*\<^sup>* (wk_db st) (wk_db (snd (context_heartbeat sr interval f st)))"
proof -
  let ?op = "\<lambda>now clock. heartbeat now (clock 0) f interval"
  have "(any_job_step frepr sha256)\<^sup>*\<^sup>* (wk_db st) (wk_db (snd (transact sr ?op st)))"
    by (rule transact_runs [OF assms]) (rule worker_steps)
  then show ?thesis
    by (auto simp: context_heartbeat_def split: prod.split sum.split option.split)
qed

lemma context_checkpoint_runs:
  assumes "outside_runs frepr sha256 sr"
  shows "(any_job_step frepr sha256)\<^sup>*\<^sup>* (wk_db st)
    (wk_db (snd (context_checkpoint frepr sr f doc cur tot st)))"
proof -
  let ?op = "\<lambda>now clock. save_checkpoint frepr now (clock 0) f doc cur tot"
  have "(any_job_step frepr sha256)\<^sup>*\<^sup>* (wk_db st) (wk_db (snd (transact sr ?op st)))"
    by (rule transact_runs [OF assms]) (rule worker_steps)
  then show ?thesis
    by (auto simp: context_checkpoint_def Let_def split: prod.split sum.split option.split)
qed

lemma context_defer_runs:
  assumes "outside_runs frepr sha256 sr"
  shows "(any_job_step frepr sha256)\<^sup>*\<^sup>* (wk_db st)
    (wk_db (snd (context_defer sr f operation_id delay st)))"
proof -
  let ?op = "\<lambda>now clock. defer_for_resource now clock
    (sr_admissions sr (wk_transactions st)) f operation_id delay"
  have "(any_job_step frepr sha256)\<^sup>*\<^sup>* (wk_db st) (wk_db (snd (transact sr ?op st)))"
    by (rule transact_runs [OF assms]) (rule worker_steps)
  then show ?thesis
    by (auto simp: context_defer_def split: prod.split sum.split option.split)
qed

lemma monitor_beat_runs:
  assumes "outside_runs frepr sha256 sr"
  shows "(any_job_step frepr sha256)\<^sup>*\<^sup>* (wk_db st) (wk_db (monitor_beat sr interval f st))"
  using context_heartbeat_runs [OF assms, of st interval f]
  by (auto simp: monitor_beat_def split: prod.splits option.splits)

lemma run_calls_runs:
  assumes "outside_runs frepr sha256 sr"
  shows "(any_job_step frepr sha256)\<^sup>*\<^sup>* (wk_db st)
    (wk_db (snd (run_calls frepr sr interval f calls st)))"
proof (induction calls arbitrary: st)
  case (Cons call calls)
  note calls = context_checkpoint_runs [OF assms] context_heartbeat_runs [OF assms]
    context_defer_runs [OF assms] monitor_beat_runs [OF assms]
  define one where "one = (case call of
      Checkpoint doc cur tot \<Rightarrow> context_checkpoint frepr sr f doc cur tot st
    | Beat \<Rightarrow> context_heartbeat sr interval f st
    | SafePoint \<Rightarrow> (raise_if_cancelled st, st)
    | DeferFor operation_id delay \<Rightarrow> context_defer sr f operation_id delay st
    | MonitorBeat \<Rightarrow> (None, monitor_beat sr interval f st))"
  have "(any_job_step frepr sha256)\<^sup>*\<^sup>* (wk_db st) (wk_db (snd one))"
    using calls by (cases call) (simp_all add: one_def)
  with Cons.IH [of "snd one"] show ?case
    by (auto simp: one_def [symmetric] split: prod.split option.split intro: rtranclp_trans)
qed simp

lemma late_beats_runs:
  assumes "outside_runs frepr sha256 sr"
  shows "(any_job_step frepr sha256)\<^sup>*\<^sup>* (wk_db st) (wk_db (late_beats sr interval f n st))"
proof (induction n arbitrary: st)
  case (Suc n)
  show ?case
    using rtranclp_trans [OF monitor_beat_runs [OF assms] Suc.IH] by simp
qed simp

text \<open>The body of the \<open>with monitor\<close> block, before the monitor's exit.\<close>

definition handler_body ::
  "(rat \<Rightarrow> string) \<Rightarrow> surroundings \<Rightarrow> duration \<Rightarrow> lease_fence \<Rightarrow> script \<Rightarrow> worker_state
   \<Rightarrow> handler_exn option \<times> worker_state" where
  "handler_body frepr sr interval f sc st =
     (case raise_if_cancelled st of
        Some e \<Rightarrow> (Some e, st)
      | None \<Rightarrow>
          case run_calls frepr sr interval f (sc_calls sc) st of
            (Some e, st') \<Rightarrow> (Some e, st')
          | (None, st') \<Rightarrow>
              (case sc_end sc of
                 Some e \<Rightarrow> (Some e, st')
               | None \<Rightarrow> (raise_if_cancelled st', st')))"

lemma run_handler_body:
  "fst (run_handler frepr sr interval f sc st) = fst (handler_body frepr sr interval f sc st)"
  "wk_db (snd (run_handler frepr sr interval f sc st)) =
     wk_db (late_beats sr interval f (sc_late_beats sc) (snd (handler_body frepr sr interval f sc st)))"
  by (simp_all add: run_handler_def handler_body_def [symmetric] Let_def split: prod.split)

lemma handler_body_runs:
  assumes "outside_runs frepr sha256 sr"
  shows "(any_job_step frepr sha256)\<^sup>*\<^sup>* (wk_db st)
    (wk_db (snd (handler_body frepr sr interval f sc st)))"
  using run_calls_runs [OF assms, of st interval f "sc_calls sc"]
  by (auto simp: handler_body_def split: option.split prod.split)

lemma run_handler_runs:
  assumes "outside_runs frepr sha256 sr"
  shows "(any_job_step frepr sha256)\<^sup>*\<^sup>* (wk_db st)
    (wk_db (snd (run_handler frepr sr interval f sc st)))"
  using rtranclp_trans [OF handler_body_runs [OF assms] late_beats_runs [OF assms]]
  by (simp add: run_handler_body(2))

subsection \<open>Settling a lease\<close>

definition job_ends :: "jobs_db \<Rightarrow> uuid \<Rightarrow> job_state \<Rightarrow> bool" where
  "job_ends db j s \<longleftrightarrow> (\<exists>r \<in> set (db_jobs db). jr_id r = j \<and> jr_state r = s)"

lemma finish_ends:
  assumes "finish now clock f outcome s err delay code db = Inr db'"
  shows "job_ends db' (lf_job f) s"
proof -
  from assms obtain r where "r \<in> set (db_jobs db)" "fenced f r"
    and db': "db' = finished_db now clock f outcome (finish_code code err) s err delay db"
    by (auto simp: finish_Inr_iff list_ex_iff)
  then have "bump_row_version clock (set_state_row now s err delay r) \<in> set (db_jobs db')"
    by (force simp: finished_db_def closed_db_def in_update_rows)
  with \<open>fenced f r\<close> show ?thesis
    by (auto simp: job_ends_def fenced_def set_state_row_def
        intro!: bexI [of _ "bump_row_version clock (set_state_row now s err delay r)"])
qed

text \<open>
  The contract of the four operations that end a lease, as \<open>JobWorker\<close> relies on it: losing the
  lease writes nothing, a cancellation leaves the job cancelled, and a transition applied leaves it in
  the state the operation stands for.
\<close>

locale lease_ending =
  fixes ending :: "instant \<Rightarrow> (nat \<Rightarrow> instant) \<Rightarrow> jobs_db \<Rightarrow> job_exn + (lease_transition \<times> jobs_db)"
    and f :: lease_fence and target :: "jobs_db \<Rightarrow> job_state"
  assumes lost: "ending now clock db = Inr (LostLease, db') \<Longrightarrow> db' = db"
    and cancelled: "ending now clock db = Inr (LeaseCancelled, db') \<Longrightarrow> job_ends db' (lf_job f) CANCELLED"
    and applied: "ending now clock db = Inr (Applied, db') \<Longrightarrow>
      (\<exists>r \<in> set (db_jobs db). fenced f r) \<and> job_ends db' (lf_job f) (target db)"
begin

lemma settled:
  assumes "settle sr ending outcome st = (Inr result, st')"
  obtains (gone) "result = WorkerLeaseLost"
    | (stopped) "result = WorkerCancelled" and "job_ends (wk_db st') (lf_job f) CANCELLED"
    | (ended) r where "result = outcome" and "r \<in> set (db_jobs (sr_env sr (wk_transactions st) (wk_db st)))"
        and "fenced f r"
        and "job_ends (wk_db st') (lf_job f) (target (sr_env sr (wk_transactions st) (wk_db st)))"
proof -
  from assms obtain t where t: "transact sr ending st = (Inr t, st')"
    and result: "result = outcome_for_transition t outcome"
    by (auto simp: settle_def split: prod.splits sum.splits)
  from t obtain now clock where
    run: "ending now clock (sr_env sr (wk_transactions st) (wk_db st)) = Inr (t, wk_db st')"
    by (rule transactE)
  show ?thesis
  proof (cases t)
    case Applied
    with run result applied show ?thesis using ended by (force simp: outcome_for_transition_def)
  next
    case LeaseCancelled
    with run result cancelled show ?thesis using stopped by (force simp: outcome_for_transition_def)
  next
    case LostLease
    with result show ?thesis using gone by (simp add: outcome_for_transition_def)
  qed
qed

end

text \<open>What the four operations of the repository promise.\<close>

definition retry_target :: "retry_policy \<Rightarrow> lease_fence \<Rightarrow> jobs_db \<Rightarrow> job_state" where
  "retry_target policy f db =
     (case repo_retry_attempt_no f db of
        Inr n \<Rightarrow> if max_attempts policy \<le> n then FAILED else RETRY_WAIT | Inl _ \<Rightarrow> FAILED)"

lemma locked_fenced: "lock_active_lease now f db = Some c \<Longrightarrow> \<exists>r \<in> set (db_jobs db). fenced f r"
  by (erule lock_active_lease_Some) blast

interpretation completing: lease_ending "\<lambda>now clock. complete now (clock 0) f" f "\<lambda>_. COMPLETED" for f
  by unfold_locales
    (auto simp: complete_def with_transition_Inr locked_fenced dest: finish_ends
      split: option.splits bool.splits)

interpretation failing: lease_ending "\<lambda>now clock. fail_terminal now (clock 0) f err" f "\<lambda>_. FAILED"
  for f err
  by unfold_locales
    (auto simp: fail_terminal_def with_transition_Inr locked_fenced dest: finish_ends
      split: option.splits bool.splits)

interpretation cancelling: lease_ending "\<lambda>now clock. acknowledge_cancel now (clock 0) f" f
  "\<lambda>_. CANCELLED" for f
  by unfold_locales
    (auto simp: acknowledge_cancel_def with_transition_Inr locked_fenced dest: finish_ends
      split: option.splits bool.splits)

interpretation retrying: lease_ending "\<lambda>now clock. fail_retryable frepr sha256 now (clock 0) f err policy"
  f "retry_target policy f" for frepr sha256 f err policy
  by unfold_locales
    (auto simp: fail_retryable_def with_transition_Inr bind_result_eq_Inr locked_fenced retry_target_def
      dest: finish_ends split: option.splits bool.splits if_splits)

subsection \<open>The outcome of an execution\<close>

text \<open>The states a reported outcome stands for.\<close>

fun outcome_state :: "worker_outcome \<Rightarrow> job_state option" where
  "outcome_state WorkerCompleted = Some COMPLETED"
| "outcome_state WorkerRetryScheduled = Some RETRY_WAIT"
| "outcome_state WorkerFailed = Some FAILED"
| "outcome_state WorkerCancelled = Some CANCELLED"
| "outcome_state _ = None"

definition outcome_durable :: "worker_outcome \<Rightarrow> uuid \<Rightarrow> jobs_db \<Rightarrow> bool" where
  "outcome_durable outcome j db \<longleftrightarrow> (\<forall>s. outcome_state outcome = Some s \<longrightarrow> job_ends db j s)"

text \<open>A lease as its claim left it: the row it was read from, with the deferrals it counted.\<close>

definition leased :: "job_lease \<Rightarrow> jobs_db \<Rightarrow> bool" where
  "leased lease db \<longleftrightarrow>
     (\<exists>r \<in> set (db_jobs db). fenced (jl_fence lease) r \<and> jr_waits r = jl_wait_count lease)"

lemma leased_later:
  assumes "jobs_inv db" and "jobs_inv db'" and "jobs_later db db'" and "leased lease db"
    and "r' \<in> set (db_jobs db')" and "fenced (jl_fence lease) r'"
  shows "jr_waits r' = jl_wait_count lease"
proof -
  from assms(4) obtain r where r: "r \<in> set (db_jobs db)" "fenced (jl_fence lease) r"
    "jr_waits r = jl_wait_count lease" by (auto simp: leased_def)
  from assms(3) r(1) obtain r'' where r'': "r'' \<in> set (db_jobs db')" "row_later r r''"
    unfolding jobs_later_def by blast
  from r''(2) have "job_identity r'' = job_identity r" unfolding row_later_def by blast
  then have "jr_id r'' = jr_id r'" using r(2) assms(6) by (simp add: job_identity_def fenced_def)
  with same_job [OF assms(2) r''(1) assms(5)] have "r'' = r'" by simp
  with r''(2) have "row_later r r'" by simp
  moreover have "jr_attempts r' = jr_attempts r" "jr_state r' = RUNNING"
    using r(2) assms(6) by (simp_all add: fenced_def)
  ultimately have "jr_waits r' = jr_waits r" unfolding row_later_def by blast
  with r(3) show ?thesis by simp
qed

lemma retry_target_leased:
  assumes inv: "jobs_inv db" and r: "r \<in> set (db_jobs db)" "fenced (jl_fence lease) r"
    and waits: "jr_waits r = jl_wait_count lease"
  shows "retry_target policy (jl_fence lease) db =
    (if max_attempts policy \<le> retry_attempt_no lease then FAILED else RETRY_WAIT)"
proof -
  have "find_job db (lf_job (jl_fence lease)) = Some r"
    using in_find_job [OF jobs_inv_schema [OF inv] r(1)] r(2) by (simp add: fenced_def)
  moreover have "0 \<le> jr_waits r" "jr_waits r < lf_attempt (jl_fence lease)"
    using history_waits_less [OF conjunct2 [OF jobs_inv_row [OF inv r(1)]]] r(2)
    by (simp_all add: fenced_def)
  ultimately show ?thesis
    using waits by (simp add: retry_target_def repo_retry_attempt_no_def retry_attempt_no_def)
qed

text \<open>A cancellation found by a deferral has ended the job already.\<close>

lemma context_defer_cancelled:
  assumes "context_defer sr f operation_id delay st = (Some (ResourceWaitRaised True), st')"
  shows "job_ends (wk_db st') (lf_job f) CANCELLED"
proof -
  from assms obtain st1 where
    run: "transact sr (\<lambda>now clock. defer_for_resource now clock
        (sr_admissions sr (wk_transactions st)) f operation_id delay) st = (Inr WaitCancelled, st1)"
    and same: "wk_db st' = wk_db st1"
    by (auto simp: context_defer_def raise_if_cancelled_def
        split: option.splits prod.splits sum.splits if_splits)
  from run obtain now clock where
    "defer_for_resource now clock (sr_admissions sr (wk_transactions st)) f operation_id delay
       (sr_env sr (wk_transactions st) (wk_db st)) = Inr (WaitCancelled, wk_db st1)"
    by (rule transactE)
  then show ?thesis
    by (cases rule: defer_for_resource_cases) (auto simp: same dest: finish_ends)
qed

lemma not_resource_wait:
  "raise_if_cancelled st \<noteq> Some (ResourceWaitRaised b)"
  "context_checkpoint frepr sr f doc cur tot st \<noteq> (Some (ResourceWaitRaised b), st')"
  "context_heartbeat sr interval f st \<noteq> (Some (ResourceWaitRaised b), st')"
  by (auto simp: raise_if_cancelled_def context_checkpoint_def context_heartbeat_def Let_def
      split: option.splits prod.splits sum.splits if_splits)

lemma run_calls_cancelled:
  assumes "run_calls frepr sr interval f calls st = (Some (ResourceWaitRaised True), st')"
  shows "job_ends (wk_db st') (lf_job f) CANCELLED"
  using assms
  by (induction calls arbitrary: st)
    (auto simp: not_resource_wait dest: context_defer_cancelled
      split: context_call.splits prod.splits option.splits)

text \<open>A handler that reports a resource wait does so through its context.\<close>

definition waits_through_context :: "script \<Rightarrow> bool" where
  "waits_through_context sc \<longleftrightarrow> (case sc_end sc of Some (ResourceWaitRaised _) \<Rightarrow> False | _ \<Rightarrow> True)"

lemma handler_body_cancelled:
  assumes "handler_body frepr sr interval f sc st = (Some (ResourceWaitRaised True), st')"
    and "waits_through_context sc"
  shows "job_ends (wk_db st') (lf_job f) CANCELLED"
  using assms
  by (auto simp: handler_body_def waits_through_context_def not_resource_wait dest: run_calls_cancelled
      split: option.splits prod.splits)

lemma job_ends_later:
  assumes "jobs_later db db'" and "job_ends db j s" and "is_terminal s"
  shows "job_ends db' j s"
proof -
  from assms(2) obtain r where r: "r \<in> set (db_jobs db)" "jr_id r = j" "jr_state r = s"
    by (auto simp: job_ends_def)
  with assms(1) obtain r' where r': "r' \<in> set (db_jobs db')" "row_later r r'"
    unfolding jobs_later_def by blast
  from r'(2) r(3) assms(3) have "r' = r" unfolding row_later_def by blast
  with r r'(1) show ?thesis by (auto simp: job_ends_def)
qed

lemma run_handler_cancelled:
  assumes "outside_runs frepr sha256 sr" and "jobs_inv (wk_db st)" and "waits_through_context sc"
    and "run_handler frepr sr interval f sc st = (Some (ResourceWaitRaised True), st')"
  shows "job_ends (wk_db st') (lf_job f) CANCELLED"
proof -
  obtain st1 where body: "handler_body frepr sr interval f sc st = (Some (ResourceWaitRaised True), st1)"
    and db: "wk_db st' = wk_db (late_beats sr interval f (sc_late_beats sc) st1)"
    using run_handler_body [of frepr sr interval f sc st] assms(4)
    by (metis fst_conv prod.collapse snd_conv)
  have "jobs_inv (wk_db st1)"
    using world.run_inv [OF handler_body_runs [OF assms(1)] assms(2)] body by (metis snd_conv)
  from world.run_above [OF late_beats_runs [OF assms(1)] this]
  have "jobs_later (wk_db st1) (wk_db st')" unfolding db .
  from job_ends_later [OF this handler_body_cancelled [OF body assms(3)]] show ?thesis by simp
qed

lemma worker_execute_runs:
  assumes "outside_runs frepr sha256 sr"
  shows "(any_job_step frepr sha256)\<^sup>*\<^sup>* (wk_db st)
    (wk_db (snd (worker_execute frepr sha256 sr settings lease sc st)))"
proof -
  obtain raised st' where body:
    "run_handler frepr sr (ws_lease_interval settings) (jl_fence lease) sc st = (raised, st')"
    by fastforce
  with run_handler_runs [OF assms]
  have run: "(any_job_step frepr sha256)\<^sup>*\<^sup>* (wk_db st) (wk_db st')" by (metis snd_conv)
  have settle: "(any_job_step frepr sha256)\<^sup>*\<^sup>* (wk_db st) (wk_db (snd (settle sr op outcome st')))"
    if "\<And>now clock db x db'. op now clock db = Inr (x, db') \<Longrightarrow> any_job_step frepr sha256 db db'"
    for op outcome
  proof -
    have "(any_job_step frepr sha256)\<^sup>*\<^sup>* (wk_db st') (wk_db (snd (transact sr op st')))"
      by (rule transact_runs [OF assms that])
    with run show ?thesis
      by (auto simp: settle_def split: prod.split sum.split intro: rtranclp_trans)
  qed
  note settled = settle [OF worker_steps(3)] settle [OF worker_steps(4)] settle [OF worker_steps(5)]
    settle [OF worker_steps(6)]
  show ?thesis
    unfolding worker_execute_def Let_def body prod.case
    using run settled by (auto split: option.split handler_exn.split sum.split)
qed

lemma worker_execute_durable:
  assumes outside: "outside_runs frepr sha256 sr" and inv: "jobs_inv (wk_db st)"
    and lease: "leased lease (wk_db st)" and sc: "waits_through_context sc"
    and run: "worker_execute frepr sha256 sr settings lease sc st = (Inr outcome, st')"
  shows "outcome_durable outcome (lf_job (jl_fence lease)) (wk_db st')"
proof -
  let ?f = "jl_fence lease"
  obtain raised st1 where body:
    "run_handler frepr sr (ws_lease_interval settings) ?f sc st = (raised, st1)"
    by fastforce
  have run1: "(any_job_step frepr sha256)\<^sup>*\<^sup>* (wk_db st) (wk_db st1)"
    using run_handler_runs [OF outside] body by (metis snd_conv)
  let ?db = "sr_env sr (wk_transactions st1) (wk_db st1)"
  have run2: "(any_job_step frepr sha256)\<^sup>*\<^sup>* (wk_db st) ?db"
    using outside by (intro rtranclp_trans [OF run1]) (simp add: outside_runs_def)
  have target: "retry_target (ws_retry_policy settings) ?f ?db =
      (if max_attempts (ws_retry_policy settings) \<le> retry_attempt_no lease then FAILED else RETRY_WAIT)"
    if "r \<in> set (db_jobs ?db)" "fenced ?f r" for r
  proof (rule retry_target_leased [OF world.run_inv [OF run2 inv] that])
    show "jr_waits r = jl_wait_count lease"
      by (rule leased_later [OF inv world.run_inv [OF run2 inv] world.run_above [OF run2 inv] lease that])
  qed
  note run' = run [unfolded worker_execute_def Let_def body prod.case]
  show ?thesis
  proof (cases raised)
    case None
    with run' show ?thesis
      by (auto simp: outcome_durable_def split: if_splits elim: completing.settled)
  next
    case (Some e)
    show ?thesis
    proof (cases e)
      case (ResourceWaitRaised c)
      with Some run' run_handler_cancelled [OF outside inv sc] body show ?thesis
        by (cases c) (auto simp: outcome_durable_def)
    next
      case CancellationRaised
      with Some run' show ?thesis by (auto simp: outcome_durable_def elim: cancelling.settled)
    next
      case LeaseLostRaised
      with Some run' show ?thesis by (auto simp: outcome_durable_def)
    next
      case (RetryableRaised err)
      with Some run' have "settle sr (\<lambda>now clock. fail_retryable frepr sha256 now (clock 0) ?f err
            (ws_retry_policy settings))
          (if max_attempts (ws_retry_policy settings) \<le> retry_attempt_no lease then WorkerFailed
           else WorkerRetryScheduled) st1 = (Inr outcome, st')" by simp
      then show ?thesis
        by (cases rule: retrying.settled) (auto simp: outcome_durable_def target split: if_splits)
    next
      case (TerminalRaised err)
      with Some run' show ?thesis by (auto simp: outcome_durable_def elim: failing.settled)
    next
      case (OtherRaised name)
      with Some run' show ?thesis
        by (auto simp: outcome_durable_def split: sum.splits elim: failing.settled)
    qed
  qed
qed

subsection \<open>One iteration\<close>

lemma claim_leased:
  assumes inv: "jobs_inv db" and "supported \<noteq> []"
    and run: "claim locked now clock attempt_id worker supported interval limit db = Inr (leases, db')"
    and "lease \<in> set leases"
  shows "leased lease db'" and "list_ex (\<lambda>k. jl_key lease = k) supported"
proof -
  from assms(4) claim_leases [OF assms(1-3)] obtain r where
    r: "r \<in> set (claim_candidates locked now supported limit db)" "lease = claimed_lease worker now interval r"
    by auto
  from claim_candidates_in [OF r(1)] have row: "r \<in> set (db_jobs db)" "claimable now supported db r"
    by simp_all
  let ?r = "bump_row_version clock (claim_row worker now interval r)"
  from claim_Inr(1) [OF run assms(2)] row(1) r(1) have "?r \<in> set (db_jobs db')"
    by (force simp: claimed_db_def update_jobs_def in_update_rows)
  then show "leased lease db'"
    unfolding leased_def r(2)
    by (intro bexI [of _ ?r]) (simp_all add: claimed_lease_def claimed_fence_def fenced_def claim_row_def)
  from row(2) obtain k where k: "k \<in> set supported" "jr_type r = jk_type k" "jr_version r = jk_version k"
    by (auto simp: claimable_def key_supported_def list_ex_iff)
  have "jl_key lease = k"
    by (rule job_key.equality) (simp_all add: k r(2) claimed_lease_def)
  with k(1) show "list_ex (\<lambda>k. jl_key lease = k) supported" by (auto simp: list_ex_iff)
qed

lemma handler_for_supported:
  assumes "list_ex (\<lambda>k. k0 = k) (registry_supported reg)"
  obtains h where "handler_for reg k0 = Inr h" and "(k0, h) \<in> set reg"
proof -
  from assms have "k0 \<in> fst ` set reg" by (auto simp: list_ex_iff registry_supported_def)
  then obtain h where "map_of reg k0 = Some h" by (metis map_of_eq_None_iff not_None_eq)
  then show ?thesis using that by (simp add: handler_for_def map_of_SomeD)
qed

text \<open>How an iteration that finds work goes.\<close>

lemma run_once_cases:
  assumes "run_once frepr sha256 sr worker reg settings db = (result, db')"
  obtains (nothing) "registry_supported reg = []" and "db' = db"
      and "result = Inr \<lparr>wt_outcome = WorkerIdle, wt_recovered = 0, wt_job = None\<rparr>"
    | (unrecovered) e st where "result = Inl e" and "db' = wk_db st"
        and "transact sr (\<lambda>now clock. recover_expired frepr sha256 (sr_locked sr 0) now clock
               (registry_supported reg) (ws_recovery_batch settings) (ws_retry_policy settings))
             (fresh_worker db) = (Inl e, st)"
    | (recovered) recovered st claimed st' where "registry_supported reg \<noteq> []"
        and "transact sr (\<lambda>now clock. recover_expired frepr sha256 (sr_locked sr 0) now clock
               (registry_supported reg) (ws_recovery_batch settings) (ws_retry_policy settings))
             (fresh_worker db) = (Inr recovered, st)"
        and "transact sr (\<lambda>now clock. claim (sr_locked sr 1) now (clock 0) (sr_attempt_id sr) worker
               (registry_supported reg) (ws_lease_interval settings) 1) st = (claimed, st')"
        and "(\<exists>e. claimed = Inl e \<and> result = Inl e \<and> db' = wk_db st')
          \<or> (claimed = Inr [] \<and> db' = wk_db st'
              \<and> result = Inr \<lparr>wt_outcome = WorkerIdle, wt_recovered = length recovered, wt_job = None\<rparr>)
          \<or> (\<exists>lease leases e. claimed = Inr (lease # leases) \<and> db' = wk_db st'
              \<and> handler_for reg (jl_key lease) = Inl e \<and> result = Inl e)
          \<or> (\<exists>lease leases h executed st''. claimed = Inr (lease # leases) \<and> db' = wk_db st''
              \<and> handler_for reg (jl_key lease) = Inr h
              \<and> worker_execute frepr sha256 sr settings lease (h lease) st' = (executed, st'')
              \<and> result = (case executed of Inl e \<Rightarrow> Inl e
                  | Inr outcome \<Rightarrow> Inr \<lparr>wt_outcome = outcome, wt_recovered = length recovered,
                      wt_job = Some (lf_job (jl_fence lease))\<rparr>))"
  using assms
  by (auto simp: run_once_def Let_def split: if_splits prod.splits sum.splits list.splits)

lemma run_once_runs:
  assumes outside: "outside_runs frepr sha256 sr"
    and "run_once frepr sha256 sr worker reg settings db = (result, db')"
  shows "(any_job_step frepr sha256)\<^sup>*\<^sup>* db db'"
  using assms(2)
proof (cases rule: run_once_cases)
  case (unrecovered e st)
  have "(any_job_step frepr sha256)\<^sup>*\<^sup>* (wk_db (fresh_worker db)) (wk_db (snd (Inl e :: job_exn + recovered_job list, st)))"
    unfolding unrecovered(3) [symmetric] by (rule transact_runs [OF outside]) (rule worker_steps)
  then show ?thesis by (simp add: fresh_worker_def unrecovered(2))
next
  case (recovered recovered st claimed st')
  have "(any_job_step frepr sha256)\<^sup>*\<^sup>* (wk_db (fresh_worker db)) (wk_db (snd (Inr recovered :: job_exn + _, st)))"
    unfolding recovered(2) [symmetric] by (rule transact_runs [OF outside]) (rule worker_steps)
  moreover have "(any_job_step frepr sha256)\<^sup>*\<^sup>* (wk_db st) (wk_db (snd (claimed, st')))"
    unfolding recovered(3) [symmetric] by (rule transact_runs [OF outside]) (rule worker_steps)
  ultimately have run: "(any_job_step frepr sha256)\<^sup>*\<^sup>* db (wk_db st')"
    by (simp add: fresh_worker_def)
  have "(any_job_step frepr sha256)\<^sup>*\<^sup>* db (wk_db st'')"
    if "worker_execute frepr sha256 sr settings lease sc st' = (executed, st'')" for lease sc executed st''
    using rtranclp_trans [OF run worker_execute_runs [OF outside]] that by (metis snd_conv)
  with recovered(4) run show ?thesis by (elim disjE exE conjE) simp_all
qed simp

text \<open>The states the worker is in when it executes a lease.\<close>

lemma run_once_claimed:
  assumes outside: "outside_runs frepr sha256 sr" and inv: "jobs_inv db"
    and supported: "registry_supported reg \<noteq> []"
    and rec: "transact sr (\<lambda>now clock. recover_expired frepr sha256 (sr_locked sr 0) now clock
        (registry_supported reg) (ws_recovery_batch settings) (ws_retry_policy settings))
        (fresh_worker db) = (Inr recovered, st)"
    and cl: "transact sr (\<lambda>now clock. claim (sr_locked sr 1) now (clock 0) (sr_attempt_id sr) worker
        (registry_supported reg) (ws_lease_interval settings) 1) st = (Inr (lease # leases), st')"
  shows "jobs_inv (wk_db st')" and "leased lease (wk_db st')"
    and "list_ex (\<lambda>k. jl_key lease = k) (registry_supported reg)"
proof -
  have "(any_job_step frepr sha256)\<^sup>*\<^sup>* (wk_db (fresh_worker db)) (wk_db (snd (Inr recovered :: job_exn + _, st)))"
    unfolding rec [symmetric] by (rule transact_runs [OF outside]) (rule worker_steps)
  then have inv1: "jobs_inv (wk_db st)" using world.run_inv inv by (fastforce simp: fresh_worker_def)
  have "(any_job_step frepr sha256)\<^sup>*\<^sup>* (wk_db st) (wk_db (snd (Inr (lease # leases) :: job_exn + _, st')))"
    unfolding cl [symmetric] by (rule transact_runs [OF outside]) (rule worker_steps)
  with inv1 show "jobs_inv (wk_db st')" using world.run_inv by fastforce
  have "(any_job_step frepr sha256)\<^sup>*\<^sup>* (wk_db st) (sr_env sr (wk_transactions st) (wk_db st))"
    using outside by (simp add: outside_runs_def)
  from world.run_inv [OF this inv1] have inv2: "jobs_inv (sr_env sr (wk_transactions st) (wk_db st))" .
  from cl obtain now clock where
    "claim (sr_locked sr 1) now (clock 0) (sr_attempt_id sr) worker (registry_supported reg)
       (ws_lease_interval settings) 1 (sr_env sr (wk_transactions st) (wk_db st)) =
     Inr (lease # leases, wk_db st')" by (rule transactE)
  from claim_leased [OF inv2 supported this]
  show "leased lease (wk_db st')" "list_ex (\<lambda>k. jl_key lease = k) (registry_supported reg)"
    by simp_all
qed

end
