(* ===== verification/Job_Worker_Properties.thy ===== *)
theory Job_Worker_Properties
  imports Job_Worker_Facts Job_Examples
begin

text \<open>
  The properties of the worker's iteration, with witnesses on the schema of \<open>Job_Examples\<close>: one job
  inserted, taken by a worker whose handler beats once and returns.
\<close>

definition ex_script :: script where
  "ex_script = \<lparr>sc_calls = [SafePoint, Beat, MonitorBeat], sc_end = None, sc_late_beats = 1,
     sc_monitor_stuck = False\<rparr>"

definition ex_registry :: registry where
  "ex_registry = [(ex_key, \<lambda>_. ex_script)]"

definition ex_surroundings :: surroundings where
  "ex_surroundings =
     \<lparr>sr_env = \<lambda>_ db. db, sr_now = \<lambda>i. seconds (100 + int i), sr_clock = \<lambda>i _. seconds (100 + int i),
      sr_locked = \<lambda>_ _. False, sr_attempt_id = \<lambda>j. j + 100, sr_admissions = \<lambda>_. []\<rparr>"

lemma ex_outside: "outside_runs frepr sha256 ex_surroundings"
  by (simp add: outside_runs_def ex_surroundings_def)

lemma ex_supported: "registry_supported ex_registry = [ex_key]"
  by (simp add: registry_supported_def ex_registry_def)

definition ex_worked :: "(job_exn + worker_tick) \<times> jobs_db" where
  "ex_worked = run_once ex_frepr ex_sha256 ex_surroundings ''worker-1'' ex_registry
     default_worker_settings ex_queued"



text \<open>C27. An iteration of the worker, whatever its handlers do and whatever other processes do between
  its transactions, is a run of the repository's operations: it keeps the jobs schema consistent, and
  no job's attempts, cancellation or terminal state goes back.\<close>

theorem worker_iteration_is_a_run:
  assumes "outside_runs frepr sha256 sr" and "jobs_inv db"
    and "run_once frepr sha256 sr worker reg settings db = (result, db')"
  shows "(any_job_step frepr sha256)\<^sup>*\<^sup>* db db' \<and> jobs_inv db' \<and> jobs_later db db'"
  using run_once_runs [OF assms(1,3)] world.run_inv world.run_above assms(2) by blast

theorem worker_iteration_is_a_run_witness: "jobs_inv (snd ex_worked) \<and> jobs_later ex_queued (snd ex_worked)"
proof -
  have "run_once ex_frepr ex_sha256 ex_surroundings ''worker-1'' ex_registry default_worker_settings
      ex_queued = (fst ex_worked, snd ex_worked)" by (simp add: ex_worked_def)
  from worker_iteration_is_a_run [OF ex_outside ex_invs(1) this] show ?thesis by simp
qed



text \<open>C28. A worker never claims a job it has no handler for: the lease a claim for its registry's keys
  returns, one at most, is always dispatched.\<close>

theorem claimed_jobs_have_handlers:
  assumes "jobs_inv db" and "registry_supported reg \<noteq> []"
    and "claim locked now clock attempt_id worker (registry_supported reg) interval 1 db = Inr (leases, db')"
  shows "length leases \<le> 1 \<and> (\<forall>lease \<in> set leases. is_ok (handler_for reg (jl_key lease)))"
proof -
  have "length leases \<le> 1" using claim_leases [OF assms] by (simp add: claim_candidates_def)
  moreover have "is_ok (handler_for reg (jl_key lease))" if "lease \<in> set leases" for lease
    using claim_leased(2) [OF assms that] handler_for_supported is_ok_simps(1) by metis
  ultimately show ?thesis by blast
qed

theorem claimed_jobs_have_handlers_witness:
  "is_ok (handler_for ex_registry ex_key)"
proof -
  have "claim (\<lambda>_. False) (seconds 101) (seconds 101) (\<lambda>j. j + 100) ''worker-1''
      (registry_supported ex_registry) (seconds 60) 1 ex_queued =
    Inr ([claimed_lease ''worker-1'' (seconds 101) (seconds 60) ex_row], ex_running)"
    unfolding ex_supported by code_simp
  from claimed_jobs_have_handlers [OF ex_invs(1) _ this]
  have "is_ok (handler_for ex_registry (jl_key (claimed_lease ''worker-1'' (seconds 101) (seconds 60) ex_row)))"
    by (simp add: ex_supported)
  moreover have "jl_key (claimed_lease ''worker-1'' (seconds 101) (seconds 60) ex_row) = ex_key" by code_simp
  ultimately show ?thesis by simp
qed

end
