(* ===== verification/Resource_Tables.thy ===== *)
theory Resource_Tables
  imports Resource_Domain Jobs_Tables
begin

text \<open>
  The tables behind resource admission,
  \<open>server/src/autplay/adapters/postgresql/models/resource_admission.py\<close> and
  \<open>models/provider_staging.py\<close>, with their \<open>CHECK\<close> constraints as predicates; the columns of the
  account, session, acquisition and upload tables that authority is read from; and the state of the
  whole subsystem. A row of \<open>account.resource_admission\<close> is the \<open>resource_admission\<close> the repository
  reads from it and writes to it.
\<close>

text \<open>\<open>Principal\<close> of \<open>domain/auth.py\<close>: who calls, from which device and session.\<close>

record principal =
  pr_user :: uuid
  pr_device :: uuid
  pr_session :: uuid

subsection \<open>Textual identifiers\<close>

text \<open>\<open>UUID.hex\<close> and \<open>str(UUID)\<close>.\<close>

definition hex_char :: "nat \<Rightarrow> char" where
  "hex_char d = char_of (if d < 10 then 48 + d else 87 + d)"

definition uuid_hex :: "uuid \<Rightarrow> string" where
  "uuid_hex n = map (\<lambda>i. hex_char (n div 16 ^ (31 - i) mod 16)) [0..<32]"

definition uuid_str :: "uuid \<Rightarrow> string" where
  "uuid_str n =
     (let h = uuid_hex n
      in take 8 h @ ''-'' @ take 4 (drop 8 h) @ ''-'' @ take 4 (drop 12 h) @ ''-''
         @ take 4 (drop 16 h) @ ''-'' @ drop 20 h)"

subsection \<open>Policy, overrides, cursors\<close>

record quota_policy =
  qp_revision :: int
  qp_devices :: int
  qp_playbacks :: int
  qp_transfers :: int
  qp_global_playbacks :: "int option"
  qp_global_transfers :: "int option"
  qp_playback_ceiling :: "int option"
  qp_transfer_ceiling :: "int option"
  qp_evidence :: "string option"
  qp_grant_sequence :: int
  qp_updated_at :: instant

definition limit_range :: "int \<Rightarrow> bool" where
  "limit_range n \<longleftrightarrow> 1 \<le> n \<and> n \<le> max_limit"

definition optional_range :: "int option \<Rightarrow> bool" where
  "optional_range v = (case v of None \<Rightarrow> True | Some n \<Rightarrow> limit_range n)"

definition quota_policy_checks :: "quota_policy \<Rightarrow> bool" where
  "quota_policy_checks p \<longleftrightarrow>
     1 \<le> qp_revision p \<and> 0 \<le> qp_grant_sequence p
     \<and> limit_range (qp_devices p) \<and> limit_range (qp_playbacks p) \<and> limit_range (qp_transfers p)
     \<and> (case (qp_global_playbacks p, qp_global_transfers p, qp_playback_ceiling p,
              qp_transfer_ceiling p, qp_evidence p) of
          (None, None, None, None, None) \<Rightarrow> True
        | (Some gp, Some gt, Some pc, Some tc, Some evidence) \<Rightarrow>
            1 \<le> len evidence \<and> len evidence \<le> 240 \<and> 1 \<le> gp \<and> gp \<le> pc \<and> 1 \<le> gt \<and> gt \<le> tc
            \<and> limit_range pc \<and> limit_range tc
        | _ \<Rightarrow> False)"

record override_row =
  ov_user :: uuid
  ov_revision :: int
  ov_devices :: "int option"
  ov_playbacks :: "int option"
  ov_transfers :: "int option"
  ov_updated_at :: instant

definition override_row_checks :: "override_row \<Rightarrow> bool" where
  "override_row_checks o' \<longleftrightarrow>
     1 \<le> ov_revision o' \<and> optional_range (ov_devices o') \<and> optional_range (ov_playbacks o')
     \<and> optional_range (ov_transfers o')"

record cursor_row =
  gc_user :: uuid
  gc_kind :: resource_kind
  gc_last_grant :: int

definition cursor_row_checks :: "cursor_row \<Rightarrow> bool" where
  "cursor_row_checks c \<longleftrightarrow> 0 \<le> gc_last_grant c"

subsection \<open>Admissions\<close>

definition authority_shape :: "resource_admission \<Rightarrow> bool" where
  "authority_shape a =
     (let u = ad_authority a; q = ad_request a in
      case ra_kind u of
        DeviceSession \<Rightarrow>
          ra_device u \<noteq> None \<and> ra_session_family u \<noteq> None
          \<and> (ra_session_mode u = Some ''V2'' \<or> ra_session_mode u = Some ''LEGACY'')
          \<and> ra_acquisition_attempt u = None
      | LocalBridge \<Rightarrow>
          rq_kind q = TRANSFER \<and> ra_device u \<noteq> None \<and> ra_session_family u = None
          \<and> ra_session_mode u = None \<and> ra_job u = None \<and> ra_acquisition_attempt u = None
          \<and> ra_source_authorization u = None \<and> ra_source_revision u = None \<and> ra_policy u = None
          \<and> ra_policy_revision u = None
      | ServerAcquisition \<Rightarrow>
          rq_kind q = TRANSFER \<and> ra_device u = None \<and> ra_session_family u = None
          \<and> ra_session_mode u = None \<and> ra_acquisition_attempt u \<noteq> None \<and> ra_job u \<noteq> None
          \<and> ra_source_authorization u \<noteq> None \<and> ra_source_revision u \<noteq> None)"

definition job_fence_shape :: "resource_authority \<Rightarrow> bool" where
  "job_fence_shape u =
     (case (ra_job u, ra_job_worker u, ra_job_attempt u) of
        (None, None, None) \<Rightarrow> True
      | (Some _, Some w, Some n) \<Rightarrow> 1 \<le> len w \<and> len w \<le> 120 \<and> 1 \<le> n
      | _ \<Rightarrow> False)"

definition resource_shape :: "resource_admission \<Rightarrow> bool" where
  "resource_shape a =
     (let q = ad_request a in
      case rq_kind q of
        PLAYBACK \<Rightarrow> rq_type q = PlayInstance \<and> rq_target q = None
      | TRANSFER \<Rightarrow>
          rq_target q \<noteq> None \<and> rq_type q \<noteq> PlayInstance
          \<and> ad_current_recording a = None \<and> ad_next_recording a = None)"

text \<open>A check with a \<open>NULL\<close> operand passes: \<open>target_id=acquisition_attempt_id\<close> fails on unequal values only.\<close>

definition worker_target_shape :: "resource_admission \<Rightarrow> bool" where
  "worker_target_shape a =
     (let u = ad_authority a; q = ad_request a in
      (rq_type q \<noteq> DiscoveryAcquisition
       \<or> ra_kind u = ServerAcquisition
         \<and> (case (rq_target q, ra_acquisition_attempt u) of (Some t, Some x) \<Rightarrow> t = x | _ \<Rightarrow> True))
      \<and> (ra_kind u \<noteq> ServerAcquisition \<or> rq_type q = DiscoveryAcquisition)
      \<and> (ra_kind u \<noteq> LocalBridge \<or> rq_type q = UploadIntent)
      \<and> (rq_type q \<noteq> InternetAcquisition \<or> ra_kind u = DeviceSession \<and> ra_job u \<noteq> None))"

definition revision_pair :: "uuid option \<Rightarrow> int option \<Rightarrow> bool" where
  "revision_pair i r =
     (case (i, r) of (None, None) \<Rightarrow> True | (Some _, Some n) \<Rightarrow> 1 \<le> n | _ \<Rightarrow> False)"

definition admission_row_checks :: "resource_admission \<Rightarrow> bool" where
  "admission_row_checks a \<longleftrightarrow>
     (1 \<le> ra_generation (ad_authority a) \<and> 0 \<le> ad_generation a \<and> 0 \<le> ad_attachment_revision a)
     \<and> length (ad_sha256 a) = 32
     \<and> revision_pair (ra_source_authorization (ad_authority a)) (ra_source_revision (ad_authority a))
     \<and> revision_pair (ra_policy (ad_authority a)) (ra_policy_revision (ad_authority a))
     \<and> (ad_enqueued_at a \<le> ad_updated_at a \<and> ad_created_at a \<le> ad_enqueued_at a
        \<and> (case ad_lease_until a of None \<Rightarrow> True | Some t \<Rightarrow> ad_created_at a < t)
        \<and> (case ad_waiting_until a of None \<Rightarrow> True | Some t \<Rightarrow> ad_created_at a < t))
     \<and> authority_shape a \<and> job_fence_shape (ad_authority a) \<and> resource_shape a \<and> worker_target_shape a
     \<and> (case ad_activation a of None \<Rightarrow> ad_generation a = 0 | Some _ \<Rightarrow> 1 \<le> ad_generation a)
     \<and> (ad_state a \<noteq> Active
        \<or> ad_activation a \<noteq> None \<and> ad_lease_until a \<noteq> None \<and> ad_claim_until a \<noteq> None)
     \<and> (ad_state a \<noteq> Waiting \<or> (ra_job (ad_authority a) = None \<longleftrightarrow> ad_waiting_until a \<noteq> None))
     \<and> (ad_state a \<notin> {Released, Expired} \<or> ad_terminal_at a \<noteq> None)"

subsection \<open>Permits and executions\<close>

record permit_row =
  pm_id :: uuid
  pm_operation :: uuid
  pm_activation :: uuid
  pm_generation :: int
  pm_target :: uuid
  pm_opened_at :: instant
  pm_renewed_at :: instant
  pm_expires_at :: instant

definition permit_row_checks :: "permit_row \<Rightarrow> bool" where
  "permit_row_checks p \<longleftrightarrow>
     1 \<le> pm_generation p \<and> pm_opened_at p \<le> pm_renewed_at p \<and> pm_renewed_at p < pm_expires_at p
     \<and> pm_expires_at p \<le> pm_renewed_at p + seconds 5"

datatype execution_kind = VaultStream | VaultUpload | Provider

datatype execution_state = ExAbsent | ExPrepared | ExRunning | ExStopping | ExOrphaned | ExClosed

datatype exit_kind = NotStarted | ProcessExit | SupervisorExit

record execution_row =
  xe_id :: uuid
  xe_permit :: uuid
  xe_operation :: uuid
  xe_activation :: uuid
  xe_generation :: int
  xe_target :: uuid
  xe_owner :: uuid
  xe_kind :: execution_kind
  xe_actual_target :: uuid
  xe_state :: execution_state
  xe_created_at :: instant
  xe_heartbeat_at :: instant
  xe_child_pid :: "int option"
  xe_child_identity :: "8 word list option"
  xe_started_at :: "instant option"
  xe_stop_requested_at :: "instant option"
  xe_closed_at :: "instant option"
  xe_exit_code :: "int option"
  xe_closure_kind :: "exit_kind option"
  xe_closure_evidence :: "8 word list option"

definition at_least :: "instant option \<Rightarrow> instant \<Rightarrow> bool" where
  "at_least t x = (case t of None \<Rightarrow> True | Some y \<Rightarrow> x \<le> y)"

definition execution_child_check :: "execution_row \<Rightarrow> bool" where
  "execution_child_check e =
     (case (xe_child_pid e, xe_child_identity e, xe_started_at e) of
        (None, None, None) \<Rightarrow> True
      | (Some pid, Some identity, Some _) \<Rightarrow> 0 < pid \<and> length identity = 32
      | _ \<Rightarrow> False)"

definition execution_closure_check :: "execution_row \<Rightarrow> bool" where
  "execution_closure_check e =
     (case (xe_closed_at e, xe_closure_kind e, xe_closure_evidence e) of
        (None, None, None) \<Rightarrow> xe_state e \<noteq> ExClosed \<and> xe_exit_code e = None
      | (Some _, Some kind, Some evidence) \<Rightarrow>
          xe_state e = ExClosed \<and> length evidence = 32
          \<and> (case kind of
               NotStarted \<Rightarrow> xe_child_pid e = None \<and> xe_exit_code e = None
             | ProcessExit \<Rightarrow> xe_child_pid e \<noteq> None \<and> xe_exit_code e \<noteq> None
             | SupervisorExit \<Rightarrow> xe_exit_code e \<noteq> None)
      | _ \<Rightarrow> False)"

definition execution_row_checks :: "execution_row \<Rightarrow> bool" where
  "execution_row_checks e \<longleftrightarrow>
     1 \<le> xe_generation e
     \<and> xe_state e \<noteq> ExAbsent
     \<and> xe_created_at e \<le> xe_heartbeat_at e \<and> at_least (xe_started_at e) (xe_created_at e)
     \<and> at_least (xe_stop_requested_at e) (xe_created_at e)
     \<and> at_least (xe_closed_at e) (xe_heartbeat_at e)
     \<and> execution_child_check e
     \<and> (xe_state e \<noteq> ExPrepared \<or> xe_child_pid e = None)
     \<and> (xe_state e \<noteq> ExRunning \<or> xe_child_pid e \<noteq> None)
     \<and> (xe_state e \<noteq> ExStopping \<or> xe_stop_requested_at e \<noteq> None)
     \<and> execution_closure_check e"

record receipt_row =
  qr_operation :: uuid
  qr_actor :: uuid
  qr_web_session :: "uuid option"
  qr_web_generation :: "int option"
  qr_action :: quota_action
  qr_target :: "uuid option"
  qr_sha256 :: "8 word list"
  qr_result :: document
  qr_created_at :: instant

datatype staging_state = StOwned | StExited | StOther string

record staging_row =
  sg_execution :: uuid
  sg_user :: uuid
  sg_type :: resource_type
  sg_acquisition :: uuid
  sg_job :: uuid
  sg_job_worker :: string
  sg_job_attempt :: int
  sg_operation :: uuid
  sg_activation :: uuid
  sg_generation :: int
  sg_permit :: uuid
  sg_owner :: uuid
  sg_key :: string
  sg_state :: staging_state
  sg_created_at :: instant
  sg_updated_at :: instant
  sg_closed_at :: "instant option"
  sg_closure_kind :: "exit_kind option"
  sg_closure_evidence :: "8 word list option"
  sg_exit_code :: "int option"
  sg_child_pid :: "int option"
  sg_child_identity :: "8 word list option"

subsection \<open>Accounts, sessions, acquisitions\<close>

record account_row =
  ua_id :: uuid
  ua_role :: string
  ua_status :: string
  ua_deleted_at :: "instant option"
  ua_generation :: int

record device_row =
  dv_id :: uuid
  dv_user :: uuid
  dv_revoked_at :: "instant option"

record session_row =
  us_id :: uuid
  us_user :: uuid
  us_device :: uuid
  us_mode :: string
  us_family :: "uuid option"
  us_revoked_at :: "instant option"
  us_expires_at :: instant
  us_hash :: "8 word list"
  us_issued_at :: instant

record audit_row =
  au_actor :: "uuid option"
  au_action :: string
  au_target_type :: string
  au_target :: "uuid option"
  au_reason :: "string option"
  au_occurred_at :: instant
  au_actor_type :: string
  au_device :: "uuid option"
  au_request :: "uuid option"

record internet_row =
  ia_id :: uuid
  ia_user :: uuid
  ia_device :: uuid
  ia_job :: "uuid option"
  ia_generation :: "int option"
  ia_family :: "uuid option"
  ia_mode :: "string option"
  ia_state :: string
  ia_upload :: "uuid option"

record acquisition_row =
  da_id :: uuid
  da_candidate :: uuid
  da_generation :: "int option"
  da_job :: "uuid option"
  da_state :: string
  da_source_authorization :: uuid
  da_source_revision :: int
  da_policy :: "uuid option"
  da_policy_revision :: "int option"

record candidate_row =
  dc_id :: uuid
  dc_user :: uuid
  dc_acquisition_state :: string

record upload_row =
  up_id :: uuid
  up_user :: uuid
  up_device :: uuid
  up_actor_kind :: string
  up_state :: string
  up_expires_at :: instant
  up_recording :: uuid
  up_source_internet :: "uuid option"
  up_source_attempt :: "uuid option"

record variant_row =
  av_id :: uuid
  av_recording :: uuid

record authority_db =
  at_accounts :: "account_row list"
  at_devices :: "device_row list"
  at_sessions :: "session_row list"
  at_portable :: "uuid list"
  at_audit :: "audit_row list"
  at_internet :: "internet_row list"
  at_attempts :: "acquisition_row list"
  at_candidates :: "candidate_row list"
  at_uploads :: "upload_row list"
  at_variants :: "variant_row list"

subsection \<open>The state\<close>

record resource_db =
  rs_policy :: "quota_policy option"
  rs_overrides :: "override_row list"
  rs_cursors :: "cursor_row list"
  rs_admissions :: "resource_admission list"
  rs_permits :: "permit_row list"
  rs_executions :: "execution_row list"
  rs_staging :: "staging_row list"
  rs_receipts :: "receipt_row list"
  rs_world :: authority_db
  rs_jobs :: jobs_db

abbreviation ad_operation :: "resource_admission \<Rightarrow> uuid" where
  "ad_operation a \<equiv> rq_operation (ad_request a)"

abbreviation ad_user :: "resource_admission \<Rightarrow> uuid" where
  "ad_user a \<equiv> ra_user (ad_authority a)"

abbreviation ad_device :: "resource_admission \<Rightarrow> uuid option" where
  "ad_device a \<equiv> ra_device (ad_authority a)"

abbreviation ad_kind :: "resource_admission \<Rightarrow> resource_kind" where
  "ad_kind a \<equiv> rq_kind (ad_request a)"

end
