(* ===== verification/Resource_Authority.thy ===== *)
theory Resource_Authority
  imports Resource_Tables
begin

text \<open>
  \<open>ResourceAuthorityGate\<close> of \<open>server/src/autplay/adapters/postgresql/resource_authority.py\<close> with
  \<open>require_acquisition_session\<close> of \<open>acquisition_authority.py\<close>: who may hold an admission now, and
  for which target. It reads the account, session, job, acquisition and upload rows and writes none.

  The gate asks three questions of other adapters, whose verdicts are the fields of \<open>vault_gate\<close>:
  whether the vault lets a principal use a recording or resolves a stream for it
  (\<open>PostgresVaultRuntime\<close>), and whether bulk discovery still allows a candidate's acquisition
  (\<open>PostgresBulkDiscoveryRepository\<close>). \<open>clk\<close> is the gate's own reading of \<open>clock_timestamp()\<close>.
\<close>

record vault_gate =
  vg_authorize :: "uuid \<Rightarrow> uuid \<Rightarrow> uuid \<Rightarrow> bool"
  vg_resolve :: "uuid \<Rightarrow> uuid \<Rightarrow> uuid \<Rightarrow> bool"
  vg_ingest_boundary :: "uuid \<Rightarrow> uuid \<Rightarrow> uuid \<Rightarrow> bool"
  vg_before_acquire :: "uuid \<Rightarrow> uuid \<Rightarrow> uuid \<Rightarrow> lease_fence \<Rightarrow> bool"

datatype resource_actor =
    DeviceActor principal
  | WorkerActor acquisition_claim
  | BridgeActor bridge_claim

abbreviation authority_unavailable :: resource_exn where
  "authority_unavailable \<equiv> ResourceAdmissionError ''resource_acquisition_authority_unavailable''"

abbreviation target_unavailable :: resource_exn where
  "target_unavailable \<equiv> ResourceAdmissionError ''resource_target_unavailable''"

subsection \<open>Live accounts, devices and sessions\<close>

definition live_account :: "authority_db \<Rightarrow> uuid \<Rightarrow> account_row option" where
  "live_account w u =
     (case find (\<lambda>a. ua_id a = u) (at_accounts w) of
        None \<Rightarrow> None
      | Some a \<Rightarrow> if ua_status a = ''ACTIVE'' \<and> ua_deleted_at a = None then Some a else None)"

definition live_device :: "authority_db \<Rightarrow> uuid \<Rightarrow> uuid \<Rightarrow> bool" where
  "live_device w user d =
     (case find (\<lambda>r. dv_id r = d) (at_devices w) of
        None \<Rightarrow> False | Some r \<Rightarrow> dv_user r = user \<and> dv_revoked_at r = None)"

definition session_modes :: "string list" where "session_modes = [''LEGACY'', ''V2'']"

text \<open>The family a session belongs to: rotation keeps it under \<open>V2\<close>.\<close>

definition session_family :: "session_row \<Rightarrow> uuid" where
  "session_family s =
     (if us_mode s = ''V2''
      then (case us_family s of None \<Rightarrow> us_id s | Some f \<Rightarrow> f) else us_id s)"

definition authenticate :: "authority_db \<Rightarrow> instant \<Rightarrow> principal \<Rightarrow> resource_exn + resource_authority" where
  "authenticate w clk p =
     (case (live_account w (pr_user p), find (\<lambda>s. us_id s = pr_session p) (at_sessions w)) of
        (Some account, Some s) \<Rightarrow>
          if \<not> live_device w (pr_user p) (pr_device p) \<or> us_user s \<noteq> pr_user p
             \<or> us_device s \<noteq> pr_device p \<or> us_revoked_at s \<noteq> None \<or> us_expires_at s \<le> clk
             \<or> us_mode s \<notin> set session_modes
          then Inl admission_unavailable
          else Inr \<lparr>ra_user = pr_user p, ra_generation = ua_generation account,
                    ra_kind = DeviceSession, ra_device = Some (pr_device p),
                    ra_session_family = Some (session_family s), ra_session_mode = Some (us_mode s),
                    ra_job = None, ra_job_worker = None, ra_job_attempt = None,
                    ra_acquisition_attempt = None, ra_source_authorization = None,
                    ra_source_revision = None, ra_policy = None, ra_policy_revision = None\<rparr>
      | _ \<Rightarrow> Inl admission_unavailable)"

definition bridge_grant :: "authority_db \<Rightarrow> uuid \<Rightarrow> uuid \<Rightarrow> bool" where
  "bridge_grant w user d \<longleftrightarrow>
     list_ex (\<lambda>e. au_actor e = Some user \<and> au_action e = ''acquisition_bridge.enabled''
       \<and> au_target_type e = ''device'' \<and> au_target e = Some d
       \<and> au_reason e = Some ''OWNER_AUTHORIZED_COMPLETED_DOWNLOAD_IMPORT'') (at_audit w)"

definition authenticate_bridge :: "authority_db \<Rightarrow> uuid \<Rightarrow> uuid \<Rightarrow> resource_exn + resource_authority" where
  "authenticate_bridge w user d =
     (case live_account w user of
        None \<Rightarrow> Inl admission_unavailable
      | Some account \<Rightarrow>
          if ua_role account \<noteq> ''OWNER'' \<or> \<not> live_device w user d \<or> \<not> bridge_grant w user d
          then Inl admission_unavailable
          else Inr \<lparr>ra_user = user, ra_generation = ua_generation account, ra_kind = LocalBridge,
                    ra_device = Some d, ra_session_family = None, ra_session_mode = None,
                    ra_job = None, ra_job_worker = None, ra_job_attempt = None,
                    ra_acquisition_attempt = None, ra_source_authorization = None,
                    ra_source_revision = None, ra_policy = None, ra_policy_revision = None\<rparr>)"

definition require_acquisition_session ::
  "authority_db \<Rightarrow> instant \<Rightarrow> uuid \<Rightarrow> uuid option \<Rightarrow> uuid option \<Rightarrow> string option
   \<Rightarrow> resource_exn + unit" where
  "require_acquisition_session w now user device family mode =
     (case (device, family, mode) of
        (Some d, Some f, Some m) \<Rightarrow>
          if m \<notin> set session_modes then Inl authority_unavailable
          else require
            (list_ex (\<lambda>s. us_user s = user \<and> us_device s = d
               \<and> list_ex (\<lambda>r. dv_id r = us_device s \<and> dv_user r = user \<and> dv_revoked_at r = None)
                   (at_devices w)
               \<and> us_mode s = m \<and> us_revoked_at s = None \<and> now < us_expires_at s
               \<and> session_family s = f) (at_sessions w))
            authority_unavailable
      | _ \<Rightarrow> Inl authority_unavailable)"

subsection \<open>Acquisitions\<close>

definition find_attempt :: "authority_db \<Rightarrow> uuid \<Rightarrow> acquisition_row option" where
  "find_attempt w i = find (\<lambda>r. da_id r = i) (at_attempts w)"

definition find_candidate :: "authority_db \<Rightarrow> uuid \<Rightarrow> candidate_row option" where
  "find_candidate w i = find (\<lambda>r. dc_id r = i) (at_candidates w)"

definition gate_discovery ::
  "vault_gate \<Rightarrow> authority_db \<Rightarrow> resource_authority \<Rightarrow> bool \<Rightarrow> resource_exn + unit" where
  "gate_discovery vg w u execution =
     (case (ra_acquisition_attempt u, ra_job u, ra_job_worker u, ra_job_attempt u) of
        (Some i, Some job, Some worker, Some n) \<Rightarrow>
          (case find_attempt w i of
             None \<Rightarrow> Inl admission_unavailable
           | Some r \<Rightarrow>
               if da_generation r \<noteq> Some (ra_generation u) \<or> da_job r \<noteq> Some job
                  \<or> da_state r \<notin> {''QUEUED'', ''RUNNING''}
                  \<or> Some (da_source_authorization r) \<noteq> ra_source_authorization u
                  \<or> Some (da_source_revision r) \<noteq> ra_source_revision u
                  \<or> da_policy r \<noteq> ra_policy u \<or> da_policy_revision r \<noteq> ra_policy_revision u
               then Inl admission_unavailable
               else if \<not> execution
               then require (vg_ingest_boundary vg (da_candidate r) (ra_user u) (da_id r))
                      admission_unavailable
               else require (vg_before_acquire vg (da_candidate r) (ra_user u) (da_id r)
                      \<lparr>lf_job = job, lf_worker = worker, lf_attempt = n\<rparr>) admission_unavailable)
      | _ \<Rightarrow> Inl admission_unavailable)"

definition job_live :: "job_row \<Rightarrow> resource_authority \<Rightarrow> bool \<Rightarrow> instant \<Rightarrow> bool" where
  "job_live r u execution clk \<longleftrightarrow>
     jr_user r = Some (ra_user u)
     \<and> jr_state r \<in> {QUEUED, RETRY_WAIT, RUNNING, PAUSED}
     \<and> jr_cancel_at r = None
     \<and> (execution \<longrightarrow>
          jr_state r = RUNNING \<and> jr_lease_owner r = ra_job_worker u
          \<and> Some (jr_attempts r) = ra_job_attempt u \<and> after (jr_lease_deadline r) clk)"

text \<open>\<open>_require\<close>: \<open>execution\<close> asks for the live lease, without it the durable demand is enough.\<close>

definition gate_require ::
  "vault_gate \<Rightarrow> authority_db \<Rightarrow> jobs_db \<Rightarrow> instant \<Rightarrow> bool \<Rightarrow> resource_authority
   \<Rightarrow> resource_exn + unit" where
  "gate_require vg w jobs clk execution u =
     (case live_account w (ra_user u) of
        None \<Rightarrow> Inl admission_unavailable
      | Some account \<Rightarrow>
          if ua_generation account \<noteq> ra_generation u then Inl admission_unavailable
          else bind_result
            (case ra_kind u of
               DeviceSession \<Rightarrow>
                 (case require_acquisition_session w clk (ra_user u) (ra_device u)
                         (ra_session_family u) (ra_session_mode u) of
                    Inl _ \<Rightarrow> Inl admission_unavailable | Inr _ \<Rightarrow> Inr ())
             | LocalBridge \<Rightarrow>
                 (case ra_device u of
                    None \<Rightarrow> Inl admission_unavailable
                  | Some d \<Rightarrow> bind_result (authenticate_bridge w (ra_user u) d) (\<lambda>_. Inr ()))
             | ServerAcquisition \<Rightarrow> Inr ()) (\<lambda>_.
          bind_result
            (case ra_job u of
               Some j \<Rightarrow>
                 (case find_job jobs j of
                    None \<Rightarrow> Inl admission_unavailable
                  | Some r \<Rightarrow> require (job_live r u execution clk) admission_unavailable)
             | None \<Rightarrow>
                 if ra_kind u = ServerAcquisition then Inl admission_unavailable else Inr ()) (\<lambda>_.
          if ra_kind u = ServerAcquisition then gate_discovery vg w u execution else Inr ())))"

subsection \<open>Targets\<close>

definition gate_recording ::
  "vault_gate \<Rightarrow> resource_authority \<Rightarrow> uuid \<Rightarrow> resource_exn + unit" where
  "gate_recording vg u recording =
     (case ra_device u of
        None \<Rightarrow> Inl target_unavailable
      | Some d \<Rightarrow> require (vg_authorize vg (ra_user u) d recording) target_unavailable)"

definition gate_stream_recording ::
  "vault_gate \<Rightarrow> authority_db \<Rightarrow> resource_authority \<Rightarrow> uuid \<Rightarrow> resource_exn + uuid" where
  "gate_stream_recording vg w u variant =
     (case ra_device u of
        None \<Rightarrow> Inl target_unavailable
      | Some d \<Rightarrow>
          if \<not> vg_resolve vg (ra_user u) d variant then Inl target_unavailable
          else (case find (\<lambda>r. av_id r = variant) (at_variants w) of
              None \<Rightarrow> Inl target_unavailable | Some r \<Rightarrow> Inr (av_recording r)))"

definition discovery_eligible :: "authority_db \<Rightarrow> uuid \<Rightarrow> bool" where
  "discovery_eligible w target \<longleftrightarrow>
     (case find_attempt w target of
        None \<Rightarrow> False
      | Some r \<Rightarrow>
          (case find_candidate w (da_candidate r) of
             None \<Rightarrow> False
           | Some c \<Rightarrow> dc_acquisition_state c \<in> {''QUEUED'', ''ACQUIRING'', ''RETRY_WAIT''}))
     \<and> \<not> list_ex (\<lambda>x. up_source_attempt x = Some target \<and> up_actor_kind x = ''PROVIDER'') (at_uploads w)"

definition internet_eligible :: "authority_db \<Rightarrow> resource_authority \<Rightarrow> uuid \<Rightarrow> uuid \<Rightarrow> bool" where
  "internet_eligible w u device target \<longleftrightarrow>
     ra_job u \<noteq> None
     \<and> list_ex (\<lambda>r. ia_id r = target \<and> ia_user r = ra_user u \<and> ia_device r = device
          \<and> ia_job r = ra_job u \<and> ia_generation r = Some (ra_generation u)
          \<and> ia_family r = ra_session_family u \<and> ia_mode r = ra_session_mode u
          \<and> ia_state r \<in> {''QUEUED'', ''DOWNLOADING'', ''UPLOADING''} \<and> ia_upload r = None)
          (at_internet w)
     \<and> \<not> list_ex (\<lambda>x. up_source_internet x = Some target \<and> up_actor_kind x = ''INTERNET'') (at_uploads w)"

definition open_upload ::
  "authority_db \<Rightarrow> instant \<Rightarrow> uuid \<Rightarrow> uuid \<Rightarrow> uuid \<Rightarrow> upload_row option" where
  "open_upload w now user device target =
     find (\<lambda>x. up_id x = target \<and> up_user x = user \<and> up_device x = device
       \<and> up_actor_kind x = ''DEVICE'' \<and> up_state x = ''OPEN'' \<and> now < up_expires_at x) (at_uploads w)"

definition gate_target ::
  "vault_gate \<Rightarrow> authority_db \<Rightarrow> instant \<Rightarrow> bool \<Rightarrow> resource_authority \<Rightarrow> resource_request
   \<Rightarrow> resource_exn + unit" where
  "gate_target vg w now execution u q =
     (if rq_type q = PlayInstance then Inr ()
      else case rq_target q of
        None \<Rightarrow> Inl target_unavailable
      | Some target \<Rightarrow>
          if rq_type q = DiscoveryAcquisition then
            (if ra_kind u \<noteq> ServerAcquisition \<or> ra_acquisition_attempt u \<noteq> Some target
             then Inl target_unavailable
             else bind_result (gate_discovery vg w u execution) (\<lambda>_.
                  require (discovery_eligible w target) target_unavailable))
          else case ra_device u of
            None \<Rightarrow> Inl target_unavailable
          | Some device \<Rightarrow>
              (case rq_type q of
                 InternetAcquisition \<Rightarrow>
                   require (internet_eligible w u device target) target_unavailable
               | DownloadIntent \<Rightarrow>
                   require (vg_resolve vg (ra_user u) device target) target_unavailable
               | _ \<Rightarrow>
                   (case open_upload w now (ra_user u) device target of
                      None \<Rightarrow> Inl target_unavailable
                    | Some x \<Rightarrow>
                        if ra_kind u \<notin> {DeviceSession, LocalBridge} then Inl target_unavailable
                        else gate_recording vg u (up_recording x))))"

subsection \<open>Workers\<close>

definition acquisition_job_type :: "resource_type \<Rightarrow> string" where
  "acquisition_job_type ty =
     (if ty = InternetAcquisition then ''music.internet.acquire'' else ''discovery.acquire'')"

definition payload_id :: "document \<Rightarrow> string \<Rightarrow> json option" where
  "payload_id payload key = map_of payload (KStr key)"

text \<open>\<open>require_intent\<close>: the durable demand, without claiming that its previous worker still runs.\<close>

definition require_intent ::
  "vault_gate \<Rightarrow> authority_db \<Rightarrow> jobs_db \<Rightarrow> instant \<Rightarrow> instant \<Rightarrow> resource_authority \<Rightarrow> resource_request
   \<Rightarrow> resource_exn + unit" where
  "require_intent vg w jobs clk now u q =
     bind_result (gate_require vg w jobs clk False u) (\<lambda>_.
     let internet = (rq_type q = InternetAcquisition);
         target = (if internet then rq_target q
           else map_option da_candidate (Option.bind (rq_target q) (find_attempt w)))
     in case (Option.bind (ra_job u) (find_job jobs), target) of
          (Some job, Some i) \<Rightarrow>
            if jr_type job \<noteq> acquisition_job_type (rq_type q) \<or> jr_version job \<noteq> 1
               \<or> payload_id (jr_payload job) (if internet then ''acquisition_id'' else ''candidate_id'')
                   \<noteq> Some (JStr (uuid_str i))
            then Inl authority_unavailable
            else gate_target vg w now False u q
        | _ \<Rightarrow> Inl authority_unavailable)"

definition acquisition_authority ::
  "authority_db \<Rightarrow> job_row \<Rightarrow> acquisition_claim \<Rightarrow> resource_exn + resource_authority" where
  "acquisition_authority w job c =
     (let f = ac_fence c in
      if ac_type c = InternetAcquisition then
        (case find (\<lambda>r. ia_id r = ac_acquisition c) (at_internet w) of
           None \<Rightarrow> Inl authority_unavailable
         | Some r \<Rightarrow>
             (case (ia_generation r, ia_family r, ia_mode r) of
                (Some generation, Some family, Some mode) \<Rightarrow>
                  if ia_job r \<noteq> Some (lf_job f) \<or> mode \<notin> set session_modes
                     \<or> payload_id (jr_payload job) ''acquisition_id'' \<noteq> Some (JStr (uuid_str (ac_acquisition c)))
                  then Inl authority_unavailable
                  else Inr \<lparr>ra_user = ia_user r, ra_generation = generation, ra_kind = DeviceSession,
                            ra_device = Some (ia_device r), ra_session_family = Some family,
                            ra_session_mode = Some mode, ra_job = Some (lf_job f),
                            ra_job_worker = Some (lf_worker f), ra_job_attempt = Some (lf_attempt f),
                            ra_acquisition_attempt = None, ra_source_authorization = None,
                            ra_source_revision = None, ra_policy = None, ra_policy_revision = None\<rparr>
              | _ \<Rightarrow> Inl authority_unavailable))
      else
        (case find_attempt w (ac_acquisition c) of
           None \<Rightarrow> Inl authority_unavailable
         | Some r \<Rightarrow>
             (case (da_generation r, find_candidate w (da_candidate r)) of
                (Some generation, Some candidate) \<Rightarrow>
                  if da_job r \<noteq> Some (lf_job f)
                     \<or> payload_id (jr_payload job) ''candidate_id'' \<noteq> Some (JStr (uuid_str (dc_id candidate)))
                  then Inl authority_unavailable
                  else Inr \<lparr>ra_user = dc_user candidate, ra_generation = generation,
                            ra_kind = ServerAcquisition, ra_device = None, ra_session_family = None,
                            ra_session_mode = None, ra_job = Some (lf_job f),
                            ra_job_worker = Some (lf_worker f), ra_job_attempt = Some (lf_attempt f),
                            ra_acquisition_attempt = Some (da_id r),
                            ra_source_authorization = Some (da_source_authorization r),
                            ra_source_revision = Some (da_source_revision r),
                            ra_policy = da_policy r, ra_policy_revision = da_policy_revision r\<rparr>
              | _ \<Rightarrow> Inl authority_unavailable)))"

definition authenticate_acquisition ::
  "vault_gate \<Rightarrow> authority_db \<Rightarrow> jobs_db \<Rightarrow> instant \<Rightarrow> acquisition_claim
   \<Rightarrow> resource_exn + resource_authority" where
  "authenticate_acquisition vg w jobs clk c =
     (case find_job jobs (lf_job (ac_fence c)) of
        None \<Rightarrow> Inl authority_unavailable
      | Some job \<Rightarrow>
          if jr_type job \<noteq> acquisition_job_type (ac_type c) \<or> jr_version job \<noteq> 1
          then Inl authority_unavailable
          else bind_result (acquisition_authority w job c) (\<lambda>u.
               bind_result (gate_require vg w jobs clk True u) (\<lambda>_. Inr u)))"

text \<open>\<open>ResourceAdmissionService._authenticate\<close>, over the three kinds of actor.\<close>

definition authenticate_actor ::
  "vault_gate \<Rightarrow> authority_db \<Rightarrow> jobs_db \<Rightarrow> instant \<Rightarrow> resource_actor
   \<Rightarrow> resource_exn + resource_authority" where
  "authenticate_actor vg w jobs clk actor =
     (case actor of
        DeviceActor p \<Rightarrow> authenticate w clk p
      | WorkerActor c \<Rightarrow> authenticate_acquisition vg w jobs clk c
      | BridgeActor b \<Rightarrow> authenticate_bridge w (bc_user b) (bc_device b))"

end
