(* ===== verification/Resource_Repository.thy ===== *)
theory Resource_Repository
  imports Resource_Authority Job_System
begin

text \<open>
  \<open>SqlAlchemyResourceAdmissionRepository\<close> of
  \<open>server/src/autplay/adapters/postgresql/resource_admission.py\<close> and the limits of
  \<open>resource_limits.py\<close>: reading and saving admissions, what occupies capacity, the fair grant of
  waiting admissions, I/O permits and the clean-up.

  The advisory lock serialises every transaction, so an operation maps the state it finds to the state
  it commits. A statement that would break a \<open>CHECK\<close> or foreign key of the tables modelled raises
  \<open>ResourceIntegrityError\<close>; the foreign keys to the account, device, catalogue and discovery tables
  are not modelled. \<open>ORDER BY\<close> without a unique column leaves ties open; the order of the table
  decides them here.
\<close>

subsection \<open>Admissions\<close>

definition find_admission :: "uuid \<Rightarrow> resource_db \<Rightarrow> resource_admission option" where
  "find_admission i db = find (\<lambda>a. ad_operation a = i) (rs_admissions db)"

definition put_admission :: "resource_admission \<Rightarrow> resource_admission list \<Rightarrow> resource_admission list" where
  "put_admission a rows =
     (if list_ex (\<lambda>r. ad_operation r = ad_operation a) rows
      then update_rows (\<lambda>r. ad_operation r = ad_operation a) (\<lambda>_. a) rows
      else rows @ [a])"

definition permits_match :: "resource_admission \<Rightarrow> permit_row list \<Rightarrow> bool" where
  "permits_match a ps \<longleftrightarrow>
     list_all (\<lambda>p. pm_operation p = ad_operation a \<longrightarrow>
       ad_activation a = Some (pm_activation p) \<and> ad_generation a = pm_generation p) ps"

definition save_admission :: "resource_admission \<Rightarrow> resource_db \<Rightarrow> resource_exn + resource_db" where
  "save_admission a db =
     (if \<not> admission_row_checks a then Inl (ResourceIntegrityError ''resource_admission_check'')
      else if \<not> permits_match a (rs_permits db)
      then Inl (ResourceIntegrityError ''io_permit_activation_fkey'')
      else Inr (db\<lparr>rs_admissions := put_admission a (rs_admissions db)\<rparr>))"

subsection \<open>Limits\<close>

definition resource_policy :: "resource_db \<Rightarrow> resource_exn + quota_policy" where
  "resource_policy db =
     (case rs_policy db of None \<Rightarrow> Inl admission_unavailable | Some p \<Rightarrow> Inr p)"

definition find_override :: "uuid \<Rightarrow> resource_db \<Rightarrow> override_row option" where
  "find_override user db = find (\<lambda>r. ov_user r = user) (rs_overrides db)"

definition effective_account_limits :: "resource_db \<Rightarrow> uuid \<Rightarrow> resource_exn + account_limits" where
  "effective_account_limits db user =
     bind_result (resource_policy db) (\<lambda>p.
     bind_result (make_account_limits (qp_devices p) (qp_playbacks p) (qp_transfers p)) (\<lambda>defaults.
     case find_override user db of
       None \<Rightarrow> Inr defaults
     | Some r \<Rightarrow>
         bind_result (make_limit_override (ov_devices r) (ov_playbacks r) (ov_transfers r)) (\<lambda>v.
         effective_limits v defaults)))"

definition require_device_capacity :: "resource_db \<Rightarrow> uuid \<Rightarrow> resource_exn + unit" where
  "require_device_capacity db user =
     (let used = count_rows (\<lambda>d. dv_user d = user \<and> dv_revoked_at d = None) (at_devices (rs_world db))
      in bind_result (effective_account_limits db user) (\<lambda>limits.
         require (int used < al_devices limits) (ResourceAdmissionError ''account_device_limit_reached'')))"

definition global_limit :: "resource_kind \<Rightarrow> quota_policy \<Rightarrow> int option" where
  "global_limit k p = (if k = PLAYBACK then qp_global_playbacks p else qp_global_transfers p)"

definition server_limit :: "resource_kind \<Rightarrow> resource_db \<Rightarrow> resource_exn + int" where
  "server_limit k db =
     bind_result (resource_policy db) (\<lambda>p.
     case global_limit k p of
       None \<Rightarrow> Inl (ResourceAdmissionError ''resource_budget_unconfigured'') | Some n \<Rightarrow> Inr n)"

subsection \<open>Occupied capacity\<close>

definition waiting_at :: "instant \<Rightarrow> resource_admission \<Rightarrow> bool" where
  "waiting_at now a \<longleftrightarrow>
     ad_state a = Waiting
     \<and> (after (ad_waiting_until a) now \<or> ra_job (ad_authority a) \<noteq> None \<and> ad_waiting_until a = None)"

definition waiting_count :: "uuid \<Rightarrow> resource_kind \<Rightarrow> instant \<Rightarrow> resource_db \<Rightarrow> nat" where
  "waiting_count user k now db =
     count_rows (\<lambda>a. ad_user a = user \<and> ad_kind a = k \<and> waiting_at now a) (rs_admissions db)"

definition live_permit :: "instant \<Rightarrow> uuid \<Rightarrow> permit_row \<Rightarrow> bool" where
  "live_permit now i p \<longleftrightarrow> pm_operation p = i \<and> now < pm_expires_at p"

definition unclosed_for :: "uuid \<Rightarrow> execution_row \<Rightarrow> bool" where
  "unclosed_for i e \<longleftrightarrow> xe_operation e = i \<and> xe_closed_at e = None"

text \<open>I/O of an earlier activation that has not ended yet.\<close>

definition draining :: "instant \<Rightarrow> uuid \<Rightarrow> resource_db \<Rightarrow> bool" where
  "draining now i db \<longleftrightarrow>
     list_ex (live_permit now i) (rs_permits db) \<or> list_ex (unclosed_for i) (rs_executions db)"

definition charged :: "instant \<Rightarrow> resource_db \<Rightarrow> resource_admission \<Rightarrow> bool" where
  "charged now db a \<longleftrightarrow> active_at a now \<or> draining now (ad_operation a) db"

definition account_used :: "instant \<Rightarrow> resource_kind \<Rightarrow> uuid \<Rightarrow> resource_db \<Rightarrow> nat" where
  "account_used now k user db =
     count_rows (\<lambda>a. ad_kind a = k \<and> charged now db a \<and> ad_user a = user) (rs_admissions db)"

definition device_used :: "instant \<Rightarrow> resource_kind \<Rightarrow> uuid \<Rightarrow> resource_db \<Rightarrow> nat" where
  "device_used now k device db =
     count_rows (\<lambda>a. ad_kind a = k \<and> charged now db a \<and> ad_device a = Some device) (rs_admissions db)"

definition server_used :: "instant \<Rightarrow> resource_kind \<Rightarrow> resource_db \<Rightarrow> nat" where
  "server_used now k db = count_rows (\<lambda>a. ad_kind a = k \<and> charged now db a) (rs_admissions db)"

definition usage :: "resource_authority \<Rightarrow> resource_kind \<Rightarrow> instant \<Rightarrow> resource_db \<Rightarrow> resource_usage" where
  "usage u k now db =
     \<lparr>ru_account = account_used now k (ra_user u) db,
      ru_device = (case ra_device u of None \<Rightarrow> 0 | Some d \<Rightarrow> device_used now k d db),
      ru_server = server_used now k db\<rparr>"

subsection \<open>The next eligible admission\<close>

definition device_limit :: "resource_kind \<Rightarrow> int" where
  "device_limit k = (if k = PLAYBACK then 1 else 2)"

definition account_limit :: "quota_policy \<Rightarrow> resource_kind \<Rightarrow> uuid \<Rightarrow> resource_db \<Rightarrow> int" where
  "account_limit p k user db =
     (case Option.bind (find_override user db) (\<lambda>r. if k = PLAYBACK then ov_playbacks r else ov_transfers r) of
        Some n \<Rightarrow> n
      | None \<Rightarrow> if k = PLAYBACK then qp_playbacks p else qp_transfers p)"

definition last_grant :: "resource_kind \<Rightarrow> uuid \<Rightarrow> resource_db \<Rightarrow> int" where
  "last_grant k user db =
     (case find (\<lambda>c. gc_user c = user \<and> gc_kind c = k) (rs_cursors db) of
        None \<Rightarrow> 0 | Some c \<Rightarrow> gc_last_grant c)"

definition demand_live :: "instant \<Rightarrow> jobs_db \<Rightarrow> resource_admission \<Rightarrow> bool" where
  "demand_live now jobs a \<longleftrightarrow>
     (case ra_job (ad_authority a) of
        None \<Rightarrow> True
      | Some j \<Rightarrow>
          list_ex (\<lambda>r. jr_id r = j \<and> jr_cancel_at r = None
            \<and> (jr_state r = RUNNING \<and> after (jr_lease_deadline r) now
               \<or> jr_state r = RETRY_WAIT \<and> jr_waiting r
                  \<and> (jr_wake_until r = None \<or> after (jr_wake_until r) now))) (db_jobs jobs))"

definition eligible :: "instant \<Rightarrow> quota_policy \<Rightarrow> resource_kind \<Rightarrow> resource_db \<Rightarrow> resource_admission \<Rightarrow> bool" where
  "eligible now p k db a \<longleftrightarrow>
     (case live_account (rs_world db) (ad_user a) of
        None \<Rightarrow> False | Some r \<Rightarrow> ua_generation r = ra_generation (ad_authority a))
     \<and> ad_kind a = k \<and> waiting_at now a
     \<and> demand_live now (rs_jobs db) a
     \<and> \<not> draining now (ad_operation a) db
     \<and> int (account_used now k (ad_user a) db) < account_limit p k (ad_user a) db
     \<and> (case ad_device a of None \<Rightarrow> True | Some d \<Rightarrow> int (device_used now k d db) < device_limit k)"

definition fairness :: "resource_kind \<Rightarrow> resource_db \<Rightarrow> resource_admission \<Rightarrow> int \<times> instant \<times> uuid" where
  "fairness k db a = (last_grant k (ad_user a) db, ad_enqueued_at a, ad_operation a)"

definition next_eligible :: "instant \<Rightarrow> quota_policy \<Rightarrow> resource_kind \<Rightarrow> resource_db \<Rightarrow> resource_admission option" where
  "next_eligible now p k db =
     (case sort_key (fairness k db) (filter (eligible now p k db) (rs_admissions db)) of
        [] \<Rightarrow> None | a # _ \<Rightarrow> Some a)"

subsection \<open>Granting\<close>

text \<open>
  What an operation reads from outside: the gate's clock readings, the identifiers \<open>uuid4()\<close> draws,
  and the clock of the jobs trigger.
\<close>

record readings =
  rd_gate :: "nat \<Rightarrow> instant"
  rd_fresh :: "nat \<Rightarrow> uuid"
  rd_trigger :: instant

definition later_readings :: "nat \<Rightarrow> readings \<Rightarrow> readings" where
  "later_readings n rd = rd\<lparr>rd_gate := \<lambda>i. rd_gate rd (n + i), rd_fresh := \<lambda>i. rd_fresh rd (n + i)\<rparr>"

datatype verdict = Grantable | Withdrawn | NotClaimed uuid

definition holds_claim :: "job_row \<Rightarrow> resource_authority \<Rightarrow> bool" where
  "holds_claim r u \<longleftrightarrow>
     jr_state r = RUNNING \<and> jr_lease_owner r = ra_job_worker u \<and> Some (jr_attempts r) = ra_job_attempt u"

definition judge ::
  "vault_gate \<Rightarrow> readings \<Rightarrow> instant \<Rightarrow> resource_db \<Rightarrow> resource_admission \<Rightarrow> verdict" where
  "judge vg rd now db a =
     (let u = ad_authority a; q = ad_request a; w = rs_world db; jobs = rs_jobs db;
          current =
            (case bind_result (gate_require vg w jobs (rd_gate rd 1) True u) (\<lambda>_. gate_target vg w now True u q) of
               Inl _ \<Rightarrow> Withdrawn | Inr _ \<Rightarrow> Grantable)
      in case ra_job u of
           None \<Rightarrow> current
         | Some j \<Rightarrow>
             (case require_intent vg w jobs (rd_gate rd 0) now u q of
                Inl _ \<Rightarrow> Withdrawn
              | Inr _ \<Rightarrow>
                  (case find_job jobs j of
                     None \<Rightarrow> Withdrawn
                   | Some r \<Rightarrow> if holds_claim r u then current else NotClaimed j)))"

definition expired_admission :: "instant \<Rightarrow> resource_admission \<Rightarrow> resource_admission" where
  "expired_admission now a =
     a\<lparr>ad_state := Expired, ad_terminal_at := Some now, ad_updated_at := now\<rparr>"

definition granted_admission :: "instant \<Rightarrow> uuid \<Rightarrow> resource_admission \<Rightarrow> resource_admission" where
  "granted_admission now activation a =
     a\<lparr>ad_state := Active, ad_activation := Some activation, ad_generation := ad_generation a + 1,
       ad_lease_until := Some (now + lease_ttl), ad_claim_until := Some (now + reservation_ttl),
       ad_waiting_until := None, ad_terminal_at := None, ad_claimed_at := None, ad_updated_at := now\<rparr>"

definition drop_permits :: "(permit_row \<Rightarrow> bool) \<Rightarrow> resource_db \<Rightarrow> resource_exn + resource_db" where
  "drop_permits P db =
     (if list_ex (\<lambda>e. list_ex (\<lambda>p. P p \<and> pm_id p = xe_permit e) (rs_permits db)) (rs_executions db)
      then Inl (ResourceIntegrityError ''io_execution_permit_fkey'')
      else Inr (db\<lparr>rs_permits := delete_rows P (rs_permits db)\<rparr>))"

definition put_cursor :: "uuid \<Rightarrow> resource_kind \<Rightarrow> int \<Rightarrow> cursor_row list \<Rightarrow> cursor_row list" where
  "put_cursor user k n rows =
     (let P = \<lambda>c. gc_user c = user \<and> gc_kind c = k
      in if list_ex P rows then update_rows P (\<lambda>c. c\<lparr>gc_last_grant := n\<rparr>) rows
         else rows @ [\<lparr>gc_user = user, gc_kind = k, gc_last_grant = n\<rparr>])"

definition grant ::
  "readings \<Rightarrow> instant \<Rightarrow> quota_policy \<Rightarrow> resource_admission \<Rightarrow> resource_db \<Rightarrow> resource_exn + resource_db" where
  "grant rd now p a db =
     (let i = ad_operation a;
          db1 = db\<lparr>rs_executions := delete_rows (\<lambda>e. xe_operation e = i \<and> xe_closed_at e \<noteq> None)
                                      (rs_executions db)\<rparr>
      in bind_result (drop_permits (\<lambda>q. pm_operation q = i \<and> pm_expires_at q \<le> now) db1) (\<lambda>db2.
         bind_result (save_admission (granted_admission now (rd_fresh rd 0) a) db2) (\<lambda>db3.
         Inr (db3\<lparr>rs_policy := Some (p\<lparr>qp_grant_sequence := qp_grant_sequence p + 1\<rparr>),
                  rs_cursors := put_cursor (ad_user a) (ad_kind a) (qp_grant_sequence p + 1)
                                  (rs_cursors db3)\<rparr>))))"

text \<open>The loop for one kind: at most \<open>fuel\<close> candidates are looked at.\<close>

fun advance_kind ::
  "vault_gate \<Rightarrow> readings \<Rightarrow> instant \<Rightarrow> resource_kind \<Rightarrow> int \<Rightarrow> nat \<Rightarrow> nat \<Rightarrow> resource_db
   \<Rightarrow> resource_exn + (nat \<times> resource_db)" where
  "advance_kind vg rd now k limit 0 used db = Inr (0, db)"
| "advance_kind vg rd now k limit (Suc fuel) used db =
     (if limit \<le> int used then Inr (0, db)
      else bind_result (resource_policy db) (\<lambda>p.
        case next_eligible now p k db of
          None \<Rightarrow> Inr (0, db)
        | Some a \<Rightarrow>
            (case judge vg rd now db a of
               NotClaimed j \<Rightarrow>
                 if list_ex (wakeable j) (db_jobs (rs_jobs db))
                 then Inr (1, db\<lparr>rs_jobs := wake_job now (rd_trigger rd) j (rs_jobs db)\<rparr>)
                 else Inr (0, db)
             | Withdrawn \<Rightarrow>
                 bind_result (save_admission (expired_admission now a) db) (\<lambda>db'.
                 bind_result (advance_kind vg (later_readings 2 rd) now k limit fuel used db')
                   (\<lambda>(n, db''). Inr (Suc n, db'')))
             | Grantable \<Rightarrow>
                 bind_result (grant rd now p a db) (\<lambda>db'.
                 bind_result (advance_kind vg (later_readings 2 rd) now k limit fuel (Suc used) db')
                   (\<lambda>(n, db''). Inr (Suc n, db''))))))"

definition advance ::
  "vault_gate \<Rightarrow> readings \<Rightarrow> instant \<Rightarrow> nat \<Rightarrow> resource_db \<Rightarrow> resource_exn + (nat \<times> resource_db)" where
  "advance vg rd now maximum db =
     bind_result (resource_policy db) (\<lambda>p.
     case (qp_global_playbacks p, qp_global_transfers p) of
       (Some playbacks, Some transfers) \<Rightarrow>
         bind_result (advance_kind vg rd now PLAYBACK playbacks maximum (server_used now PLAYBACK db) db)
           (\<lambda>(m, db1).
         bind_result (advance_kind vg (later_readings (2 * maximum) rd) now TRANSFER transfers maximum
             (server_used now TRANSFER db1) db1) (\<lambda>(n, db2).
         Inr (m + n, db2)))
     | _ \<Rightarrow> Inr (0, db))"

definition advance_batch :: nat where "advance_batch = 64"

end
