(* ===== verification/Resource_Permits.thy ===== *)
theory Resource_Permits
  imports Resource_Repository
begin

text \<open>
  The rest of the admission repository, \<open>adapters/postgresql/resource_admission.py\<close>: the reported
  status, the permits for single I/O operations, and the bounded clean-up; and the withdrawal of an
  authority's admissions by the account writers, \<open>resource_limits.py\<close>.
\<close>

subsection \<open>Status\<close>

definition waiting_reason ::
  "resource_admission \<Rightarrow> account_limits \<Rightarrow> resource_usage \<Rightarrow> waiting_reason option" where
  "waiting_reason a limits used =
     (if ad_state a \<noteq> Waiting then None
      else if limit_for_kind limits (ad_kind a) \<le> int (ru_account used) then Some AccountCapacity
      else if ad_device a \<noteq> None \<and> device_limit (ad_kind a) \<le> int (ru_device used)
      then Some DeviceCapacity
      else Some ServerCapacity)"

definition status_of :: "resource_admission \<Rightarrow> instant \<Rightarrow> resource_db \<Rightarrow> resource_exn + admission_status" where
  "status_of a now db =
     bind_result (effective_account_limits db (ad_user a)) (\<lambda>limits.
     let used = usage (ad_authority a) (ad_kind a) now db in
     bind_result (server_limit (ad_kind a) db) (\<lambda>server.
     Inr \<lparr>as_operation = a, as_limits = limits, as_usage = used, as_server_limit = server,
          as_waiting_reason = waiting_reason a limits used, as_retry_after = 5\<rparr>))"

subsection \<open>Permits\<close>

definition permit_of :: "permit_row \<Rightarrow> resource_exn + io_permit" where
  "permit_of p =
     bind_result (make_activation_fence (pm_operation p) (pm_activation p) (pm_generation p)) (\<lambda>f.
     Inr \<lparr>ip_id = pm_id p, ip_fence = f, ip_target = pm_target p, ip_expires_at = pm_expires_at p\<rparr>)"

definition unclosed_execution :: "resource_db \<Rightarrow> permit_row \<Rightarrow> bool" where
  "unclosed_execution db p \<longleftrightarrow>
     list_ex (\<lambda>e. xe_permit e = pm_id p \<and> xe_closed_at e = None) (rs_executions db)"

definition open_permits :: "uuid \<Rightarrow> instant \<Rightarrow> resource_db \<Rightarrow> permit_row list" where
  "open_permits i now db =
     filter (\<lambda>p. pm_operation p = i \<and> (now < pm_expires_at p \<or> unclosed_execution db p)) (rs_permits db)"

definition permits :: "uuid \<Rightarrow> instant \<Rightarrow> resource_db \<Rightarrow> resource_exn + io_permit list" where
  "permits i now db = map_result permit_of (open_permits i now db)"

text \<open>The inserted row: its key must be new and its activation that of its admission.\<close>

definition insert_permit :: "permit_row \<Rightarrow> resource_db \<Rightarrow> resource_exn + resource_db" where
  "insert_permit p db =
     (if list_ex (\<lambda>r. pm_id r = pm_id p) (rs_permits db)
      then Inl (ResourceIntegrityError ''resource_io_permit_pkey'')
      else if \<not> permit_row_checks p then Inl (ResourceIntegrityError ''resource_io_permit_check'')
      else if \<not> list_ex (\<lambda>a. ad_operation a = pm_operation p \<and> ad_activation a = Some (pm_activation p)
                 \<and> ad_generation a = pm_generation p) (rs_admissions db)
      then Inl (ResourceIntegrityError ''io_permit_activation_fkey'')
      else Inr (db\<lparr>rs_permits := rs_permits db @ [p]\<rparr>))"

definition open_permit ::
  "uuid \<Rightarrow> resource_admission \<Rightarrow> uuid \<Rightarrow> instant \<Rightarrow> resource_db
   \<Rightarrow> resource_exn + (io_permit \<times> resource_db)" where
  "open_permit fresh a target now db =
     bind_result (admission_fence a) (\<lambda>f.
     case f of
       None \<Rightarrow> Inl (ResourceAdmissionError ''resource_activation_stale'')
     | Some fence \<Rightarrow>
         let row = \<lparr>pm_id = fresh, pm_operation = ad_operation a, pm_activation = af_activation fence,
                    pm_generation = ad_generation a, pm_target = target, pm_opened_at = now,
                    pm_renewed_at = now, pm_expires_at = now + io_permit_ttl\<rparr>
         in bind_result (insert_permit row db) (\<lambda>db'.
            bind_result (permit_of row) (\<lambda>p. Inr (p, db'))))"

abbreviation io_stale :: resource_exn where
  "io_stale \<equiv> ResourceAdmissionError ''resource_io_stale''"

definition find_permit :: "uuid \<Rightarrow> resource_db \<Rightarrow> permit_row option" where
  "find_permit i db = find (\<lambda>p. pm_id p = i) (rs_permits db)"

definition renewed_permit :: "instant \<Rightarrow> permit_row \<Rightarrow> permit_row" where
  "renewed_permit now p = p\<lparr>pm_renewed_at := now, pm_expires_at := now + io_permit_ttl\<rparr>"

definition renew_permit ::
  "io_permit \<Rightarrow> instant \<Rightarrow> resource_db \<Rightarrow> resource_exn + (io_permit \<times> resource_db)" where
  "renew_permit p now db =
     (case find_permit (ip_id p) db of
        None \<Rightarrow> Inl io_stale
      | Some row \<Rightarrow>
          bind_result (permit_of row) (\<lambda>stored.
          if ip_fence stored \<noteq> ip_fence p \<or> pm_target row \<noteq> ip_target p then Inl io_stale
          else if pm_expires_at row \<le> now then Inl io_stale
          else if (case find (\<lambda>e. xe_permit e = ip_id p) (rs_executions db) of
                     None \<Rightarrow> False | Some e \<Rightarrow> xe_state e \<notin> {ExPrepared, ExRunning})
          then Inl io_stale
          else if \<not> permit_row_checks (renewed_permit now row)
          then Inl (ResourceIntegrityError ''io_permit_deadline_check'')
          else bind_result (permit_of (renewed_permit now row)) (\<lambda>renewed.
            Inr (renewed, db\<lparr>rs_permits :=
              update_rows (\<lambda>r. pm_id r = ip_id p) (renewed_permit now) (rs_permits db)\<rparr>))))"

definition same_permit :: "io_permit \<Rightarrow> permit_row \<Rightarrow> bool" where
  "same_permit p row \<longleftrightarrow>
     pm_id row = ip_id p \<and> pm_operation row = af_operation (ip_fence p)
     \<and> pm_activation row = af_activation (ip_fence p) \<and> pm_generation row = af_generation (ip_fence p)
     \<and> pm_target row = ip_target p"

definition close_permit :: "io_permit \<Rightarrow> resource_db \<Rightarrow> resource_exn + resource_db" where
  "close_permit p db =
     (if list_ex (\<lambda>row. same_permit p row \<and> unclosed_execution db row) (rs_permits db)
      then Inl (ResourceAdmissionError ''resource_execution_unconfirmed'')
      else drop_permits (same_permit p)
        (db\<lparr>rs_executions := delete_rows
             (\<lambda>e. list_ex (\<lambda>row. same_permit p row \<and> pm_id row = xe_permit e) (rs_permits db)
               \<and> xe_closed_at e \<noteq> None) (rs_executions db)\<rparr>))"

subsection \<open>Clean-up\<close>

definition touched_admission :: "instant \<Rightarrow> resource_admission \<Rightarrow> resource_admission" where
  "touched_admission now a = a\<lparr>ad_updated_at := now\<rparr>"

text \<open>The first loop: a worker's demand is withdrawn once its intent is no longer valid.\<close>

fun check_intents ::
  "vault_gate \<Rightarrow> readings \<Rightarrow> instant \<Rightarrow> uuid list \<Rightarrow> resource_db \<Rightarrow> resource_exn + (nat \<times> resource_db)" where
  "check_intents vg rd now [] db = Inr (0, db)"
| "check_intents vg rd now (i # ids) db =
     (case find_admission i db of
        None \<Rightarrow> check_intents vg rd now ids db
      | Some a \<Rightarrow>
          let ok = is_ok (require_intent vg (rs_world db) (rs_jobs db) (rd_gate rd 0) now
                (ad_authority a) (ad_request a))
          in bind_result (save_admission (if ok then touched_admission now a else expired_admission now a) db)
               (\<lambda>db'. bind_result (check_intents vg (later_readings 1 rd) now ids db')
                 (\<lambda>(n, db''). Inr (if ok then n else Suc n, db''))))"

fun expire_each :: "instant \<Rightarrow> uuid list \<Rightarrow> resource_db \<Rightarrow> resource_exn + resource_db" where
  "expire_each now [] db = Inr db"
| "expire_each now (i # ids) db =
     (case find_admission i db of
        None \<Rightarrow> expire_each now ids db
      | Some a \<Rightarrow> bind_result (save_admission (expire now a) db) (expire_each now ids))"

definition first_ids ::
  "nat \<Rightarrow> ('r \<Rightarrow> 'k :: linorder) \<Rightarrow> ('r \<Rightarrow> bool) \<Rightarrow> ('r \<Rightarrow> uuid) \<Rightarrow> 'r list \<Rightarrow> uuid list" where
  "first_ids n order P key rows = map key (take n (sort_key order (filter P rows)))"

definition overdue :: "instant \<Rightarrow> resource_admission \<Rightarrow> bool" where
  "overdue now a \<longleftrightarrow>
     ad_state a = Waiting \<and> up_to (ad_waiting_until a) now
     \<or> ad_state a = Active
        \<and> (up_to (ad_lease_until a) now \<or> ad_claimed_at a = None \<and> up_to (ad_claim_until a) now)"

definition removable :: "instant \<Rightarrow> permit_row list \<Rightarrow> resource_admission \<Rightarrow> bool" where
  "removable now ps a \<longleftrightarrow>
     ad_state a \<in> {Released, Expired}
     \<and> (case ad_terminal_at a of None \<Rightarrow> False | Some t \<Rightarrow> t < now - terminal_retention)
     \<and> \<not> list_ex (\<lambda>p. pm_operation p = ad_operation a) ps"

definition terminal_order :: "resource_admission \<Rightarrow> instant" where
  "terminal_order a = (case ad_terminal_at a of None \<Rightarrow> 0 | Some t \<Rightarrow> t)"

definition waiting_workers :: "nat \<Rightarrow> resource_db \<Rightarrow> uuid list" where
  "waiting_workers maximum db =
     first_ids maximum (\<lambda>a. (ad_updated_at a, ad_operation a))
       (\<lambda>a. ad_state a = Waiting \<and> ra_job (ad_authority a) \<noteq> None) (\<lambda>a. ad_operation a)
       (rs_admissions db)"

definition expired_permits :: "instant \<Rightarrow> nat \<Rightarrow> resource_db \<Rightarrow> uuid list" where
  "expired_permits now maximum db =
     first_ids maximum pm_expires_at (\<lambda>p. pm_expires_at p \<le> now \<and> \<not> unclosed_execution db p) pm_id
       (rs_permits db)"

definition drop_expired_permits :: "instant \<Rightarrow> nat \<Rightarrow> resource_db \<Rightarrow> resource_exn + resource_db" where
  "drop_expired_permits now maximum db =
     (let ids = expired_permits now maximum db
      in drop_permits (\<lambda>p. pm_id p \<in> set ids)
           (db\<lparr>rs_executions := delete_rows (\<lambda>e. xe_closed_at e \<noteq> None \<and> xe_permit e \<in> set ids)
                                  (rs_executions db)\<rparr>))"

definition overdue_admissions :: "instant \<Rightarrow> nat \<Rightarrow> resource_db \<Rightarrow> uuid list" where
  "overdue_admissions now maximum db =
     first_ids maximum ad_updated_at (overdue now) (\<lambda>a. ad_operation a) (rs_admissions db)"

definition removable_admissions :: "instant \<Rightarrow> nat \<Rightarrow> resource_db \<Rightarrow> uuid list" where
  "removable_admissions now maximum db =
     first_ids maximum terminal_order (removable now (rs_permits db)) (\<lambda>a. ad_operation a)
       (rs_admissions db)"

definition forget_admissions :: "uuid list \<Rightarrow> resource_db \<Rightarrow> resource_db" where
  "forget_admissions ids db =
     db\<lparr>rs_admissions := delete_rows (\<lambda>a. ad_operation a \<in> set ids) (rs_admissions db)\<rparr>"

definition old_receipts :: "instant \<Rightarrow> nat \<Rightarrow> resource_db \<Rightarrow> uuid list" where
  "old_receipts now maximum db =
     first_ids maximum qr_created_at (\<lambda>r. qr_created_at r < now - terminal_retention) qr_operation
       (rs_receipts db)"

definition forget_receipts :: "uuid list \<Rightarrow> resource_db \<Rightarrow> resource_db" where
  "forget_receipts ids db =
     db\<lparr>rs_receipts := delete_rows (\<lambda>r. qr_operation r \<in> set ids) (rs_receipts db)\<rparr>"

definition cleanup ::
  "vault_gate \<Rightarrow> readings \<Rightarrow> instant \<Rightarrow> nat \<Rightarrow> resource_db \<Rightarrow> resource_exn + (nat \<times> resource_db)" where
  "cleanup vg rd now maximum db =
     bind_result (check_intents vg rd now (waiting_workers maximum db) db) (\<lambda>(invalidated, db1).
     bind_result (drop_expired_permits now maximum db1) (\<lambda>db2.
     let expired = overdue_admissions now maximum db2 in
     bind_result (expire_each now expired db2) (\<lambda>db3.
     let gone = removable_admissions now maximum db3; db4 = forget_admissions gone db3;
         receipts = old_receipts now maximum db4; db5 = forget_receipts receipts db4
     in Inr (invalidated + length expired + length gone + length receipts, db5))))"

subsection \<open>Withdrawing an authority\<close>

definition withdrawn_admission :: "instant \<Rightarrow> resource_admission \<Rightarrow> resource_admission" where
  "withdrawn_admission now a =
     a\<lparr>ad_state := Expired, ad_terminal_at := Some now, ad_updated_at := max (ad_updated_at a) now\<rparr>"

definition terminated ::
  "uuid \<Rightarrow> uuid option \<Rightarrow> uuid option \<Rightarrow> string option \<Rightarrow> bool \<Rightarrow> resource_admission \<Rightarrow> bool" where
  "terminated user device family mode device_sessions a \<longleftrightarrow>
     ad_user a = user \<and> ad_state a \<in> {Active, Waiting}
     \<and> (device = None \<or> ad_device a = device)
     \<and> (device_sessions \<longrightarrow> ra_kind (ad_authority a) = DeviceSession)
     \<and> (family = None \<or> ra_session_family (ad_authority a) = family
          \<and> ra_session_mode (ad_authority a) = mode)"

definition terminate_resource_authority ::
  "uuid \<Rightarrow> instant \<Rightarrow> uuid option \<Rightarrow> uuid option \<Rightarrow> string option \<Rightarrow> bool \<Rightarrow> resource_db
   \<Rightarrow> resource_exn + resource_db" where
  "terminate_resource_authority user now device family mode device_sessions db =
     (if family \<noteq> None \<and> mode \<notin> {Some ''LEGACY'', Some ''V2''} then Inl ResourceValueError
      else Inr (db\<lparr>rs_admissions := update_rows (terminated user device family mode device_sessions)
                     (withdrawn_admission now) (rs_admissions db)\<rparr>))"

definition live_successor :: "authority_db \<Rightarrow> instant \<Rightarrow> session_row \<Rightarrow> bool" where
  "live_successor w now s \<longleftrightarrow>
     list_ex (\<lambda>r. us_user r = us_user s \<and> us_device r = us_device s \<and> us_mode r = ''V2''
       \<and> session_family r = session_family s \<and> us_revoked_at r = None \<and> now < us_expires_at r)
       (at_sessions w)"

definition terminate_retired_session ::
  "session_row \<Rightarrow> instant \<Rightarrow> resource_db \<Rightarrow> resource_exn + resource_db" where
  "terminate_retired_session s now db =
     (if us_mode s = ''V2'' \<and> live_successor (rs_world db) now s then Inr db
      else terminate_resource_authority (us_user s) now (Some (us_device s))
             (Some (session_family s)) (Some (us_mode s)) False db)"

end
