(* ===== verification/Resource_Execution.thy ===== *)
theory Resource_Execution
  imports Resource_Permits
begin

text \<open>
  Accounting of the processes that do the I/O: \<open>server/src/autplay/domain/resource_execution.py\<close>,
  \<open>adapters/postgresql/resource_execution.py\<close> and the staging receipts of
  \<open>adapters/postgresql/provider_staging_runtime.py\<close>. An execution leaves the accounting only with
  evidence of its exit; a clock can make it an orphan, never close it.
\<close>

subsection \<open>Values\<close>

definition execution_heartbeat_ttl :: duration where "execution_heartbeat_ttl = seconds 15"

record execution_ticket =
  et_execution :: uuid
  et_owner :: uuid
  et_permit :: io_permit
  et_kind :: execution_kind
  et_actual_target :: uuid

record process_identity =
  pi_pid :: int
  pi_sha256 :: "8 word list"

abbreviation execution_invalid :: resource_exn where
  "execution_invalid \<equiv> ResourceAdmissionError ''resource_execution_invalid''"

definition make_process_identity :: "int \<Rightarrow> 8 word list \<Rightarrow> resource_exn + process_identity" where
  "make_process_identity pid identity =
     (if \<not> (1 \<le> pid \<and> pid < 2 ^ 63) \<or> length identity \<noteq> 32 then Inl execution_invalid
      else Inr \<lparr>pi_pid = pid, pi_sha256 = identity\<rparr>)"

record exit_evidence =
  ev_kind :: exit_kind
  ev_sha256 :: "8 word list"
  ev_exit_code :: "int option"
  ev_child :: "process_identity option"

definition check_exit_evidence :: "exit_evidence \<Rightarrow> resource_exn + exit_evidence" where
  "check_exit_evidence v =
     (if length (ev_sha256 v) \<noteq> 32 then Inl execution_invalid
      else if (if ev_kind v = NotStarted then ev_exit_code v = None \<and> ev_child v = None
               else (case ev_exit_code v of None \<Rightarrow> False | Some c \<Rightarrow> - (2 ^ 63) \<le> c \<and> c < 2 ^ 63)
                    \<and> (ev_kind v = SupervisorExit \<or> ev_child v \<noteq> None))
      then Inr v else Inl execution_invalid)"

record execution_status =
  es_ticket :: execution_ticket
  es_state :: execution_state
  es_heartbeat_at :: "instant option"
  es_child :: "process_identity option"
  es_closed_at :: "instant option"

abbreviation execution_stale :: resource_exn where
  "execution_stale \<equiv> ResourceAdmissionError ''resource_execution_stale''"

abbreviation execution_conflict :: resource_exn where
  "execution_conflict \<equiv> ResourceAdmissionError ''resource_execution_conflict''"

subsection \<open>Staging receipts of providers\<close>

definition find_staging :: "uuid \<Rightarrow> resource_db \<Rightarrow> staging_row option" where
  "find_staging i db = find (\<lambda>s. sg_execution s = i) (rs_staging db)"

definition staging_key :: "uuid \<Rightarrow> string" where
  "staging_key i = ''provider-'' @ uuid_hex i"

definition register_provider_staging :: "execution_row \<Rightarrow> resource_db \<Rightarrow> resource_exn + resource_db" where
  "register_provider_staging e db =
     (if xe_kind e \<noteq> Provider then Inr db
      else case find_admission (xe_operation e) db of
        None \<Rightarrow> Inl execution_stale
      | Some a \<Rightarrow>
          let u = ad_authority a; q = ad_request a in
          (case (ra_job u, ra_job_worker u, ra_job_attempt u) of
             (Some job, Some worker, Some attempt) \<Rightarrow>
               if rq_type q \<notin> {InternetAcquisition, DiscoveryAcquisition} \<or> rq_kind q \<noteq> TRANSFER
                  \<or> rq_resource q \<noteq> xe_actual_target e \<or> rq_target q \<noteq> Some (xe_actual_target e)
                  \<or> ad_activation a \<noteq> Some (xe_activation e) \<or> ad_generation a \<noteq> xe_generation e
               then Inl execution_stale
               else if find_staging (xe_id e) db \<noteq> None
               then Inl (ResourceIntegrityError ''provider_staging_pkey'')
               else Inr (db\<lparr>rs_staging := rs_staging db @
                 [\<lparr>sg_execution = xe_id e, sg_user = ra_user u, sg_type = rq_type q,
                   sg_acquisition = xe_actual_target e, sg_job = job, sg_job_worker = worker,
                   sg_job_attempt = attempt, sg_operation = xe_operation e,
                   sg_activation = xe_activation e, sg_generation = xe_generation e,
                   sg_permit = xe_permit e, sg_owner = xe_owner e, sg_key = staging_key (xe_id e),
                   sg_state = StOwned, sg_created_at = xe_created_at e,
                   sg_updated_at = xe_created_at e, sg_closed_at = None, sg_closure_kind = None,
                   sg_closure_evidence = None, sg_exit_code = None, sg_child_pid = None,
                   sg_child_identity = None\<rparr>]\<rparr>)
           | _ \<Rightarrow> Inl execution_stale))"

definition exited_staging :: "execution_row \<Rightarrow> instant \<Rightarrow> staging_row \<Rightarrow> staging_row" where
  "exited_staging e now s =
     s\<lparr>sg_closed_at := xe_closed_at e, sg_closure_kind := xe_closure_kind e,
       sg_closure_evidence := xe_closure_evidence e, sg_exit_code := xe_exit_code e,
       sg_child_pid := xe_child_pid e, sg_child_identity := xe_child_identity e,
       sg_state := StExited, sg_updated_at := now\<rparr>"

definition preserve_provider_exit ::
  "execution_row \<Rightarrow> instant \<Rightarrow> resource_db \<Rightarrow> resource_exn + resource_db" where
  "preserve_provider_exit e now db =
     (if xe_kind e \<noteq> Provider then Inr db
      else case find_staging (xe_id e) db of
        None \<Rightarrow> Inr db
      | Some s \<Rightarrow>
          if sg_state s \<noteq> StOwned then
            (if (sg_closed_at s, sg_closure_kind s, sg_closure_evidence s, sg_exit_code s,
                 sg_child_pid s, sg_child_identity s) \<noteq>
                (xe_closed_at e, xe_closure_kind e, xe_closure_evidence e, xe_exit_code e,
                 xe_child_pid e, xe_child_identity e)
             then Inl execution_conflict else Inr db)
          else Inr (db\<lparr>rs_staging := update_rows (\<lambda>r. sg_execution r = xe_id e) (exited_staging e now)
                         (rs_staging db)\<rparr>))"

definition require_provider_staging :: "execution_row \<Rightarrow> resource_db \<Rightarrow> resource_exn + unit" where
  "require_provider_staging e db =
     (if xe_kind e \<noteq> Provider then Inr ()
      else require
        (case find_staging (xe_id e) db of
           None \<Rightarrow> False
         | Some s \<Rightarrow>
             sg_state s = StOwned
             \<and> (sg_operation s, sg_activation s, sg_generation s, sg_permit s, sg_owner s,
                sg_acquisition s, sg_key s) =
               (xe_operation e, xe_activation e, xe_generation e, xe_permit e, xe_owner e,
                xe_actual_target e, staging_key (xe_id e)))
        (ResourceAdmissionError ''resource_provider_staging_unavailable''))"

subsection \<open>Executions\<close>

definition find_execution :: "uuid \<Rightarrow> resource_db \<Rightarrow> execution_row option" where
  "find_execution i db = find (\<lambda>e. xe_id e = i) (rs_executions db)"

definition ticket_matches :: "execution_ticket \<Rightarrow> execution_row \<Rightarrow> bool" where
  "ticket_matches t e \<longleftrightarrow>
     (xe_permit e, xe_operation e, xe_activation e, xe_generation e, xe_target e, xe_owner e, xe_kind e,
      xe_actual_target e) =
     (ip_id (et_permit t), af_operation (ip_fence (et_permit t)), af_activation (ip_fence (et_permit t)),
      af_generation (ip_fence (et_permit t)), ip_target (et_permit t), et_owner t, et_kind t,
      et_actual_target t)"

definition ticket_row :: "execution_ticket \<Rightarrow> resource_db \<Rightarrow> resource_exn + execution_row" where
  "ticket_row t db =
     (case find_execution (et_execution t) db of
        None \<Rightarrow> Inl execution_stale
      | Some e \<Rightarrow> if ticket_matches t e then Inr e else Inl execution_stale)"

definition row_child :: "execution_row \<Rightarrow> resource_exn + process_identity option" where
  "row_child e =
     (case (xe_child_pid e, xe_child_identity e) of
        (Some pid, Some identity) \<Rightarrow>
          bind_result (make_process_identity pid identity) (\<lambda>c. Inr (Some c))
      | _ \<Rightarrow> Inr None)"

definition status_row :: "execution_row \<Rightarrow> execution_ticket \<Rightarrow> resource_exn + execution_status" where
  "status_row e t =
     bind_result (row_child e) (\<lambda>c.
     Inr \<lparr>es_ticket = t, es_state = xe_state e, es_heartbeat_at = Some (xe_heartbeat_at e),
          es_child = c, es_closed_at = xe_closed_at e\<rparr>)"

definition absent :: "execution_ticket \<Rightarrow> resource_db \<Rightarrow> bool" where
  "absent t db \<longleftrightarrow>
     find_execution (et_execution t) db = None \<and> find_permit (ip_id (et_permit t)) db = None"

definition absent_status :: "execution_ticket \<Rightarrow> execution_status" where
  "absent_status t =
     \<lparr>es_ticket = t, es_state = ExAbsent, es_heartbeat_at = None, es_child = None, es_closed_at = None\<rparr>"

definition inspect :: "execution_ticket \<Rightarrow> resource_db \<Rightarrow> resource_exn + execution_status" where
  "inspect t db =
     (if absent t db then Inr (absent_status t)
      else bind_result (ticket_row t db) (\<lambda>e. status_row e t))"

definition ticket_live_permit :: "execution_ticket \<Rightarrow> instant \<Rightarrow> resource_db \<Rightarrow> resource_exn + unit" where
  "ticket_live_permit t now db =
     require
       (case find_permit (ip_id (et_permit t)) db of
          None \<Rightarrow> False
        | Some p \<Rightarrow> same_permit (et_permit t) p \<and> now < pm_expires_at p)
       io_stale"

definition prepared_row :: "execution_ticket \<Rightarrow> instant \<Rightarrow> execution_row" where
  "prepared_row t now =
     \<lparr>xe_id = et_execution t, xe_permit = ip_id (et_permit t),
      xe_operation = af_operation (ip_fence (et_permit t)),
      xe_activation = af_activation (ip_fence (et_permit t)),
      xe_generation = af_generation (ip_fence (et_permit t)), xe_target = ip_target (et_permit t),
      xe_owner = et_owner t, xe_kind = et_kind t, xe_actual_target = et_actual_target t,
      xe_state = ExPrepared, xe_created_at = now, xe_heartbeat_at = now, xe_child_pid = None,
      xe_child_identity = None, xe_started_at = None, xe_stop_requested_at = None,
      xe_closed_at = None, xe_exit_code = None, xe_closure_kind = None, xe_closure_evidence = None\<rparr>"

definition writer_busy :: "execution_ticket \<Rightarrow> resource_db \<Rightarrow> bool" where
  "writer_busy t db \<longleftrightarrow>
     et_kind t \<noteq> VaultStream
     \<and> list_ex (\<lambda>e. xe_kind e = et_kind t \<and> xe_actual_target e = et_actual_target t
         \<and> xe_closed_at e = None) (rs_executions db)"

definition prepare ::
  "execution_ticket \<Rightarrow> instant \<Rightarrow> resource_db \<Rightarrow> resource_exn + (execution_status \<times> resource_db)" where
  "prepare t now db =
     bind_result (ticket_live_permit t now db) (\<lambda>_.
     if find_execution (et_execution t) db \<noteq> None then
       bind_result (ticket_row t db) (\<lambda>e.
       bind_result (require_provider_staging e db) (\<lambda>_.
       bind_result (inspect t db) (\<lambda>s. Inr (s, db))))
     else if list_ex (\<lambda>e. xe_permit e = ip_id (et_permit t)) (rs_executions db)
     then Inl execution_conflict
     else if writer_busy t db
     then Inl (ResourceAdmissionError ''resource_execution_busy'')
     else
       let row = prepared_row t now in
       bind_result (register_provider_staging row db) (\<lambda>db1.
       if \<not> execution_row_checks row then Inl (ResourceIntegrityError ''resource_io_execution_check'')
       else bind_result (status_row row t) (\<lambda>s.
         Inr (s, db1\<lparr>rs_executions := rs_executions db1 @ [row]\<rparr>))))"

text \<open>A flushed change of one execution row.\<close>

definition set_execution ::
  "execution_row \<Rightarrow> resource_db \<Rightarrow> resource_exn + resource_db" where
  "set_execution e db =
     (if \<not> execution_row_checks e then Inl (ResourceIntegrityError ''resource_io_execution_check'')
      else Inr (db\<lparr>rs_executions := update_rows (\<lambda>r. xe_id r = xe_id e) (\<lambda>_. e) (rs_executions db)\<rparr>))"

definition started_row :: "process_identity \<Rightarrow> instant \<Rightarrow> execution_row \<Rightarrow> execution_row" where
  "started_row child now e =
     e\<lparr>xe_child_pid := Some (pi_pid child), xe_child_identity := Some (pi_sha256 child),
       xe_started_at := Some now, xe_heartbeat_at := now, xe_state := ExRunning\<rparr>"

definition started ::
  "execution_ticket \<Rightarrow> process_identity \<Rightarrow> instant \<Rightarrow> resource_db
   \<Rightarrow> resource_exn + (execution_status \<times> resource_db)" where
  "started t child now db =
     bind_result (ticket_row t db) (\<lambda>e.
     bind_result (ticket_live_permit t now db) (\<lambda>_.
     bind_result (require_provider_staging e db) (\<lambda>_.
     bind_result (status_row e t) (\<lambda>s.
     if es_state s = ExRunning \<and> es_child s = Some child then Inr (s, db)
     else if es_state s \<noteq> ExPrepared then Inl execution_stale
     else bind_result (set_execution (started_row child now e) db) (\<lambda>db'.
          bind_result (status_row (started_row child now e) t) (\<lambda>s'. Inr (s', db')))))))"

definition execution_heartbeat ::
  "execution_ticket \<Rightarrow> instant \<Rightarrow> resource_db \<Rightarrow> resource_exn + (execution_status \<times> resource_db)" where
  "execution_heartbeat t now db =
     bind_result (ticket_row t db) (\<lambda>e.
     if xe_state e \<notin> {ExPrepared, ExRunning} then Inl execution_stale
     else let e' = e\<lparr>xe_heartbeat_at := now\<rparr> in
          bind_result (set_execution e' db) (\<lambda>db'.
          bind_result (status_row e' t) (\<lambda>s. Inr (s, db'))))"

definition stopped_row :: "instant \<Rightarrow> execution_row \<Rightarrow> execution_row" where
  "stopped_row now e =
     e\<lparr>xe_stop_requested_at := (case xe_stop_requested_at e of None \<Rightarrow> Some now | Some x \<Rightarrow> Some x),
       xe_state := (if xe_state e = ExOrphaned then ExOrphaned else ExStopping)\<rparr>"

definition stop ::
  "execution_ticket \<Rightarrow> instant \<Rightarrow> resource_db \<Rightarrow> resource_exn + (execution_status \<times> resource_db)" where
  "stop t now db =
     bind_result (ticket_row t db) (\<lambda>e.
     if xe_state e = ExClosed then bind_result (status_row e t) (\<lambda>s. Inr (s, db))
     else bind_result (set_execution (stopped_row now e) db) (\<lambda>db'.
          bind_result (status_row (stopped_row now e) t) (\<lambda>s. Inr (s, db'))))"

definition stale_execution :: "instant \<Rightarrow> execution_row \<Rightarrow> bool" where
  "stale_execution now e \<longleftrightarrow>
     xe_state e \<in> {ExPrepared, ExRunning, ExStopping}
     \<and> xe_heartbeat_at e \<le> now - execution_heartbeat_ttl"

definition orphan_row :: "execution_row \<Rightarrow> execution_row" where
  "orphan_row e = e\<lparr>xe_state := ExOrphaned\<rparr>"

definition orphan_stale :: "instant \<Rightarrow> nat \<Rightarrow> resource_db \<Rightarrow> nat \<times> resource_db" where
  "orphan_stale now maximum db =
     (let ids = first_ids maximum (\<lambda>e. (xe_heartbeat_at e, xe_id e)) (stale_execution now) xe_id
            (rs_executions db)
      in (length ids,
          db\<lparr>rs_executions := update_rows (\<lambda>e. xe_id e \<in> set ids) orphan_row (rs_executions db)\<rparr>))"

definition closed_row :: "exit_evidence \<Rightarrow> instant \<Rightarrow> execution_row \<Rightarrow> execution_row" where
  "closed_row v now e =
     e\<lparr>xe_state := ExClosed, xe_closed_at := Some now, xe_closure_kind := Some (ev_kind v),
       xe_closure_evidence := Some (ev_sha256 v), xe_exit_code := ev_exit_code v\<rparr>"

definition confirm_exit ::
  "execution_ticket \<Rightarrow> exit_evidence \<Rightarrow> instant \<Rightarrow> resource_db
   \<Rightarrow> resource_exn + (execution_status \<times> resource_db)" where
  "confirm_exit t v now db =
     (if absent t db then Inr (absent_status t, db)
      else bind_result (ticket_row t db) (\<lambda>e.
        bind_result (status_row e t) (\<lambda>s.
        if ev_child v \<noteq> es_child s then Inl execution_stale
        else if xe_state e = ExClosed then
          (if (xe_closure_kind e, xe_closure_evidence e, xe_exit_code e) \<noteq>
              (Some (ev_kind v), Some (ev_sha256 v), ev_exit_code v)
           then Inl execution_conflict else Inr (s, db))
        else if ev_kind v = NotStarted \<and> xe_state e \<notin> {ExPrepared, ExStopping}
        then Inl (ResourceAdmissionError ''resource_execution_unconfirmed'')
        else bind_result (preserve_provider_exit (closed_row v now e) now db) (\<lambda>db1.
             bind_result (set_execution (closed_row v now e) db1) (\<lambda>db2.
             bind_result (status_row (closed_row v now e) t) (\<lambda>s'. Inr (s', db2)))))))"

end
