(* ===== verification/Resource_Service.thy ===== *)
theory Resource_Service
  imports Resource_Execution
begin

text \<open>
  \<open>ResourceAdmissionService\<close> of \<open>server/src/autplay/application/resource_admission.py\<close>: every
  operation is one transaction under the advisory lock, which either commits the state returned or,
  on an exception or an early return, leaves the state as it was.
\<close>

subsection \<open>Digests of requests\<close>

definition kind_tag :: "resource_kind \<Rightarrow> string" where
  "kind_tag k = (case k of PLAYBACK \<Rightarrow> ''PLAYBACK'' | TRANSFER \<Rightarrow> ''TRANSFER'')"

definition type_tag :: "resource_type \<Rightarrow> string" where
  "type_tag t =
     (case t of PlayInstance \<Rightarrow> ''PLAY_INSTANCE'' | DownloadIntent \<Rightarrow> ''DOWNLOAD_INTENT''
      | UploadIntent \<Rightarrow> ''UPLOAD_INTENT'' | InternetAcquisition \<Rightarrow> ''INTERNET_ACQUISITION''
      | DiscoveryAcquisition \<Rightarrow> ''DISCOVERY_ACQUISITION'')"

definition authority_tag :: "authority_kind \<Rightarrow> string" where
  "authority_tag k =
     (case k of DeviceSession \<Rightarrow> ''DEVICE_SESSION'' | ServerAcquisition \<Rightarrow> ''SERVER_ACQUISITION''
      | LocalBridge \<Rightarrow> ''LOCAL_BRIDGE'')"

definition optional_json :: "('a \<Rightarrow> json) \<Rightarrow> 'a option \<Rightarrow> json" where
  "optional_json f v = (case v of None \<Rightarrow> JNull | Some x \<Rightarrow> f x)"

abbreviation json_uuid :: "uuid \<Rightarrow> json" where
  "json_uuid i \<equiv> JStr (uuid_str i)"

definition request_json :: "resource_request \<Rightarrow> json" where
  "request_json q = JDict
     [(KStr ''operation_id'', json_uuid (rq_operation q)), (KStr ''kind'', JStr (kind_tag (rq_kind q))),
      (KStr ''resource_type'', JStr (type_tag (rq_type q))),
      (KStr ''resource_id'', json_uuid (rq_resource q)),
      (KStr ''target_id'', optional_json json_uuid (rq_target q))]"

definition authority_json :: "resource_authority \<Rightarrow> json" where
  "authority_json u = JDict
     [(KStr ''user_id'', json_uuid (ra_user u)), (KStr ''authority_generation'', JInt (ra_generation u)),
      (KStr ''authority_kind'', JStr (authority_tag (ra_kind u))),
      (KStr ''device_id'', optional_json json_uuid (ra_device u)),
      (KStr ''session_family_id'', optional_json json_uuid (ra_session_family u)),
      (KStr ''session_mode'', optional_json JStr (ra_session_mode u)),
      (KStr ''job_id'', optional_json json_uuid (ra_job u)),
      (KStr ''job_worker_id'', optional_json JStr (ra_job_worker u)),
      (KStr ''job_attempt'', optional_json JInt (ra_job_attempt u)),
      (KStr ''acquisition_attempt_id'', optional_json json_uuid (ra_acquisition_attempt u)),
      (KStr ''source_authorization_id'', optional_json json_uuid (ra_source_authorization u)),
      (KStr ''source_authorization_revision'', optional_json JInt (ra_source_revision u)),
      (KStr ''policy_id'', optional_json json_uuid (ra_policy u)),
      (KStr ''policy_revision'', optional_json JInt (ra_policy_revision u))]"

definition ascii_bytes :: "string \<Rightarrow> 8 word list" where
  "ascii_bytes s = map (\<lambda>c. of_nat (of_char c)) s"

text \<open>No float occurs in the document; an integer beyond Python's printing limit raises \<open>ValueError\<close>.\<close>

definition request_digest ::
  "(8 word list \<Rightarrow> 8 word list) \<Rightarrow> resource_request \<Rightarrow> resource_authority \<Rightarrow> resource_exn + 8 word list" where
  "request_digest sha256 q u =
     (case json_dumps (\<lambda>_. '''')
        (JDict [(KStr ''request'', request_json q), (KStr ''authority'', authority_json u)]) of
        None \<Rightarrow> Inl ResourceValueError
      | Some t \<Rightarrow> Inr (sha256 (ascii_bytes t)))"

subsection \<open>Transactions\<close>

text \<open>
  What a transaction reads: the vault's verdicts, the server's clock (\<open>0\<close> under the lock, \<open>1\<close> in the
  authentication, \<open>2\<close> after it), the readings of the grants, and the digest function.
\<close>

record transaction =
  tx_vault :: vault_gate
  tx_clock :: "nat \<Rightarrow> instant"
  tx_readings :: readings
  tx_sha256 :: "8 word list \<Rightarrow> 8 word list"
  tx_worker_uuid5 :: "resource_type \<Rightarrow> uuid \<Rightarrow> uuid"

abbreviation tx_locked_at :: "transaction \<Rightarrow> instant" where
  "tx_locked_at tx \<equiv> tx_clock tx 0"

abbreviation tx_now :: "transaction \<Rightarrow> instant" where
  "tx_now tx \<equiv> tx_clock tx 2"

definition tx_authenticate :: "transaction \<Rightarrow> resource_actor \<Rightarrow> resource_db \<Rightarrow> resource_exn + resource_authority" where
  "tx_authenticate tx actor db =
     authenticate_actor (tx_vault tx) (rs_world db) (rs_jobs db) (tx_clock tx 1) actor"

definition tx_advance :: "transaction \<Rightarrow> instant \<Rightarrow> resource_db \<Rightarrow> resource_exn + resource_db" where
  "tx_advance tx now db =
     bind_result (advance (tx_vault tx) (tx_readings tx) now advance_batch db) (\<lambda>(_, db'). Inr db')"

definition found :: "resource_db \<Rightarrow> uuid \<Rightarrow> resource_exn + resource_admission" where
  "found db i =
     (case find_admission i db of None \<Rightarrow> Inl admission_unavailable | Some a \<Rightarrow> Inr a)"

definition owned :: "transaction \<Rightarrow> resource_actor \<Rightarrow> uuid \<Rightarrow> resource_db \<Rightarrow> resource_exn + resource_admission" where
  "owned tx actor i db =
     bind_result (tx_authenticate tx actor db) (\<lambda>u.
     bind_result (found db i) (\<lambda>a.
     if ad_authority a \<noteq> u then Inl admission_unavailable else Inr a))"

abbreviation activation_stale :: resource_exn where
  "activation_stale \<equiv> ResourceAdmissionError ''resource_activation_stale''"

definition require_active :: "resource_admission \<Rightarrow> activation_fence \<Rightarrow> instant \<Rightarrow> resource_exn + unit" where
  "require_active a f now =
     bind_result (admission_fence a) (\<lambda>g. require (g = Some f \<and> active_at a now) activation_stale)"

definition tx_target ::
  "transaction \<Rightarrow> resource_admission \<Rightarrow> uuid \<Rightarrow> instant \<Rightarrow> resource_db \<Rightarrow> resource_exn + unit" where
  "tx_target tx a target now db =
     (if ad_kind a = PLAYBACK then
        (if Some target \<notin> {ad_current_recording a, ad_next_recording a}
         then Inl (ResourceAdmissionError ''resource_target_mismatch'')
         else gate_recording (tx_vault tx) (ad_authority a) target)
      else if Some target \<noteq> rq_target (ad_request a)
      then Inl (ResourceAdmissionError ''resource_target_mismatch'')
      else gate_target (tx_vault tx) (rs_world db) now True (ad_authority a) (ad_request a))"

definition io_target ::
  "transaction \<Rightarrow> resource_admission \<Rightarrow> resource_type \<Rightarrow> uuid \<Rightarrow> resource_db \<Rightarrow> resource_exn + uuid" where
  "io_target tx a ty target db =
     (if rq_type (ad_request a) \<noteq> ty then Inl (ResourceAdmissionError ''resource_purpose_mismatch'')
      else if ty = PlayInstance
      then gate_stream_recording (tx_vault tx) (rs_world db) (ad_authority a) target
      else Inr target)"

definition is_worker :: "resource_actor \<Rightarrow> bool" where
  "is_worker actor = (case actor of WorkerActor _ \<Rightarrow> True | _ \<Rightarrow> False)"

text \<open>The deadline a waiting admission gets: a worker's demand waits as long as its job does.\<close>

definition refreshed_waiting :: "resource_actor \<Rightarrow> instant \<Rightarrow> resource_admission \<Rightarrow> resource_admission" where
  "refreshed_waiting actor now a =
     (if ad_state a = Waiting
      then a\<lparr>ad_waiting_until := (if is_worker actor then None else Some (now + waiting_ttl)),
             ad_updated_at := now\<rparr>
      else a)"

subsection \<open>Acquiring\<close>

definition new_admission ::
  "resource_authority \<Rightarrow> resource_request \<Rightarrow> 8 word list \<Rightarrow> instant \<Rightarrow> resource_admission" where
  "new_admission u q digest now =
     \<lparr>ad_authority = u, ad_request = q, ad_sha256 = digest, ad_state = Waiting, ad_activation = None,
      ad_generation = 0, ad_created_at = now, ad_updated_at = now, ad_enqueued_at = now,
      ad_waiting_until = None, ad_lease_until = None, ad_claim_until = None, ad_claimed_at = None,
      ad_terminal_at = None, ad_attachment_revision = 0, ad_current_recording = None,
      ad_next_recording = None\<rparr>"

definition keeps_age :: "resource_actor \<Rightarrow> instant \<Rightarrow> resource_admission \<Rightarrow> bool" where
  "keeps_age actor now a \<longleftrightarrow>
     is_worker actor
     \<and> (ad_state a = Waiting \<or> ad_state a = Expired \<and> after (ad_waiting_until a) now)"

text \<open>A new job claim does not inherit the previous worker's live activation.\<close>

definition rebound :: "resource_actor \<Rightarrow> resource_authority \<Rightarrow> resource_admission \<Rightarrow> resource_admission" where
  "rebound actor u a =
     (if is_worker actor \<and> ad_authority a \<noteq> u
      then a\<lparr>ad_authority := u, ad_state := (if ad_state a = Active then Expired else ad_state a)\<rparr>
      else a)"

definition requeued :: "bool \<Rightarrow> instant \<Rightarrow> resource_admission \<Rightarrow> resource_admission" where
  "requeued keep now a =
     a\<lparr>ad_state := Waiting, ad_terminal_at := None,
       ad_enqueued_at := (if keep then ad_enqueued_at a else now),
       ad_current_recording := None, ad_next_recording := None\<rparr>"

definition enqueue_admission ::
  "transaction \<Rightarrow> resource_actor \<Rightarrow> bool \<Rightarrow> resource_authority \<Rightarrow> resource_request \<Rightarrow> resource_admission
   \<Rightarrow> resource_db \<Rightarrow> resource_exn + (admission_status \<times> resource_db)" where
  "enqueue_admission tx actor waits u q a db =
     (let now = tx_now tx in
      bind_result (gate_target (tx_vault tx) (rs_world db) now True u q) (\<lambda>_.
      if waits \<and> max_waiting_per_account \<le> waiting_count (ra_user u) (rq_kind q) now db
      then Inl (ResourceAdmissionError ''resource_queue_full'')
      else bind_result (save_admission (refreshed_waiting actor now a) db) (\<lambda>db1.
           bind_result (tx_advance tx now db1) (\<lambda>db2.
           bind_result (found db2 (rq_operation q)) (\<lambda>b.
           bind_result (status_of b now db2) (\<lambda>s. Inr (s, db2)))))))"

definition acquire_any ::
  "transaction \<Rightarrow> resource_actor \<Rightarrow> resource_request \<Rightarrow> resource_db
   \<Rightarrow> resource_exn + (admission_status \<times> resource_db)" where
  "acquire_any tx actor q db =
     bind_result (tx_authenticate tx actor db) (\<lambda>u.
     let now = tx_now tx in
     bind_result (server_limit (rq_kind q) db) (\<lambda>_.
     bind_result (request_digest (tx_sha256 tx) q
         (if is_worker actor then u\<lparr>ra_job_worker := None, ra_job_attempt := None\<rparr> else u)) (\<lambda>digest.
     case find_admission (rq_operation q) db of
       None \<Rightarrow>
         enqueue_admission tx actor True u q (requeued False now (new_admission u q digest now)) db
     | Some a0 \<Rightarrow>
         if ad_sha256 a0 \<noteq> digest then Inl (ResourceAdmissionError ''resource_operation_conflict'')
         else
           let a1 = expire now a0 in
           if ad_state a1 = Released then bind_result (status_of a1 now db) (\<lambda>s. Inr (s, db))
           else
             let a2 = rebound actor u a1; waits = (ad_state a2 = Expired)
             in enqueue_admission tx actor waits u q
                  (if waits then requeued (keeps_age actor now a1) now a2 else a2) db)))"

definition acquire ::
  "transaction \<Rightarrow> principal \<Rightarrow> resource_request \<Rightarrow> resource_db
   \<Rightarrow> resource_exn + (admission_status \<times> resource_db)" where
  "acquire tx p q db =
     (if rq_type q \<notin> {PlayInstance, DownloadIntent, UploadIntent}
      then Inl (ResourceAdmissionError ''resource_request_invalid'')
      else acquire_any tx (DeviceActor p) q db)"

definition acquire_worker ::
  "transaction \<Rightarrow> acquisition_claim \<Rightarrow> resource_db \<Rightarrow> resource_exn + (admission_status \<times> resource_db)" where
  "acquire_worker tx c db =
     bind_result (claim_request (tx_worker_uuid5 tx) c) (\<lambda>q. acquire_any tx (WorkerActor c) q db)"

definition acquire_bridge ::
  "transaction \<Rightarrow> bridge_claim \<Rightarrow> resource_request \<Rightarrow> resource_db
   \<Rightarrow> resource_exn + (admission_status \<times> resource_db)" where
  "acquire_bridge tx b q db =
     (if rq_type q \<noteq> UploadIntent then Inl (ResourceAdmissionError ''resource_request_invalid'')
      else acquire_any tx (BridgeActor b) q db)"

subsection \<open>Holding and giving back\<close>

definition poll ::
  "transaction \<Rightarrow> resource_actor \<Rightarrow> uuid \<Rightarrow> resource_db \<Rightarrow> resource_exn + (admission_status \<times> resource_db)" where
  "poll tx actor i db =
     bind_result (owned tx actor i db) (\<lambda>a.
     let now = tx_now tx in
     bind_result (save_admission (refreshed_waiting actor now (expire now a)) db) (\<lambda>db1.
     bind_result (tx_advance tx now db1) (\<lambda>db2.
     bind_result (found db2 i) (\<lambda>b.
     bind_result (status_of b now db2) (\<lambda>s. Inr (s, db2))))))"

definition claimed_lease_of :: "instant \<Rightarrow> resource_admission \<Rightarrow> resource_admission" where
  "claimed_lease_of now a =
     a\<lparr>ad_claimed_at := (case ad_claimed_at a of None \<Rightarrow> Some now | Some t \<Rightarrow> Some t),
       ad_lease_until := Some (now + lease_ttl), ad_updated_at := now\<rparr>"

definition save_and_advance ::
  "transaction \<Rightarrow> resource_admission \<Rightarrow> resource_db \<Rightarrow> resource_exn + (admission_status \<times> resource_db)" where
  "save_and_advance tx a db =
     bind_result (save_admission a db) (\<lambda>db1.
     bind_result (tx_advance tx (tx_now tx) db1) (\<lambda>db2.
     bind_result (status_of a (tx_now tx) db2) (\<lambda>s. Inr (s, db2))))"

definition renew ::
  "transaction \<Rightarrow> resource_actor \<Rightarrow> activation_fence \<Rightarrow> resource_db
   \<Rightarrow> resource_exn + (admission_status \<times> resource_db)" where
  "renew tx actor f db =
     bind_result (owned tx actor (af_operation f) db) (\<lambda>a.
     let now = tx_now tx in
     bind_result (require_active a f now) (\<lambda>_.
     bind_result (gate_target (tx_vault tx) (rs_world db) now True (ad_authority a) (ad_request a)) (\<lambda>_.
     save_and_advance tx (claimed_lease_of now a) db)))"

definition released_admission :: "instant \<Rightarrow> resource_admission \<Rightarrow> resource_admission" where
  "released_admission now a =
     a\<lparr>ad_state := Released,
       ad_terminal_at := (case ad_terminal_at a of None \<Rightarrow> Some now | Some t \<Rightarrow> Some t),
       ad_updated_at := now\<rparr>"

definition release ::
  "transaction \<Rightarrow> resource_actor \<Rightarrow> activation_fence \<Rightarrow> resource_db
   \<Rightarrow> resource_exn + (admission_status \<times> resource_db)" where
  "release tx actor f db =
     bind_result (owned tx actor (af_operation f) db) (\<lambda>a.
     bind_result (admission_fence a) (\<lambda>g.
     if g \<noteq> Some f \<or> ad_state a = Waiting then Inl activation_stale
     else save_and_advance tx (released_admission (tx_now tx) a) db))"

definition cancel_waiting ::
  "transaction \<Rightarrow> resource_actor \<Rightarrow> uuid \<Rightarrow> 8 word list \<Rightarrow> resource_db
   \<Rightarrow> resource_exn + (admission_status \<times> resource_db)" where
  "cancel_waiting tx actor i digest db =
     bind_result (owned tx actor i db) (\<lambda>a.
     if ad_sha256 a \<noteq> digest then Inl (ResourceAdmissionError ''resource_operation_conflict'')
     else if ad_state a \<notin> {Waiting, Released} then Inl activation_stale
     else save_and_advance tx (released_admission (tx_now tx) a) db)"

subsection \<open>Attachments of a playback\<close>

fun check_recordings :: "transaction \<Rightarrow> resource_authority \<Rightarrow> uuid list \<Rightarrow> resource_exn + unit" where
  "check_recordings tx u [] = Inr ()"
| "check_recordings tx u (r # rs) =
     bind_result (gate_recording (tx_vault tx) u r) (\<lambda>_. check_recordings tx u rs)"

definition attached_admission ::
  "uuid \<Rightarrow> uuid option \<Rightarrow> instant \<Rightarrow> resource_admission \<Rightarrow> resource_admission" where
  "attached_admission current nxt now a =
     a\<lparr>ad_current_recording := Some current, ad_next_recording := nxt,
       ad_attachment_revision := ad_attachment_revision a + 1, ad_updated_at := now\<rparr>"

definition attach ::
  "transaction \<Rightarrow> resource_actor \<Rightarrow> activation_fence \<Rightarrow> int \<Rightarrow> uuid \<Rightarrow> uuid option \<Rightarrow> resource_db
   \<Rightarrow> resource_exn + (admission_status \<times> resource_db)" where
  "attach tx actor f expected current nxt db =
     bind_result (owned tx actor (af_operation f) db) (\<lambda>a.
     let now = tx_now tx; stale = ResourceAdmissionError ''resource_revision_stale'' in
     bind_result (require_active a f now) (\<lambda>_.
     if ad_kind a \<noteq> PLAYBACK then Inl (ResourceAdmissionError ''resource_purpose_mismatch'')
     else if expected < 0 then Inl stale
     else if ad_attachment_revision a \<noteq> expected then
       (if ad_attachment_revision a = expected + 1
           \<and> (ad_current_recording a, ad_next_recording a) = (Some current, nxt)
        then bind_result (status_of a now db) (\<lambda>s. Inr (s, db))
        else Inl stale)
     else
       let attached = remdups (current # (case nxt of None \<Rightarrow> [] | Some r \<Rightarrow> [r])) in
       bind_result (check_recordings tx (ad_authority a) attached) (\<lambda>_.
       bind_result (permits (af_operation f) now db) (\<lambda>ps.
       if 2 < card (set attached \<union> ip_target ` set ps)
       then Inl (ResourceAdmissionError ''resource_attachment_draining'')
       else bind_result (save_admission (attached_admission current nxt now a) db) (\<lambda>db1.
            bind_result (status_of (attached_admission current nxt now a) now db1)
              (\<lambda>s. Inr (s, db1)))))))"

subsection \<open>I/O\<close>

definition permit_bound :: "resource_kind \<Rightarrow> nat" where
  "permit_bound k = (if k = PLAYBACK then 3 else 1)"

definition open_io ::
  "transaction \<Rightarrow> resource_actor \<Rightarrow> activation_fence \<Rightarrow> uuid \<Rightarrow> resource_type option \<Rightarrow> resource_db
   \<Rightarrow> resource_exn + (io_permit \<times> resource_db)" where
  "open_io tx actor f target ty db =
     bind_result (owned tx actor (af_operation f) db) (\<lambda>a.
     let now = tx_now tx in
     bind_result (require_active a f now) (\<lambda>_.
     bind_result (case ty of None \<Rightarrow> Inr target | Some y \<Rightarrow> io_target tx a y target db) (\<lambda>actual.
     bind_result (tx_target tx a actual now db) (\<lambda>_.
     bind_result (permits (af_operation f) now db) (\<lambda>ps.
     if permit_bound (ad_kind a) \<le> length ps then Inl (ResourceAdmissionError ''resource_io_busy'')
     else
       let a' = claimed_lease_of now a in
       bind_result (save_admission a' db) (\<lambda>db1.
       open_permit (rd_fresh (tx_readings tx) 0) a' actual now db1))))))"

definition renew_io ::
  "transaction \<Rightarrow> resource_actor \<Rightarrow> io_permit \<Rightarrow> resource_type option \<Rightarrow> uuid option \<Rightarrow> resource_db
   \<Rightarrow> resource_exn + (io_permit \<times> resource_db)" where
  "renew_io tx actor p ty target db =
     bind_result (owned tx actor (af_operation (ip_fence p)) db) (\<lambda>a.
     let now = tx_now tx; mismatch = ResourceAdmissionError ''resource_target_mismatch'' in
     bind_result (require_active a (ip_fence p) now) (\<lambda>_.
     bind_result
       (case ty of
          None \<Rightarrow> Inr ()
        | Some y \<Rightarrow>
            (case target of
               None \<Rightarrow> Inl mismatch
             | Some t \<Rightarrow>
                 bind_result (io_target tx a y t db) (\<lambda>actual. require (actual = ip_target p) mismatch))) (\<lambda>_.
     bind_result (tx_target tx a (ip_target p) now db) (\<lambda>_.
     renew_permit p now db))))"

definition close_io :: "transaction \<Rightarrow> io_permit \<Rightarrow> resource_db \<Rightarrow> resource_exn + resource_db" where
  "close_io tx p db =
     bind_result (close_permit p db) (\<lambda>db1. tx_advance tx (tx_locked_at tx) db1)"

subsection \<open>Executions\<close>

definition expected_execution :: "resource_type \<Rightarrow> execution_kind" where
  "expected_execution ty =
     (case ty of PlayInstance \<Rightarrow> VaultStream | DownloadIntent \<Rightarrow> VaultStream | UploadIntent \<Rightarrow> VaultUpload
      | InternetAcquisition \<Rightarrow> Provider | DiscoveryAcquisition \<Rightarrow> Provider)"

definition execution_authority ::
  "transaction \<Rightarrow> resource_actor \<Rightarrow> execution_ticket \<Rightarrow> resource_db \<Rightarrow> resource_exn + instant" where
  "execution_authority tx actor t db =
     bind_result (owned tx actor (af_operation (ip_fence (et_permit t))) db) (\<lambda>a.
     let now = tx_now tx in
     bind_result (require_active a (ip_fence (et_permit t)) now) (\<lambda>_.
     if expected_execution (rq_type (ad_request a)) \<noteq> et_kind t
     then Inl (ResourceAdmissionError ''resource_purpose_mismatch'')
     else bind_result (io_target tx a (rq_type (ad_request a)) (et_actual_target t) db) (\<lambda>target.
       if target \<noteq> ip_target (et_permit t) then Inl (ResourceAdmissionError ''resource_target_mismatch'')
       else bind_result (tx_target tx a target now db) (\<lambda>_. Inr now))))"

definition prepare_execution ::
  "transaction \<Rightarrow> resource_actor \<Rightarrow> execution_ticket \<Rightarrow> resource_db
   \<Rightarrow> resource_exn + (execution_status \<times> resource_db)" where
  "prepare_execution tx actor t db =
     bind_result (execution_authority tx actor t db) (\<lambda>now. prepare t now db)"

definition start_execution ::
  "transaction \<Rightarrow> resource_actor \<Rightarrow> execution_ticket \<Rightarrow> process_identity \<Rightarrow> resource_db
   \<Rightarrow> resource_exn + (execution_status \<times> resource_db)" where
  "start_execution tx actor t child db =
     bind_result (execution_authority tx actor t db) (\<lambda>now. started t child now db)"

definition inspect_execution :: "execution_ticket \<Rightarrow> resource_db \<Rightarrow> resource_exn + execution_status" where
  "inspect_execution t db = inspect t db"

definition renew_execution_io ::
  "transaction \<Rightarrow> resource_actor \<Rightarrow> execution_ticket \<Rightarrow> resource_db
   \<Rightarrow> resource_exn + (io_permit \<times> resource_db)" where
  "renew_execution_io tx actor t db =
     bind_result (execution_authority tx actor t db) (\<lambda>now.
     bind_result (inspect t db) (\<lambda>s.
     if es_state s \<notin> {ExPrepared, ExRunning} then Inl io_stale
     else bind_result (renew_permit (et_permit t) now db) (\<lambda>(p, db1).
          bind_result (execution_heartbeat t now db1) (\<lambda>(_, db2). Inr (p, db2)))))"

definition heartbeat_execution ::
  "transaction \<Rightarrow> execution_ticket \<Rightarrow> resource_db \<Rightarrow> resource_exn + (execution_status \<times> resource_db)" where
  "heartbeat_execution tx t db = execution_heartbeat t (tx_locked_at tx) db"

definition stop_execution ::
  "transaction \<Rightarrow> execution_ticket \<Rightarrow> resource_db \<Rightarrow> resource_exn + (execution_status \<times> resource_db)" where
  "stop_execution tx t db = stop t (tx_locked_at tx) db"

definition confirm_execution_exit ::
  "transaction \<Rightarrow> execution_ticket \<Rightarrow> exit_evidence \<Rightarrow> resource_db
   \<Rightarrow> resource_exn + (execution_status \<times> resource_db)" where
  "confirm_execution_exit tx t v db = confirm_exit t v (tx_locked_at tx) db"

definition sweep :: "transaction \<Rightarrow> int \<Rightarrow> resource_db \<Rightarrow> resource_exn + (nat \<times> resource_db)" where
  "sweep tx maximum db =
     (if \<not> (1 \<le> maximum \<and> maximum \<le> 512) then Inl ResourceValueError
      else
        let now = tx_locked_at tx; n = nat maximum; (orphaned, db1) = orphan_stale now n db
        in bind_result (cleanup (tx_vault tx) (tx_readings tx) now n db1) (\<lambda>(cleaned, db2).
           bind_result (advance (tx_vault tx) (later_readings n (tx_readings tx)) now n db2)
             (\<lambda>(changed, db3). Inr (orphaned + cleaned + changed, db3))))"

end
