(* ===== verification/Resource_Invariants.thy ===== *)
theory Resource_Invariants
  imports Resource_Service
begin

text \<open>
  The invariant of the admission tables (keys, checks, foreign keys, one writer per target) and its
  preservation by the statements of the repository and by the operations on permits and executions.
\<close>

definition permit_for :: "resource_admission \<Rightarrow> permit_row \<Rightarrow> bool" where
  "permit_for a p \<longleftrightarrow>
     pm_operation p = ad_operation a \<and> ad_activation a = Some (pm_activation p)
     \<and> ad_generation a = pm_generation p"

definition execution_for :: "permit_row \<Rightarrow> execution_row \<Rightarrow> bool" where
  "execution_for p e \<longleftrightarrow>
     xe_permit e = pm_id p \<and> xe_operation e = pm_operation p \<and> xe_activation e = pm_activation p
     \<and> xe_generation e = pm_generation p \<and> xe_target e = pm_target p"

definition writes :: "execution_row \<Rightarrow> bool" where
  "writes e \<longleftrightarrow> xe_kind e \<noteq> VaultStream \<and> xe_closed_at e = None"

definition single_writers :: "execution_row list \<Rightarrow> bool" where
  "single_writers es \<longleftrightarrow>
     (\<forall>e \<in> set es. \<forall>e' \<in> set es. writes e \<and> writes e' \<and> xe_kind e = xe_kind e'
        \<and> xe_actual_target e = xe_actual_target e' \<longrightarrow> e = e')"

definition admissions_ok :: "resource_admission list \<Rightarrow> bool" where
  "admissions_ok as \<longleftrightarrow> distinct (map (\<lambda>a. ad_operation a) as) \<and> list_all admission_row_checks as"

definition permits_ok :: "resource_admission list \<Rightarrow> permit_row list \<Rightarrow> bool" where
  "permits_ok as ps \<longleftrightarrow>
     distinct (map pm_id ps) \<and> (\<forall>p \<in> set ps. permit_row_checks p \<and> (\<exists>a \<in> set as. permit_for a p))"

definition executions_ok :: "permit_row list \<Rightarrow> execution_row list \<Rightarrow> bool" where
  "executions_ok ps es \<longleftrightarrow>
     distinct (map xe_id es) \<and> distinct (map xe_permit es) \<and> single_writers es
     \<and> (\<forall>e \<in> set es. execution_row_checks e \<and> (\<exists>p \<in> set ps. execution_for p e))"

definition resource_inv :: "resource_db \<Rightarrow> bool" where
  "resource_inv db \<longleftrightarrow>
     admissions_ok (rs_admissions db) \<and> permits_ok (rs_admissions db) (rs_permits db)
     \<and> executions_ok (rs_permits db) (rs_executions db)"

text \<open>Only three tables matter to it.\<close>

definition same_tables :: "resource_db \<Rightarrow> resource_db \<Rightarrow> bool" where
  "same_tables db db' \<longleftrightarrow>
     rs_admissions db' = rs_admissions db \<and> rs_permits db' = rs_permits db
     \<and> rs_executions db' = rs_executions db"

lemma same_tables_inv: "same_tables db db' \<Longrightarrow> resource_inv db' \<longleftrightarrow> resource_inv db"
  by (simp add: same_tables_def resource_inv_def)

lemma resource_invI:
  "admissions_ok (rs_admissions db) \<Longrightarrow> permits_ok (rs_admissions db) (rs_permits db) \<Longrightarrow>
   executions_ok (rs_permits db) (rs_executions db) \<Longrightarrow> resource_inv db"
  by (simp add: resource_inv_def)

lemma resource_invD:
  assumes "resource_inv db"
  shows "admissions_ok (rs_admissions db)" and "permits_ok (rs_admissions db) (rs_permits db)"
    and "executions_ok (rs_permits db) (rs_executions db)"
  using assms by (simp_all add: resource_inv_def)

lemma find_admission_Some:
  "find_admission i db = Some a \<Longrightarrow> a \<in> set (rs_admissions db) \<and> ad_operation a = i"
  by (auto simp: find_admission_def dest: find_eq_Some_unique)

lemma found_Inr: "found db i = Inr a \<longleftrightarrow> find_admission i db = Some a"
  by (auto simp: found_def split: option.splits)

lemma admission_unique:
  assumes "resource_inv db" and "a \<in> set (rs_admissions db)" and "b \<in> set (rs_admissions db)"
    and "ad_operation a = ad_operation b"
  shows "a = b"
  using assms inj_onD [of "\<lambda>a. ad_operation a" "set (rs_admissions db)" a b]
  by (simp add: resource_inv_def admissions_ok_def distinct_map)

lemma permit_unique:
  "resource_inv db \<Longrightarrow> p \<in> set (rs_permits db) \<Longrightarrow> q \<in> set (rs_permits db) \<Longrightarrow> pm_id p = pm_id q \<Longrightarrow> p = q"
  by (simp add: resource_inv_def permits_ok_def distinct_map inj_on_def)

lemma execution_unique:
  "resource_inv db \<Longrightarrow> e \<in> set (rs_executions db) \<Longrightarrow> e' \<in> set (rs_executions db) \<Longrightarrow>
   xe_id e = xe_id e' \<Longrightarrow> e = e'"
  by (simp add: resource_inv_def executions_ok_def distinct_map inj_on_def)

lemma permit_admission:
  assumes "resource_inv db" and "p \<in> set (rs_permits db)"
  obtains a where "a \<in> set (rs_admissions db)" and "permit_for a p"
  using assms by (auto simp: resource_inv_def permits_ok_def)

lemma execution_permit:
  assumes "resource_inv db" and "e \<in> set (rs_executions db)"
  obtains p where "p \<in> set (rs_permits db)" and "execution_for p e"
  using assms by (auto simp: resource_inv_def executions_ok_def)

subsection \<open>Saved admissions\<close>

lemma operations_put_admission:
  "map (\<lambda>a. ad_operation a) (put_admission a rows) =
     (if list_ex (\<lambda>r. ad_operation r = ad_operation a) rows then map (\<lambda>a. ad_operation a) rows
      else map (\<lambda>a. ad_operation a) rows @ [ad_operation a])"
  by (auto simp: put_admission_def update_rows_def)

lemma in_put_admission:
  "r \<in> set (put_admission a rows) \<longleftrightarrow> r = a \<or> r \<in> set rows \<and> ad_operation r \<noteq> ad_operation a"
  by (auto simp: put_admission_def in_update_rows list_ex_iff split: if_splits)

lemma put_admission_ok:
  "admissions_ok rows \<Longrightarrow> admission_row_checks a \<Longrightarrow> admissions_ok (put_admission a rows)"
  by (auto simp: admissions_ok_def operations_put_admission list_all_iff in_put_admission list_ex_iff)

lemma save_admission_Inr:
  "save_admission a db = Inr db' \<longleftrightarrow>
     admission_row_checks a \<and> permits_match a (rs_permits db)
     \<and> db' = db\<lparr>rs_admissions := put_admission a (rs_admissions db)\<rparr>"
  by (auto simp: save_admission_def)

lemma permits_ok_put:
  assumes "permits_ok rows ps" and "permits_match a ps"
  shows "permits_ok (put_admission a rows) ps"
proof -
  have "\<exists>b \<in> set (put_admission a rows). permit_for b p" if "p \<in> set ps" for p
  proof (cases "pm_operation p = ad_operation a")
    case True
    with assms(2) that have "permit_for a p"
      by (auto simp: permits_match_def list_all_iff permit_for_def)
    then show ?thesis by (auto simp: in_put_admission)
  next
    case False
    from assms(1) that obtain b where "b \<in> set rows" "permit_for b p" by (auto simp: permits_ok_def)
    with False show ?thesis by (auto simp: in_put_admission permit_for_def)
  qed
  with assms(1) show ?thesis by (simp add: permits_ok_def)
qed

lemma save_admission_inv:
  assumes "resource_inv db" and "save_admission a db = Inr db'"
  shows "resource_inv db'"
  using assms(2) resource_invD [OF assms(1)]
  by (auto simp: save_admission_Inr intro!: resource_invI put_admission_ok permits_ok_put)

lemma save_admission_frame:
  assumes "save_admission a db = Inr db'"
  shows "rs_permits db' = rs_permits db" and "rs_executions db' = rs_executions db"
    and "rs_policy db' = rs_policy db" and "rs_overrides db' = rs_overrides db"
    and "rs_cursors db' = rs_cursors db" and "rs_world db' = rs_world db"
    and "rs_jobs db' = rs_jobs db" and "rs_admissions db' = put_admission a (rs_admissions db)"
  using assms by (auto simp: save_admission_Inr)

subsection \<open>Removed rows\<close>

lemma executions_ok_delete: "executions_ok ps es \<Longrightarrow> executions_ok ps (delete_rows P es)"
  by (auto simp: executions_ok_def distinct_delete_rows single_writers_def)

lemma delete_executions_inv:
  "resource_inv db \<Longrightarrow> resource_inv (db\<lparr>rs_executions := delete_rows P (rs_executions db)\<rparr>)"
  by (simp add: resource_inv_def executions_ok_delete)

lemma permits_ok_delete: "permits_ok as ps \<Longrightarrow> permits_ok as (delete_rows P ps)"
  by (auto simp: permits_ok_def distinct_delete_rows)

lemma drop_permits_Inr:
  "drop_permits P db = Inr db' \<longleftrightarrow>
     (\<forall>e \<in> set (rs_executions db). \<forall>p \<in> set (rs_permits db). P p \<longrightarrow> pm_id p \<noteq> xe_permit e)
     \<and> db' = db\<lparr>rs_permits := delete_rows P (rs_permits db)\<rparr>"
  by (auto simp: drop_permits_def list_ex_iff)

lemma drop_permits_inv:
  assumes "resource_inv db" and "drop_permits P db = Inr db'"
  shows "resource_inv db'"
proof -
  note drop = assms(2) [unfolded drop_permits_Inr]
  have "executions_ok (delete_rows P (rs_permits db)) (rs_executions db)"
    using resource_invD(3) [OF assms(1)] drop unfolding executions_ok_def
    by (auto simp: execution_for_def) (metis in_delete_rows)
  then show ?thesis
    using drop resource_invD [OF assms(1)] by (auto intro!: resource_invI permits_ok_delete)
qed

lemma delete_admissions_inv:
  assumes "resource_inv db"
    and "\<And>a p. a \<in> set (rs_admissions db) \<Longrightarrow> P a \<Longrightarrow> p \<in> set (rs_permits db) \<Longrightarrow>
      pm_operation p \<noteq> ad_operation a"
  shows "resource_inv (db\<lparr>rs_admissions := delete_rows P (rs_admissions db)\<rparr>)"
proof -
  have "admissions_ok (delete_rows P (rs_admissions db))"
    using resource_invD(1) [OF assms(1)]
    by (auto simp: admissions_ok_def distinct_delete_rows list_all_iff)
  moreover have "permits_ok (delete_rows P (rs_admissions db)) (rs_permits db)"
    using resource_invD(2) [OF assms(1)] assms(2) unfolding permits_ok_def
    by (auto simp: permit_for_def) (metis in_delete_rows)
  ultimately show ?thesis using resource_invD(3) [OF assms(1)] by (simp add: resource_inv_def)
qed

lemma grant_inv:
  assumes "resource_inv db" and "grant rd now p a db = Inr db'"
  shows "resource_inv db'"
proof -
  let ?db1 = "db\<lparr>rs_executions := delete_rows (\<lambda>e. xe_operation e = ad_operation a \<and> xe_closed_at e \<noteq> None)
      (rs_executions db)\<rparr>"
  from assms(2) obtain db2 db3 where
    "drop_permits (\<lambda>q. pm_operation q = ad_operation a \<and> pm_expires_at q \<le> now) ?db1 = Inr db2"
    "save_admission (granted_admission now (rd_fresh rd 0) a) db2 = Inr db3"
    and db': "same_tables db3 db'"
    by (auto simp: grant_def Let_def bind_result_eq_Inr same_tables_def)
  from save_admission_inv [OF drop_permits_inv [OF delete_executions_inv [OF assms(1)] this(1)] this(2)]
  show ?thesis using same_tables_inv [OF db'] by blast
qed

subsection \<open>The loop of grants\<close>

text \<open>
  What the scheduler's loop relies on: a property of its states, and of the count it keeps, that each of
  its three writes preserves, while the state moves along a preorder.
\<close>

locale grant_loop =
  fixes vg :: vault_gate and now :: instant and k :: resource_kind and limit :: int
    and good :: "nat \<Rightarrow> resource_db \<Rightarrow> bool" and moved :: "resource_db \<Rightarrow> resource_db \<Rightarrow> bool"
  assumes moved_refl: "moved db db"
    and moved_trans: "moved db db1 \<Longrightarrow> moved db1 db2 \<Longrightarrow> moved db db2"
    and granting: "good used db \<Longrightarrow> int used < limit \<Longrightarrow> rs_policy db = Some p \<Longrightarrow>
      next_eligible now p k db = Some a \<Longrightarrow> grant rd now p a db = Inr db' \<Longrightarrow>
      good (Suc used) db' \<and> moved db db'"
    and withdrawing: "good used db \<Longrightarrow> rs_policy db = Some p \<Longrightarrow> next_eligible now p k db = Some a \<Longrightarrow>
      save_admission (expired_admission now a) db = Inr db' \<Longrightarrow> good used db' \<and> moved db db'"
    and waking: "good used db \<Longrightarrow> good used (db\<lparr>rs_jobs := jobs\<rparr>) \<and> moved db (db\<lparr>rs_jobs := jobs\<rparr>)"
begin

lemma loop:
  "advance_kind vg rd now k limit fuel used db = Inr (n, db') \<Longrightarrow> good used db \<Longrightarrow>
   (\<exists>used'. good used' db') \<and> moved db db'"
proof (induction fuel arbitrary: rd used db n)
  case 0
  then show ?case using moved_refl by auto
next
  case (Suc fuel)
  show ?case
  proof (cases "limit \<le> int used")
    case True
    with Suc.prems moved_refl show ?thesis by auto
  next
    case False
    with Suc.prems(1) obtain p where p: "rs_policy db = Some p"
      by (cases "rs_policy db") (simp_all add: resource_policy_def)
    show ?thesis
    proof (cases "next_eligible now p k db")
      case None
      with Suc.prems False p moved_refl show ?thesis by (auto simp: resource_policy_def)
    next
      case (Some a)
      note run = Suc.prems(1) [unfolded advance_kind.simps if_not_P [OF False] resource_policy_def p
          option.case bind_result_simps Some]
      show ?thesis
      proof (cases "judge vg rd now db a")
        case Grantable
        with run obtain db1 m where db1: "grant rd now p a db = Inr db1"
          and rest: "advance_kind vg (later_readings 2 rd) now k limit fuel (Suc used) db1 = Inr (m, db')"
          by (auto simp: bind_result_eq_Inr)
        from granting [OF Suc.prems(2) _ p Some db1] False have "good (Suc used) db1" "moved db db1"
          by simp_all
        with Suc.IH [OF rest] moved_trans show ?thesis by blast
      next
        case Withdrawn
        with run obtain db1 m where db1: "save_admission (expired_admission now a) db = Inr db1"
          and rest: "advance_kind vg (later_readings 2 rd) now k limit fuel used db1 = Inr (m, db')"
          by (auto simp: bind_result_eq_Inr)
        from withdrawing [OF Suc.prems(2) p Some db1] have "good used db1" "moved db db1" by simp_all
        with Suc.IH [OF rest] moved_trans show ?thesis by blast
      next
        case (NotClaimed j)
        with run waking [OF Suc.prems(2)] Suc.prems(2) moved_refl show ?thesis
          by (auto split: if_splits)
      qed
    qed
  qed
qed

end

lemma jobs_inv_irrelevant [simp]: "resource_inv (db\<lparr>rs_jobs := jobs\<rparr>) \<longleftrightarrow> resource_inv db"
  by (simp add: resource_inv_def)

interpretation keeping: grant_loop vg now k limit "\<lambda>_. resource_inv" "\<lambda>_ _. True"
  for vg now k limit
  by unfold_locales (auto intro: grant_inv save_admission_inv)

lemma advance_inv:
  assumes "resource_inv db" and "advance vg rd now maximum db = Inr (n, db')"
  shows "resource_inv db'"
  using assms
  by (auto simp: advance_def bind_result_eq_Inr split: option.splits dest!: keeping.loop)

subsection \<open>Permits\<close>

lemma insert_permit_Inr:
  "insert_permit p db = Inr db' \<longleftrightarrow>
     (\<forall>r \<in> set (rs_permits db). pm_id r \<noteq> pm_id p) \<and> permit_row_checks p
     \<and> (\<exists>a \<in> set (rs_admissions db). permit_for a p)
     \<and> db' = db\<lparr>rs_permits := rs_permits db @ [p]\<rparr>"
proof -
  have "list_ex (\<lambda>a. ad_operation a = pm_operation p \<and> ad_activation a = Some (pm_activation p)
      \<and> ad_generation a = pm_generation p) (rs_admissions db) \<longleftrightarrow>
    (\<exists>a \<in> set (rs_admissions db). permit_for a p)"
    by (auto simp: list_ex_iff permit_for_def) metis+
  then show ?thesis by (auto simp: insert_permit_def list_ex_iff)
qed

lemma executions_ok_more_permits:
  "executions_ok ps es \<Longrightarrow> set ps \<subseteq> set ps' \<Longrightarrow> executions_ok ps' es"
  unfolding executions_ok_def by blast

lemma insert_permit_inv:
  assumes "resource_inv db" and "insert_permit p db = Inr db'"
  shows "resource_inv db'"
proof -
  note new = assms(2) [unfolded insert_permit_Inr]
  have "permits_ok (rs_admissions db) (rs_permits db @ [p])"
    using resource_invD(2) [OF assms(1)] new by (fastforce simp: permits_ok_def)
  moreover have "executions_ok (rs_permits db @ [p]) (rs_executions db)"
    by (rule executions_ok_more_permits [OF resource_invD(3) [OF assms(1)]]) auto
  ultimately show ?thesis using resource_invD(1) [OF assms(1)] new by (auto intro!: resource_invI)
qed

text \<open>Writes to permits that keep what identifies them.\<close>

definition permit_key :: "permit_row \<Rightarrow> uuid \<times> uuid \<times> uuid \<times> int \<times> uuid" where
  "permit_key p = (pm_id p, pm_operation p, pm_activation p, pm_generation p, pm_target p)"

interpretation permit_write: key_keeping permit_key "renewed_permit now" for now
  by unfold_locales (simp add: permit_key_def renewed_permit_def)

lemma executions_ok_keys:
  assumes "executions_ok ps es" and "map permit_key ps' = map permit_key ps"
  shows "executions_ok ps' es"
proof -
  have "\<exists>q \<in> set ps'. permit_key q = permit_key p" if "p \<in> set ps" for p
    using that assms(2) by (metis (no_types, lifting) imageE image_eqI list.set_map)
  with assms(1) show ?thesis
    unfolding executions_ok_def execution_for_def permit_key_def prod.inject by metis
qed

lemma renewed_permit_key [simp]: "permit_key (renewed_permit now p) = permit_key p"
  by (simp add: permit_key_def renewed_permit_def)

lemma permit_for_renewed [simp]: "permit_for a (renewed_permit now p) \<longleftrightarrow> permit_for a p"
  by (simp add: permit_for_def renewed_permit_def)

lemma make_activation_fence_Inr:
  "make_activation_fence i x g = Inr f \<Longrightarrow>
     f = \<lparr>af_operation = i, af_activation = x, af_generation = g\<rparr> \<and> 1 \<le> g"
  by (auto simp: make_activation_fence_def split: if_splits)

lemma renew_permit_Inr:
  assumes "renew_permit p now db = Inr (q, db')"
  obtains row where "find_permit (ip_id p) db = Some row" and "same_permit p row"
    and "now < pm_expires_at row" and "permit_row_checks (renewed_permit now row)"
    and "db' = db\<lparr>rs_permits := update_rows (\<lambda>r. pm_id r = ip_id p) (renewed_permit now) (rs_permits db)\<rparr>"
proof -
  from assms obtain row stored where row: "find_permit (ip_id p) db = Some row"
    and stored: "permit_of row = Inr stored" "ip_fence stored = ip_fence p" "pm_target row = ip_target p"
    and live: "now < pm_expires_at row" "permit_row_checks (renewed_permit now row)"
    and db': "db' = db\<lparr>rs_permits := update_rows (\<lambda>r. pm_id r = ip_id p) (renewed_permit now) (rs_permits db)\<rparr>"
    by (auto simp: renew_permit_def bind_result_eq_Inr not_le split: option.splits if_splits)
  from stored(1,2) have fence: "ip_fence p = \<lparr>af_operation = pm_operation row,
      af_activation = pm_activation row, af_generation = pm_generation row\<rparr>"
    by (auto simp: permit_of_def bind_result_eq_Inr dest!: make_activation_fence_Inr)
  have "pm_id row = ip_id p" using row by (auto simp: find_permit_def dest: find_eq_Some_unique)
  then have "same_permit p row" using stored(3) by (simp add: same_permit_def fence)
  from that [OF row this live db'] show ?thesis .
qed

lemma renew_permit_inv:
  assumes inv: "resource_inv db" and "renew_permit p now db = Inr (q, db')"
  shows "resource_inv db'"
proof -
  from assms(2) obtain row where row: "find_permit (ip_id p) db = Some row"
    "permit_row_checks (renewed_permit now row)"
    and db': "db' = db\<lparr>rs_permits := update_rows (\<lambda>r. pm_id r = ip_id p) (renewed_permit now) (rs_permits db)\<rparr>"
    by (rule renew_permit_Inr)
  from row(1) have in_row: "row \<in> set (rs_permits db)" "pm_id row = ip_id p"
    by (auto simp: find_permit_def dest: find_eq_Some_unique)
  have keys: "map permit_key (rs_permits db') = map permit_key (rs_permits db)"
    by (simp add: db' permit_write.keys_update_rows)
  then have "map fst (map permit_key (rs_permits db')) = map fst (map permit_key (rs_permits db))"
    by (simp only:)
  then have "map pm_id (rs_permits db') = map pm_id (rs_permits db)" by (simp add: comp_def permit_key_def)
  moreover have "permit_row_checks r \<and> (\<exists>a \<in> set (rs_admissions db). permit_for a r)"
    if "r \<in> set (rs_permits db')" for r
  proof -
    from that obtain s where s: "s \<in> set (rs_permits db)"
      "r = (if pm_id s = ip_id p then renewed_permit now s else s)"
      unfolding db' by (auto simp: in_update_rows)
    moreover have "s = row" if "pm_id s = ip_id p"
      using permit_unique [OF inv s(1) in_row(1)] in_row(2) that by simp
    ultimately show ?thesis using row(2) resource_invD(2) [OF inv] by (auto simp: permits_ok_def)
  qed
  ultimately have "permits_ok (rs_admissions db) (rs_permits db')"
    using resource_invD(2) [OF inv] by (simp add: permits_ok_def)
  with executions_ok_keys [OF resource_invD(3) [OF inv] keys] resource_invD(1) [OF inv]
  show ?thesis by (intro resource_invI) (simp_all add: db')
qed

lemma close_permit_inv:
  assumes "resource_inv db" and "close_permit p db = Inr db'"
  shows "resource_inv db'"
  using assms drop_permits_inv [OF delete_executions_inv [OF assms(1)]]
  by (auto simp: close_permit_def split: if_splits)

lemma open_permit_Inr:
  assumes "open_permit fresh a target now db = Inr (q, db')"
  obtains p where "insert_permit p db = Inr db'" and "pm_operation p = ad_operation a"
    and "ad_activation a = Some (pm_activation p)" and "pm_generation p = ad_generation a"
    and "pm_target p = target" and "pm_id p = fresh" and "pm_expires_at p = now + io_permit_ttl"
    and "permit_of p = Inr q"
  using assms
  by (fastforce simp: open_permit_def admission_fence_def make_activation_fence_def bind_result_eq_Inr
      Let_def split: option.splits if_splits)

subsection \<open>Executions\<close>

definition execution_key ::
  "execution_row \<Rightarrow> (uuid \<times> uuid \<times> uuid) \<times> (uuid \<times> int \<times> uuid) \<times> execution_kind \<times> uuid" where
  "execution_key e =
     ((xe_id e, xe_permit e, xe_operation e), (xe_activation e, xe_generation e, xe_target e), xe_kind e,
      xe_actual_target e)"

text \<open>A write that keeps the identity and never reopens an execution.\<close>

definition progresses :: "execution_row \<Rightarrow> execution_row \<Rightarrow> bool" where
  "progresses e e' \<longleftrightarrow>
     execution_key e' = execution_key e \<and> (xe_closed_at e' = None \<longrightarrow> xe_closed_at e = None)"

lemma progresses_simps [simp]:
  "progresses e e" "progresses e (orphan_row e)" "progresses e (stopped_row now e)"
  "progresses e (started_row child now e)" "progresses e (closed_row v now e)"
  "progresses e (e\<lparr>xe_heartbeat_at := now\<rparr>)"
  by (simp_all add: progresses_def execution_key_def orphan_row_def stopped_row_def started_row_def
      closed_row_def)

lemma executions_ok_update:
  assumes ok: "executions_ok ps es"
    and "\<And>e. e \<in> set es \<Longrightarrow> P e \<Longrightarrow> progresses e (f e) \<and> execution_row_checks (f e)"
  shows "executions_ok ps (update_rows P f es)"
proof -
  define g where "g e = (if P e then f e else e)" for e
  have g: "progresses e (g e)" "execution_row_checks (g e)" if "e \<in> set es" for e
    using that assms by (auto simp: g_def executions_ok_def)
  have upd: "update_rows P f es = map g es" by (simp add: update_rows_def g_def)
  have ids: "map xe_id (map g es) = map xe_id es" "map xe_permit (map g es) = map xe_permit es"
    using g(1) by (simp_all add: progresses_def execution_key_def)
  have "single_writers (map g es)"
    unfolding single_writers_def
  proof (intro ballI impI)
    fix x y assume "x \<in> set (map g es)" "y \<in> set (map g es)"
      and same: "writes x \<and> writes y \<and> xe_kind x = xe_kind y \<and> xe_actual_target x = xe_actual_target y"
    then obtain e e' where e: "e \<in> set es" "x = g e" "e' \<in> set es" "y = g e'" by auto
    with same g(1) have "writes e \<and> writes e' \<and> xe_kind e = xe_kind e' \<and> xe_actual_target e = xe_actual_target e'"
      by (auto simp: progresses_def execution_key_def writes_def)
    with e(1,3) ok have "e = e'" unfolding executions_ok_def single_writers_def by blast
    with e show "x = y" by simp
  qed
  moreover have "execution_row_checks (g e) \<and> (\<exists>p \<in> set ps. execution_for p (g e))" if "e \<in> set es" for e
    using g [OF that] ok that
    by (auto simp: executions_ok_def execution_for_def progresses_def execution_key_def)
  ultimately show ?thesis using ok unfolding upd executions_ok_def ids by simp
qed

lemma update_executions_inv:
  assumes "resource_inv db"
    and "\<And>e. e \<in> set (rs_executions db) \<Longrightarrow> P e \<Longrightarrow> progresses e (f e) \<and> execution_row_checks (f e)"
  shows "resource_inv (db\<lparr>rs_executions := update_rows P f (rs_executions db)\<rparr>)"
  using assms executions_ok_update [OF resource_invD(3) [OF assms(1)], of P f]
  by (simp add: resource_inv_def)

lemma set_execution_Inr:
  "set_execution e db = Inr db' \<longleftrightarrow>
     execution_row_checks e
     \<and> db' = db\<lparr>rs_executions := update_rows (\<lambda>r. xe_id r = xe_id e) (\<lambda>_. e) (rs_executions db)\<rparr>"
  by (auto simp: set_execution_def)

lemma set_execution_inv:
  assumes inv: "resource_inv db" and "set_execution e' db = Inr db'"
    and e: "e \<in> set (rs_executions db)" "progresses e e'"
  shows "resource_inv db'"
proof -
  have id: "xe_id e' = xe_id e" using e(2) by (simp add: progresses_def execution_key_def)
  have "x = e" if "x \<in> set (rs_executions db)" "xe_id x = xe_id e'" for x
    using execution_unique [OF inv that(1) e(1)] that(2) id by simp
  with assms(2) e show ?thesis
    by (auto simp: set_execution_Inr intro!: update_executions_inv [OF inv])
qed

lemma ticket_row_Inr:
  assumes "ticket_row t db = Inr e"
  shows "e \<in> set (rs_executions db)" and "xe_id e = et_execution t" and "ticket_matches t e"
  using assms by (auto simp: ticket_row_def find_execution_def split: option.splits if_splits
      dest: find_eq_Some_unique)

lemma orphan_checks: "execution_row_checks e \<Longrightarrow> stale_execution now e \<Longrightarrow> execution_row_checks (orphan_row e)"
  by (auto simp: execution_row_checks_def orphan_row_def stale_execution_def execution_child_check_def
      execution_closure_check_def split: option.splits prod.splits)

lemma first_ids_in: "i \<in> set (first_ids n order P key rows) \<Longrightarrow> \<exists>r \<in> set rows. P r \<and> key r = i"
  by (auto simp: first_ids_def dest!: in_set_takeD)

lemma orphan_stale_inv:
  assumes inv: "resource_inv db" and "orphan_stale now n db = (m, db')"
  shows "resource_inv db'"
proof -
  let ?ids = "first_ids n (\<lambda>e. (xe_heartbeat_at e, xe_id e)) (stale_execution now) xe_id (rs_executions db)"
  have "progresses e (orphan_row e) \<and> execution_row_checks (orphan_row e)"
    if e: "e \<in> set (rs_executions db)" "xe_id e \<in> set ?ids" for e
  proof -
    from first_ids_in [OF e(2)] obtain e' where "e' \<in> set (rs_executions db)" "stale_execution now e'"
      "xe_id e' = xe_id e" by blast
    with execution_unique [OF inv _ e(1)] have "stale_execution now e" by blast
    moreover have "execution_row_checks e" using resource_invD(3) [OF inv] e(1) by (simp add: executions_ok_def)
    ultimately show ?thesis using orphan_checks by simp
  qed
  from update_executions_inv [OF inv this] assms(2) show ?thesis
    by (auto simp: orphan_stale_def Let_def)
qed

end
