(* ===== verification/Resource_System.thy ===== *)
theory Resource_System
  imports Resource_Invariants
begin

text \<open>
  The admission tables as one transition system. \<open>table_step now\<close> lists the writes the services make
  to them at the time \<open>now\<close>, each with the condition it is made under; the lemmas show that every
  committed operation of \<open>ResourceAdmissionService\<close>, the sweep and the account writers included, is a
  sequence of such writes.
\<close>

text \<open>A write to an admission that neither activates it nor touches its activation or its request.\<close>

definition calmer :: "instant \<Rightarrow> resource_admission \<Rightarrow> resource_admission \<Rightarrow> bool" where
  "calmer now a a' \<longleftrightarrow>
     ad_request a' = ad_request a \<and> ad_activation a' = ad_activation a
     \<and> ad_generation a' = ad_generation a \<and> (active_at a' now \<longrightarrow> active_at a now)"

text \<open>Equal tables and equal limits.\<close>

definition same_frame :: "resource_db \<Rightarrow> resource_db \<Rightarrow> bool" where
  "same_frame db db' \<longleftrightarrow>
     same_tables db db' \<and> rs_policy db' = rs_policy db \<and> rs_overrides db' = rs_overrides db"

inductive table_step :: "instant \<Rightarrow> resource_db \<Rightarrow> resource_db \<Rightarrow> bool" for now where
  ts_save: "a \<in> set (rs_admissions db) \<Longrightarrow> calmer now a a' \<Longrightarrow> save_admission a' db = Inr db' \<Longrightarrow>
    table_step now db db'"
| ts_insert: "find_admission (ad_operation a) db = None \<Longrightarrow> ad_state a = Waiting \<Longrightarrow>
    ad_generation a = 0 \<Longrightarrow> save_admission a db = Inr db' \<Longrightarrow> table_step now db db'"
| ts_advance: "advance vg rd now n db = Inr (m, db') \<Longrightarrow> table_step now db db'"
| ts_open: "a \<in> set (rs_admissions db) \<Longrightarrow> active_at a now \<Longrightarrow> permit_for a p \<Longrightarrow>
    pm_expires_at p = now + io_permit_ttl \<Longrightarrow>
    length (open_permits (ad_operation a) now db) < permit_bound (ad_kind a) \<Longrightarrow>
    insert_permit p db = Inr db' \<Longrightarrow> table_step now db db'"
| ts_renew: "renew_permit p now db = Inr (q, db') \<Longrightarrow> table_step now db db'"
| ts_close: "close_permit p db = Inr db' \<Longrightarrow> table_step now db db'"
| ts_prepare: "prepare t now db = Inr (s, db') \<Longrightarrow> table_step now db db'"
| ts_started: "started t child now db = Inr (s, db') \<Longrightarrow> table_step now db db'"
| ts_heartbeat: "execution_heartbeat t now db = Inr (s, db') \<Longrightarrow> table_step now db db'"
| ts_stop: "stop t now db = Inr (s, db') \<Longrightarrow> table_step now db db'"
| ts_exit: "check_exit_evidence v = Inr v \<Longrightarrow> confirm_exit t v now db = Inr (s, db') \<Longrightarrow>
    table_step now db db'"
| ts_orphan: "orphan_stale now n db = (m, db') \<Longrightarrow> table_step now db db'"
| ts_drop_executions: "(\<And>e. P e \<Longrightarrow> xe_closed_at e \<noteq> None) \<Longrightarrow>
    table_step now db (db\<lparr>rs_executions := delete_rows P (rs_executions db)\<rparr>)"
| ts_drop_permits: "(\<And>p. p \<in> set (rs_permits db) \<Longrightarrow> P p \<Longrightarrow> pm_expires_at p \<le> now) \<Longrightarrow>
    drop_permits P db = Inr db' \<Longrightarrow> table_step now db db'"
| ts_forget: "(\<And>a. a \<in> set (rs_admissions db) \<Longrightarrow> P a \<Longrightarrow> ad_state a \<in> {Released, Expired}
      \<and> \<not> list_ex (\<lambda>p. pm_operation p = ad_operation a) (rs_permits db)) \<Longrightarrow>
    table_step now db (db\<lparr>rs_admissions := delete_rows P (rs_admissions db)\<rparr>)"
| ts_terminate: "terminate_resource_authority user now device family mode only db = Inr db' \<Longrightarrow>
    table_step now db db'"
| ts_other: "same_frame db db' \<Longrightarrow> table_step now db db'"

abbreviation table_run :: "instant \<Rightarrow> resource_db \<Rightarrow> resource_db \<Rightarrow> bool" where
  "table_run now \<equiv> (table_step now)\<^sup>*\<^sup>*"

lemmas step_run = r_into_rtranclp [of "table_step now" for now]

subsection \<open>Writes that are calm\<close>

lemma calmer_refl [simp]: "calmer now a a"
  by (simp add: calmer_def)

lemma calmer_expire [simp]: "calmer now a (expire now a)"
  by (auto simp: calmer_def expire_def active_at_def)

lemma calmer_expired [simp]: "calmer now a (expired_admission now a)"
  by (simp add: calmer_def expired_admission_def active_at_def)

lemma calmer_touched [simp]: "calmer now a (touched_admission now a)"
  by (simp add: calmer_def touched_admission_def active_at_def)

lemma calmer_released [simp]: "calmer now a (released_admission now a)"
  by (simp add: calmer_def released_admission_def active_at_def)

lemma calmer_attached [simp]: "calmer now a (attached_admission c n now a)"
  by (simp add: calmer_def attached_admission_def active_at_def)

lemma calmer_refreshed: "calmer now a b \<Longrightarrow> calmer now a (refreshed_waiting actor now b)"
  by (simp add: calmer_def refreshed_waiting_def active_at_def)

lemma calmer_rebound: "calmer now a b \<Longrightarrow> calmer now a (rebound actor u b)"
  by (auto simp: calmer_def rebound_def active_at_def)

lemma calmer_requeued: "calmer now a b \<Longrightarrow> calmer now a (requeued keep now b)"
  by (simp add: calmer_def requeued_def active_at_def)

lemma calmer_claimed: "active_at a now \<Longrightarrow> calmer now a (claimed_lease_of now a)"
  by (simp add: calmer_def claimed_lease_of_def)

subsection \<open>The service's operations as runs\<close>

lemma tx_advance_run: "tx_advance tx now db = Inr db' \<Longrightarrow> table_run now db db'"
  unfolding tx_advance_def bind_result_eq_Inr
  by (auto dest!: ts_advance)

lemma owned_Inr:
  assumes "owned tx actor i db = Inr a"
  shows "a \<in> set (rs_admissions db)" and "ad_operation a = i"
    and "tx_authenticate tx actor db = Inr (ad_authority a)"
  using assms by (auto simp: owned_def bind_result_eq_Inr found_Inr dest: find_admission_Some split: if_splits)

lemma save_and_advance_run:
  assumes "save_and_advance tx b db = Inr (s, db')" and "a \<in> set (rs_admissions db)" and "calmer (tx_now tx) a b"
  shows "table_run (tx_now tx) db db'"
proof -
  from assms(1) obtain db1 where "save_admission b db = Inr db1" "tx_advance tx (tx_now tx) db1 = Inr db'"
    by (auto simp: save_and_advance_def bind_result_eq_Inr)
  with ts_save [OF assms(2,3)] tx_advance_run show ?thesis
    by (meson converse_rtranclp_into_rtranclp)
qed

lemma require_active_Inr:
  assumes "require_active a f now = Inr u"
  shows "active_at a now" and "admission_fence a = Inr (Some f)"
  using assms by (auto simp: require_active_def bind_result_eq_Inr)

lemma enqueue_admission_run:
  assumes "enqueue_admission tx actor waits u q a db = Inr (s, db')"
    and "\<And>db1. save_admission (refreshed_waiting actor (tx_now tx) a) db = Inr db1 \<Longrightarrow>
      table_step (tx_now tx) db db1"
  shows "table_run (tx_now tx) db db'"
proof -
  from assms(1) obtain db1 where db1: "save_admission (refreshed_waiting actor (tx_now tx) a) db = Inr db1"
    and rest: "tx_advance tx (tx_now tx) db1 = Inr db'"
    by (auto simp: enqueue_admission_def Let_def bind_result_eq_Inr split: if_splits)
  from converse_rtranclp_into_rtranclp [OF assms(2) [OF db1] tx_advance_run [OF rest]] show ?thesis .
qed

lemma acquire_any_run:
  assumes "acquire_any tx actor q db = Inr (s, db')"
  shows "table_run (tx_now tx) db db'"
proof -
  let ?now = "tx_now tx"
  from assms obtain u digest where
    body: "(case find_admission (rq_operation q) db of
       None \<Rightarrow> enqueue_admission tx actor True u q (requeued False ?now (new_admission u q digest ?now)) db
     | Some a0 \<Rightarrow>
         if ad_sha256 a0 \<noteq> digest then Inl (ResourceAdmissionError ''resource_operation_conflict'')
         else let a1 = expire ?now a0 in
           if ad_state a1 = Released then bind_result (status_of a1 ?now db) (\<lambda>s. Inr (s, db))
           else let a2 = rebound actor u a1; waits = (ad_state a2 = Expired)
             in enqueue_admission tx actor waits u q
                  (if waits then requeued (keeps_age actor ?now a1) ?now a2 else a2) db) = Inr (s, db')"
    by (auto simp: acquire_any_def Let_def bind_result_eq_Inr)
  show ?thesis
  proof (cases "find_admission (rq_operation q) db")
    case None
    let ?a = "refreshed_waiting actor ?now (requeued False ?now (new_admission u q digest ?now))"
    have new: "ad_operation ?a = rq_operation q" "ad_state ?a = Waiting" "ad_generation ?a = 0"
      by (simp_all add: refreshed_waiting_def requeued_def new_admission_def)
    with None ts_insert [of ?a db] have
      "save_admission ?a db = Inr db1 \<Longrightarrow> table_step ?now db db1" for db1 by simp
    with None body show ?thesis by (auto intro: enqueue_admission_run)
  next
    case (Some a0)
    from find_admission_Some [OF this] have a0: "a0 \<in> set (rs_admissions db)" by simp
    show ?thesis
    proof (cases "ad_state (expire ?now a0) = Released")
      case True
      with body Some show ?thesis by (auto simp: Let_def bind_result_eq_Inr split: if_splits)
    next
      case False
      let ?a2 = "rebound actor u (expire ?now a0)"
      have "calmer ?now a0 (refreshed_waiting actor ?now
          (if w then requeued (keeps_age actor ?now (expire ?now a0)) ?now ?a2 else ?a2))" for w
        by (simp add: calmer_refreshed calmer_requeued calmer_rebound)
      note step = ts_save [OF a0 this]
      from body Some False have "\<exists>w. enqueue_admission tx actor w u q
          (if w then requeued (keeps_age actor ?now (expire ?now a0)) ?now ?a2 else ?a2) db = Inr (s, db')"
        by (auto simp: Let_def split: if_splits)
      then show ?thesis using enqueue_admission_run step by blast
    qed
  qed
qed

lemma poll_run:
  assumes "poll tx actor i db = Inr (s, db')"
  shows "table_run (tx_now tx) db db'"
proof -
  from assms obtain a db1 where a: "owned tx actor i db = Inr a"
    and db1: "save_admission (refreshed_waiting actor (tx_now tx) (expire (tx_now tx) a)) db = Inr db1"
    and rest: "tx_advance tx (tx_now tx) db1 = Inr db'"
    by (auto simp: poll_def Let_def bind_result_eq_Inr)
  from ts_save [OF owned_Inr(1) [OF a] calmer_refreshed [OF calmer_expire] db1] tx_advance_run [OF rest]
  show ?thesis by (rule converse_rtranclp_into_rtranclp)
qed

lemma renew_run: "renew tx actor f db = Inr (s, db') \<Longrightarrow> table_run (tx_now tx) db db'"
  by (auto simp: renew_def Let_def bind_result_eq_Inr
      intro: save_and_advance_run owned_Inr(1) calmer_claimed require_active_Inr(1))

lemma release_run: "release tx actor f db = Inr (s, db') \<Longrightarrow> table_run (tx_now tx) db db'"
  by (auto simp: release_def bind_result_eq_Inr split: if_splits
      intro: save_and_advance_run owned_Inr(1) calmer_released)

lemma cancel_waiting_run:
  "cancel_waiting tx actor i digest db = Inr (s, db') \<Longrightarrow> table_run (tx_now tx) db db'"
  by (auto simp: cancel_waiting_def bind_result_eq_Inr split: if_splits
      intro: save_and_advance_run owned_Inr(1) calmer_released)

lemma attach_run:
  assumes "attach tx actor f expected current nxt db = Inr (s, db')"
  shows "table_run (tx_now tx) db db'"
proof -
  from assms obtain a where a: "owned tx actor (af_operation f) db = Inr a"
    and "db' = db \<or> save_admission (attached_admission current nxt (tx_now tx) a) db = Inr db'"
    by (auto simp: attach_def Let_def bind_result_eq_Inr split: if_splits)
  then show ?thesis
    using ts_save [OF owned_Inr(1) [OF a] calmer_attached] by auto
qed

lemma open_permits_save:
  assumes "save_admission b db = Inr db1"
  shows "open_permits i now db1 = open_permits i now db"
  using save_admission_frame(1,2) [OF assms] by (simp add: open_permits_def unclosed_execution_def)

lemma permits_length: "permits i now db = Inr ps \<Longrightarrow> length ps = length (open_permits i now db)"
proof -
  have "map_result permit_of xs = Inr ps \<Longrightarrow> length ps = length xs" for xs ps
    by (induction xs arbitrary: ps) (auto simp: bind_result_eq_Inr)
  then show "permits i now db = Inr ps \<Longrightarrow> length ps = length (open_permits i now db)"
    by (simp add: permits_def)
qed

lemma open_io_run:
  assumes "open_io tx actor f target ty db = Inr (q, db')"
  shows "table_run (tx_now tx) db db'"
proof -
  let ?now = "tx_now tx"
  from assms obtain a actual ps db1 where a: "owned tx actor (af_operation f) db = Inr a"
    and active: "active_at a ?now" and ps: "permits (af_operation f) ?now db = Inr ps"
    and bound: "length ps < permit_bound (ad_kind a)"
    and db1: "save_admission (claimed_lease_of ?now a) db = Inr db1"
    and opened: "open_permit (rd_fresh (tx_readings tx) 0) (claimed_lease_of ?now a) actual ?now db1 = Inr (q, db')"
    by (auto simp: open_io_def Let_def bind_result_eq_Inr not_le split: if_splits dest: require_active_Inr(1))
  let ?b = "claimed_lease_of ?now a"
  note first = ts_save [OF owned_Inr(1) [OF a] calmer_claimed [OF active] db1]
  have b: "?b \<in> set (rs_admissions db1)"
    using save_admission_frame(8) [OF db1] by (simp add: in_put_admission)
  have "active_at ?b ?now"
    using active by (auto simp: active_at_def claimed_lease_of_def after_def lease_ttl_def split: option.splits)
  moreover from opened obtain p where p: "insert_permit p db1 = Inr db'" "permit_for ?b p"
    "pm_expires_at p = ?now + io_permit_ttl"
    by (rule open_permit_Inr) (simp add: permit_for_def)
  moreover have "length (open_permits (ad_operation ?b) ?now db1) < permit_bound (ad_kind ?b)"
    using bound permits_length [OF ps] owned_Inr(2) [OF a]
    by (simp add: open_permits_save [OF db1] claimed_lease_of_def)
  ultimately have "table_step ?now db1 db'" by (intro ts_open [OF b])
  with first show ?thesis by (meson converse_rtranclp_into_rtranclp r_into_rtranclp)
qed

lemma renew_io_run: "renew_io tx actor p ty target db = Inr (q, db') \<Longrightarrow> table_run (tx_now tx) db db'"
  by (auto simp: renew_io_def Let_def bind_result_eq_Inr intro!: r_into_rtranclp ts_renew)

lemma close_io_run: "close_io tx p db = Inr db' \<Longrightarrow> table_run (tx_locked_at tx) db db'"
  unfolding close_io_def bind_result_eq_Inr
  by (meson converse_rtranclp_into_rtranclp ts_close tx_advance_run)

lemma execution_authority_now: "execution_authority tx actor t db = Inr now \<Longrightarrow> now = tx_now tx"
  by (auto simp: execution_authority_def Let_def bind_result_eq_Inr split: if_splits)

lemma prepare_execution_run:
  "prepare_execution tx actor t db = Inr (s, db') \<Longrightarrow> table_run (tx_now tx) db db'"
  by (auto simp: prepare_execution_def bind_result_eq_Inr dest!: execution_authority_now
      intro!: r_into_rtranclp ts_prepare)

lemma start_execution_run:
  "start_execution tx actor t child db = Inr (s, db') \<Longrightarrow> table_run (tx_now tx) db db'"
  by (auto simp: start_execution_def bind_result_eq_Inr dest!: execution_authority_now
      intro!: r_into_rtranclp ts_started)

lemma renew_execution_io_run:
  assumes "renew_execution_io tx actor t db = Inr (p, db')"
  shows "table_run (tx_now tx) db db'"
proof -
  from assms obtain db1 s where "renew_permit (et_permit t) (tx_now tx) db = Inr (p, db1)"
    "execution_heartbeat t (tx_now tx) db1 = Inr (s, db')"
    by (auto simp: renew_execution_io_def bind_result_eq_Inr split: if_splits dest!: execution_authority_now)
  with ts_renew ts_heartbeat show ?thesis by (meson converse_rtranclp_into_rtranclp r_into_rtranclp)
qed

subsection \<open>The sweep\<close>

lemma check_intents_run: "check_intents vg rd now ids db = Inr (n, db') \<Longrightarrow> table_run now db db'"
proof (induction ids arbitrary: rd n db)
  case (Cons i ids)
  show ?case
  proof (cases "find_admission i db")
    case None
    with Cons show ?thesis by simp
  next
    case (Some a)
    with Cons.prems obtain b db1 m rd' where b: "b = touched_admission now a \<or> b = expired_admission now a"
      and db1: "save_admission b db = Inr db1" and rest: "check_intents vg rd' now ids db1 = Inr (m, db')"
      by (auto simp: Let_def bind_result_eq_Inr split: if_splits; blast)
    from b have "calmer now a b" by auto
    from ts_save [OF conjunct1 [OF find_admission_Some [OF Some]] this db1] Cons.IH [OF rest]
    show ?thesis by (rule converse_rtranclp_into_rtranclp)
  qed
qed simp

lemma expire_each_run: "expire_each now ids db = Inr db' \<Longrightarrow> table_run now db db'"
proof (induction ids arbitrary: db)
  case (Cons i ids)
  show ?case
  proof (cases "find_admission i db")
    case None
    with Cons show ?thesis by simp
  next
    case (Some a)
    with Cons.prems obtain db1 where db1: "save_admission (expire now a) db = Inr db1"
      and rest: "expire_each now ids db1 = Inr db'" by (auto simp: bind_result_eq_Inr)
    from ts_save [OF conjunct1 [OF find_admission_Some [OF Some]] calmer_expire db1] Cons.IH [OF rest]
    show ?thesis by (rule converse_rtranclp_into_rtranclp)
  qed
qed simp

lemma drop_expired_permits_run:
  assumes inv: "resource_inv db" and run: "drop_expired_permits now maximum db = Inr db'"
  shows "table_run now db db'"
proof -
  let ?ids = "expired_permits now maximum db"
  let ?db1 = "db\<lparr>rs_executions := delete_rows (\<lambda>e. xe_closed_at e \<noteq> None \<and> xe_permit e \<in> set ?ids)
      (rs_executions db)\<rparr>"
  have "pm_expires_at p \<le> now" if "p \<in> set (rs_permits ?db1)" "pm_id p \<in> set ?ids" for p
  proof -
    from first_ids_in [OF that(2) [unfolded expired_permits_def]] obtain q where
      "q \<in> set (rs_permits db)" "pm_expires_at q \<le> now" "pm_id q = pm_id p" by blast
    with permit_unique [OF inv] that(1) show ?thesis by auto
  qed
  then have "table_step now ?db1 db'"
    using ts_drop_permits [OF _ run [unfolded drop_expired_permits_def Let_def], of now] by blast
  moreover have "table_step now db ?db1" by (rule ts_drop_executions) simp
  ultimately show ?thesis by simp
qed

lemma forget_admissions_step:
  assumes inv: "resource_inv db"
  shows "table_step now db (forget_admissions (removable_admissions now maximum db) db)"
  unfolding forget_admissions_def
proof (rule ts_forget)
  fix a assume a: "a \<in> set (rs_admissions db)" "ad_operation a \<in> set (removable_admissions now maximum db)"
  from first_ids_in [OF a(2) [unfolded removable_admissions_def]] obtain b where
    "b \<in> set (rs_admissions db)" "removable now (rs_permits db) b" "ad_operation b = ad_operation a" by blast
  with admission_unique [OF inv _ a(1)] have "removable now (rs_permits db) a" by blast
  then show "ad_state a \<in> {Released, Expired} \<and> \<not> list_ex (\<lambda>p. pm_operation p = ad_operation a) (rs_permits db)"
    by (simp add: removable_def)
qed

lemma forget_receipts_step: "table_step now db (forget_receipts ids db)"
  by (rule ts_other) (simp add: forget_receipts_def same_frame_def same_tables_def)

lemma cleanup_run:
  assumes inv: "resource_inv db" and keeps: "\<And>d. table_run now db d \<Longrightarrow> resource_inv d"
    and run: "cleanup vg rd now maximum db = Inr (n, db')"
  shows "table_run now db db'"
proof -
  from run obtain m db1 db2 db3 ids where
    intents: "check_intents vg rd now (waiting_workers maximum db) db = Inr (m, db1)"
    and db2: "drop_expired_permits now maximum db1 = Inr db2"
    and db3: "expire_each now (overdue_admissions now maximum db2) db2 = Inr db3"
    and db': "db' = forget_receipts ids (forget_admissions (removable_admissions now maximum db3) db3)"
    by (auto simp: cleanup_def Let_def bind_result_eq_Inr)
  have run1: "table_run now db db1" by (rule check_intents_run [OF intents])
  note run2 = rtranclp_trans [OF run1 drop_expired_permits_run [OF keeps [OF run1] db2]]
  note run3 = rtranclp_trans [OF run2 expire_each_run [OF db3]]
  show ?thesis
    unfolding db'
    by (rule rtranclp.rtrancl_into_rtrancl [OF rtranclp.rtrancl_into_rtrancl
          [OF run3 forget_admissions_step [OF keeps [OF run3]]] forget_receipts_step])
qed

subsection \<open>The invariant\<close>

lemma terminate_inv:
  assumes inv: "resource_inv db"
    and run: "terminate_resource_authority user now device family mode only db = Inr db'"
  shows "resource_inv db'"
proof -
  have db': "rs_admissions db' = update_rows (terminated user device family mode only)
      (withdrawn_admission now) (rs_admissions db)" "rs_permits db' = rs_permits db"
    "rs_executions db' = rs_executions db"
    using run by (auto simp: terminate_resource_authority_def split: if_splits)
  have checks: "admission_row_checks (withdrawn_admission now a)" if "admission_row_checks a" for a
  proof -
    have "authority_shape (withdrawn_admission now a) = authority_shape a"
      "resource_shape (withdrawn_admission now a) = resource_shape a"
      "worker_target_shape (withdrawn_admission now a) = worker_target_shape a"
      by (simp_all add: authority_shape_def resource_shape_def worker_target_shape_def
          withdrawn_admission_def Let_def split: resource_kind.splits)
    moreover have "ad_authority (withdrawn_admission now a) = ad_authority a"
      "ad_generation (withdrawn_admission now a) = ad_generation a"
      "ad_attachment_revision (withdrawn_admission now a) = ad_attachment_revision a"
      "ad_sha256 (withdrawn_admission now a) = ad_sha256 a"
      "ad_enqueued_at (withdrawn_admission now a) = ad_enqueued_at a"
      "ad_created_at (withdrawn_admission now a) = ad_created_at a"
      "ad_lease_until (withdrawn_admission now a) = ad_lease_until a"
      "ad_waiting_until (withdrawn_admission now a) = ad_waiting_until a"
      "ad_activation (withdrawn_admission now a) = ad_activation a"
      "ad_state (withdrawn_admission now a) = Expired"
      "ad_terminal_at (withdrawn_admission now a) = Some now"
      "ad_updated_at a \<le> ad_updated_at (withdrawn_admission now a)"
      by (simp_all add: withdrawn_admission_def)
    ultimately show ?thesis using that unfolding admission_row_checks_def
      by (simp only:) (auto intro: order_trans)
  qed
  have "map (\<lambda>a. ad_operation a) (rs_admissions db') = map (\<lambda>a. ad_operation a) (rs_admissions db)"
    by (auto simp: db' update_rows_def withdrawn_admission_def)
  moreover have "list_all admission_row_checks (rs_admissions db')"
    using resource_invD(1) [OF inv] checks
    by (auto simp: admissions_ok_def list_all_iff db' in_update_rows)
  moreover have "\<exists>b \<in> set (rs_admissions db'). permit_for b p"
    if "a \<in> set (rs_admissions db)" "permit_for a p" for a p
    using that unfolding db' in_update_rows
    by (intro bexI [of _ "if terminated user device family mode only a then withdrawn_admission now a else a"])
      (auto simp: permit_for_def withdrawn_admission_def in_update_rows)
  ultimately show ?thesis
    using resource_invD [OF inv] db'(2,3) unfolding resource_inv_def admissions_ok_def permits_ok_def
    by metis
qed

lemma prepare_inv:
  assumes inv: "resource_inv db" and run: "prepare t now db = Inr (s, db')"
  shows "resource_inv db'"
proof (cases "find_execution (et_execution t) db")
  case (Some e)
  with run inv show ?thesis by (auto simp: prepare_def bind_result_eq_Inr)
next
  case None
  let ?row = "prepared_row t now"
  from run None have live: "ticket_live_permit t now db = Inr ()"
    and free: "\<not> list_ex (\<lambda>e. xe_permit e = ip_id (et_permit t)) (rs_executions db)"
      "\<not> writer_busy t db" "execution_row_checks ?row"
    and "\<exists>db1. register_provider_staging ?row db = Inr db1
      \<and> db' = db1\<lparr>rs_executions := rs_executions db1 @ [?row]\<rparr>"
    by (auto simp: prepare_def bind_result_eq_Inr Let_def split: if_splits)
  then obtain db1 where staged: "register_provider_staging ?row db = Inr db1"
    and db': "db' = db1\<lparr>rs_executions := rs_executions db1 @ [?row]\<rparr>" by blast
  from staged have tables: "same_tables db db1"
    by (auto simp: register_provider_staging_def same_tables_def Let_def
        split: if_splits option.splits)
  from live obtain p where p: "p \<in> set (rs_permits db)" "same_permit (et_permit t) p"
    by (auto simp: ticket_live_permit_def find_permit_def split: option.splits dest: find_eq_Some_unique)
  have "execution_for p ?row" using p(2) by (simp add: execution_for_def same_permit_def prepared_row_def)
  moreover have ids: "\<forall>e \<in> set (rs_executions db). xe_id e \<noteq> xe_id ?row \<and> xe_permit e \<noteq> xe_permit ?row"
    using None free(1) by (auto simp: find_execution_def find_None_iff list_ex_iff prepared_row_def)
  moreover have "single_writers (rs_executions db @ [?row])"
  proof -
    have "\<not> (writes e \<and> writes ?row \<and> xe_kind e = xe_kind ?row \<and> xe_actual_target e = xe_actual_target ?row)"
      if "e \<in> set (rs_executions db)" for e
      using free(2) that by (auto simp: writer_busy_def list_ex_iff writes_def prepared_row_def)
    moreover have "single_writers (rs_executions db)"
      using resource_invD(3) [OF inv] by (simp add: executions_ok_def)
    ultimately show ?thesis unfolding single_writers_def by (intro ballI impI) (auto; metis)
  qed
  ultimately have "executions_ok (rs_permits db) (rs_executions db @ [?row])"
    using resource_invD(3) [OF inv] p(1) free(3) unfolding executions_ok_def by auto
  then show ?thesis
    using resource_invD [OF inv] tables by (intro resource_invI) (simp_all add: db' same_tables_def)
qed

text \<open>The remaining operations on an execution write its row once, or nothing.\<close>

definition execution_moved ::
  "(execution_row \<Rightarrow> execution_row \<Rightarrow> bool) \<Rightarrow> resource_db \<Rightarrow> resource_db \<Rightarrow> bool" where
  "execution_moved R db db' \<longleftrightarrow>
     same_frame db db'
     \<or> (\<exists>e e' db1. e \<in> set (rs_executions db) \<and> R e e' \<and> same_frame db db1 \<and> set_execution e' db1 = Inr db')"

lemma same_frame_refl [simp]: "same_frame db db"
  by (simp add: same_frame_def same_tables_def)

lemma execution_movedI:
  "e \<in> set (rs_executions db) \<Longrightarrow> R e e' \<Longrightarrow> set_execution e' db = Inr db' \<Longrightarrow> execution_moved R db db'"
  unfolding execution_moved_def using same_frame_refl by blast

lemma execution_moved_refl [simp]: "execution_moved R db db"
  by (simp add: execution_moved_def)

lemma status_row_state: "status_row e t = Inr s \<Longrightarrow> es_state s = xe_state e"
  by (auto simp: status_row_def bind_result_eq_Inr)

lemma started_moved:
  assumes "started t child now db = Inr (s, db')"
  shows "execution_moved (\<lambda>e e'. xe_state e = ExPrepared \<and> e' = started_row child now e) db db'"
proof -
  from assms obtain e s0 where e: "ticket_row t db = Inr e" "status_row e t = Inr s0"
    and "db' = db \<or> es_state s0 = ExPrepared \<and> set_execution (started_row child now e) db = Inr db'"
    by (auto simp: started_def bind_result_eq_Inr split: if_splits)
  with ticket_row_Inr(1) [OF e(1)] status_row_state [OF e(2)] show ?thesis
    by (auto intro: execution_movedI)
qed

lemma heartbeat_moved:
  assumes "execution_heartbeat t now db = Inr (s, db')"
  shows "execution_moved (\<lambda>e e'. xe_state e \<in> {ExPrepared, ExRunning} \<and> e' = e\<lparr>xe_heartbeat_at := now\<rparr>) db db'"
proof -
  from assms obtain e where "ticket_row t db = Inr e" "xe_state e \<in> {ExPrepared, ExRunning}"
    "set_execution (e\<lparr>xe_heartbeat_at := now\<rparr>) db = Inr db'"
    by (auto simp: execution_heartbeat_def bind_result_eq_Inr Let_def split: if_splits)
  with ticket_row_Inr(1) show ?thesis by (auto intro: execution_movedI)
qed

lemma stop_moved:
  assumes "stop t now db = Inr (s, db')"
  shows "execution_moved (\<lambda>e e'. xe_state e \<noteq> ExClosed \<and> e' = stopped_row now e) db db'"
proof -
  from assms obtain e where "ticket_row t db = Inr e"
    and "db' = db \<or> xe_state e \<noteq> ExClosed \<and> set_execution (stopped_row now e) db = Inr db'"
    by (auto simp: stop_def bind_result_eq_Inr split: if_splits)
  with ticket_row_Inr(1) show ?thesis by (auto intro: execution_movedI)
qed

lemma exit_moved:
  assumes "confirm_exit t v now db = Inr (s, db')"
  shows "execution_moved (\<lambda>e e'. xe_state e \<noteq> ExClosed \<and> row_child e = Inr (ev_child v)
      \<and> (ev_kind v = NotStarted \<longrightarrow> xe_state e \<in> {ExPrepared, ExStopping}) \<and> e' = closed_row v now e) db db'"
proof -
  have preserved: "same_frame db db1" if "preserve_provider_exit e now db = Inr db1" for e db1
    using that by (auto simp: preserve_provider_exit_def same_frame_def same_tables_def
        split: if_splits option.splits)
  show ?thesis
  proof (cases "absent t db")
    case True
    with assms show ?thesis by (simp add: confirm_exit_def)
  next
    case False
    with assms obtain e s0 where e: "ticket_row t db = Inr e" "status_row e t = Inr s0" "ev_child v = es_child s0"
      and effect: "db' = db \<or> xe_state e \<noteq> ExClosed \<and> (ev_kind v = NotStarted \<longrightarrow> xe_state e \<in> {ExPrepared, ExStopping})
        \<and> (\<exists>db1. preserve_provider_exit (closed_row v now e) now db = Inr db1
             \<and> set_execution (closed_row v now e) db1 = Inr db')"
      by (auto simp: confirm_exit_def bind_result_eq_Inr split: if_splits)
    have "row_child e = Inr (ev_child v)"
      using e(2,3) by (auto simp: status_row_def bind_result_eq_Inr)
    with effect ticket_row_Inr(1) [OF e(1)] preserved show ?thesis
      unfolding execution_moved_def by (metis same_frame_refl)
  qed
qed

lemma execution_moved_inv:
  assumes inv: "resource_inv db" and moved: "execution_moved R db db'"
    and progress: "\<And>e e'. R e e' \<Longrightarrow> progresses e e'"
  shows "resource_inv db'"
  using moved unfolding execution_moved_def
proof (elim disjE exE conjE)
  assume "same_frame db db'"
  then have "same_tables db db'" by (simp add: same_frame_def)
  from same_tables_inv [OF this] inv show ?thesis by simp
next
  fix e e' db1
  assume e: "e \<in> set (rs_executions db)" "R e e'" "same_frame db db1" "set_execution e' db1 = Inr db'"
  then have "same_tables db db1" by (simp add: same_frame_def)
  then have "resource_inv db1" "e \<in> set (rs_executions db1)"
    using inv e(1) same_tables_inv [of db db1] by (simp_all add: same_tables_def)
  from set_execution_inv [OF this(1) e(4) this(2) progress [OF e(2)]] show ?thesis .
qed

lemma table_step_inv:
  assumes inv: "resource_inv db" and step: "table_step now db db'"
  shows "resource_inv db'"
  using step
proof cases
  case (ts_forget P)
  then show ?thesis by (auto intro!: delete_admissions_inv [OF inv] simp: list_ex_iff)
next
  case ts_other
  then have "same_tables db db'" by (simp add: same_frame_def)
  from same_tables_inv [OF this] inv show ?thesis by simp
next
  case (ts_started t child s)
  show ?thesis by (rule execution_moved_inv [OF inv started_moved [OF ts_started]]) auto
next
  case (ts_heartbeat t s)
  show ?thesis by (rule execution_moved_inv [OF inv heartbeat_moved [OF ts_heartbeat]]) auto
next
  case (ts_stop t s)
  show ?thesis by (rule execution_moved_inv [OF inv stop_moved [OF ts_stop]]) auto
next
  case (ts_exit v t s)
  show ?thesis by (rule execution_moved_inv [OF inv exit_moved [OF ts_exit(2)]]) auto
next
  case (ts_prepare t s)
  show ?thesis by (rule prepare_inv [OF inv ts_prepare])
next
  case (ts_terminate user device family mode only)
  show ?thesis by (rule terminate_inv [OF inv ts_terminate])
next
  case (ts_orphan n m)
  show ?thesis by (rule orphan_stale_inv [OF inv ts_orphan])
qed (auto intro: save_admission_inv [OF inv] advance_inv [OF inv] insert_permit_inv [OF inv]
      renew_permit_inv [OF inv] close_permit_inv [OF inv] delete_executions_inv [OF inv]
      drop_permits_inv [OF inv])

subsection \<open>The system\<close>

interpretation tables: component "table_step now" resource_inv for now
  by unfold_locales (rule table_step_inv)

lemma advance_step: "advance vg rd now n db = Inr (m, db') \<Longrightarrow> table_run now db db'"
  by (rule step_run) (rule ts_advance)

lemma sweep_run:
  assumes inv: "resource_inv db" and run: "sweep tx maximum db = Inr (n, db')"
  shows "table_run (tx_locked_at tx) db db'"
proof -
  let ?now = "tx_locked_at tx"
  obtain o1 db1 where db1: "orphan_stale ?now (nat maximum) db = (o1, db1)" by force
  with run obtain c db2 m where
    db2: "cleanup (tx_vault tx) (tx_readings tx) ?now (nat maximum) db1 = Inr (c, db2)" and
    db': "advance (tx_vault tx) (later_readings (nat maximum) (tx_readings tx)) ?now (nat maximum) db2
      = Inr (m, db')"
    by (auto simp: sweep_def Let_def bind_result_eq_Inr split: if_splits)
  from db1 have first: "table_step ?now db db1" by (rule ts_orphan)
  with inv have "resource_inv db1" by (rule table_step_inv)
  with tables.run_inv db2 have "table_run ?now db1 db2" by (blast intro: cleanup_run)
  with first advance_step [OF db'] show ?thesis by (meson converse_rtranclp_into_rtranclp rtranclp_trans)
qed

text \<open>
  What is committed at one time: an operation of the service, a withdrawal by the account and session
  writers, or a write of the surroundings, which own the other tables but not the limits.
\<close>

inductive served :: "instant \<Rightarrow> resource_db \<Rightarrow> resource_db \<Rightarrow> bool" where
  sv_acquire: "acquire tx actor q db = Inr (s, db') \<Longrightarrow> served (tx_now tx) db db'"
| sv_acquire_worker: "acquire_worker tx c db = Inr (s, db') \<Longrightarrow> served (tx_now tx) db db'"
| sv_acquire_bridge: "acquire_bridge tx b q db = Inr (s, db') \<Longrightarrow> served (tx_now tx) db db'"
| sv_poll: "poll tx actor i db = Inr (s, db') \<Longrightarrow> served (tx_now tx) db db'"
| sv_renew: "renew tx actor f db = Inr (s, db') \<Longrightarrow> served (tx_now tx) db db'"
| sv_release: "release tx actor f db = Inr (s, db') \<Longrightarrow> served (tx_now tx) db db'"
| sv_cancel: "cancel_waiting tx actor i digest db = Inr (s, db') \<Longrightarrow> served (tx_now tx) db db'"
| sv_attach: "attach tx actor f expected current nxt db = Inr (s, db') \<Longrightarrow> served (tx_now tx) db db'"
| sv_open_io: "open_io tx actor f target ty db = Inr (q, db') \<Longrightarrow> served (tx_now tx) db db'"
| sv_renew_io: "renew_io tx actor p ty t db = Inr (q, db') \<Longrightarrow> served (tx_now tx) db db'"
| sv_close_io: "close_io tx p db = Inr db' \<Longrightarrow> served (tx_locked_at tx) db db'"
| sv_prepare: "prepare_execution tx actor t db = Inr (s, db') \<Longrightarrow> served (tx_now tx) db db'"
| sv_start: "start_execution tx actor t child db = Inr (s, db') \<Longrightarrow> served (tx_now tx) db db'"
| sv_renew_execution: "renew_execution_io tx actor t db = Inr (p, db') \<Longrightarrow> served (tx_now tx) db db'"
| sv_heartbeat: "heartbeat_execution tx t db = Inr (s, db') \<Longrightarrow> served (tx_locked_at tx) db db'"
| sv_stop: "stop_execution tx t db = Inr (s, db') \<Longrightarrow> served (tx_locked_at tx) db db'"
| sv_exit: "check_exit_evidence v = Inr v \<Longrightarrow> confirm_execution_exit tx t v db = Inr (s, db') \<Longrightarrow>
    served (tx_locked_at tx) db db'"
| sv_sweep: "sweep tx maximum db = Inr (n, db') \<Longrightarrow> served (tx_locked_at tx) db db'"
| sv_terminate: "terminate_resource_authority user now device family mode only db = Inr db' \<Longrightarrow>
    served now db db'"
| sv_retire: "terminate_retired_session r now db = Inr db' \<Longrightarrow> served now db db'"
| sv_surroundings: "same_frame db db' \<Longrightarrow> served now db db'"

inductive_cases served_cases: "served now db db'"

lemma acquire_run: "acquire tx actor q db = Inr (s, db') \<Longrightarrow> table_run (tx_now tx) db db'"
  by (auto simp: acquire_def split: if_splits intro: acquire_any_run)

lemma acquire_worker_run: "acquire_worker tx c db = Inr (s, db') \<Longrightarrow> table_run (tx_now tx) db db'"
  by (auto simp: acquire_worker_def bind_result_eq_Inr intro: acquire_any_run)

lemma acquire_bridge_run: "acquire_bridge tx b q db = Inr (s, db') \<Longrightarrow> table_run (tx_now tx) db db'"
  by (auto simp: acquire_bridge_def split: if_splits intro: acquire_any_run)

lemma retire_run: "terminate_retired_session r now db = Inr db' \<Longrightarrow> table_run now db db'"
  by (auto simp: terminate_retired_session_def split: if_splits intro: ts_terminate)

lemmas service_runs = acquire_run acquire_worker_run acquire_bridge_run poll_run renew_run release_run
  cancel_waiting_run attach_run open_io_run renew_io_run close_io_run prepare_execution_run
  start_execution_run renew_execution_io_run retire_run

lemma served_run:
  assumes "resource_inv db" and "served now db db'"
  shows "table_run now db db'"
  using assms(2)
proof cases
  case (sv_sweep tx maximum n)
  with sweep_run [OF assms(1)] show ?thesis by simp
next
  case (sv_heartbeat tx t s)
  then show ?thesis by (auto simp: heartbeat_execution_def intro: step_run ts_heartbeat)
next
  case (sv_stop tx t s)
  then show ?thesis by (auto simp: stop_execution_def intro: step_run ts_stop)
next
  case (sv_exit v tx t s)
  then show ?thesis by (auto simp: confirm_execution_exit_def intro: step_run ts_exit)
next
  case (sv_terminate user device family mode only)
  then show ?thesis by (auto intro: step_run ts_terminate)
next
  case sv_surroundings
  then show ?thesis by (auto intro: step_run ts_other)
qed (auto elim: service_runs)

lemma served_inv: "resource_inv db \<Longrightarrow> served now db db' \<Longrightarrow> resource_inv db'"
  using served_run tables.run_inv by blast

text \<open>
  A history of the tables: each commit happens at its own time, under the advisory lock and by the
  server's clock, which does not go back.
\<close>

fun resource_step :: "instant \<times> resource_db \<Rightarrow> instant \<times> resource_db \<Rightarrow> bool" where
  "resource_step (t, db) (t', db') \<longleftrightarrow> t \<le> t' \<and> served t' db db'"

abbreviation resource_run :: "instant \<times> resource_db \<Rightarrow> instant \<times> resource_db \<Rightarrow> bool" where
  "resource_run \<equiv> resource_step\<^sup>*\<^sup>*"

interpretation admission: monotone_component resource_step "\<lambda>s. resource_inv (snd s)" "\<lambda>s s'. fst s \<le> fst s'"
proof
  fix s t :: "instant \<times> resource_db"
  assume "resource_inv (snd s)" "resource_step s t"
  then show "resource_inv (snd t)" by (cases s; cases t) (auto intro: served_inv)
next
  fix s t :: "instant \<times> resource_db"
  assume "resource_step s t"
  then show "fst s \<le> fst t" by (cases s; cases t) simp
qed auto

lemma resource_run_inv: "resource_run (t, db) (t', db') \<Longrightarrow> resource_inv db \<Longrightarrow> resource_inv db'"
  using admission.run_inv by fastforce

end
