(* ===== verification/Resource_Capacity.thy ===== *)
theory Resource_Capacity
  imports Resource_System
begin

text \<open>
  Occupied capacity. \<open>held\<close> is the set of operations a limit counts; every step of the tables other
  than a grant can only shrink it, time can only shrink it, and a grant adds one operation while the
  count is below the limit.
\<close>

definition held :: "(resource_admission \<Rightarrow> bool) \<Rightarrow> instant \<Rightarrow> resource_db \<Rightarrow> uuid set" where
  "held Q now db = {ad_operation a |a. a \<in> set (rs_admissions db) \<and> Q a \<and> charged now db a}"

definition of_kind :: "resource_kind \<Rightarrow> resource_admission \<Rightarrow> bool" where
  "of_kind k a \<longleftrightarrow> ad_kind a = k"

definition of_account :: "resource_kind \<Rightarrow> uuid \<Rightarrow> resource_admission \<Rightarrow> bool" where
  "of_account k user a \<longleftrightarrow> ad_kind a = k \<and> ad_user a = user"

definition of_device :: "resource_kind \<Rightarrow> uuid \<Rightarrow> resource_admission \<Rightarrow> bool" where
  "of_device k device a \<longleftrightarrow> ad_kind a = k \<and> ad_device a = Some device"

lemma finite_held [simp, intro]: "finite (held Q now db)"
  by (simp add: held_def)

lemma count_held:
  assumes "resource_inv db"
  shows "count_rows (\<lambda>a. Q a \<and> charged now db a) (rs_admissions db) = card (held Q now db)"
proof -
  let ?rows = "filter (\<lambda>a. Q a \<and> charged now db a) (rs_admissions db)"
  have "distinct (map (\<lambda>a. ad_operation a) ?rows)"
    using resource_invD(1) [OF assms] by (auto simp: admissions_ok_def intro: distinct_map_filter)
  then have "length ?rows = card (set (map (\<lambda>a. ad_operation a) ?rows))"
    by (metis distinct_card length_map)
  also have "set (map (\<lambda>a. ad_operation a) ?rows) = held Q now db" by (auto simp: held_def)
  finally show ?thesis by (simp add: count_rows_def)
qed

lemma used_held:
  assumes "resource_inv db"
  shows "server_used now k db = card (held (of_kind k) now db)"
    and "account_used now k user db = card (held (of_account k user) now db)"
    and "device_used now k device db = card (held (of_device k device) now db)"
  unfolding count_held [OF assms, symmetric] server_used_def account_used_def device_used_def
    of_kind_def of_account_def of_device_def
  by (auto intro: count_rows_cong)

lemma draining_iff:
  "draining now i db \<longleftrightarrow>
     (\<exists>p \<in> set (rs_permits db). pm_operation p = i \<and> now < pm_expires_at p)
     \<or> (\<exists>e \<in> set (rs_executions db). xe_operation e = i \<and> xe_closed_at e = None)"
  by (auto simp: draining_def live_permit_def unclosed_for_def list_ex_iff)

lemma permit_drains: "p \<in> set (rs_permits db) \<Longrightarrow> now < pm_expires_at p \<Longrightarrow> draining now (pm_operation p) db"
  by (auto simp: draining_iff)

lemma execution_drains:
  "e \<in> set (rs_executions db) \<Longrightarrow> xe_closed_at e = None \<Longrightarrow> draining now (xe_operation e) db"
  by (auto simp: draining_iff)

lemma draining_shrinks:
  assumes "\<And>p. p \<in> set (rs_permits db') \<Longrightarrow> now < pm_expires_at p \<Longrightarrow> draining now (pm_operation p) db"
    and "\<And>e. e \<in> set (rs_executions db') \<Longrightarrow> xe_closed_at e = None \<Longrightarrow> draining now (xe_operation e) db"
  shows "draining now i db' \<Longrightarrow> draining now i db"
  using assms by (auto simp: draining_iff [of now i db'])

lemma after_antimono: "after t now' \<Longrightarrow> now \<le> now' \<Longrightarrow> after t now"
  by (auto simp: after_def split: option.splits)

lemma active_antimono: "active_at a now' \<Longrightarrow> now \<le> now' \<Longrightarrow> active_at a now"
  by (auto simp: active_at_def intro: after_antimono)

lemma draining_antimono: "draining now' i db \<Longrightarrow> now \<le> now' \<Longrightarrow> draining now i db"
  by (auto simp: draining_iff)

lemma held_antimono: "now \<le> now' \<Longrightarrow> held Q now' db \<subseteq> held Q now db"
  by (auto simp: held_def charged_def intro: active_antimono draining_antimono)

text \<open>How the set shrinks: every admission that counts afterwards counted before.\<close>

lemma held_shrinks:
  assumes "\<And>a. a \<in> set (rs_admissions db') \<Longrightarrow> Q a \<Longrightarrow> charged now db' a \<Longrightarrow>
      \<exists>b \<in> set (rs_admissions db). Q b \<and> charged now db b \<and> ad_operation b = ad_operation a"
  shows "held Q now db' \<subseteq> held Q now db"
  using assms unfolding held_def by (smt (verit, ccfv_threshold) mem_Collect_eq subsetI)

lemma held_shrinks_frame:
  assumes "rs_admissions db' = rs_admissions db" and "\<And>i. draining now i db' \<Longrightarrow> draining now i db"
  shows "held Q now db' \<subseteq> held Q now db"
  using assms by (intro held_shrinks) (auto simp: charged_def)

lemma charged_cong: "rs_permits db' = rs_permits db \<Longrightarrow> rs_executions db' = rs_executions db \<Longrightarrow>
    charged now db' a \<longleftrightarrow> charged now db a"
  by (simp add: charged_def draining_def)

lemma held_save_calmer:
  assumes a: "a \<in> set (rs_admissions db)" "calmer now a a'" and saved: "save_admission a' db = Inr db'"
    and Q: "Q a' \<Longrightarrow> Q a"
  shows "held Q now db' \<subseteq> held Q now db"
proof (rule held_shrinks)
  fix b assume b: "b \<in> set (rs_admissions db')" "Q b" "charged now db' b"
  note frame = charged_cong [OF save_admission_frame(1,2) [OF saved]]
  from b(1) consider "b = a'" | "b \<in> set (rs_admissions db)"
    by (auto simp: save_admission_frame(8) [OF saved] in_put_admission)
  then show "\<exists>c \<in> set (rs_admissions db). Q c \<and> charged now db c \<and> ad_operation c = ad_operation b"
  proof cases
    case 1
    with b(3) [unfolded frame] a(2) have "charged now db a" by (auto simp: charged_def calmer_def)
    with 1 b(2) a Q show ?thesis by (auto simp: calmer_def)
  next
    case 2
    with b show ?thesis by (auto simp: frame)
  qed
qed

text \<open>No I/O is left of an operation the table does not hold.\<close>

lemma not_draining_new:
  assumes inv: "resource_inv db" and new: "find_admission i db = None"
  shows "\<not> draining now i db"
proof -
  have none: "ad_operation a \<noteq> i" if "a \<in> set (rs_admissions db)" for a
    using new that by (auto simp: find_admission_def find_None_iff)
  have permit: "pm_operation p \<noteq> i" if "p \<in> set (rs_permits db)" for p
    using permit_admission [OF inv that] none by (metis permit_for_def)
  moreover have "xe_operation e \<noteq> i" if "e \<in> set (rs_executions db)" for e
    using execution_permit [OF inv that] permit by (metis execution_for_def)
  ultimately show ?thesis by (auto simp: draining_iff)
qed

lemma held_insert:
  assumes inv: "resource_inv db" and new: "find_admission (ad_operation a) db = None" "ad_state a = Waiting"
    and saved: "save_admission a db = Inr db'"
  shows "held Q now db' \<subseteq> held Q now db"
proof (rule held_shrinks)
  fix b assume b: "b \<in> set (rs_admissions db')" "Q b" "charged now db' b"
  note frame = charged_cong [OF save_admission_frame(1,2) [OF saved]]
  have "b \<noteq> a"
    using b(3) [unfolded frame] not_draining_new [OF inv new(1)] new(2) by (auto simp: charged_def active_at_def)
  with b show "\<exists>c \<in> set (rs_admissions db). Q c \<and> charged now db c \<and> ad_operation c = ad_operation b"
    by (auto simp: frame save_admission_frame(8) [OF saved] in_put_admission)
qed

lemma held_execution_moved:
  assumes moved: "execution_moved R db db'" and progress: "\<And>e e'. R e e' \<Longrightarrow> progresses e e'"
  shows "held Q now db' \<subseteq> held Q now db"
proof (rule held_shrinks_frame)
  show "rs_admissions db' = rs_admissions db"
    using moved by (auto simp: execution_moved_def same_frame_def same_tables_def set_execution_Inr)
  fix i assume "draining now i db'"
  then show "draining now i db"
  proof (rule draining_shrinks [rotated 2])
    fix p assume "p \<in> set (rs_permits db')" "now < pm_expires_at p"
    with moved show "draining now (pm_operation p) db"
      by (auto simp: execution_moved_def same_frame_def same_tables_def set_execution_Inr intro: permit_drains)
  next
    fix x assume x: "x \<in> set (rs_executions db')" "xe_closed_at x = None"
    from moved x(1) consider "x \<in> set (rs_executions db)" | e where "e \<in> set (rs_executions db)" "R e x"
      by (auto simp: execution_moved_def same_frame_def same_tables_def set_execution_Inr in_update_rows
          split: if_splits)
    then show "draining now (xe_operation x) db"
    proof cases
      case 1
      with x(2) show ?thesis by (intro execution_drains)
    next
      case 2
      with progress x(2) have "xe_operation x = xe_operation e" "xe_closed_at e = None"
        by (auto simp: progresses_def execution_key_def)
      with 2(1) show ?thesis by (simp add: execution_drains)
    qed
  qed
qed

subsection \<open>Steps other than grants\<close>

lemma held_open:
  assumes a: "a \<in> set (rs_admissions db)" "active_at a now" "permit_for a p"
    and run: "insert_permit p db = Inr db'" and inv: "resource_inv db"
  shows "held Q now db' \<subseteq> held Q now db"
proof (rule held_shrinks)
  note db' = run [unfolded insert_permit_Inr]
  fix b assume b: "b \<in> set (rs_admissions db')" "Q b" "charged now db' b"
  then have in_b: "b \<in> set (rs_admissions db)" using db' by auto
  have "charged now db b"
  proof (cases "ad_operation b = ad_operation a")
    case True
    with admission_unique [OF inv in_b a(1)] a(2) show ?thesis by (simp add: charged_def)
  next
    case False
    with b(3) db' a(3) show ?thesis by (auto simp: charged_def draining_iff permit_for_def)
  qed
  with in_b b(2) show "\<exists>c \<in> set (rs_admissions db). Q c \<and> charged now db c \<and> ad_operation c = ad_operation b"
    by blast
qed

lemma held_renew:
  assumes inv: "resource_inv db" and run: "renew_permit p now db = Inr (q, db')"
  shows "held Q now db' \<subseteq> held Q now db"
proof -
  from run obtain row where row: "find_permit (ip_id p) db = Some row" "now < pm_expires_at row"
    and db': "db' = db\<lparr>rs_permits := update_rows (\<lambda>r. pm_id r = ip_id p) (renewed_permit now) (rs_permits db)\<rparr>"
    by (rule renew_permit_Inr)
  from row(1) have in_row: "row \<in> set (rs_permits db)" "pm_id row = ip_id p"
    by (auto simp: find_permit_def dest: find_eq_Some_unique)
  show ?thesis
  proof (rule held_shrinks_frame)
    fix i assume "draining now i db'"
    then consider r where "r \<in> set (rs_permits db)" "pm_operation r = i"
        "pm_id r = ip_id p \<or> now < pm_expires_at r"
      | "\<exists>e \<in> set (rs_executions db). xe_operation e = i \<and> xe_closed_at e = None"
      by (auto simp: draining_iff db' in_update_rows renewed_permit_def split: if_splits)
    then show "draining now i db"
    proof cases
      case 1
      with permit_unique [OF inv 1(1) in_row(1)] in_row(2) row(2) have "now < pm_expires_at r" by auto
      with 1 show ?thesis by (auto simp: draining_iff)
    next
      case 2
      then show ?thesis by (auto simp: draining_iff)
    qed
  qed (simp add: db')
qed

lemma drop_permits_draining:
  "drop_permits P db = Inr db' \<Longrightarrow> rs_admissions db' = rs_admissions db \<and> (draining now i db' \<longrightarrow> draining now i db)"
  by (auto simp: drop_permits_Inr draining_iff)

lemma held_drop_permits: "drop_permits P db = Inr db' \<Longrightarrow> held Q now db' \<subseteq> held Q now db"
  using drop_permits_draining by (intro held_shrinks_frame) blast+

lemma held_delete_executions:
  "held Q now (db\<lparr>rs_executions := delete_rows P (rs_executions db)\<rparr>) \<subseteq> held Q now db"
  by (rule held_shrinks_frame) (auto simp: draining_iff)

lemma held_prepare:
  assumes run: "prepare t now db = Inr (s, db')"
  shows "held Q now db' \<subseteq> held Q now db"
proof -
  from run have live: "ticket_live_permit t now db = Inr ()" by (simp add: prepare_def bind_result_eq_Inr)
  from run have "rs_admissions db' = rs_admissions db \<and> rs_permits db' = rs_permits db
      \<and> (rs_executions db' = rs_executions db \<or> rs_executions db' = rs_executions db @ [prepared_row t now])"
    by (auto simp: prepare_def bind_result_eq_Inr Let_def register_provider_staging_def
        split: if_splits option.splits)
  moreover from live obtain p where "p \<in> set (rs_permits db)" "same_permit (et_permit t) p" "now < pm_expires_at p"
    by (auto simp: ticket_live_permit_def find_permit_def split: option.splits dest: find_eq_Some_unique)
  then have "draining now (xe_operation (prepared_row t now)) db"
    by (auto simp: prepared_row_def same_permit_def dest: permit_drains)
  ultimately show ?thesis
    by (intro held_shrinks_frame)
      (auto elim!: draining_shrinks [rotated 2] intro: permit_drains execution_drains)
qed

lemma orphan_rows:
  assumes "orphan_stale now n db = (m, db')" and "x \<in> set (rs_executions db')"
  shows "\<exists>e \<in> set (rs_executions db). x = e \<or> x = orphan_row e"
proof -
  from assms(1) obtain ids where "rs_executions db' = update_rows (\<lambda>e. xe_id e \<in> ids) orphan_row (rs_executions db)"
    by (auto simp: orphan_stale_def Let_def)
  from assms(2) [unfolded this] show ?thesis by (rule in_update_rowsE) auto
qed

lemma held_orphan:
  assumes run: "orphan_stale now n db = (m, db')"
  shows "held Q now db' \<subseteq> held Q now db"
proof (rule held_shrinks_frame)
  fix i assume "draining now i db'"
  then show "draining now i db"
  proof (rule draining_shrinks [rotated 2])
    fix p assume "p \<in> set (rs_permits db')" "now < pm_expires_at p"
    with run show "draining now (pm_operation p) db"
      by (intro permit_drains) (auto simp: orphan_stale_def Let_def)
  next
    fix x assume x: "x \<in> set (rs_executions db')" "xe_closed_at x = None"
    from orphan_rows [OF run x(1)] obtain e where "e \<in> set (rs_executions db)" "x = e \<or> x = orphan_row e"
      by blast
    with x(2) execution_drains [OF this(1)] show "draining now (xe_operation x) db"
      by (auto simp: orphan_row_def)
  qed
qed (use run in \<open>auto simp: orphan_stale_def Let_def\<close>)

lemma held_terminate:
  assumes "terminate_resource_authority user now device family mode only db = Inr db'"
    and Q: "\<And>a. Q (withdrawn_admission now a) \<Longrightarrow> Q a"
  shows "held Q now db' \<subseteq> held Q now db"
proof (rule held_shrinks)
  from assms(1) have db': "db' = db\<lparr>rs_admissions := update_rows (terminated user device family mode only)
      (withdrawn_admission now) (rs_admissions db)\<rparr>"
    by (auto simp: terminate_resource_authority_def split: if_splits)
  fix b assume b: "b \<in> set (rs_admissions db')" "Q b" "charged now db' b"
  then obtain a where a: "a \<in> set (rs_admissions db)"
    "b = (if terminated user device family mode only a then withdrawn_admission now a else a)"
    unfolding db' by (auto simp: in_update_rows)
  have frame: "charged now db' x \<longleftrightarrow> charged now db x" for x by (rule charged_cong) (simp_all add: db')
  have withdrawn: "charged now db a" "ad_operation a = ad_operation b"
    if "b = withdrawn_admission now a"
    using b(3) [unfolded frame] unfolding that charged_def
    by (simp_all add: withdrawn_admission_def active_at_def)
  from a(2) b(2,3) Q withdrawn have "Q a \<and> charged now db a \<and> ad_operation a = ad_operation b"
    by (cases "terminated user device family mode only a") (simp_all add: frame)
  with a(1) show "\<exists>c \<in> set (rs_admissions db). Q c \<and> charged now db c \<and> ad_operation c = ad_operation b"
    by blast
qed

lemma of_kind_stable [simp]:
  "of_kind k (withdrawn_admission now a) \<longleftrightarrow> of_kind k a"
  "calmer now a a' \<Longrightarrow> of_kind k a' \<longleftrightarrow> of_kind k a"
  by (simp_all add: of_kind_def withdrawn_admission_def calmer_def)

lemma table_step_held:
  assumes inv: "resource_inv db" and step: "table_step now db db'"
  shows "held (of_kind k) now db' \<subseteq> held (of_kind k) now db
    \<or> (\<exists>vg rd n m. advance vg rd now n db = Inr (m, db'))"
  using step
proof cases
  case (ts_save a a')
  from held_save_calmer [OF this, of "of_kind k"] ts_save(2) show ?thesis by simp
next
  case (ts_close p)
  then obtain P Q where "drop_permits P (db\<lparr>rs_executions := delete_rows Q (rs_executions db)\<rparr>) = Inr db'"
    by (auto simp: close_permit_def split: if_splits)
  from order_trans [OF held_drop_permits [OF this] held_delete_executions] show ?thesis ..
next
  case (ts_forget P)
  have "held (of_kind k) now db' \<subseteq> held (of_kind k) now db"
    by (rule held_shrinks) (auto simp: ts_forget(1) charged_def draining_iff)
  then show ?thesis ..
next
  case (ts_started t child s)
  from held_execution_moved [OF started_moved [OF this]] show ?thesis by auto
next
  case (ts_heartbeat t s)
  from held_execution_moved [OF heartbeat_moved [OF this]] show ?thesis by auto
next
  case (ts_stop t s)
  from held_execution_moved [OF stop_moved [OF this]] show ?thesis by auto
next
  case (ts_exit v t s)
  from held_execution_moved [OF exit_moved [OF ts_exit(2)]] show ?thesis by auto
next
  case ts_other
  then show ?thesis
    by (intro disjI1 held_shrinks_frame) (auto simp: same_frame_def same_tables_def draining_iff)
next
  case (ts_insert a)
  with held_insert [OF inv] show ?thesis by blast
next
  case (ts_open a p)
  with held_open inv show ?thesis by blast
next
  case (ts_terminate user device family mode only)
  from held_terminate [OF this, of "of_kind k"] show ?thesis by simp
next
  case (ts_renew p q)
  from held_renew [OF inv this] show ?thesis ..
next
  case (ts_prepare t s)
  from held_prepare [OF this] show ?thesis ..
next
  case (ts_orphan n m)
  from held_orphan [OF this] show ?thesis ..
next
  case (ts_drop_permits P)
  from held_drop_permits [OF ts_drop_permits(2)] show ?thesis ..
next
  case (ts_drop_executions P)
  show ?thesis unfolding ts_drop_executions(1) by (rule disjI1) (rule held_delete_executions)
next
  case (ts_advance vg rd n m)
  then show ?thesis by blast
qed

subsection \<open>Grants\<close>

lemma next_eligible_Some:
  assumes "next_eligible now p k db = Some a"
  shows "a \<in> set (rs_admissions db)" and "eligible now p k db a"
    and "\<And>b. b \<in> set (rs_admissions db) \<Longrightarrow> eligible now p k db b \<Longrightarrow> fairness k db a \<le> fairness k db b"
proof -
  let ?rows = "sort_key (fairness k db) (filter (eligible now p k db) (rs_admissions db))"
  from assms obtain rest where rows: "?rows = a # rest"
    by (auto simp: next_eligible_def split: list.splits)
  then have "a \<in> set ?rows" by simp
  then show "a \<in> set (rs_admissions db)" and "eligible now p k db a" by auto
  fix b assume "b \<in> set (rs_admissions db)" "eligible now p k db b"
  then have "b \<in> set ?rows" by simp
  then have "b \<in> set (a # rest)" unfolding rows .
  moreover have "sorted (map (fairness k db) ?rows)" by (rule sorted_sort_key)
  then have "sorted (map (fairness k db) (a # rest))" unfolding rows .
  ultimately show "fairness k db a \<le> fairness k db b" by auto
qed

lemma eligible_not_charged: "eligible now p k db a \<Longrightarrow> \<not> charged now db a"
  by (auto simp: eligible_def charged_def waiting_at_def active_at_def)

lemma eligible_kind: "eligible now p k db a \<Longrightarrow> of_kind k a"
  by (auto simp: eligible_def of_kind_def)

lemma granted_active: "active_at (granted_admission now x a) now"
  by (simp add: active_at_def granted_admission_def after_def lease_ttl_def reservation_ttl_def)

lemma grant_rows:
  assumes "grant rd now p a db = Inr db'"
  shows "rs_admissions db' = put_admission (granted_admission now (rd_fresh rd 0) a) (rs_admissions db)"
    and "draining now i db' \<longleftrightarrow> draining now i db"
    and "rs_policy db' = Some (p\<lparr>qp_grant_sequence := qp_grant_sequence p + 1\<rparr>)"
    and "rs_overrides db' = rs_overrides db"
    and "rs_cursors db' = put_cursor (ad_user a) (ad_kind a) (qp_grant_sequence p + 1) (rs_cursors db)"
    and "rs_world db' = rs_world db" and "rs_jobs db' = rs_jobs db"
proof -
  from assms have rows: "rs_admissions db' = put_admission (granted_admission now (rd_fresh rd 0) a) (rs_admissions db)"
    "rs_permits db' = delete_rows (\<lambda>q. pm_operation q = ad_operation a \<and> pm_expires_at q \<le> now) (rs_permits db)"
    "rs_executions db' = delete_rows (\<lambda>e. xe_operation e = ad_operation a \<and> xe_closed_at e \<noteq> None) (rs_executions db)"
    "rs_policy db' = Some (p\<lparr>qp_grant_sequence := qp_grant_sequence p + 1\<rparr>)"
    "rs_overrides db' = rs_overrides db"
    "rs_cursors db' = put_cursor (ad_user a) (ad_kind a) (qp_grant_sequence p + 1) (rs_cursors db)"
    "rs_world db' = rs_world db" "rs_jobs db' = rs_jobs db"
    by (auto simp: grant_def Let_def bind_result_eq_Inr drop_permits_Inr save_admission_Inr)
  have "p \<in> set (rs_permits db') \<and> now < pm_expires_at p \<longleftrightarrow> p \<in> set (rs_permits db) \<and> now < pm_expires_at p"
    for p unfolding rows(2) by auto
  moreover have "e \<in> set (rs_executions db') \<and> xe_closed_at e = None
      \<longleftrightarrow> e \<in> set (rs_executions db) \<and> xe_closed_at e = None" for e
    unfolding rows(3) by auto
  ultimately show "draining now i db' \<longleftrightarrow> draining now i db"
    unfolding draining_iff by blast
  show "rs_admissions db' = put_admission (granted_admission now (rd_fresh rd 0) a) (rs_admissions db)"
    "rs_policy db' = Some (p\<lparr>qp_grant_sequence := qp_grant_sequence p + 1\<rparr>)"
    "rs_overrides db' = rs_overrides db"
    "rs_cursors db' = put_cursor (ad_user a) (ad_kind a) (qp_grant_sequence p + 1) (rs_cursors db)"
    "rs_world db' = rs_world db" "rs_jobs db' = rs_jobs db" by (fact rows)+
qed

text \<open>What an admission saved in place of one that is not charged does to the count.\<close>

lemma held_put:
  assumes inv: "resource_inv db" and a: "a \<in> set (rs_admissions db)" "\<not> charged now db a"
    and b: "ad_operation b = ad_operation a" "Q b \<longleftrightarrow> Q a"
    and rows: "rs_admissions db' = put_admission b (rs_admissions db)"
    and frame: "\<And>i. draining now i db' \<longleftrightarrow> draining now i db"
  shows "held Q now db' = held Q now db \<union> (if Q a \<and> active_at b now then {ad_operation a} else {})"
proof -
  have charged_b: "charged now db' b \<longleftrightarrow> active_at b now"
    using a(2) by (auto simp: charged_def frame b(1))
  have charged_c: "charged now db' c \<longleftrightarrow> charged now db c" for c by (simp add: charged_def frame)
  have "ad_operation c \<noteq> ad_operation a" if "c \<in> set (rs_admissions db)" "charged now db c" for c
    using admission_unique [OF inv that(1) a(1)] that(2) a(2) by blast
  then show ?thesis
    unfolding held_def rows in_put_admission b(1) using charged_b b by (auto simp: charged_c) metis+
qed

lemma held_grant:
  assumes inv: "resource_inv db" and a: "next_eligible now p k db = Some a"
    and run: "grant rd now p a db = Inr db'"
    and Q: "\<And>x. Q (granted_admission now x a) \<longleftrightarrow> Q a"
  shows "held Q now db' = held Q now db \<union> (if Q a then {ad_operation a} else {})"
proof -
  note a = next_eligible_Some(1,2) [OF a]
  have "ad_operation (granted_admission now (rd_fresh rd 0) a) = ad_operation a"
    by (simp add: granted_admission_def)
  from held_put [OF inv a(1) eligible_not_charged [OF a(2)] this Q grant_rows(1,2) [OF run]]
  show ?thesis by (simp add: granted_active)
qed

lemma held_expire:
  assumes inv: "resource_inv db" and a: "next_eligible now p k db = Some a"
    and run: "save_admission (expired_admission now a) db = Inr db'"
    and Q: "Q (expired_admission now a) \<longleftrightarrow> Q a"
  shows "held Q now db' = held Q now db"
proof -
  note a = next_eligible_Some(1,2) [OF a]
  have same: "ad_operation (expired_admission now a) = ad_operation a" "\<not> active_at (expired_admission now a) now"
    by (simp_all add: expired_admission_def active_at_def)
  have "draining now i db' \<longleftrightarrow> draining now i db" for i
    by (simp add: draining_iff save_admission_frame(1,2) [OF run])
  from held_put [OF inv a(1) eligible_not_charged [OF a(2)] same(1) Q save_admission_frame(8) [OF run] this]
  show ?thesis using same(2) by simp
qed

lemma kept_by_scheduler [simp]:
  "of_kind k (granted_admission now x a) \<longleftrightarrow> of_kind k a" "of_kind k (expired_admission now a) \<longleftrightarrow> of_kind k a"
  "of_account k u (granted_admission now x a) \<longleftrightarrow> of_account k u a"
  "of_account k u (expired_admission now a) \<longleftrightarrow> of_account k u a"
  "of_device k d (granted_admission now x a) \<longleftrightarrow> of_device k d a"
  "of_device k d (expired_admission now a) \<longleftrightarrow> of_device k d a"
  by (simp_all add: of_kind_def of_account_def of_device_def granted_admission_def expired_admission_def)

lemma eligible_not_held: "resource_inv db \<Longrightarrow> next_eligible now p k db = Some a \<Longrightarrow> ad_operation a \<notin> held Q now db"
  using next_eligible_Some(1,2) eligible_not_charged admission_unique
  unfolding held_def by (smt (verit, ccfv_threshold) mem_Collect_eq)

lemma card_held_grant:
  assumes "resource_inv db" and "next_eligible now p k db = Some a"
    and "grant rd now p a db = Inr db'" and "\<And>x. Q (granted_admission now x a) \<longleftrightarrow> Q a"
  shows "card (held Q now db') = card (held Q now db) + (if Q a then 1 else 0)"
  using eligible_not_held [OF assms(1,2), of Q] by (simp add: held_grant [OF assms])

subsection \<open>The limits the scheduler works with\<close>

definition same_limits :: "resource_db \<Rightarrow> resource_db \<Rightarrow> bool" where
  "same_limits db db' \<longleftrightarrow>
     rs_overrides db' = rs_overrides db
     \<and> map_option (\<lambda>p. p\<lparr>qp_grant_sequence := 0\<rparr>) (rs_policy db')
       = map_option (\<lambda>p. p\<lparr>qp_grant_sequence := 0\<rparr>) (rs_policy db)"

definition server_cap :: "resource_kind \<Rightarrow> resource_db \<Rightarrow> int option" where
  "server_cap k db = Option.bind (rs_policy db) (global_limit k)"

definition account_cap :: "resource_kind \<Rightarrow> uuid \<Rightarrow> resource_db \<Rightarrow> int" where
  "account_cap k user db =
     (case rs_policy db of None \<Rightarrow> 0 | Some p \<Rightarrow> account_limit p k user db)"

lemma same_limits_refl [simp]: "same_limits db db"
  by (simp add: same_limits_def)

lemma same_limits_trans: "same_limits db db1 \<Longrightarrow> same_limits db1 db2 \<Longrightarrow> same_limits db db2"
  by (simp add: same_limits_def)

lemma same_limits_grant: "rs_policy db = Some p \<Longrightarrow> grant rd now p a db = Inr db' \<Longrightarrow> same_limits db db'"
  by (simp add: same_limits_def grant_rows(3,4))

lemma same_limits_save: "save_admission a db = Inr db' \<Longrightarrow> same_limits db db'"
  by (simp add: same_limits_def save_admission_frame)

lemma same_limits_frame: "rs_overrides db' = rs_overrides db \<Longrightarrow> rs_policy db' = rs_policy db \<Longrightarrow> same_limits db db'"
  by (simp add: same_limits_def)

lemma zero_sequence_eq:
  assumes "p\<lparr>qp_grant_sequence := 0\<rparr> = q\<lparr>qp_grant_sequence := 0\<rparr>"
  shows "global_limit k p = global_limit k q" and "account_limit p k u db = account_limit q k u db"
proof -
  have "global_limit k (x\<lparr>qp_grant_sequence := 0\<rparr>) = global_limit k x"
    "account_limit (x\<lparr>qp_grant_sequence := 0\<rparr>) k u db = account_limit x k u db" for x
    by (simp_all add: global_limit_def account_limit_def split: option.splits)
  with assms show "global_limit k p = global_limit k q" "account_limit p k u db = account_limit q k u db"
    by metis+
qed

lemma account_limit_overrides:
  "rs_overrides db' = rs_overrides db \<Longrightarrow> account_limit p k u db' = account_limit p k u db"
  by (simp add: account_limit_def find_override_def)

lemma same_limits_caps:
  assumes "same_limits db db'"
  shows "server_cap k db' = server_cap k db" and "account_cap k user db' = account_cap k user db"
proof -
  have "server_cap k db' = server_cap k db \<and> account_cap k user db' = account_cap k user db"
  proof (cases "rs_policy db")
    case None
    with assms show ?thesis by (simp add: same_limits_def server_cap_def account_cap_def)
  next
    case (Some p)
    with assms obtain q where q: "rs_policy db' = Some q"
      and eq: "q\<lparr>qp_grant_sequence := 0\<rparr> = p\<lparr>qp_grant_sequence := 0\<rparr>"
      by (auto simp: same_limits_def)
    have "account_limit q k user db' = account_limit q k user db"
      using assms by (intro account_limit_overrides) (simp add: same_limits_def)
    with zero_sequence_eq [OF eq] Some q show ?thesis
      by (simp add: server_cap_def account_cap_def)
  qed
  then show "server_cap k db' = server_cap k db" "account_cap k user db' = account_cap k user db" by simp_all
qed

subsection \<open>What the scheduler's loop keeps of the limits\<close>

text \<open>
  \<open>used\<close> is the count the loop keeps; it is the number of charged operations of its kind, and neither it
  nor the use of an account or device passes what it was at the start and the limit.
\<close>

definition within_limits ::
  "instant \<Rightarrow> resource_kind \<Rightarrow> int \<Rightarrow> resource_db \<Rightarrow> nat \<Rightarrow> resource_db \<Rightarrow> bool" where
  "within_limits now k limit db0 used db \<longleftrightarrow>
     resource_inv db \<and> same_limits db0 db \<and> card (held (of_kind k) now db) = used
     \<and> used \<le> max (card (held (of_kind k) now db0)) (nat limit)
     \<and> (\<forall>k'. k' \<noteq> k \<longrightarrow> held (of_kind k') now db = held (of_kind k') now db0)
     \<and> (\<forall>k' user. card (held (of_account k' user) now db)
          \<le> max (card (held (of_account k' user) now db0)) (nat (account_cap k' user db0)))
     \<and> (\<forall>k' d. card (held (of_device k' d) now db)
          \<le> max (card (held (of_device k' d) now db0)) (nat (device_limit k')))"

lemma within_limitsD:
  assumes "within_limits now k limit db0 used db"
  shows "resource_inv db" and "same_limits db0 db" and "card (held (of_kind k) now db) = used"
    and "used \<le> max (card (held (of_kind k) now db0)) (nat limit)"
    and "k' \<noteq> k \<Longrightarrow> held (of_kind k') now db = held (of_kind k') now db0"
    and "card (held (of_account k' user) now db)
          \<le> max (card (held (of_account k' user) now db0)) (nat (account_cap k' user db0))"
    and "card (held (of_device k' d) now db)
          \<le> max (card (held (of_device k' d) now db0)) (nat (device_limit k'))"
  using assms by (simp_all add: within_limits_def)

lemma within_limits_start:
  "resource_inv db \<Longrightarrow> within_limits now k limit db (card (held (of_kind k) now db)) db"
  by (simp add: within_limits_def)

lemma within_limits_unchanged:
  assumes "within_limits now k limit db0 used db" and "resource_inv db'" and "same_limits db db'"
    and "\<And>k. held (of_kind k) now db' = held (of_kind k) now db"
    and "\<And>k u. held (of_account k u) now db' = held (of_account k u) now db"
    and "\<And>k d. held (of_device k d) now db' = held (of_device k d) now db"
  shows "within_limits now k limit db0 used db'"
  using assms same_limits_trans unfolding within_limits_def by auto

lemma within_limits_grant:
  assumes good: "within_limits now k limit db0 used db" and below: "int used < limit"
    and p: "rs_policy db = Some p" and a: "next_eligible now p k db = Some a"
    and run: "grant rd now p a db = Inr db'"
  shows "within_limits now k limit db0 (Suc used) db'"
proof -
  note good = within_limitsD [OF good]
  note grown = card_held_grant [OF good(1) a run]
  from next_eligible_Some(2) [OF a] have elig: "ad_kind a = k"
    "int (account_used now k (ad_user a) db) < account_limit p k (ad_user a) db"
    "\<And>d. ad_device a = Some d \<Longrightarrow> int (device_used now k d db) < device_limit k"
    by (auto simp: eligible_def)
  have cap: "account_limit p k (ad_user a) db = account_cap k (ad_user a) db0"
    using same_limits_caps(2) [OF good(2), of k "ad_user a"] p by (simp add: account_cap_def)
  have account: "card (held (of_account k' user) now db')
      \<le> max (card (held (of_account k' user) now db0)) (nat (account_cap k' user db0))" for k' user
  proof (cases "of_account k' user a")
    case True
    then have "k' = k" "user = ad_user a" using elig(1) by (simp_all add: of_account_def)
    with elig(2) cap used_held(2) [OF good(1)] grown [of "of_account k' user"] True show ?thesis by simp
  next
    case False
    with grown [of "of_account k' user"] good(6) show ?thesis by simp
  qed
  have device: "card (held (of_device k' d) now db')
      \<le> max (card (held (of_device k' d) now db0)) (nat (device_limit k'))" for k' d
  proof (cases "of_device k' d a")
    case True
    then have "k' = k" "ad_device a = Some d" using elig(1) by (simp_all add: of_device_def)
    with elig(3) [of d] used_held(3) [OF good(1)] grown [of "of_device k' d"] True show ?thesis by simp
  next
    case False
    with grown [of "of_device k' d"] good(7) show ?thesis by simp
  qed
  have others: "held (of_kind k') now db' = held (of_kind k') now db0" if "k' \<noteq> k" for k'
    using held_grant [where Q = "of_kind k'", OF good(1) a run kept_by_scheduler(1)] that elig(1) good(5) [OF that]
    by (simp add: of_kind_def)
  have "card (held (of_kind k) now db') = Suc used"
    using grown [of "of_kind k", OF kept_by_scheduler(1)] good(3) elig(1) by (simp add: of_kind_def)
  moreover have "Suc used \<le> max (card (held (of_kind k) now db0)) (nat limit)" using below by simp
  ultimately show ?thesis
    using grant_inv [OF good(1) run] same_limits_trans [OF good(2) same_limits_grant [OF p run]]
      account device others unfolding within_limits_def by blast
qed

lemma held_jobs [simp]: "held Q now (db\<lparr>rs_jobs := jobs\<rparr>) = held Q now db"
  by (auto simp: held_def charged_def draining_iff)

interpretation counting: grant_loop vg now k limit "within_limits now k limit db0" "\<lambda>_ _. True"
  for vg now k limit db0
proof (unfold_locales, goal_cases)
  case (3 used db p a rd db')
  then show ?case using within_limits_grant by blast
next
  case (4 used db p a db')
  note good = within_limitsD [OF 4(1)]
  note same = held_expire [OF good(1) 4(3,4)]
  have "within_limits now k limit db0 used db'"
    by (rule within_limits_unchanged [OF 4(1) save_admission_inv [OF good(1) 4(4)] same_limits_save [OF 4(4)]])
      (simp_all add: same)
  then show ?case by simp
next
  case (5 used db jobs)
  have "within_limits now k limit db0 used (db\<lparr>rs_jobs := jobs\<rparr>)"
    by (rule within_limits_unchanged [OF 5])
      (simp_all add: within_limitsD(1) [OF 5] same_limits_def)
  then show ?case by simp
qed auto

subsection \<open>Advances and histories\<close>

lemma advance_within_limits:
  assumes inv: "resource_inv db" and run: "advance vg rd now n db = Inr (m, db')"
  shows "same_limits db db'
    \<and> (\<forall>k. held (of_kind k) now db' = held (of_kind k) now db
         \<or> (\<exists>c. server_cap k db = Some c
              \<and> card (held (of_kind k) now db') \<le> max (card (held (of_kind k) now db)) (nat c)))
    \<and> (\<forall>k user. card (held (of_account k user) now db')
          \<le> max (card (held (of_account k user) now db)) (nat (account_cap k user db)))
    \<and> (\<forall>k d. card (held (of_device k d) now db')
          \<le> max (card (held (of_device k d) now db)) (nat (device_limit k)))"
proof -
  from run obtain p where p: "rs_policy db = Some p"
    by (auto simp: advance_def bind_result_eq_Inr resource_policy_def split: option.splits)
  show ?thesis
  proof (cases "qp_global_playbacks p = None \<or> qp_global_transfers p = None")
    case True
    with run p show ?thesis
      by (auto simp: advance_def resource_policy_def split: option.splits)
  next
    case False
    then obtain pc tc where caps: "qp_global_playbacks p = Some pc" "qp_global_transfers p = Some tc" by auto
    with run p obtain m1 n1 db1 where
      one: "advance_kind vg rd now PLAYBACK pc n (server_used now PLAYBACK db) db = Inr (m1, db1)" and
      two: "advance_kind vg (later_readings (2 * n) rd) now TRANSFER tc n (server_used now TRANSFER db1) db1
        = Inr (n1, db')"
      by (auto simp: advance_def bind_result_eq_Inr resource_policy_def)
    obtain u1 where w1: "within_limits now PLAYBACK pc db u1 db1"
      using counting.loop [OF one [unfolded used_held(1) [OF inv]] within_limits_start [OF inv]] by blast
    note first = within_limitsD [OF w1]
    obtain u2 where w2: "within_limits now TRANSFER tc db1 u2 db'"
      using counting.loop [OF two [unfolded used_held(1) [OF first(1)]] within_limits_start [OF first(1)]]
      by blast
    note second = within_limitsD [OF w2]
    have cap: "server_cap PLAYBACK db = Some pc" "server_cap TRANSFER db = Some tc"
      using p caps by (simp_all add: server_cap_def global_limit_def)
    have playback: "card (held (of_kind PLAYBACK) now db') \<le> max (card (held (of_kind PLAYBACK) now db)) (nat pc)"
      using first(3,4) second(5) [of PLAYBACK] by simp
    have transfer: "card (held (of_kind TRANSFER) now db') \<le> max (card (held (of_kind TRANSFER) now db)) (nat tc)"
      using second(3,4) first(5) [of TRANSFER] by simp
    have server: "\<exists>c. server_cap k db = Some c
        \<and> card (held (of_kind k) now db') \<le> max (card (held (of_kind k) now db)) (nat c)" for k
      using playback transfer cap by (cases k) simp_all
    have account: "card (held (of_account k user) now db')
        \<le> max (card (held (of_account k user) now db)) (nat (account_cap k user db))" for k user
      using first(6) [of k user] second(6) [of k user] same_limits_caps(2) [OF first(2), of k user] by simp
    have device: "card (held (of_device k d) now db')
        \<le> max (card (held (of_device k d) now db)) (nat (device_limit k))" for k d
      using first(7) [of k d] second(7) [of k d] by simp
    show ?thesis using same_limits_trans [OF first(2) second(2)] server account device by blast
  qed
qed

lemma table_step_limits:
  assumes inv: "resource_inv db" and step: "table_step now db db'"
  shows "same_limits db db'"
  using step
proof cases
  case (ts_advance vg rd n m)
  from advance_within_limits [OF inv this] show ?thesis by simp
next
  case (ts_prepare t s)
  then show ?thesis
    by (auto simp: prepare_def bind_result_eq_Inr Let_def register_provider_staging_def
        intro!: same_limits_frame split: if_splits option.splits)
next
  case (ts_started t child s)
  from started_moved [OF this] show ?thesis
    by (auto simp: execution_moved_def same_frame_def set_execution_Inr intro!: same_limits_frame)
next
  case (ts_heartbeat t s)
  from heartbeat_moved [OF this] show ?thesis
    by (auto simp: execution_moved_def same_frame_def set_execution_Inr intro!: same_limits_frame)
next
  case (ts_stop t s)
  from stop_moved [OF this] show ?thesis
    by (auto simp: execution_moved_def same_frame_def set_execution_Inr intro!: same_limits_frame)
next
  case (ts_exit v t s)
  from exit_moved [OF ts_exit(2)] show ?thesis
    by (auto simp: execution_moved_def same_frame_def set_execution_Inr intro!: same_limits_frame)
next
  case (ts_renew p q)
  then show ?thesis by (rule renew_permit_Inr) (simp add: same_limits_frame)
next
  case (ts_close p)
  then obtain P Q where "drop_permits P (db\<lparr>rs_executions := delete_rows Q (rs_executions db)\<rparr>) = Inr db'"
    by (auto simp: close_permit_def split: if_splits)
  then show ?thesis unfolding drop_permits_Inr by (intro same_limits_frame) simp_all
next
  case (ts_terminate user device family mode only)
  then show ?thesis
    by (auto simp: terminate_resource_authority_def intro!: same_limits_frame split: if_splits)
qed (auto simp: save_admission_Inr insert_permit_Inr drop_permits_Inr orphan_stale_def Let_def same_frame_def
    intro!: same_limits_frame)

text \<open>No step takes the use of the server above what it was and what is budgeted.\<close>

definition server_bounded :: "resource_kind \<Rightarrow> int \<Rightarrow> instant \<times> resource_db \<Rightarrow> bool" where
  "server_bounded k c s \<longleftrightarrow>
     (case s of (now, db) \<Rightarrow>
        resource_inv db \<and> server_cap k db = Some c \<and> int (card (held (of_kind k) now db)) \<le> c)"

lemma table_step_bounded:
  assumes bounded: "server_bounded k c (now, db)" and step: "table_step now db db'"
  shows "server_bounded k c (now, db')"
proof -
  from bounded have inv: "resource_inv db" and cap: "server_cap k db = Some c"
    and le: "int (card (held (of_kind k) now db)) \<le> c" by (simp_all add: server_bounded_def)
  have "int (card (held (of_kind k) now db')) \<le> c"
    using table_step_held [OF inv step, of k]
  proof (elim disjE exE)
    assume "held (of_kind k) now db' \<subseteq> held (of_kind k) now db"
    from card_mono [OF finite_held this] le show ?thesis by simp
  next
    fix vg rd n m assume "advance vg rd now n db = Inr (m, db')"
    from conjunct1 [OF conjunct2 [OF advance_within_limits [OF inv this]], rule_format, of k]
    show ?thesis using cap le by auto
  qed
  with table_step_inv [OF inv step] same_limits_caps(1) [OF table_step_limits [OF inv step], of k] cap
  show ?thesis by (simp add: server_bounded_def)
qed

interpretation bounded_tables: component "table_step now" "\<lambda>db. server_bounded k c (now, db)" for now k c
  by unfold_locales (rule table_step_bounded)

lemma server_bounded_later:
  "server_bounded k c (now, db) \<Longrightarrow> now \<le> now' \<Longrightarrow> server_bounded k c (now', db)"
  using card_mono [OF finite_held held_antimono [of now now' "of_kind k" db]]
  by (auto simp: server_bounded_def)

interpretation budget: component resource_step "server_bounded k c" for k c
proof
  fix s t :: "instant \<times> resource_db"
  assume bounded: "server_bounded k c s" and step: "resource_step s t"
  obtain now db where s: "s = (now, db)" by (cases s)
  obtain now' db' where t: "t = (now', db')" by (cases t)
  from step s t have later: "now \<le> now'" and served: "served now' db db'" by simp_all
  from bounded s have inv: "resource_inv db" by (simp add: server_bounded_def)
  from server_bounded_later [OF bounded [unfolded s] later]
    bounded_tables.run_inv [OF served_run [OF inv served]] t
  show "server_bounded k c t" by blast
qed

end
