(* ===== verification/Resource_Facts.thy ===== *)
theory Resource_Facts
  imports Resource_Capacity
begin

text \<open>
  Further facts of the admission tables: the scheduler never raises, grants rotate over the accounts,
  permits stay within the bound of their operation, executions end with evidence only, and what the
  authority gate guarantees.
\<close>

subsection \<open>The scheduler does not raise\<close>

text \<open>The server's clock is not behind the admissions it compares with.\<close>

definition timely :: "instant \<Rightarrow> resource_db \<Rightarrow> bool" where
  "timely now db \<longleftrightarrow> (\<forall>a \<in> set (rs_admissions db). ad_enqueued_at a \<le> now)"

lemma checks_of: "resource_inv db \<Longrightarrow> a \<in> set (rs_admissions db) \<Longrightarrow> admission_row_checks a"
  using resource_invD(1) by (auto simp: admissions_ok_def list_all_iff)

lemma shapes_kept:
  assumes "ad_authority b = ad_authority a" and "ad_request b = ad_request a"
    and "ad_current_recording b = ad_current_recording a" and "ad_next_recording b = ad_next_recording a"
  shows "authority_shape b = authority_shape a" and "resource_shape b = resource_shape a"
    and "worker_target_shape b = worker_target_shape a"
  using assms
  by (simp_all add: authority_shape_def resource_shape_def worker_target_shape_def Let_def
      cong: resource_kind.case_cong)

lemma granted_checks:
  assumes checks: "admission_row_checks a" and timely: "ad_enqueued_at a \<le> now"
  shows "admission_row_checks (granted_admission now x a)"
proof -
  let ?b = "granted_admission now x a"
  have sel: "ad_authority ?b = ad_authority a" "ad_request ?b = ad_request a"
    "ad_current_recording ?b = ad_current_recording a" "ad_next_recording ?b = ad_next_recording a"
    "ad_generation ?b = ad_generation a + 1" "ad_attachment_revision ?b = ad_attachment_revision a"
    "ad_sha256 ?b = ad_sha256 a" "ad_enqueued_at ?b = ad_enqueued_at a" "ad_created_at ?b = ad_created_at a"
    "ad_lease_until ?b = Some (now + lease_ttl)" "ad_waiting_until ?b = None" "ad_state ?b = Active"
    "ad_activation ?b = Some x" "ad_claim_until ?b = Some (now + reservation_ttl)" "ad_updated_at ?b = now"
    by (simp_all add: granted_admission_def)
  have "ad_created_at a < now + lease_ttl"
    using checks timely by (auto simp: admission_row_checks_def lease_ttl_def)
  then show ?thesis
    using checks timely unfolding admission_row_checks_def shapes_kept [OF sel(1-4)] sel
    by (auto simp: revision_pair_def)
qed

lemma expired_checks:
  assumes checks: "admission_row_checks a" and timely: "ad_enqueued_at a \<le> now"
  shows "admission_row_checks (expired_admission now a)"
proof -
  let ?b = "expired_admission now a"
  have sel: "ad_authority ?b = ad_authority a" "ad_request ?b = ad_request a"
    "ad_current_recording ?b = ad_current_recording a" "ad_next_recording ?b = ad_next_recording a"
    "ad_generation ?b = ad_generation a" "ad_attachment_revision ?b = ad_attachment_revision a"
    "ad_sha256 ?b = ad_sha256 a" "ad_enqueued_at ?b = ad_enqueued_at a" "ad_created_at ?b = ad_created_at a"
    "ad_lease_until ?b = ad_lease_until a" "ad_waiting_until ?b = ad_waiting_until a" "ad_state ?b = Expired"
    "ad_activation ?b = ad_activation a" "ad_terminal_at ?b = Some now" "ad_updated_at ?b = now"
    by (simp_all add: expired_admission_def)
  show ?thesis
    using checks timely unfolding admission_row_checks_def shapes_kept [OF sel(1-4)] sel by auto
qed

lemma permits_match_kept:
  "permits_match a ps \<Longrightarrow> ad_operation b = ad_operation a \<Longrightarrow> ad_activation b = ad_activation a \<Longrightarrow>
   ad_generation b = ad_generation a \<Longrightarrow> permits_match b ps"
  by (simp add: permits_match_def)

lemma permits_match_stored:
  assumes inv: "resource_inv db" and a: "a \<in> set (rs_admissions db)"
  shows "permits_match a (rs_permits db)"
  unfolding permits_match_def list_all_iff
proof (intro ballI impI)
  fix p assume p: "p \<in> set (rs_permits db)" "pm_operation p = ad_operation a"
  obtain b where b: "b \<in> set (rs_admissions db)" "permit_for b p" using permit_admission [OF inv p(1)] .
  with admission_unique [OF inv a b(1)] p(2) show "ad_activation a = Some (pm_activation p) \<and> ad_generation a = pm_generation p"
    by (simp add: permit_for_def)
qed

lemma grant_total:
  assumes inv: "resource_inv db" and timely: "timely now db" and a: "next_eligible now p k db = Some a"
  shows "\<exists>db'. grant rd now p a db = Inr db'"
proof -
  note a = next_eligible_Some(1,2) [OF a]
  from a(2) have quiet: "\<not> draining now (ad_operation a) db" by (simp add: eligible_def)
  let ?P = "\<lambda>q. pm_operation q = ad_operation a \<and> pm_expires_at q \<le> now"
  let ?db1 = "db\<lparr>rs_executions := delete_rows (\<lambda>e. xe_operation e = ad_operation a \<and> xe_closed_at e \<noteq> None)
      (rs_executions db)\<rparr>"
  let ?db2 = "?db1\<lparr>rs_permits := delete_rows ?P (rs_permits db)\<rparr>"
  have "pm_id p \<noteq> xe_permit e"
    if e: "e \<in> set (rs_executions ?db1)" and p: "p \<in> set (rs_permits db)" "?P p" for e p
  proof
    assume same: "pm_id p = xe_permit e"
    from e have e': "e \<in> set (rs_executions db)" by simp
    obtain q where q: "q \<in> set (rs_permits db)" "execution_for q e" using execution_permit [OF inv e'] .
    with permit_unique [OF inv p(1) q(1)] same p(2) have "xe_operation e = ad_operation a"
      by (simp add: execution_for_def)
    with quiet e e' show False by (auto simp: draining_iff)
  qed
  then have "drop_permits ?P ?db1 = Inr ?db2" by (auto simp: drop_permits_Inr)
  moreover have "permits_match (granted_admission now (rd_fresh rd 0) a) (rs_permits ?db2)"
    using quiet by (auto simp: permits_match_def list_all_iff granted_admission_def draining_iff)
  then have "save_admission (granted_admission now (rd_fresh rd 0) a) ?db2
      = Inr (?db2\<lparr>rs_admissions := put_admission (granted_admission now (rd_fresh rd 0) a) (rs_admissions db)\<rparr>)"
    using granted_checks [OF checks_of [OF inv a(1)]] timely a(1) by (simp add: save_admission_Inr timely_def)
  ultimately show ?thesis by (simp add: grant_def Let_def)
qed

lemma withdraw_total:
  assumes inv: "resource_inv db" and timely: "timely now db" and a: "a \<in> set (rs_admissions db)"
  shows "\<exists>db'. save_admission (expired_admission now a) db = Inr db'"
proof -
  have "permits_match (expired_admission now a) (rs_permits db)"
    by (rule permits_match_kept [OF permits_match_stored [OF inv a]]) (simp_all add: expired_admission_def)
  with expired_checks [OF checks_of [OF inv a]] timely a show ?thesis
    by (simp add: save_admission_Inr timely_def)
qed

lemma timely_put:
  "timely now db \<Longrightarrow> ad_enqueued_at a \<le> now \<Longrightarrow> rs_admissions db' = put_admission a (rs_admissions db) \<Longrightarrow>
   timely now db'"
  by (auto simp: timely_def in_put_admission)

lemma advance_kind_total:
  "resource_inv db \<Longrightarrow> timely now db \<Longrightarrow> rs_policy db \<noteq> None \<Longrightarrow>
   \<exists>m db'. advance_kind vg rd now k limit fuel used db = Inr (m, db')
     \<and> resource_inv db' \<and> timely now db' \<and> rs_policy db' \<noteq> None"
proof (induction fuel arbitrary: rd used db)
  case (Suc fuel)
  from Suc.prems(3) obtain p where p: "rs_policy db = Some p" by auto
  show ?case
  proof (cases "limit \<le> int used")
    case False
    show ?thesis
    proof (cases "next_eligible now p k db")
      case (Some a)
      note a = next_eligible_Some(1) [OF Some]
      then have enq: "ad_enqueued_at a \<le> now" using Suc.prems(2) by (simp add: timely_def)
      show ?thesis
      proof (cases "judge vg rd now db a")
        case Grantable
        from grant_total [OF Suc.prems(1,2) Some] obtain db1 where db1: "grant rd now p a db = Inr db1" by blast
        have "timely now db1"
          by (rule timely_put [OF Suc.prems(2) _ grant_rows(1) [OF db1]]) (simp add: granted_admission_def enq)
        with Suc.IH [of db1 "later_readings 2 rd" "Suc used"] grant_inv [OF Suc.prems(1) db1]
        show ?thesis
          by (auto simp: False p Some Grantable db1 resource_policy_def grant_rows(3) [OF db1])
      next
        case Withdrawn
        from withdraw_total [OF Suc.prems(1,2) a] obtain db1 where
          db1: "save_admission (expired_admission now a) db = Inr db1" by blast
        have "timely now db1"
          by (rule timely_put [OF Suc.prems(2) _ save_admission_frame(8) [OF db1]])
            (simp add: expired_admission_def enq)
        with Suc.IH [of db1 "later_readings 2 rd" used] save_admission_inv [OF Suc.prems(1) db1]
        show ?thesis
          by (auto simp: False p Some Withdrawn db1 resource_policy_def save_admission_frame(3) [OF db1])
      next
        case (NotClaimed j)
        with Suc.prems show ?thesis by (simp add: False p Some resource_policy_def timely_def)
      qed
    qed (use Suc.prems p False in \<open>simp add: resource_policy_def\<close>)
  qed (use Suc.prems in simp)
qed simp

lemma advance_total_aux:
  assumes "resource_inv db" and "timely now db" and p: "rs_policy db = Some p"
  shows "\<exists>m db'. advance vg rd now maximum db = Inr (m, db') \<and> timely now db'"
proof (cases "qp_global_playbacks p = None \<or> qp_global_transfers p = None")
  case True
  with p assms(2) show ?thesis by (auto simp: advance_def resource_policy_def split: option.splits)
next
  case False
  then obtain pc tc where caps: "qp_global_playbacks p = Some pc" "qp_global_transfers p = Some tc" by auto
  obtain m db1 where one: "advance_kind vg rd now PLAYBACK pc maximum (server_used now PLAYBACK db) db = Inr (m, db1)"
    and db1: "resource_inv db1" "timely now db1" "rs_policy db1 \<noteq> None"
    using advance_kind_total [OF assms(1,2)] p by blast
  obtain n db2 where "advance_kind vg (later_readings (2 * maximum) rd) now TRANSFER tc maximum
      (server_used now TRANSFER db1) db1 = Inr (n, db2)" "timely now db2"
    using advance_kind_total [OF db1] by blast
  with one show ?thesis by (simp add: advance_def resource_policy_def p caps)
qed

subsection \<open>Grants rotate over the accounts\<close>

definition cursors_bounded :: "resource_db \<Rightarrow> bool" where
  "cursors_bounded db \<longleftrightarrow>
     (case rs_policy db of
        None \<Rightarrow> True
      | Some p \<Rightarrow> 0 \<le> qp_grant_sequence p
          \<and> (\<forall>c \<in> set (rs_cursors db). gc_last_grant c \<le> qp_grant_sequence p))"

lemma find_put_cursor:
  "find (\<lambda>c. gc_user c = u' \<and> gc_kind c = k') (put_cursor u k n rows) =
     (if u' = u \<and> k' = k
      then (case find (\<lambda>c. gc_user c = u \<and> gc_kind c = k) rows of
              None \<Rightarrow> Some \<lparr>gc_user = u, gc_kind = k, gc_last_grant = n\<rparr>
            | Some c \<Rightarrow> Some (c\<lparr>gc_last_grant := n\<rparr>))
      else find (\<lambda>c. gc_user c = u' \<and> gc_kind c = k') rows)"
proof -
  have update: "find (\<lambda>c. gc_user c = u' \<and> gc_kind c = k')
      (update_rows (\<lambda>c. gc_user c = u \<and> gc_kind c = k) (\<lambda>c. c\<lparr>gc_last_grant := n\<rparr>) rows)
    = map_option (\<lambda>c. if gc_user c = u \<and> gc_kind c = k then c\<lparr>gc_last_grant := n\<rparr> else c)
        (find (\<lambda>c. gc_user c = u' \<and> gc_kind c = k') rows)" for rows
    by (induction rows) (auto simp: update_rows_def)
  have append: "find P (rows @ [x]) = (case find P rows of None \<Rightarrow> if P x then Some x else None | Some y \<Rightarrow> Some y)"
    for P and rows :: "cursor_row list" and x by (induction rows) auto
  show ?thesis
  proof (cases "find (\<lambda>c. gc_user c = u \<and> gc_kind c = k) rows")
    case None
    then have "\<not> list_ex (\<lambda>c. gc_user c = u \<and> gc_kind c = k) rows" by (simp add: find_None_iff list_ex_iff)
    with None show ?thesis by (auto simp: put_cursor_def Let_def append split: option.splits)
  next
    case (Some c)
    then have c: "c \<in> set rows" "gc_user c = u" "gc_kind c = k" by (auto simp: find_Some_iff)
    then have "list_ex (\<lambda>c. gc_user c = u \<and> gc_kind c = k) rows" by (auto simp: list_ex_iff)
    moreover have "map_option (\<lambda>c. if gc_user c = u \<and> gc_kind c = k then c\<lparr>gc_last_grant := n\<rparr> else c)
        (find (\<lambda>c. gc_user c = u' \<and> gc_kind c = k') rows) = find (\<lambda>c. gc_user c = u' \<and> gc_kind c = k') rows"
      if "\<not> (u' = u \<and> k' = k)"
    proof (cases "find (\<lambda>c. gc_user c = u' \<and> gc_kind c = k') rows")
      case (Some x)
      then have "gc_user x = u' \<and> gc_kind x = k'" by (metis (mono_tags, lifting) find_Some_iff)
      with Some that show ?thesis by auto
    qed simp
    ultimately show ?thesis using Some c by (auto simp: put_cursor_def Let_def update)
  qed
qed

lemma last_grant_put:
  "rs_cursors db' = put_cursor u k n (rs_cursors db) \<Longrightarrow>
   last_grant k' u' db' = (if u' = u \<and> k' = k then n else last_grant k' u' db)"
  by (auto simp: last_grant_def find_put_cursor split: option.splits)

lemma last_grant_bounded:
  assumes "cursors_bounded db" and "rs_policy db = Some p"
  shows "last_grant k u db \<le> qp_grant_sequence p"
  using assms by (auto simp: cursors_bounded_def last_grant_def find_Some_iff split: option.splits)

lemma in_put_cursor:
  "c \<in> set (put_cursor u k n rows) \<Longrightarrow> gc_last_grant c = n \<or> c \<in> set rows"
  by (auto simp: put_cursor_def Let_def in_update_rows split: if_splits)

lemma grant_cursors:
  assumes "cursors_bounded db" and "rs_policy db = Some p" and "grant rd now p a db = Inr db'"
  shows "cursors_bounded db'"
  using assms(1,2) unfolding cursors_bounded_def grant_rows(3,5) [OF assms(3)]
  by (auto dest!: in_put_cursor)

lemma rotation:
  assumes bounded: "cursors_bounded db" and p: "rs_policy db = Some p"
    and a: "next_eligible now p k db = Some a" and run: "grant rd now p a db = Inr db'"
    and b: "next_eligible now p' k db' = Some b"
    and c: "c \<in> set (rs_admissions db')" "eligible now p' k db' c" "ad_user c \<noteq> ad_user a"
  shows "ad_user b \<noteq> ad_user a"
proof
  assume same: "ad_user b = ad_user a"
  have "ad_kind a = k" using next_eligible_Some(2) [OF a] by (simp add: eligible_def)
  note cursor = last_grant_put [OF grant_rows(5) [OF run]]
  have "last_grant k (ad_user b) db' = qp_grant_sequence p + 1"
    using \<open>ad_kind a = k\<close> by (simp add: cursor same)
  moreover have "last_grant k (ad_user c) db' \<le> qp_grant_sequence p"
    using c(3) last_grant_bounded [OF bounded p] by (simp add: cursor)
  moreover have "fairness k db' b \<le> fairness k db' c" by (rule next_eligible_Some(3) [OF b c(1,2)])
  ultimately show False by (auto simp: fairness_def less_eq_prod_def)
qed

subsection \<open>Permits of an operation\<close>

definition open_at :: "uuid \<Rightarrow> instant \<Rightarrow> resource_db \<Rightarrow> permit_row \<Rightarrow> bool" where
  "open_at i now db p \<longleftrightarrow> pm_operation p = i \<and> (now < pm_expires_at p \<or> unclosed_execution db p)"

definition permits_bounded :: "instant \<Rightarrow> resource_db \<Rightarrow> bool" where
  "permits_bounded now db \<longleftrightarrow>
     (\<forall>a \<in> set (rs_admissions db). length (open_permits (ad_operation a) now db) \<le> permit_bound (ad_kind a))"

lemma open_permits_count: "length (open_permits i now db) = count_rows (open_at i now db) (rs_permits db)"
  by (simp add: open_permits_def count_rows_def open_at_def [abs_def])

lemma count_delete_rows: "count_rows P (delete_rows Q t) \<le> count_rows P t"
  by (induction t) (auto simp: delete_rows_def)

lemma count_update_rows:
  "(\<And>r. r \<in> set t \<Longrightarrow> P (if R r then f r else r) \<Longrightarrow> Q r) \<Longrightarrow> count_rows P (update_rows R f t) \<le> count_rows Q t"
  by (induction t) (auto simp: update_rows_def split: if_splits intro: le_SucI)

lemma permits_boundedI:
  assumes "permits_bounded now db"
    and "\<And>b. b \<in> set (rs_admissions db') \<Longrightarrow> \<exists>a \<in> set (rs_admissions db). ad_request a = ad_request b"
    and "\<And>i. length (open_permits i now' db') \<le> length (open_permits i now db)"
  shows "permits_bounded now' db'"
  using assms unfolding permits_bounded_def by (metis order_trans)

lemma open_permits_le:
  assumes "rs_permits db' = rs_permits db"
    and "\<And>p. p \<in> set (rs_permits db) \<Longrightarrow> unclosed_execution db' p \<Longrightarrow> unclosed_execution db p \<or> now < pm_expires_at p"
  shows "length (open_permits i now db') \<le> length (open_permits i now db)"
  using assms unfolding open_permits_count assms(1) by (intro count_rows_mono) (auto simp: open_at_def)

lemma open_permits_later: "now \<le> now' \<Longrightarrow> length (open_permits i now' db) \<le> length (open_permits i now db)"
  unfolding open_permits_count by (intro count_rows_mono) (auto simp: open_at_def)

lemma permits_bounded_frame:
  "permits_bounded now db \<Longrightarrow> rs_permits db' = rs_permits db \<Longrightarrow> rs_executions db' = rs_executions db \<Longrightarrow>
   (\<And>b. b \<in> set (rs_admissions db') \<Longrightarrow> \<exists>a \<in> set (rs_admissions db). ad_request a = ad_request b) \<Longrightarrow>
   permits_bounded now db'"
  by (rule permits_boundedI, assumption, assumption, rule open_permits_le)
    (simp_all add: unclosed_execution_def)

lemma permits_bounded_put:
  assumes "permits_bounded now db" and "save_admission a' db = Inr db'"
    and "a \<in> set (rs_admissions db)" and "ad_request a' = ad_request a"
  shows "permits_bounded now db'"
  by (rule permits_bounded_frame [OF assms(1) save_admission_frame(1,2) [OF assms(2)]])
    (use assms(3,4) in \<open>auto simp: save_admission_frame(8) [OF assms(2)] in_put_admission\<close>)

lemma unclosed_delete:
  "unclosed_execution (db\<lparr>rs_executions := delete_rows P (rs_executions db)\<rparr>) p \<Longrightarrow> unclosed_execution db p"
  by (auto simp: unclosed_execution_def list_ex_iff)

lemma permits_bounded_delete_executions:
  "permits_bounded now db \<Longrightarrow> permits_bounded now (db\<lparr>rs_executions := delete_rows P (rs_executions db)\<rparr>)"
  by (erule permits_boundedI) (auto intro!: open_permits_le dest: unclosed_delete)

lemma permits_bounded_drop:
  assumes "permits_bounded now db" and "drop_permits P db = Inr db'"
  shows "permits_bounded now db'"
proof (rule permits_boundedI [OF assms(1)])
  note db' = assms(2) [unfolded drop_permits_Inr]
  fix i
  have "open_at i now db' = open_at i now db" using db' by (auto simp: open_at_def unclosed_execution_def)
  then show "length (open_permits i now db') \<le> length (open_permits i now db)"
    using db' count_delete_rows by (simp add: open_permits_count)
qed (use assms(2) in \<open>auto simp: drop_permits_Inr\<close>)

lemma permits_bounded_jobs [simp]: "permits_bounded now (db\<lparr>rs_jobs := jobs\<rparr>) \<longleftrightarrow> permits_bounded now db"
  by (simp add: permits_bounded_def open_permits_def unclosed_execution_def)

lemma permits_bounded_grant:
  assumes bounded: "permits_bounded now db" and a: "a \<in> set (rs_admissions db)"
    and run: "grant rd now p a db = Inr db'"
  shows "permits_bounded now db'"
proof -
  let ?db1 = "db\<lparr>rs_executions := delete_rows (\<lambda>e. xe_operation e = ad_operation a \<and> xe_closed_at e \<noteq> None)
      (rs_executions db)\<rparr>"
  from run obtain db2 db3 where
    db2: "drop_permits (\<lambda>q. pm_operation q = ad_operation a \<and> pm_expires_at q \<le> now) ?db1 = Inr db2" and
    db3: "save_admission (granted_admission now (rd_fresh rd 0) a) db2 = Inr db3" and
    db': "same_tables db3 db'"
    by (auto simp: grant_def Let_def bind_result_eq_Inr same_tables_def)
  have "a \<in> set (rs_admissions db2)" using db2 a by (simp add: drop_permits_Inr)
  with permits_bounded_put [OF permits_bounded_drop [OF permits_bounded_delete_executions [OF bounded] db2] db3]
  have "permits_bounded now db3" by (simp add: granted_admission_def)
  then show ?thesis by (rule permits_bounded_frame) (use db' in \<open>auto simp: same_tables_def\<close>)
qed

interpretation bounding: grant_loop vg now k limit "\<lambda>_ db. permits_bounded now db" "\<lambda>_ _. True"
  for vg now k limit
proof (unfold_locales, goal_cases)
  case (3 used db p a rd db')
  then show ?case using permits_bounded_grant next_eligible_Some(1) by blast
next
  case (4 used db p a db')
  then show ?case using permits_bounded_put [OF _ 4(4) next_eligible_Some(1) [OF 4(3)]]
    by (simp add: expired_admission_def)
qed auto

lemma permits_bounded_moved:
  assumes bounded: "permits_bounded now db" and moved: "execution_moved R db db'"
    and progress: "\<And>e e'. R e e' \<Longrightarrow> progresses e e'"
  shows "permits_bounded now db'"
proof (rule permits_boundedI [OF bounded])
  have rows: "rs_admissions db' = rs_admissions db" "rs_permits db' = rs_permits db"
    using moved by (auto simp: execution_moved_def same_frame_def same_tables_def set_execution_Inr)
  then show "\<And>b. b \<in> set (rs_admissions db') \<Longrightarrow> \<exists>a \<in> set (rs_admissions db). ad_request a = ad_request b" by auto
  fix i show "length (open_permits i now db') \<le> length (open_permits i now db)"
  proof (rule open_permits_le [OF rows(2)])
    fix p assume "unclosed_execution db' p"
    then obtain x where x: "x \<in> set (rs_executions db')" "xe_permit x = pm_id p" "xe_closed_at x = None"
      by (auto simp: unclosed_execution_def list_ex_iff)
    from moved x(1) consider "x \<in> set (rs_executions db)" | e where "e \<in> set (rs_executions db)" "R e x"
      by (auto simp: execution_moved_def same_frame_def same_tables_def set_execution_Inr in_update_rows
          split: if_splits)
    then have "unclosed_execution db p"
    proof cases
      case 1
      with x show ?thesis by (auto simp: unclosed_execution_def list_ex_iff)
    next
      case 2
      with progress x have "xe_permit e = pm_id p" "xe_closed_at e = None"
        by (auto simp: progresses_def execution_key_def)
      with 2(1) show ?thesis by (auto simp: unclosed_execution_def list_ex_iff)
    qed
    then show "unclosed_execution db p \<or> now < pm_expires_at p" ..
  qed
qed

lemma permits_bounded_open:
  assumes inv: "resource_inv db" and bounded: "permits_bounded now db"
    and a: "a \<in> set (rs_admissions db)" "permit_for a p"
    and room: "length (open_permits (ad_operation a) now db) < permit_bound (ad_kind a)"
    and run: "insert_permit p db = Inr db'"
  shows "permits_bounded now db'"
  unfolding permits_bounded_def
proof
  note db' = run [unfolded insert_permit_Inr]
  fix b assume "b \<in> set (rs_admissions db')"
  then have b: "b \<in> set (rs_admissions db)" using db' by auto
  have "open_at i now db' = open_at i now db" for i
    using db' by (auto simp: open_at_def unclosed_execution_def)
  then have "length (open_permits i now db') =
      length (open_permits i now db) + (if open_at i now db p then 1 else 0)" for i
    using db' by (simp add: open_permits_count)
  moreover have "\<not> open_at (ad_operation b) now db p" if "ad_operation b \<noteq> ad_operation a"
    using that a(2) by (simp add: open_at_def permit_for_def)
  ultimately show "length (open_permits (ad_operation b) now db') \<le> permit_bound (ad_kind b)"
    using room bounded b admission_unique [OF inv b a(1)]
    by (cases "ad_operation b = ad_operation a") (auto simp: permits_bounded_def)
qed

lemma permits_bounded_renew:
  assumes inv: "resource_inv db" and bounded: "permits_bounded now db"
    and run: "renew_permit p now db = Inr (q, db')"
  shows "permits_bounded now db'"
proof -
  from run obtain row where row: "find_permit (ip_id p) db = Some row" "now < pm_expires_at row"
    and db': "db' = db\<lparr>rs_permits := update_rows (\<lambda>r. pm_id r = ip_id p) (renewed_permit now) (rs_permits db)\<rparr>"
    by (rule renew_permit_Inr)
  from row(1) have in_row: "row \<in> set (rs_permits db)" "pm_id row = ip_id p"
    by (auto simp: find_permit_def dest: find_eq_Some_unique)
  have live: "now < pm_expires_at r" if "r \<in> set (rs_permits db)" "pm_id r = ip_id p" for r
    using permit_unique [OF inv that(1) in_row(1)] that(2) in_row(2) row(2) by simp
  show ?thesis
  proof (rule permits_boundedI [OF bounded])
    fix i show "length (open_permits i now db') \<le> length (open_permits i now db)"
      unfolding open_permits_count db'
      by (simp, rule count_update_rows)
        (auto simp: open_at_def renewed_permit_def unclosed_execution_def live split: if_splits)
  qed (auto simp: db')
qed

lemma permits_bounded_prepare:
  assumes inv: "resource_inv db" and bounded: "permits_bounded now db"
    and run: "prepare t now db = Inr (s, db')"
  shows "permits_bounded now db'"
proof -
  from run have live: "ticket_live_permit t now db = Inr ()" by (simp add: prepare_def bind_result_eq_Inr)
  from run have rows: "rs_admissions db' = rs_admissions db" "rs_permits db' = rs_permits db"
    "rs_executions db' = rs_executions db \<or> rs_executions db' = rs_executions db @ [prepared_row t now]"
    by (auto simp: prepare_def bind_result_eq_Inr Let_def register_provider_staging_def
        split: if_splits option.splits)
  from live obtain row where row: "row \<in> set (rs_permits db)" "same_permit (et_permit t) row" "now < pm_expires_at row"
    by (auto simp: ticket_live_permit_def find_permit_def split: option.splits dest: find_eq_Some_unique)
  show ?thesis
  proof (rule permits_boundedI [OF bounded])
    fix i show "length (open_permits i now db') \<le> length (open_permits i now db)"
    proof (rule open_permits_le [OF rows(2)])
      fix p assume p: "p \<in> set (rs_permits db)" "unclosed_execution db' p"
      from p(2) rows(3) have "unclosed_execution db p \<or> pm_id p = pm_id row"
        using row(2) by (auto simp: unclosed_execution_def prepared_row_def same_permit_def)
      with permit_unique [OF inv p(1) row(1)] row(3)
      show "unclosed_execution db p \<or> now < pm_expires_at p" by auto
    qed
  qed (auto simp: rows(1))
qed

lemma permits_bounded_orphan:
  assumes bounded: "permits_bounded now db" and run: "orphan_stale now n db = (m, db')"
  shows "permits_bounded now db'"
proof (rule permits_boundedI [OF bounded])
  fix i show "length (open_permits i now db') \<le> length (open_permits i now db)"
  proof (rule open_permits_le)
    fix p assume "unclosed_execution db' p"
    then obtain x where x: "x \<in> set (rs_executions db')" "xe_permit x = pm_id p" "xe_closed_at x = None"
      by (auto simp: unclosed_execution_def list_ex_iff)
    from orphan_rows [OF run x(1)] obtain e where "e \<in> set (rs_executions db)" "x = e \<or> x = orphan_row e"
      by blast
    with x(2,3) have "unclosed_execution db p"
      by (auto simp: unclosed_execution_def list_ex_iff orphan_row_def)
    then show "unclosed_execution db p \<or> now < pm_expires_at p" ..
  qed (use run in \<open>auto simp: orphan_stale_def Let_def\<close>)
qed (use run in \<open>auto simp: orphan_stale_def Let_def\<close>)

lemma table_step_permits:
  assumes inv: "resource_inv db" and bounded: "permits_bounded now db" and step: "table_step now db db'"
  shows "permits_bounded now db'"
  using step
proof cases
  case (ts_save a a')
  show ?thesis
    by (rule permits_bounded_put [OF bounded ts_save(3,1)]) (use ts_save(2) in \<open>simp add: calmer_def\<close>)
next
  case (ts_insert a)
  note frame = save_admission_frame(1,2,8) [OF ts_insert(4)]
  have none: "open_permits (ad_operation a) now db' = []"
  proof -
    have "pm_operation p \<noteq> ad_operation a" if p: "p \<in> set (rs_permits db)" for p
    proof -
      obtain b where "b \<in> set (rs_admissions db)" "permit_for b p" using permit_admission [OF inv p] .
      with ts_insert(1) show ?thesis by (auto simp: find_admission_def find_None_iff permit_for_def)
    qed
    then show ?thesis by (auto simp: open_permits_def frame filter_empty_conv)
  qed
  have same: "open_permits i now db' = open_permits i now db" for i
    by (simp add: open_permits_def frame unclosed_execution_def)
  show ?thesis
    using bounded none by (auto simp: permits_bounded_def frame(3) in_put_admission same)
next
  case (ts_advance vg rd n m)
  with bounded show ?thesis
    by (auto simp: advance_def bind_result_eq_Inr split: option.splits dest!: bounding.loop)
next
  case (ts_open a p)
  show ?thesis by (rule permits_bounded_open [OF inv bounded ts_open(1,3,5,6)])
next
  case (ts_renew p q)
  show ?thesis by (rule permits_bounded_renew [OF inv bounded ts_renew])
next
  case (ts_close p)
  then obtain P Q where "drop_permits P (db\<lparr>rs_executions := delete_rows Q (rs_executions db)\<rparr>) = Inr db'"
    by (auto simp: close_permit_def split: if_splits)
  then show ?thesis by (rule permits_bounded_drop [OF permits_bounded_delete_executions [OF bounded]])
next
  case (ts_prepare t s)
  show ?thesis by (rule permits_bounded_prepare [OF inv bounded ts_prepare])
next
  case (ts_started t child s)
  show ?thesis by (rule permits_bounded_moved [OF bounded started_moved [OF ts_started]]) auto
next
  case (ts_heartbeat t s)
  show ?thesis by (rule permits_bounded_moved [OF bounded heartbeat_moved [OF ts_heartbeat]]) auto
next
  case (ts_stop t s)
  show ?thesis by (rule permits_bounded_moved [OF bounded stop_moved [OF ts_stop]]) auto
next
  case (ts_exit v t s)
  show ?thesis by (rule permits_bounded_moved [OF bounded exit_moved [OF ts_exit(2)]]) auto
next
  case (ts_orphan n m)
  show ?thesis by (rule permits_bounded_orphan [OF bounded ts_orphan])
next
  case (ts_drop_executions P)
  show ?thesis unfolding ts_drop_executions(1) by (rule permits_bounded_delete_executions [OF bounded])
next
  case (ts_drop_permits P)
  show ?thesis by (rule permits_bounded_drop [OF bounded ts_drop_permits(2)])
next
  case (ts_forget P)
  show ?thesis by (rule permits_bounded_frame [OF bounded]) (auto simp: ts_forget(1))
next
  case (ts_terminate user device family mode only)
  then have rows: "rs_admissions db' = update_rows (terminated user device family mode only)
      (withdrawn_admission now) (rs_admissions db)" "rs_permits db' = rs_permits db"
    "rs_executions db' = rs_executions db"
    by (auto simp: terminate_resource_authority_def split: if_splits)
  show ?thesis
  proof (rule permits_bounded_frame [OF bounded rows(2,3)])
    fix b assume "b \<in> set (rs_admissions db')"
    then show "\<exists>a \<in> set (rs_admissions db). ad_request a = ad_request b"
      unfolding rows(1) by (rule in_update_rowsE) (auto simp: withdrawn_admission_def)
  qed
next
  case ts_other
  show ?thesis
    by (rule permits_bounded_frame [OF bounded]) (use ts_other in \<open>auto simp: same_frame_def same_tables_def\<close>)
qed

definition permits_safe :: "instant \<times> resource_db \<Rightarrow> bool" where
  "permits_safe s \<longleftrightarrow> (case s of (now, db) \<Rightarrow> resource_inv db \<and> permits_bounded now db)"

interpretation safe_tables: component "table_step now" "\<lambda>db. permits_safe (now, db)" for now
  by unfold_locales (auto simp: permits_safe_def intro: table_step_inv table_step_permits)

interpretation permits: component resource_step permits_safe
proof
  fix s t :: "instant \<times> resource_db"
  assume safe: "permits_safe s" and step: "resource_step s t"
  obtain now db where s: "s = (now, db)" by (cases s)
  obtain now' db' where t: "t = (now', db')" by (cases t)
  from step s t have later: "now \<le> now'" and served: "served now' db db'" by simp_all
  from safe s have inv: "resource_inv db" and "permits_bounded now db" by (simp_all add: permits_safe_def)
  then have "permits_bounded now' db" by (auto intro: permits_boundedI open_permits_later [OF later])
  with inv have "permits_safe (now', db)" by (simp add: permits_safe_def)
  with safe_tables.run_inv [OF served_run [OF inv served]] t show "permits_safe t" by blast
qed

subsection \<open>Executions\<close>

text \<open>The states an execution may move to: it closes once, and a clock never closes it.\<close>

fun moves_to :: "execution_state \<Rightarrow> execution_state set" where
  "moves_to ExAbsent = {}"
| "moves_to ExPrepared = {ExPrepared, ExRunning, ExStopping, ExOrphaned, ExClosed}"
| "moves_to ExRunning = {ExRunning, ExStopping, ExOrphaned, ExClosed}"
| "moves_to ExStopping = {ExStopping, ExOrphaned, ExClosed}"
| "moves_to ExOrphaned = {ExOrphaned, ExClosed}"
| "moves_to ExClosed = {}"

definition lifecycle :: "execution_row \<Rightarrow> execution_row \<Rightarrow> bool" where
  "lifecycle e e' \<longleftrightarrow>
     e' = e \<or> execution_key e' = execution_key e \<and> xe_state e' \<in> moves_to (xe_state e)"

lemma lifecycle_refl [simp]: "lifecycle e e"
  by (simp add: lifecycle_def)

lemma stored_state:
  assumes inv: "resource_inv db" and e: "e \<in> set (rs_executions db)"
  shows "xe_closed_at e = None \<longleftrightarrow> xe_state e \<noteq> ExClosed" and "xe_state e \<noteq> ExAbsent"
proof -
  have "execution_row_checks e" using resource_invD(3) [OF inv] e by (simp add: executions_ok_def)
  then show "xe_closed_at e = None \<longleftrightarrow> xe_state e \<noteq> ExClosed" "xe_state e \<noteq> ExAbsent"
    by (auto simp: execution_row_checks_def execution_closure_check_def split: if_splits option.splits)
qed

lemma moved_lifecycle:
  assumes inv: "resource_inv db" and moved: "execution_moved R db db'"
    and moves: "\<And>e e'. e \<in> set (rs_executions db) \<Longrightarrow> R e e' \<Longrightarrow> lifecycle e e'"
    and x: "x \<in> set (rs_executions db')"
  shows "\<exists>e \<in> set (rs_executions db). lifecycle e x"
proof -
  from moved x have "x \<in> set (rs_executions db) \<or> (\<exists>e \<in> set (rs_executions db). R e x)"
    by (auto simp: execution_moved_def same_frame_def same_tables_def set_execution_Inr in_update_rows
        split: if_splits)
  with moves show ?thesis by (metis lifecycle_refl)
qed

text \<open>Grants only remove executions.\<close>

interpretation executions: grant_loop vg now k limit "\<lambda>_ db. set (rs_executions db) \<subseteq> E" "\<lambda>_ _. True"
  for vg now k limit E
proof (unfold_locales, goal_cases)
  case (3 used db p a rd db')
  then show ?case by (auto simp: grant_def Let_def bind_result_eq_Inr drop_permits_Inr save_admission_Inr)
next
  case (4 used db p a db')
  then show ?case by (simp add: save_admission_frame(2) [OF 4(4)])
qed auto

lemma advance_cases:
  assumes "advance vg rd now n db = Inr (m, db')"
  obtains "db' = db"
    | pc tc m1 m2 db1 where "advance_kind vg rd now PLAYBACK pc n (server_used now PLAYBACK db) db = Inr (m1, db1)"
      and "advance_kind vg (later_readings (2 * n) rd) now TRANSFER tc n (server_used now TRANSFER db1) db1
        = Inr (m2, db')"
proof -
  from assms obtain p where "rs_policy db = Some p"
    by (auto simp: advance_def bind_result_eq_Inr resource_policy_def split: option.splits)
  with assms that show thesis
    by (cases "qp_global_playbacks p"; cases "qp_global_transfers p")
      (auto simp: advance_def bind_result_eq_Inr resource_policy_def)
qed

lemma advance_executions:
  assumes "advance vg rd now n db = Inr (m, db')"
  shows "set (rs_executions db') \<subseteq> set (rs_executions db)"
  using assms
proof (rule advance_cases)
  fix pc tc m1 m2 db1
  assume "advance_kind vg rd now PLAYBACK pc n (server_used now PLAYBACK db) db = Inr (m1, db1)"
    and "advance_kind vg (later_readings (2 * n) rd) now TRANSFER tc n (server_used now TRANSFER db1) db1
      = Inr (m2, db')"
  from executions.loop [OF this(1)] executions.loop [OF this(2)] show ?thesis by blast
qed simp

text \<open>Every row afterwards was there before, moved on, or has just been prepared under a new id.\<close>

lemma table_step_lifecycle:
  assumes inv: "resource_inv db" and step: "table_step now db db'" and x: "x \<in> set (rs_executions db')"
  shows "(\<exists>e \<in> set (rs_executions db). lifecycle e x)
    \<or> xe_state x = ExPrepared \<and> (\<forall>e \<in> set (rs_executions db). xe_id e \<noteq> xe_id x)"
proof -
  have kept: ?thesis if "x \<in> set (rs_executions db)" using that lifecycle_refl by blast
  show ?thesis
    using step
  proof cases
  case (ts_started t child s)
  have "\<exists>e \<in> set (rs_executions db). lifecycle e x"
    by (rule moved_lifecycle [OF inv started_moved [OF ts_started] _ x])
      (auto simp: lifecycle_def execution_key_def started_row_def)
  then show ?thesis ..
next
  case (ts_heartbeat t s)
  have "lifecycle e e'"
    if "e \<in> set (rs_executions db)" "xe_state e \<in> {ExPrepared, ExRunning} \<and> e' = e\<lparr>xe_heartbeat_at := now\<rparr>" for e e'
    using that(2) unfolding lifecycle_def by (intro disjI2) (auto simp: execution_key_def)
  from moved_lifecycle [OF inv heartbeat_moved [OF ts_heartbeat] this x] show ?thesis by (rule disjI1)
next
  case (ts_stop t s)
  have "lifecycle e e'" if "e \<in> set (rs_executions db)" "xe_state e \<noteq> ExClosed \<and> e' = stopped_row now e" for e e'
  proof -
    have "xe_state (stopped_row now e) \<in> moves_to (xe_state e)"
      using that stored_state(2) [OF inv that(1)] by (cases "xe_state e") (simp_all add: stopped_row_def)
    then show ?thesis using that(2) by (simp add: lifecycle_def execution_key_def stopped_row_def)
  qed
  from moved_lifecycle [OF inv stop_moved [OF ts_stop] this x] show ?thesis by (rule disjI1)
next
  case (ts_exit v t s)
  have "lifecycle e (closed_row v now e)" if "e \<in> set (rs_executions db)" "xe_state e \<noteq> ExClosed" for e
  proof -
    have "xe_state (closed_row v now e) \<in> moves_to (xe_state e)"
      using that stored_state(2) [OF inv that(1)] by (cases "xe_state e") (simp_all add: closed_row_def)
    then show ?thesis by (simp add: lifecycle_def execution_key_def closed_row_def)
  qed
  then show ?thesis using moved_lifecycle [OF inv exit_moved [OF ts_exit(2)] _ x] by (intro disjI1) blast
next
  case (ts_orphan n m)
  let ?ids = "first_ids n (\<lambda>e. (xe_heartbeat_at e, xe_id e)) (stale_execution now) xe_id (rs_executions db)"
  from ts_orphan have "x \<in> set (update_rows (\<lambda>e. xe_id e \<in> set ?ids) orphan_row (rs_executions db))"
    using x by (auto simp: orphan_stale_def Let_def)
  then show ?thesis
  proof (rule in_update_rowsE)
    fix e assume e: "e \<in> set (rs_executions db)" "xe_id e \<in> set ?ids" "x = orphan_row e"
    from first_ids_in [OF e(2)] obtain e' where "e' \<in> set (rs_executions db)" "stale_execution now e'"
      "xe_id e' = xe_id e" by blast
    with execution_unique [OF inv _ e(1)] have "stale_execution now e" by blast
    then have "lifecycle e x" by (auto simp: e(3) stale_execution_def lifecycle_def orphan_row_def execution_key_def)
    with e(1) show ?thesis by blast
  qed (use lifecycle_refl in blast)
next
  case (ts_prepare t s)
  then have "rs_executions db' = rs_executions db
      \<or> find_execution (et_execution t) db = None \<and> rs_executions db' = rs_executions db @ [prepared_row t now]"
    by (auto simp: prepare_def bind_result_eq_Inr Let_def register_provider_staging_def
        split: if_splits option.splits)
  with x consider "x \<in> set (rs_executions db)"
    | "find_execution (et_execution t) db = None" "x = prepared_row t now" by auto
  then show ?thesis
  proof cases
    case 1
    then show ?thesis by (rule kept)
  next
    case 2
    then show ?thesis by (auto simp: find_execution_def find_None_iff prepared_row_def)
  qed
next
  case (ts_renew p q)
  with x have "x \<in> set (rs_executions db)" by (auto elim!: renew_permit_Inr)
  then show ?thesis by (rule kept)
next
  case (ts_close p)
  then obtain P Q where "drop_permits P (db\<lparr>rs_executions := delete_rows Q (rs_executions db)\<rparr>) = Inr db'"
    by (auto simp: close_permit_def split: if_splits)
  with x have "x \<in> set (rs_executions db)" by (auto simp: drop_permits_Inr)
  then show ?thesis by (rule kept)
next
  case (ts_advance vg rd n m)
  from advance_executions [OF this] x show ?thesis by (intro kept) blast
next
  case ts_other
  then show ?thesis using x by (intro kept) (simp add: same_frame_def same_tables_def)
next
  case (ts_save a a')
  show ?thesis using x unfolding save_admission_frame(2) [OF ts_save(3)] by (rule kept)
next
  case (ts_insert a)
  show ?thesis using x unfolding save_admission_frame(2) [OF ts_insert(4)] by (rule kept)
next
  case (ts_open a p)
  then show ?thesis using x by (intro kept) (auto simp: insert_permit_Inr)
next
  case (ts_drop_permits P)
  then show ?thesis using x by (intro kept) (auto simp: drop_permits_Inr)
next
  case (ts_drop_executions P)
  then show ?thesis using x by (intro kept) simp
next
  case (ts_forget P)
  then show ?thesis using x by (intro kept) simp
next
  case (ts_terminate user device family mode only)
  then show ?thesis using x by (intro kept) (auto simp: terminate_resource_authority_def split: if_splits)
qed
qed

end
