(* ===== verification/Resource_Behaviour.thy ===== *)
theory Resource_Behaviour
  imports Resource_Facts
begin

text \<open>
  What the operations guarantee to their callers: executions end with evidence, I/O needs a live
  activation, a worker needs its lease, an authenticated authority is accepted by the gate, and a
  withdrawal leaves nothing but draining I/O.
\<close>

subsection \<open>Executions end with evidence\<close>

text \<open>The row of an execution stays, unclosed, except where evidence for it is confirmed.\<close>

definition unclosed_row :: "execution_row \<Rightarrow> resource_db \<Rightarrow> bool" where
  "unclosed_row e db \<longleftrightarrow>
     (\<exists>x \<in> set (rs_executions db). execution_key x = execution_key e \<and> xe_closed_at x = None)"

definition exit_confirmed :: "execution_row \<Rightarrow> instant \<Rightarrow> resource_db \<Rightarrow> resource_db \<Rightarrow> bool" where
  "exit_confirmed e now db db' \<longleftrightarrow>
     (\<exists>t v s x. check_exit_evidence v = Inr v \<and> confirm_exit t v now db = Inr (s, db')
        \<and> x \<in> set (rs_executions db) \<and> execution_key x = execution_key e \<and> et_execution t = xe_id x
        \<and> row_child x = Inr (ev_child v)
        \<and> (ev_kind v = NotStarted \<longrightarrow> xe_state x \<in> {ExPrepared, ExStopping}))"

lemma unclosed_rowI: "x \<in> set (rs_executions db) \<Longrightarrow> execution_key x = execution_key e \<Longrightarrow>
    xe_closed_at x = None \<Longrightarrow> unclosed_row e db"
  by (auto simp: unclosed_row_def)

lemma unclosed_row_keep: "unclosed_row e db \<Longrightarrow> set (rs_executions db) \<subseteq> set (rs_executions db') \<Longrightarrow> unclosed_row e db'"
  by (auto simp: unclosed_row_def)

lemma unclosed_row_delete:
  assumes "unclosed_row e db" and "\<And>x. P x \<Longrightarrow> xe_closed_at x \<noteq> None"
    and "rs_executions db' = delete_rows P (rs_executions db)"
  shows "unclosed_row e db'"
proof -
  from assms(1) obtain x where x: "x \<in> set (rs_executions db)" "execution_key x = execution_key e" "xe_closed_at x = None"
    by (auto simp: unclosed_row_def)
  with assms(2) [of x] have "x \<in> set (rs_executions db')" by (auto simp: assms(3))
  with x(2,3) show ?thesis by (intro unclosed_rowI)
qed

lemma open_rows [simp]:
  "xe_closed_at (started_row child now x) = xe_closed_at x" "xe_closed_at (stopped_row now x) = xe_closed_at x"
  by (simp_all add: started_row_def stopped_row_def)

lemma drop_permits_executions: "drop_permits P db = Inr db' \<Longrightarrow> rs_executions db' = rs_executions db"
  by (auto simp: drop_permits_Inr)

text \<open>An operation on one row keeps the unclosed rows unless it closes that row.\<close>

lemma unclosed_row_moved:
  assumes inv: "resource_inv db" and unclosed: "unclosed_row e db" and moved: "execution_moved R db db'"
    and keeps: "\<And>x x'. R x x' \<Longrightarrow> progresses x x' \<and> (xe_closed_at x = None \<longrightarrow> xe_closed_at x' = None)"
  shows "unclosed_row e db'"
  using moved unfolding execution_moved_def
proof (elim disjE exE conjE)
  assume "same_frame db db'"
  with unclosed show ?thesis by (auto simp: same_frame_def same_tables_def unclosed_row_def)
next
  fix x x' db1
  assume x: "x \<in> set (rs_executions db)" "R x x'" "same_frame db db1" "set_execution x' db1 = Inr db'"
  from unclosed obtain y where y: "y \<in> set (rs_executions db)" "execution_key y = execution_key e" "xe_closed_at y = None"
    by (auto simp: unclosed_row_def)
  have rows: "rs_executions db' = update_rows (\<lambda>r. xe_id r = xe_id x') (\<lambda>_. x') (rs_executions db)"
    using x(3,4) by (auto simp: set_execution_Inr same_frame_def same_tables_def)
  have key: "execution_key x' = execution_key x" using keeps [OF x(2)] by (simp add: progresses_def)
  then have id: "xe_id x' = xe_id x" by (simp add: execution_key_def)
  show ?thesis
  proof (cases "xe_id y = xe_id x")
    case True
    with execution_unique [OF inv y(1) x(1)] have "y = x" by simp
    moreover have "x' \<in> set (rs_executions db')" unfolding rows in_update_rows using x(1) id by force
    ultimately show ?thesis using key y(2,3) keeps [OF x(2)] by (auto simp: unclosed_row_def)
  next
    case False
    then have "y \<in> set (rs_executions db')" unfolding rows in_update_rows using y(1) id by force
    with y(2,3) show ?thesis by (auto simp: unclosed_row_def)
  qed
qed

lemma unclosed_row_exit:
  assumes inv: "resource_inv db" and unclosed: "unclosed_row e db"
    and evidence: "check_exit_evidence v = Inr v" and run: "confirm_exit t v now db = Inr (s, db')"
  shows "unclosed_row e db' \<or> exit_confirmed e now db db'"
proof (cases "\<exists>x \<in> set (rs_executions db). execution_key x = execution_key e \<and> et_execution t = xe_id x
      \<and> row_child x = Inr (ev_child v) \<and> (ev_kind v = NotStarted \<longrightarrow> xe_state x \<in> {ExPrepared, ExStopping})")
  case True
  with evidence run show ?thesis unfolding exit_confirmed_def by blast
next
  case False
  show ?thesis
  proof (cases "absent t db")
    case True
    with run unclosed show ?thesis by (simp add: confirm_exit_def)
  next
    case absent: False
    with run obtain x s0 where x: "ticket_row t db = Inr x" "status_row x t = Inr s0" "ev_child v = es_child s0"
      and effect: "db' = db \<or> (ev_kind v = NotStarted \<longrightarrow> xe_state x \<in> {ExPrepared, ExStopping})
        \<and> (\<exists>db1. preserve_provider_exit (closed_row v now x) now db = Inr db1
             \<and> set_execution (closed_row v now x) db1 = Inr db')"
      by (auto simp: confirm_exit_def bind_result_eq_Inr split: if_splits)
    note row = ticket_row_Inr [OF x(1)]
    have child: "row_child x = Inr (ev_child v)" using x(2,3) by (auto simp: status_row_def bind_result_eq_Inr)
    from unclosed obtain y where y: "y \<in> set (rs_executions db)" "execution_key y = execution_key e" "xe_closed_at y = None"
      by (auto simp: unclosed_row_def)
    from effect show ?thesis
    proof (elim disjE conjE exE)
      fix db1 assume kind: "ev_kind v = NotStarted \<longrightarrow> xe_state x \<in> {ExPrepared, ExStopping}"
        and db1: "preserve_provider_exit (closed_row v now x) now db = Inr db1"
        and db': "set_execution (closed_row v now x) db1 = Inr db'"
      have "y \<noteq> x" using False child kind row y(2) by auto
      then have "xe_id y \<noteq> xe_id x" using execution_unique [OF inv y(1) row(1)] by blast
      moreover have "rs_executions db1 = rs_executions db"
        using db1 by (auto simp: preserve_provider_exit_def split: if_splits option.splits)
      ultimately have "y \<in> set (rs_executions db')"
        using y(1) db' by (auto simp: set_execution_Inr in_update_rows closed_row_def intro!: bexI [of _ y])
      with y(2,3) have "unclosed_row e db'" by (auto simp: unclosed_row_def)
      then show ?thesis ..
    qed (use unclosed in simp)
  qed
qed

interpretation unclosed: grant_loop vg now k limit "\<lambda>_ db. unclosed_row e db" "\<lambda>_ _. True"
  for vg now k limit e
proof (unfold_locales, goal_cases)
  case (3 used db p a rd db')
  from 3(5) have "rs_executions db' = delete_rows (\<lambda>e. xe_operation e = ad_operation a \<and> xe_closed_at e \<noteq> None)
      (rs_executions db)"
    by (auto simp: grant_def Let_def bind_result_eq_Inr drop_permits_Inr save_admission_Inr)
  from unclosed_row_delete [OF 3(1) _ this] show ?case by simp
next
  case (4 used db p a db')
  then show ?case by (simp add: unclosed_row_def save_admission_frame(2) [OF 4(4)])
qed (auto simp: unclosed_row_def)

lemma table_step_unclosed:
  assumes inv: "resource_inv db" and unclosed: "unclosed_row e db" and step: "table_step now db db'"
  shows "unclosed_row e db' \<or> exit_confirmed e now db db'"
proof -
  have same: "unclosed_row e d" if "rs_executions d = rs_executions db" for d
    using that unclosed by (simp add: unclosed_row_def)
  show ?thesis
    using step
  proof cases
    case (ts_exit v t s)
    show ?thesis by (rule unclosed_row_exit [OF inv unclosed ts_exit])
  next
    case (ts_started t child s)
    show ?thesis
      by (rule disjI1, rule unclosed_row_moved [OF inv unclosed started_moved [OF ts_started]])
        auto
  next
    case (ts_heartbeat t s)
    show ?thesis
      by (rule disjI1, rule unclosed_row_moved [OF inv unclosed heartbeat_moved [OF ts_heartbeat]]) auto
  next
    case (ts_stop t s)
    show ?thesis
      by (rule disjI1, rule unclosed_row_moved [OF inv unclosed stop_moved [OF ts_stop]])
        auto
  next
    case (ts_advance vg rd n m)
    then show ?thesis
      using unclosed by (rule_tac advance_cases) (auto dest!: unclosed.loop)
  next
    case (ts_orphan n m)
    then obtain ids where rows: "rs_executions db' = update_rows (\<lambda>e. xe_id e \<in> ids) orphan_row (rs_executions db)"
      by (auto simp: orphan_stale_def Let_def)
    from unclosed obtain y where y: "y \<in> set (rs_executions db)" "execution_key y = execution_key e" "xe_closed_at y = None"
      by (auto simp: unclosed_row_def)
    then have "(if xe_id y \<in> ids then orphan_row y else y) \<in> set (rs_executions db')"
      unfolding rows in_update_rows by blast
    moreover have "execution_key (orphan_row y) = execution_key y \<and> xe_closed_at (orphan_row y) = xe_closed_at y"
      by (simp add: orphan_row_def execution_key_def)
    ultimately show ?thesis
      using y(2,3) unfolding unclosed_row_def by (intro disjI1) (cases "xe_id y \<in> ids"; auto)
  next
    case (ts_prepare t s)
    then have "set (rs_executions db) \<subseteq> set (rs_executions db')"
      by (auto simp: prepare_def bind_result_eq_Inr Let_def register_provider_staging_def
          split: if_splits option.splits)
    with unclosed_row_keep [OF unclosed] show ?thesis by blast
  next
    case (ts_close p)
    let ?Q = "\<lambda>e. list_ex (\<lambda>row. same_permit p row \<and> pm_id row = xe_permit e) (rs_permits db)
      \<and> xe_closed_at e \<noteq> None"
    from ts_close have "drop_permits (same_permit p)
        (db\<lparr>rs_executions := delete_rows ?Q (rs_executions db)\<rparr>) = Inr db'"
      unfolding close_permit_def by (simp split: if_splits)
    from drop_permits_executions [OF this] have "rs_executions db' = delete_rows ?Q (rs_executions db)"
      by simp
    then show ?thesis
      by (intro disjI1, elim unclosed_row_delete [OF unclosed, rotated]) (erule conjunct2)
  next
    case (ts_drop_executions P)
    from unclosed_row_delete [where db' = db', OF unclosed ts_drop_executions(2)] show ?thesis
      by (simp add: ts_drop_executions(1))
  next
    case (ts_renew p q)
    then show ?thesis by (rule renew_permit_Inr) (auto intro: same)
  next
    case (ts_save a a')
    show ?thesis by (rule disjI1, rule same, rule save_admission_frame(2) [OF ts_save(3)])
  next
    case (ts_insert a)
    show ?thesis by (rule disjI1, rule same, rule save_admission_frame(2) [OF ts_insert(4)])
  next
    case (ts_open a p)
    then show ?thesis by (intro disjI1 same) (simp add: insert_permit_Inr)
  next
    case (ts_drop_permits P)
    then show ?thesis by (intro disjI1 same) (simp add: drop_permits_Inr)
  next
    case (ts_forget P)
    then show ?thesis by (intro disjI1 same) simp
  next
    case (ts_terminate user device family mode only)
    then show ?thesis by (intro disjI1 same) (auto simp: terminate_resource_authority_def split: if_splits)
  next
    case ts_other
    then show ?thesis by (intro disjI1 same) (simp add: same_frame_def same_tables_def)
  qed
qed

text \<open>The history of the tables write by write.\<close>

fun write_step :: "instant \<times> resource_db \<Rightarrow> instant \<times> resource_db \<Rightarrow> bool" where
  "write_step (t, db) (t', db') \<longleftrightarrow> t \<le> t' \<and> table_step t' db db'"

abbreviation write_run :: "instant \<times> resource_db \<Rightarrow> instant \<times> resource_db \<Rightarrow> bool" where
  "write_run \<equiv> write_step\<^sup>*\<^sup>*"

lemma table_run_writes: "table_run t db db' \<Longrightarrow> write_run (t, db) (t, db')"
proof (induction rule: rtranclp_induct)
  case (step db1 db2)
  then have "write_step (t, db1) (t, db2)" by simp
  with step.IH show ?case by (rule rtranclp.rtrancl_into_rtrancl)
qed simp

lemma resource_run_writes:
  assumes "resource_run s s'" and "resource_inv (snd s)"
  shows "write_run s s'"
  using assms
proof (induction rule: rtranclp_induct)
  case (step s1 s2)
  obtain t1 db1 t2 db2 where s: "s1 = (t1, db1)" "s2 = (t2, db2)" by (cases s1; cases s2)
  have inv: "resource_inv db1" using admission.run_inv [OF step.hyps(1) step.prems] s by simp
  have served: "served t2 db1 db2" "t1 \<le> t2" using step.hyps(2) s by simp_all
  have "write_step (t1, db1) (t2, db1)" using served(2) by (simp add: ts_other)
  then have "write_run (t1, db1) (t2, db2)"
    using table_run_writes [OF served_run [OF inv served(1)]] by (rule converse_rtranclp_into_rtranclp)
  with step.IH [OF step.prems] s show ?case by (simp add: rtranclp_trans)
qed simp

interpretation writes: component write_step "\<lambda>s. resource_inv (snd s)"
proof
  fix s s' :: "instant \<times> resource_db"
  assume "resource_inv (snd s)" "write_step s s'"
  then show "resource_inv (snd s')" by (cases s; cases s') (auto intro: table_step_inv)
qed

lemma write_run_unclosed:
  assumes run: "write_run s s'" and inv: "resource_inv (snd s)" and unclosed: "unclosed_row e (snd s)"
  shows "unclosed_row e (snd s')
    \<or> (\<exists>t1 db1 db2. write_run s (t1, db1) \<and> exit_confirmed e t1 db1 db2 \<and> write_run (t1, db2) s')"
  using run
proof (induction rule: rtranclp_induct)
  case base
  with unclosed show ?case by simp
next
  case (step s1 s2)
  obtain t1 db1 t2 db2 where s: "s1 = (t1, db1)" "s2 = (t2, db2)" by (cases s1; cases s2)
  from step.hyps(2) have later: "t1 \<le> t2" and wrote: "table_step t2 db1 db2" by (simp_all add: s)
  have inv1: "resource_inv db1" using writes.run_inv [OF step.hyps(1) inv] s by simp
  from step.IH show ?case
  proof (elim disjE exE conjE)
    assume "unclosed_row e (snd s1)"
    with table_step_unclosed [OF inv1 _ wrote] s consider "unclosed_row e db2" | "exit_confirmed e t2 db1 db2"
      by auto
    then show ?case
    proof cases
      case 2
      have "write_step (t1, db1) (t2, db1)" using later by (simp add: ts_other)
      with step.hyps(1) [unfolded s(1)] have "write_run s (t2, db1)" by (rule rtranclp.rtrancl_into_rtrancl)
      with 2 s show ?thesis by blast
    qed (simp add: s)
  next
    fix t3 db3 db4
    assume "write_run s (t3, db3)" "exit_confirmed e t3 db3 db4" "write_run (t3, db4) s1"
    with step.hyps(2) show ?case by (meson rtranclp.rtrancl_into_rtrancl)
  qed
qed

subsection \<open>Authorities\<close>

lemma live_device_row:
  "live_device w user d \<Longrightarrow> list_ex (\<lambda>r. dv_id r = d \<and> dv_user r = user \<and> dv_revoked_at r = None) (at_devices w)"
  by (auto simp: live_device_def list_ex_iff split: option.splits dest: find_eq_Some_unique)

lemma authenticate_required:
  assumes "authenticate w clk p = Inr u"
  shows "gate_require vg w jobs clk True u = Inr ()"
proof -
  from assms obtain account s where account: "live_account w (pr_user p) = Some account"
    and s: "find (\<lambda>s. us_id s = pr_session p) (at_sessions w) = Some s"
    and device: "live_device w (pr_user p) (pr_device p)"
    and live: "us_user s = pr_user p" "us_device s = pr_device p" "us_revoked_at s = None" "clk < us_expires_at s"
      "us_mode s \<in> set session_modes"
    and u: "ra_user u = pr_user p" "ra_generation u = ua_generation account" "ra_kind u = DeviceSession"
      "ra_device u = Some (pr_device p)" "ra_session_family u = Some (session_family s)"
      "ra_session_mode u = Some (us_mode s)" "ra_job u = None"
    by (auto simp: authenticate_def split: option.splits if_splits)
  have "s \<in> set (at_sessions w)" using s by (auto dest: find_eq_Some_unique)
  then have "require_acquisition_session w clk (pr_user p) (Some (pr_device p)) (Some (session_family s))
      (Some (us_mode s)) = Inr ()"
    using live live_device_row [OF device]
    by (auto simp: require_acquisition_session_def require_def list_ex_iff)
  with account u show ?thesis by (simp add: gate_require_def)
qed

lemma authenticate_bridge_required:
  assumes "authenticate_bridge w user d = Inr u"
  shows "gate_require vg w jobs clk True u = Inr ()"
proof -
  from assms obtain account where "live_account w user = Some account" "ra_user u = user"
    "ra_generation u = ua_generation account" "ra_kind u = LocalBridge" "ra_device u = Some d" "ra_job u = None"
    by (auto simp: authenticate_bridge_def split: option.splits if_splits)
  with assms show ?thesis by (simp add: gate_require_def)
qed

lemma authenticate_actor_required:
  "authenticate_actor vg w jobs clk actor = Inr u \<Longrightarrow> gate_require vg w jobs clk True u = Inr ()"
  by (cases actor)
    (auto simp: authenticate_actor_def authenticate_acquisition_def bind_result_eq_Inr
      dest: authenticate_required authenticate_bridge_required split: option.splits if_splits)

lemma required_account:
  "gate_require vg w jobs clk execution u = Inr () \<Longrightarrow>
   \<exists>a. live_account w (ra_user u) = Some a \<and> ua_generation a = ra_generation u"
  by (auto simp: gate_require_def split: option.splits if_splits)

lemma acquisition_authority_fence:
  "acquisition_authority w job c = Inr u \<Longrightarrow>
     ra_job u = Some (lf_job (ac_fence c)) \<and> ra_job_worker u = Some (lf_worker (ac_fence c))
     \<and> ra_job_attempt u = Some (lf_attempt (ac_fence c))"
  by (auto simp: acquisition_authority_def Let_def split: if_splits option.splits)

lemma worker_lease:
  assumes "authenticate_acquisition vg w jobs clk c = Inr u"
  shows "\<exists>r. find_job jobs (lf_job (ac_fence c)) = Some r \<and> jr_state r = RUNNING
    \<and> jr_lease_owner r = Some (lf_worker (ac_fence c)) \<and> jr_attempts r = lf_attempt (ac_fence c)
    \<and> after (jr_lease_deadline r) clk \<and> jr_cancel_at r = None"
proof -
  from assms obtain job where job: "find_job jobs (lf_job (ac_fence c)) = Some job"
    and u: "acquisition_authority w job c = Inr u" and gate: "gate_require vg w jobs clk True u = Inr ()"
    by (auto simp: authenticate_acquisition_def bind_result_eq_Inr split: option.splits if_splits)
  note fence = acquisition_authority_fence [OF u]
  from gate job fence have "job_live job u True clk"
    by (auto simp: gate_require_def bind_result_eq_Inr require_def split: option.splits if_splits)
  with job fence show ?thesis by (auto simp: job_live_def)
qed

subsection \<open>Live activations\<close>

definition holds_activation :: "transaction \<Rightarrow> resource_actor \<Rightarrow> activation_fence \<Rightarrow> resource_db \<Rightarrow> bool" where
  "holds_activation tx actor f db \<longleftrightarrow>
     (\<exists>a \<in> set (rs_admissions db). ad_operation a = af_operation f
        \<and> tx_authenticate tx actor db = Inr (ad_authority a)
        \<and> admission_fence a = Inr (Some f) \<and> active_at a (tx_now tx))"

lemma holds_activationI:
  "owned tx actor (af_operation f) db = Inr a \<Longrightarrow> require_active a f (tx_now tx) = Inr u \<Longrightarrow>
   holds_activation tx actor f db"
  unfolding holds_activation_def
  by (intro bexI [of _ a]) (auto dest: owned_Inr(2,3) require_active_Inr intro: owned_Inr(1))

lemma renew_holds: "renew tx actor f db = Inr (s, db') \<Longrightarrow> holds_activation tx actor f db"
  by (auto simp: renew_def Let_def bind_result_eq_Inr intro: holds_activationI)

lemma attach_holds: "attach tx actor f n c x db = Inr (s, db') \<Longrightarrow> holds_activation tx actor f db"
  by (auto simp: attach_def Let_def bind_result_eq_Inr intro: holds_activationI)

lemma open_io_holds: "open_io tx actor f target ty db = Inr (q, db') \<Longrightarrow> holds_activation tx actor f db"
  by (auto simp: open_io_def Let_def bind_result_eq_Inr intro: holds_activationI)

lemma renew_io_holds: "renew_io tx actor p ty target db = Inr (q, db') \<Longrightarrow> holds_activation tx actor (ip_fence p) db"
  by (auto simp: renew_io_def Let_def bind_result_eq_Inr intro: holds_activationI)

lemma execution_authority_holds:
  "execution_authority tx actor t db = Inr now \<Longrightarrow> holds_activation tx actor (ip_fence (et_permit t)) db"
  by (auto simp: execution_authority_def Let_def bind_result_eq_Inr intro: holds_activationI)

lemma prepare_execution_holds:
  "prepare_execution tx actor t db = Inr (s, db') \<Longrightarrow> holds_activation tx actor (ip_fence (et_permit t)) db"
  by (auto simp: prepare_execution_def bind_result_eq_Inr intro: execution_authority_holds)

lemma start_execution_holds:
  "start_execution tx actor t child db = Inr (s, db') \<Longrightarrow> holds_activation tx actor (ip_fence (et_permit t)) db"
  by (auto simp: start_execution_def bind_result_eq_Inr intro: execution_authority_holds)

lemma renew_execution_holds:
  "renew_execution_io tx actor t db = Inr (p, db') \<Longrightarrow> holds_activation tx actor (ip_fence (et_permit t)) db"
  by (auto simp: renew_execution_io_def bind_result_eq_Inr intro: execution_authority_holds)

subsection \<open>Withdrawal\<close>

lemma terminate_rows:
  assumes "terminate_resource_authority user now device family mode only db = Inr db'"
  shows "db' = db\<lparr>rs_admissions := update_rows (terminated user device family mode only)
      (withdrawn_admission now) (rs_admissions db)\<rparr>"
  using assms by (auto simp: terminate_resource_authority_def split: if_splits)

lemma terminate_leaves_none:
  assumes "terminate_resource_authority user now device family mode only db = Inr db'"
    and "b \<in> set (rs_admissions db')"
  shows "\<not> terminated user device family mode only b"
proof -
  have withdrawn: "\<not> terminated user device family mode only (withdrawn_admission now a)" for a
    by (simp add: terminated_def withdrawn_admission_def)
  have "b \<in> set (update_rows (terminated user device family mode only) (withdrawn_admission now) (rs_admissions db))"
    using assms(2) unfolding terminate_rows [OF assms(1)] by simp
  then show ?thesis by (rule in_update_rowsE) (use withdrawn in auto)
qed

lemma terminate_draining:
  "terminate_resource_authority user now device family mode only db = Inr db' \<Longrightarrow>
   draining t i db' \<longleftrightarrow> draining t i db"
  by (drule terminate_rows) (simp add: draining_def)

subsection \<open>Attachments\<close>

lemma attach_bound:
  assumes run: "attach tx actor f n current nxt db = Inr (s, db')"
    and moved: "db' \<noteq> db"
  shows "card ({current} \<union> set_option nxt \<union> pm_target ` set (open_permits (af_operation f) (tx_now tx) db)) \<le> 2"
proof -
  have "map ip_target ps = map pm_target rows" if "map_result permit_of rows = Inr ps" for rows ps
    using that by (induction rows arbitrary: ps) (auto simp: bind_result_eq_Inr permit_of_def)
  then have targets: "ip_target ` set ps = pm_target ` set rows" if "map_result permit_of rows = Inr ps" for rows ps
    using that by (metis list.set_map)
  from run moved obtain ps where ps: "permits (af_operation f) (tx_now tx) db = Inr ps"
    and le: "\<not> 2 < card (set (remdups (current # (case nxt of None \<Rightarrow> [] | Some r \<Rightarrow> [r]))) \<union> ip_target ` set ps)"
    by (auto simp: attach_def Let_def bind_result_eq_Inr simp del: set_remdups split: if_splits)
  have "set (remdups (current # (case nxt of None \<Rightarrow> [] | Some r \<Rightarrow> [r]))) = {current} \<union> set_option nxt"
    by (cases nxt) auto
  with le targets [OF ps [unfolded permits_def]] show ?thesis by (simp add: Un_assoc)
qed

end
