(* ===== verification/Resource_Examples.thy ===== *)
theory Resource_Examples
  imports Resource_Behaviour
begin

text \<open>
  A concrete history of the admission tables, run by the operations themselves: two accounts ask for a
  playback, the budget allows one; the first attaches a recording and opens I/O with an execution. The
  vault accepts everything, the digest function is constant. The witnesses of the resource properties
  evaluate the operations here.
\<close>

definition rx_vault :: vault_gate where
  "rx_vault = \<lparr>vg_authorize = (\<lambda>_ _ _. True), vg_resolve = (\<lambda>_ _ _. True),
     vg_ingest_boundary = (\<lambda>_ _ _. True), vg_before_acquire = (\<lambda>_ _ _ _. True)\<rparr>"

definition rx_world :: authority_db where
  "rx_world =
     \<lparr>at_accounts =
        [\<lparr>ua_id = 3, ua_role = ''OWNER'', ua_status = ''ACTIVE'', ua_deleted_at = None, ua_generation = 1\<rparr>,
         \<lparr>ua_id = 4, ua_role = ''USER'', ua_status = ''ACTIVE'', ua_deleted_at = None, ua_generation = 1\<rparr>],
      at_devices = [\<lparr>dv_id = 31, dv_user = 3, dv_revoked_at = None\<rparr>, \<lparr>dv_id = 41, dv_user = 4, dv_revoked_at = None\<rparr>],
      at_sessions =
        [\<lparr>us_id = 32, us_user = 3, us_device = 31, us_mode = ''V2'', us_family = None, us_revoked_at = None,
          us_expires_at = days 30, us_hash = replicate 32 3, us_issued_at = 0\<rparr>,
         \<lparr>us_id = 42, us_user = 4, us_device = 41, us_mode = ''V2'', us_family = None, us_revoked_at = None,
          us_expires_at = days 30, us_hash = replicate 32 4, us_issued_at = 0\<rparr>],
      at_portable = [], at_audit = [], at_internet = [], at_attempts = [], at_candidates = [], at_uploads = [],
      at_variants = [\<lparr>av_id = 71, av_recording = 70\<rparr>]\<rparr>"

definition rx_policy :: quota_policy where
  "rx_policy =
     \<lparr>qp_revision = 1, qp_devices = 5, qp_playbacks = 2, qp_transfers = 2, qp_global_playbacks = Some 1,
      qp_global_transfers = Some 1, qp_playback_ceiling = Some 8, qp_transfer_ceiling = Some 8,
      qp_evidence = Some ''measured'', qp_grant_sequence = 0, qp_updated_at = 0\<rparr>"

definition rx0 :: resource_db where
  "rx0 = \<lparr>rs_policy = Some rx_policy, rs_overrides = [], rs_cursors = [], rs_admissions = [],
     rs_permits = [], rs_executions = [], rs_staging = [], rs_receipts = [], rs_world = rx_world,
     rs_jobs = empty_jobs_db\<rparr>"

definition rx_tx :: "instant \<Rightarrow> uuid \<Rightarrow> transaction" where
  "rx_tx now fresh =
     \<lparr>tx_vault = rx_vault, tx_clock = (\<lambda>_. now),
      tx_readings = \<lparr>rd_gate = (\<lambda>_. now), rd_fresh = (\<lambda>i. fresh + i), rd_trigger = now\<rparr>,
      tx_sha256 = (\<lambda>_. replicate 32 0), tx_worker_uuid5 = (\<lambda>_ i. i + 1000)\<rparr>"

definition rx_actor :: "uuid \<Rightarrow> resource_actor" where
  "rx_actor user = DeviceActor \<lparr>pr_user = user, pr_device = 10 * user + 1, pr_session = 10 * user + 2\<rparr>"

definition rx_authority :: "uuid \<Rightarrow> resource_authority" where
  "rx_authority user =
     \<lparr>ra_user = user, ra_generation = 1, ra_kind = DeviceSession, ra_device = Some (10 * user + 1),
      ra_session_family = Some (10 * user + 2), ra_session_mode = Some ''V2'', ra_job = None,
      ra_job_worker = None, ra_job_attempt = None, ra_acquisition_attempt = None,
      ra_source_authorization = None, ra_source_revision = None, ra_policy = None, ra_policy_revision = None\<rparr>"

definition rx_request :: "uuid \<Rightarrow> resource_request" where
  "rx_request i = \<lparr>rq_operation = i, rq_kind = PLAYBACK, rq_type = PlayInstance, rq_resource = i, rq_target = None\<rparr>"

definition rx_principal :: "uuid \<Rightarrow> principal" where
  "rx_principal user = \<lparr>pr_user = user, pr_device = 10 * user + 1, pr_session = 10 * user + 2\<rparr>"

text \<open>The first request is granted at once.\<close>

definition rx_first :: resource_admission where
  "rx_first =
     \<lparr>ad_authority = rx_authority 3, ad_request = rx_request 50, ad_sha256 = replicate 32 0,
      ad_state = Active, ad_activation = Some 500, ad_generation = 1, ad_created_at = seconds 10,
      ad_updated_at = seconds 10, ad_enqueued_at = seconds 10, ad_waiting_until = None,
      ad_lease_until = Some (seconds 40), ad_claim_until = Some (seconds 25), ad_claimed_at = None,
      ad_terminal_at = None, ad_attachment_revision = 0, ad_current_recording = None, ad_next_recording = None\<rparr>"

definition rx1 :: resource_db where
  "rx1 = rx0\<lparr>rs_policy := Some (rx_policy\<lparr>qp_grant_sequence := 1\<rparr>),
     rs_cursors := [\<lparr>gc_user = 3, gc_kind = PLAYBACK, gc_last_grant = 1\<rparr>], rs_admissions := [rx_first]\<rparr>"

text \<open>The second one waits.\<close>

definition rx_second :: resource_admission where
  "rx_second =
     \<lparr>ad_authority = rx_authority 4, ad_request = rx_request 60, ad_sha256 = replicate 32 0,
      ad_state = Waiting, ad_activation = None, ad_generation = 0, ad_created_at = seconds 11,
      ad_updated_at = seconds 11, ad_enqueued_at = seconds 11, ad_waiting_until = Some (seconds 56),
      ad_lease_until = None, ad_claim_until = None, ad_claimed_at = None,
      ad_terminal_at = None, ad_attachment_revision = 0, ad_current_recording = None, ad_next_recording = None\<rparr>"

definition rx2 :: resource_db where "rx2 = rx1\<lparr>rs_admissions := [rx_first, rx_second]\<rparr>"

definition rx_fence :: activation_fence where
  "rx_fence = \<lparr>af_operation = 50, af_activation = 500, af_generation = 1\<rparr>"

definition rx_attached :: resource_admission where
  "rx_attached = rx_first\<lparr>ad_current_recording := Some 70, ad_attachment_revision := 1, ad_updated_at := seconds 12\<rparr>"

definition rx3 :: resource_db where "rx3 = rx1\<lparr>rs_admissions := [rx_attached, rx_second]\<rparr>"

definition rx_claimed :: resource_admission where
  "rx_claimed = rx_attached\<lparr>ad_claimed_at := Some (seconds 13), ad_lease_until := Some (seconds 43),
     ad_updated_at := seconds 13\<rparr>"

definition rx_permit_row :: permit_row where
  "rx_permit_row = \<lparr>pm_id = 600, pm_operation = 50, pm_activation = 500, pm_generation = 1, pm_target = 70,
     pm_opened_at = seconds 13, pm_renewed_at = seconds 13, pm_expires_at = seconds 18\<rparr>"

definition rx_permit :: io_permit where
  "rx_permit = \<lparr>ip_id = 600, ip_fence = rx_fence, ip_target = 70, ip_expires_at = seconds 18\<rparr>"

definition rx4 :: resource_db where
  "rx4 = rx1\<lparr>rs_admissions := [rx_claimed, rx_second], rs_permits := [rx_permit_row]\<rparr>"

definition rx_ticket :: execution_ticket where
  "rx_ticket = \<lparr>et_execution = 700, et_owner = 701, et_permit = rx_permit, et_kind = VaultStream,
     et_actual_target = 71\<rparr>"

definition rx_execution :: execution_row where "rx_execution = prepared_row rx_ticket (seconds 14)"

definition rx5 :: resource_db where "rx5 = rx4\<lparr>rs_executions := [rx_execution]\<rparr>"

definition rx_evidence :: exit_evidence where
  "rx_evidence = \<lparr>ev_kind = NotStarted, ev_sha256 = replicate 32 0, ev_exit_code = None, ev_child = None\<rparr>"

definition rx6 :: resource_db where
  "rx6 = rx5\<lparr>rs_executions := [closed_row rx_evidence (seconds 15) rx_execution]\<rparr>"

text \<open>The state an operation commits, without its answer.\<close>

definition committed :: "resource_exn + ('a \<times> resource_db) \<Rightarrow> resource_db option" where
  "committed r = (case r of Inl _ \<Rightarrow> None | Inr (_, db) \<Rightarrow> Some db)"

lemma committed_Some: "committed r = Some db \<longleftrightarrow> (\<exists>s. r = Inr (s, db))"
  by (auto simp: committed_def split: sum.splits)

lemma rx_int: "int_repr 1 = Some ''1''"
  by code_simp

lemma rx_digest: "request_digest (\<lambda>_. replicate 32 0) (rx_request i) (rx_authority user) = Inr (replicate 32 0)"
  by (simp add: request_digest_def request_json_def authority_json_def rx_request_def rx_authority_def
      optional_json_def rx_int)

lemma rx_acquire_new:
  assumes "tx_authenticate (rx_tx now fresh) (rx_actor user) db = Inr (rx_authority user)"
    and "server_limit PLAYBACK db = Inr n" and "find_admission i db = None"
  shows "acquire (rx_tx now fresh) (rx_principal user) (rx_request i) db =
    enqueue_admission (rx_tx now fresh) (rx_actor user) True (rx_authority user) (rx_request i)
      (requeued False now (new_admission (rx_authority user) (rx_request i) (replicate 32 0) now)) db"
proof -
  have actor: "DeviceActor (rx_principal user) = rx_actor user" by (simp add: rx_actor_def rx_principal_def)
  have "is_worker (rx_actor user) = False" by (simp add: is_worker_def rx_actor_def)
  then show ?thesis
    using assms rx_digest [of i user]
    by (simp add: acquire_def actor acquire_any_def rx_request_def rx_tx_def Let_def)
qed

lemma rx_acquire1: "committed (acquire (rx_tx (seconds 10) 500) (rx_principal 3) (rx_request 50) rx0) = Some rx1"
proof -
  have "tx_authenticate (rx_tx (seconds 10) 500) (rx_actor 3) rx0 = Inr (rx_authority 3)"
    "server_limit PLAYBACK rx0 = Inr 1" "find_admission 50 rx0 = None" by code_simp+
  note rx_acquire_new [OF this]
  moreover have "committed (enqueue_admission (rx_tx (seconds 10) 500) (rx_actor 3) True (rx_authority 3) (rx_request 50)
      (requeued False (seconds 10) (new_admission (rx_authority 3) (rx_request 50) (replicate 32 0) (seconds 10))) rx0)
    = Some rx1" by code_simp
  ultimately show ?thesis by simp
qed

lemma rx_acquire2: "committed (acquire (rx_tx (seconds 11) 510) (rx_principal 4) (rx_request 60) rx1) = Some rx2"
proof -
  have "tx_authenticate (rx_tx (seconds 11) 510) (rx_actor 4) rx1 = Inr (rx_authority 4)"
    "server_limit PLAYBACK rx1 = Inr 1" "find_admission 60 rx1 = None" by code_simp+
  note rx_acquire_new [OF this]
  moreover have "committed (enqueue_admission (rx_tx (seconds 11) 510) (rx_actor 4) True (rx_authority 4) (rx_request 60)
      (requeued False (seconds 11) (new_admission (rx_authority 4) (rx_request 60) (replicate 32 0) (seconds 11))) rx1)
    = Some rx2" by code_simp
  ultimately show ?thesis by simp
qed

lemma rx_attach: "committed (attach (rx_tx (seconds 12) 520) (rx_actor 3) rx_fence 0 70 None rx2) = Some rx3"
  by code_simp

lemma rx_open: "open_io (rx_tx (seconds 13) 600) (rx_actor 3) rx_fence 71 (Some PlayInstance) rx3 = Inr (rx_permit, rx4)"
  by code_simp

lemma rx_prepare: "committed (prepare_execution (rx_tx (seconds 14) 610) (rx_actor 3) rx_ticket rx4) = Some rx5"
  by code_simp

lemma rx_exit: "committed (confirm_execution_exit (rx_tx (seconds 15) 620) rx_ticket rx_evidence rx5) = Some rx6"
  by code_simp

lemma rx_inv0: "resource_inv rx0"
  by (simp add: resource_inv_def rx0_def admissions_ok_def permits_ok_def executions_ok_def single_writers_def)

lemma committed_acquire: "committed (acquire tx p q db) = Some db' \<Longrightarrow> served (tx_now tx) db db'"
  by (auto simp: committed_Some intro: sv_acquire)

lemma rx_steps:
  "resource_step (0, rx0) (seconds 10, rx1)" "resource_step (seconds 10, rx1) (seconds 11, rx2)"
  "resource_step (seconds 11, rx2) (seconds 12, rx3)" "resource_step (seconds 12, rx3) (seconds 13, rx4)"
  "resource_step (seconds 13, rx4) (seconds 14, rx5)" "resource_step (seconds 14, rx5) (seconds 15, rx6)"
proof -
  have now: "tx_now (rx_tx t i) = t" "tx_locked_at (rx_tx t i) = t" for t i by (simp_all add: rx_tx_def)
  show "resource_step (0, rx0) (seconds 10, rx1)" "resource_step (seconds 10, rx1) (seconds 11, rx2)"
    using committed_acquire [OF rx_acquire1] committed_acquire [OF rx_acquire2] by (simp_all add: now)
  show "resource_step (seconds 11, rx2) (seconds 12, rx3)"
    using rx_attach sv_attach [of "rx_tx (seconds 12) 520"] by (auto simp: committed_Some now)
  show "resource_step (seconds 12, rx3) (seconds 13, rx4)"
    using sv_open_io [OF rx_open] by (simp add: now)
  show "resource_step (seconds 13, rx4) (seconds 14, rx5)"
    using rx_prepare sv_prepare [of "rx_tx (seconds 14) 610"] by (auto simp: committed_Some now)
  have "check_exit_evidence rx_evidence = Inr rx_evidence" by code_simp
  then show "resource_step (seconds 14, rx5) (seconds 15, rx6)"
    using rx_exit sv_exit [of rx_evidence "rx_tx (seconds 15) 620"] by (auto simp: committed_Some now)
qed

lemma rx_run: "resource_run (0, rx0) (seconds 15, rx6)" "resource_run (0, rx0) (seconds 14, rx5)"
  "resource_run (0, rx0) (seconds 13, rx4)" "resource_run (0, rx0) (seconds 11, rx2)"
  "resource_run (0, rx0) (seconds 10, rx1)" "resource_run (0, rx0) (seconds 12, rx3)"
  using rx_steps by (meson converse_rtranclp_into_rtranclp rtranclp.rtrancl_refl)+

lemma rx_invs: "resource_inv rx1" "resource_inv rx2" "resource_inv rx3" "resource_inv rx4" "resource_inv rx5"
  "resource_inv rx6"
  using rx_run [THEN resource_run_inv, OF rx_inv0] by blast+

lemma rx_policies:
  "rs_policy rx0 = Some rx_policy" "rs_policy rx2 = Some (rx_policy\<lparr>qp_grant_sequence := 1\<rparr>)"
  by (simp_all add: rx0_def rx1_def rx2_def)

end
