(* ===== verification/Resource_Properties.thy ===== *)
theory Resource_Properties
  imports Resource_Examples
begin

text \<open>
  The properties of resource admission, each with a witness on the history of \<open>Resource_Examples\<close>.
\<close>

lemma int_bound: "(x :: nat) \<le> max y (nat c) \<Longrightarrow> int x \<le> max (int y) (max 0 c)"
  by (cases "0 \<le> c") (auto simp: max_def split: if_splits)



text \<open>C15. One pass of the scheduler takes no account above its limit and no device above the limit per
  device: afterwards each uses at most what it used before or its limit, whichever is more; and it
  changes no limit.\<close>

theorem scheduler_respects_limits:
  assumes "resource_inv db" and "advance vg rd now n db = Inr (m, db')"
  shows "int (account_used now k user db') \<le> max (int (account_used now k user db)) (max 0 (account_cap k user db))
    \<and> int (device_used now k d db') \<le> max (int (device_used now k d db)) (device_limit k)
    \<and> account_cap k user db' = account_cap k user db \<and> server_cap k db' = server_cap k db"
proof -
  note limits = advance_within_limits [OF assms]
  have inv': "resource_inv db'" by (rule advance_inv [OF assms])
  from limits have account: "card (held (of_account k user) now db')
      \<le> max (card (held (of_account k user) now db)) (nat (account_cap k user db))"
    and device: "card (held (of_device k d) now db') \<le> max (card (held (of_device k d) now db)) (nat (device_limit k))"
    and same: "same_limits db db'" by blast+
  have "0 \<le> device_limit k" by (simp add: device_limit_def)
  with int_bound [OF account] int_bound [OF device] same_limits_caps [OF same] show ?thesis
    by (simp add: used_held [OF assms(1)] used_held [OF inv'])
qed

theorem scheduler_respects_limits_witness:
  "\<exists>m db'. advance rx_vault (tx_readings (rx_tx (seconds 12) 900)) (seconds 12) 64 rx2 = Inr (m, db')
     \<and> int (account_used (seconds 12) PLAYBACK 4 db') \<le> 2"
proof -
  have timely: "timely (seconds 12) rx2" by code_simp
  obtain m db' where run: "advance rx_vault (tx_readings (rx_tx (seconds 12) 900)) (seconds 12) 64 rx2 = Inr (m, db')"
    using advance_total_aux [OF rx_invs(2) timely rx_policies(2)] by blast
  have "account_used (seconds 12) PLAYBACK 4 rx2 = 0" "account_cap PLAYBACK 4 rx2 = 2" by code_simp+
  with scheduler_respects_limits [OF rx_invs(2) run, of PLAYBACK 4] run show ?thesis by auto
qed

text \<open>C9. The admission tables stay consistent: after any history their keys are unique, every row passes
  its checks, every permit belongs to the activation of its admission, every execution to its permit,
  and at most one upload and one provider run is open for a target.\<close>

theorem admission_tables_consistent:
  assumes "resource_run (t, db) (t', db')" and "resource_inv db"
  shows "resource_inv db'
    \<and> (\<forall>e \<in> set (rs_executions db'). \<forall>e' \<in> set (rs_executions db').
         xe_kind e \<noteq> VaultStream \<and> xe_kind e' = xe_kind e \<and> xe_actual_target e' = xe_actual_target e
         \<and> xe_closed_at e = None \<and> xe_closed_at e' = None \<longrightarrow> e = e')"
proof -
  have inv: "resource_inv db'" by (rule resource_run_inv [OF assms])
  have single: "single_writers (rs_executions db')" using resource_invD(3) [OF inv] by (simp add: executions_ok_def)
  have "e = e'" if "e \<in> set (rs_executions db')" "e' \<in> set (rs_executions db')"
    "xe_kind e \<noteq> VaultStream \<and> xe_kind e' = xe_kind e \<and> xe_actual_target e' = xe_actual_target e
       \<and> xe_closed_at e = None \<and> xe_closed_at e' = None" for e e'
    using single [unfolded single_writers_def, rule_format, OF that(1,2)] that(3) by (simp add: writes_def)
  with inv show ?thesis by blast
qed

theorem admission_tables_consistent_witness: "resource_inv rx6"
  using admission_tables_consistent [OF rx_run(1) rx_inv0] by blast



text \<open>C17. The scheduler never raises: in consistent tables with a policy, and with a clock that is not
  behind the queue, a pass over both kinds always commits, whatever the gate says of the candidates.\<close>

theorem scheduler_never_raises:
  assumes "resource_inv db" and "timely now db" and "rs_policy db = Some p"
  shows "\<exists>m db'. advance vg rd now maximum db = Inr (m, db') \<and> resource_inv db'"
  using advance_total_aux [OF assms] advance_inv [OF assms(1)] by blast

theorem scheduler_never_raises_witness:
  "\<exists>m db'. advance rx_vault (tx_readings (rx_tx (seconds 60) 900)) (seconds 60) 64 rx2 = Inr (m, db') \<and> resource_inv db'"
proof -
  have "timely (seconds 60) rx2" by code_simp
  from scheduler_never_raises [OF rx_invs(2) this rx_policies(2)] show ?thesis .
qed

text \<open>C14. Grants rotate over the accounts: right after an account was granted an admission, the scheduler
  does not pick the same account again while an eligible admission of another account waits, however
  long either has waited; and the grant cursors stay below the grant sequence, so the next grant
  rotates again.\<close>

theorem grants_rotate:
  assumes "cursors_bounded db" and "rs_policy db = Some p"
    and "next_eligible now p k db = Some a" and "grant rd now p a db = Inr db'"
    and "next_eligible now p' k db' = Some b"
    and "c \<in> set (rs_admissions db')" and "eligible now p' k db' c" and "ad_user c \<noteq> ad_user a"
  shows "ad_user b \<noteq> ad_user a \<and> cursors_bounded db'"
  using rotation [OF assms] grant_cursors [OF assms(1,2,4)] by blast

text \<open>Two queued admissions of account 3 before one of account 4.\<close>

definition rx_queue :: resource_db where
  "rx_queue = rx0\<lparr>rs_admissions :=
     [rx_second\<lparr>ad_authority := rx_authority 3, ad_request := rx_request 57\<rparr>,
      rx_second\<lparr>ad_authority := (rx_authority 3)\<lparr>ra_device := Some 33\<rparr>, ad_request := rx_request 58\<rparr>, rx_second]\<rparr>"

definition rx_queue_granted :: resource_db where
  "rx_queue_granted = (case grant (tx_readings (rx_tx (seconds 12) 900)) (seconds 12) rx_policy
     (hd (rs_admissions rx_queue)) rx_queue of Inr db \<Rightarrow> db | Inl _ \<Rightarrow> rx_queue)"

theorem grants_rotate_witness: "cursors_bounded rx_queue_granted"
proof -
  let ?a = "hd (rs_admissions rx_queue)" and ?p = "rx_policy\<lparr>qp_grant_sequence := 1\<rparr>"
  have start: "cursors_bounded rx_queue" "rs_policy rx_queue = Some rx_policy"
    "next_eligible (seconds 12) rx_policy PLAYBACK rx_queue = Some ?a" by code_simp+
  have run: "grant (tx_readings (rx_tx (seconds 12) 900)) (seconds 12) rx_policy ?a rx_queue = Inr rx_queue_granted"
    by code_simp
  have next_one: "next_eligible (seconds 12) ?p PLAYBACK rx_queue_granted = Some rx_second" by code_simp
  have "rx_second \<in> set (rs_admissions rx_queue_granted)" "eligible (seconds 12) ?p PLAYBACK rx_queue_granted rx_second"
    "ad_user rx_second \<noteq> ad_user ?a" by code_simp+
  from grants_rotate [OF start run next_one this] show ?thesis by blast
qed

text \<open>C32. A playback never has more than three I/O permits open and a transfer never more than one,
  counting those that have expired while their execution has not ended: the bound holds through every
  history.\<close>

theorem permits_stay_bounded:
  assumes "resource_run (t, db) (t', db')" and "resource_inv db" and "permits_bounded t db"
    and "a \<in> set (rs_admissions db')"
  shows "length (open_permits (ad_operation a) t' db') \<le> (if ad_kind a = PLAYBACK then 3 else 1)"
proof -
  have "permits_safe (t, db)" using assms(2,3) by (simp add: permits_safe_def)
  from permits.run_inv [OF assms(1) this] have "permits_bounded t' db'" by (simp add: permits_safe_def)
  with assms(4) show ?thesis by (auto simp: permits_bounded_def permit_bound_def)
qed

theorem permits_stay_bounded_witness:
  "length (open_permits 50 (seconds 13) rx4) \<le> 3 \<and> open_permits 50 (seconds 13) rx4 = [rx_permit_row]"
proof -
  have "permits_bounded 0 rx0" by code_simp
  moreover have "rx_claimed \<in> set (rs_admissions rx4)" by (simp add: rx4_def)
  ultimately have "length (open_permits (ad_operation rx_claimed) (seconds 13) rx4) \<le> (if ad_kind rx_claimed = PLAYBACK then 3 else 1)"
    by (rule permits_stay_bounded [OF rx_run(3) rx_inv0])
  moreover have "ad_operation rx_claimed = 50" "ad_kind rx_claimed = PLAYBACK" by code_simp+
  moreover have "open_permits 50 (seconds 13) rx4 = [rx_permit_row]" by code_simp
  ultimately show ?thesis by simp
qed

text \<open>C8. Clocks cannot prove an exit. An execution that has not ended stays in the tables, unclosed and
  charged to its operation, through every history, unless somewhere on the way evidence for it was
  confirmed: by its own ticket, naming the child the row holds, and, for an execution said not to have
  been started, only from the prepared or stopping state.\<close>

theorem executions_end_with_evidence:
  assumes "resource_run (t, db) (t', db')" and "resource_inv db"
    and "e \<in> set (rs_executions db)" and "xe_closed_at e = None"
  shows "unclosed_row e db' \<and> draining t' (xe_operation e) db'
    \<or> (\<exists>t1 db1 db2. write_run (t, db) (t1, db1) \<and> exit_confirmed e t1 db1 db2 \<and> write_run (t1, db2) (t', db'))"
proof -
  have start: "unclosed_row e db" by (rule unclosed_rowI [OF assms(3) refl assms(4)])
  have "write_run (t, db) (t', db')" using resource_run_writes [OF assms(1)] assms(2) by simp
  from write_run_unclosed [OF this] assms(2) start
  have "unclosed_row e db' \<or> (\<exists>t1 db1 db2. write_run (t, db) (t1, db1) \<and> exit_confirmed e t1 db1 db2
      \<and> write_run (t1, db2) (t', db'))" by simp
  moreover have "draining t' (xe_operation e) db'" if "unclosed_row e db'"
    using that by (auto simp: unclosed_row_def draining_iff execution_key_def)
  ultimately show ?thesis by blast
qed

theorem executions_end_with_evidence_witness:
  "\<exists>t1 db1 db2. write_run (seconds 14, rx5) (t1, db1) \<and> exit_confirmed rx_execution t1 db1 db2
     \<and> write_run (t1, db2) (seconds 15, rx6)"
proof -
  have run: "resource_run (seconds 14, rx5) (seconds 15, rx6)" using rx_steps(6) by (rule r_into_rtranclp)
  have e: "rx_execution \<in> set (rs_executions rx5)" "xe_closed_at rx_execution = None" by code_simp+
  have "\<not> unclosed_row rx_execution rx6"
    by (simp add: unclosed_row_def rx6_def closed_row_def)
  with executions_end_with_evidence [OF run rx_invs(5) e] show ?thesis by blast
qed

text \<open>C33. The life of an execution: each row after a write is a row from before that kept its identity and
  moved along prepared, running, stopping, orphaned, closed without going back, or a newly prepared row
  with an identifier no stored row has. A closed row never changes.\<close>

theorem executions_follow_their_lifecycle:
  assumes "resource_inv db" and "table_step now db db'" and "x \<in> set (rs_executions db')"
  shows "(\<exists>e \<in> set (rs_executions db). x = e
        \<or> execution_key x = execution_key e \<and> xe_state x \<in> moves_to (xe_state e))
    \<or> xe_state x = ExPrepared \<and> (\<forall>e \<in> set (rs_executions db). xe_id e \<noteq> xe_id x)"
  using table_step_lifecycle [OF assms] unfolding lifecycle_def by blast

theorem executions_follow_their_lifecycle_witness:
  "\<exists>e \<in> set (rs_executions rx5). xe_state (closed_row rx_evidence (seconds 15) rx_execution) \<in> moves_to (xe_state e)"
proof -
  have run: "table_step (seconds 15) rx5 rx6"
  proof -
    have "check_exit_evidence rx_evidence = Inr rx_evidence" by code_simp
    then show ?thesis using rx_exit ts_exit [of rx_evidence rx_ticket "seconds 15" rx5]
      by (auto simp: committed_Some confirm_execution_exit_def rx_tx_def)
  qed
  have x: "closed_row rx_evidence (seconds 15) rx_execution \<in> set (rs_executions rx6)" by (simp add: rx6_def)
  have "xe_state (closed_row rx_evidence (seconds 15) rx_execution) = ExClosed"
    "closed_row rx_evidence (seconds 15) rx_execution \<notin> set (rs_executions rx5)" by code_simp+
  with executions_follow_their_lifecycle [OF rx_invs(5) run x] show ?thesis by auto
qed

end
