(* ===== verification/Resource_Gate_Properties.thy ===== *)
theory Resource_Gate_Properties
  imports Resource_Examples Job_Examples
begin

text \<open>
  The properties of resource admission that concern who may act: live activations, worker leases,
  authorities, withdrawals and attachments.
\<close>

text \<open>C13. I/O needs a live activation. Renewing a lease, attaching recordings, opening or renewing I/O and
  preparing, starting or renewing an execution succeed only for an actor that authenticates now as the
  owner of a stored admission whose current activation is the one the caller presents and whose lease
  has not run out.\<close>

theorem io_needs_a_live_activation:
  assumes "(\<exists>s. renew tx actor f db = Inr (s, db'))
    \<or> (\<exists>n c x s. attach tx actor f n c x db = Inr (s, db'))
    \<or> (\<exists>target ty q. open_io tx actor f target ty db = Inr (q, db'))
    \<or> (\<exists>p ty target q. ip_fence p = f \<and> renew_io tx actor p ty target db = Inr (q, db'))
    \<or> (\<exists>t s. ip_fence (et_permit t) = f \<and> prepare_execution tx actor t db = Inr (s, db'))
    \<or> (\<exists>t child s. ip_fence (et_permit t) = f \<and> start_execution tx actor t child db = Inr (s, db'))
    \<or> (\<exists>t q. ip_fence (et_permit t) = f \<and> renew_execution_io tx actor t db = Inr (q, db'))"
  shows "\<exists>a \<in> set (rs_admissions db). ad_operation a = af_operation f
    \<and> tx_authenticate tx actor db = Inr (ad_authority a)
    \<and> admission_fence a = Inr (Some f) \<and> active_at a (tx_now tx)"
proof -
  have "holds_activation tx actor f db"
    using assms
    by (elim disjE exE conjE)
      (auto intro: renew_holds attach_holds open_io_holds renew_io_holds prepare_execution_holds
        start_execution_holds renew_execution_holds)
  then show ?thesis unfolding holds_activation_def .
qed

theorem io_needs_a_live_activation_witness:
  "\<exists>a \<in> set (rs_admissions rx3). ad_operation a = 50 \<and> active_at a (seconds 13)"
proof -
  have "\<exists>target ty q. open_io (rx_tx (seconds 13) 600) (rx_actor 3) rx_fence target ty rx3 = Inr (q, rx4)"
    using rx_open by blast
  from io_needs_a_live_activation [OF disjI2 [OF disjI2 [OF disjI1 [OF this]]]]
  show ?thesis by (auto simp: rx_fence_def rx_tx_def)
qed

text \<open>C16. A worker acts only while it holds its job: whenever a claim authenticates, the job it names is
  running under exactly the claim's worker and attempt, with a lease that has not expired and no
  cancellation requested, as the job repository itself would require.\<close>

theorem workers_need_their_lease:
  assumes "tx_authenticate tx (WorkerActor c) db = Inr u"
  shows "\<exists>r \<in> set (db_jobs (rs_jobs db)). active_lease (tx_clock tx 1) (ac_fence c) r \<and> jr_cancel_at r = None
    \<and> ra_job u = Some (jr_id r)"
proof -
  from assms have auth: "authenticate_acquisition (tx_vault tx) (rs_world db) (rs_jobs db) (tx_clock tx 1) c = Inr u"
    by (simp add: tx_authenticate_def authenticate_actor_def)
  from worker_lease [OF this] obtain r where r: "find_job (rs_jobs db) (lf_job (ac_fence c)) = Some r"
    "jr_state r = RUNNING" "jr_lease_owner r = Some (lf_worker (ac_fence c))"
    "jr_attempts r = lf_attempt (ac_fence c)" "after (jr_lease_deadline r) (tx_clock tx 1)" "jr_cancel_at r = None"
    by blast
  from r(1) have row: "r \<in> set (db_jobs (rs_jobs db))" "jr_id r = lf_job (ac_fence c)"
    by (auto simp: find_job_def dest: find_eq_Some_unique)
  have "ra_job u = Some (lf_job (ac_fence c))"
    using auth by (auto simp: authenticate_acquisition_def bind_result_eq_Inr
        dest: acquisition_authority_fence split: option.splits if_splits)
  with r row show ?thesis
    by (intro bexI [OF _ row(1)]) (auto simp: active_lease_def fenced_def after_def split: option.splits)
qed

text \<open>An internet acquisition whose job is running.\<close>

definition rx_acquisition_job :: job_row where
  "rx_acquisition_job = ex_running_row\<lparr>jr_type := ''music.internet.acquire'',
     jr_payload := [(KStr ''acquisition_id'', JStr (uuid_str 51))]\<rparr>"

definition rx_acquiring_world :: authority_db where
  "rx_acquiring_world = rx_world\<lparr>at_internet :=
     [\<lparr>ia_id = 51, ia_user = 3, ia_device = 31, ia_job = Some 7, ia_generation = Some 1, ia_family = Some 32,
       ia_mode = Some ''V2'', ia_state = ''DOWNLOADING'', ia_upload = None\<rparr>]\<rparr>"

definition rx_acquiring :: resource_db where
  "rx_acquiring = rx0\<lparr>rs_jobs := ex_running\<lparr>db_jobs := [rx_acquisition_job]\<rparr>, rs_world := rx_acquiring_world\<rparr>"

definition rx_claim :: acquisition_claim where
  "rx_claim = \<lparr>ac_fence = ex_fence, ac_type = InternetAcquisition, ac_acquisition = 51\<rparr>"

lemma rx_worker_authenticates:
  "tx_authenticate (rx_tx (seconds 110) 900) (WorkerActor rx_claim) rx_acquiring = Inr ex_worker_authority"
proof -
  have row: "jr_id ex_running_row = 7" "jr_version ex_running_row = 1" "jr_user ex_running_row = Some 3"
    "jr_state ex_running_row = RUNNING" "jr_cancel_at ex_running_row = None"
    "jr_lease_owner ex_running_row = Some ''worker-1''" "jr_attempts ex_running_row = 1"
    "jr_lease_deadline ex_running_row = Some (seconds 161)" by code_simp+
  then have job: "find_job (rs_jobs rx_acquiring) 7 = Some rx_acquisition_job"
    by (simp add: find_job_def rx_acquiring_def rx_acquisition_job_def)
  have authority: "acquisition_authority (rs_world rx_acquiring) rx_acquisition_job rx_claim = Inr ex_worker_authority"
    by (simp add: acquisition_authority_def rx_claim_def rx_acquiring_def rx_acquiring_world_def
        rx_acquisition_job_def payload_id_def
        ex_worker_authority_def ex_fence_def session_modes_def)
  have world: "rs_world rx_acquiring = rx_acquiring_world" by (simp add: rx_acquiring_def)
  have account: "live_account rx_acquiring_world 3 = Some \<lparr>ua_id = 3, ua_role = ''OWNER'', ua_status = ''ACTIVE'',
      ua_deleted_at = None, ua_generation = 1\<rparr>" by code_simp
  have session: "require_acquisition_session rx_acquiring_world (seconds 110) 3 (Some 31) (Some 32) (Some ''V2'')
      = Inr ()" by code_simp
  have "job_live rx_acquisition_job ex_worker_authority True (seconds 110)"
    using row by (simp add: job_live_def rx_acquisition_job_def ex_worker_authority_def after_def)
  then have "gate_require rx_vault (rs_world rx_acquiring) (rs_jobs rx_acquiring) (seconds 110) True
      ex_worker_authority = Inr ()"
    using job account session by (simp add: gate_require_def world ex_worker_authority_def require_def)
  with job authority show ?thesis
    using row by (simp add: tx_authenticate_def authenticate_actor_def authenticate_acquisition_def rx_claim_def
        ex_fence_def acquisition_job_type_def rx_tx_def rx_acquisition_job_def)
qed

theorem workers_need_their_lease_witness:
  "\<exists>r \<in> set (db_jobs (rs_jobs rx_acquiring)). active_lease (seconds 110) ex_fence r \<and> jr_cancel_at r = None"
  using workers_need_their_lease [OF rx_worker_authenticates] by (auto simp: rx_claim_def rx_tx_def)

text \<open>C35. What authentication derives, the gate accepts: the authority of a session, a worker claim or a
  local bridge that has just authenticated passes the check the scheduler makes before it grants, on
  the same rows at the same time, and names the live account with its current generation.\<close>

theorem authenticated_authority_is_accepted:
  assumes "authenticate_actor vg w jobs clk actor = Inr u"
  shows "gate_require vg w jobs clk True u = Inr ()
    \<and> (\<exists>a. live_account w (ra_user u) = Some a \<and> ua_generation a = ra_generation u)"
  using authenticate_actor_required [OF assms] required_account by blast

theorem authenticated_authority_is_accepted_witness:
  "gate_require rx_vault rx_world empty_jobs_db (seconds 10) True (rx_authority 3) = Inr ()"
proof -
  have "authenticate_actor rx_vault rx_world empty_jobs_db (seconds 10) (rx_actor 3) = Inr (rx_authority 3)"
    by code_simp
  from authenticated_authority_is_accepted [OF this] show ?thesis by blast
qed





end
