(* ===== verification/Wave_Domain.thy ===== *)
theory Wave_Domain
  imports Prelude "HOL-Library.Word"
begin

text \<open>
  Wave rooms as plain policy, \<open>server/src/autplay/domain/wave.py\<close>: room codes, members, the queue, host
  transfer and the lead time of a scheduled start. A room is a value; every method that mutates the
  Python object returns the changed room, or the exception it raises before changing anything.
\<close>

subsection \<open>Bounds, exceptions, availability\<close>

definition room_ttl :: duration where "room_ttl = hours 6"
definition host_grace :: duration where "host_grace = seconds 30"
definition presence_ttl :: duration where "presence_ttl = seconds 30"
definition max_members :: nat where "max_members = 8"
definition max_queue :: nat where "max_queue = 100"
definition max_rtt_ms :: int where "max_rtt_ms = 1000"

datatype availability = LOCAL | DOWNLOADED | VAULT_STREAMABLE | UNAVAILABLE

text \<open>
  What the room code raises: the two policy errors and the guests' error with its code, Python's
  \<open>ValueError\<close> and \<open>KeyError\<close>, SQLAlchemy's \<open>NoResultFound\<close>, and PostgreSQL's answer to a statement
  that breaks a constraint.
\<close>

datatype wave_exn =
    WaveConflict
  | WaveForbidden
  | GuestRoomError string
  | WaveValueError string
  | WaveKeyError
  | NoResultFound
  | WaveIntegrityError string

subsection \<open>Room codes\<close>

text \<open>Ten Crockford base-32 characters, the most significant five bits first.\<close>

definition room_alphabet :: string where
  "room_alphabet = ''0123456789ABCDEFGHJKMNPQRSTVWXYZ''"

definition new_room_code :: "nat \<Rightarrow> string" where
  "new_room_code value =
     map (\<lambda>i. room_alphabet ! (value div 2 ^ (5 * i) mod 32)) [9, 8, 7, 6, 5, 4, 3, 2, 1, 0]"

subsection \<open>Rooms\<close>

record queue_entry =
  qe_id :: uuid
  qe_recording :: uuid
  qe_position :: int

record transfer_target =
  tt_device :: uuid
  tt_name :: string

datatype room_state = OPEN | ORPHANED | CLOSED | EXPIRED

datatype playback_state = IDLE | PREPARING | PLAYING | PlaybackPaused

datatype room_role = HostRole | MemberRole | GuestRole

text \<open>\<open>'c\<close> is the type of the playback command a stored room carries.\<close>

record 'c wave_room =
  wr_id :: uuid
  wr_code :: string
  wr_host :: uuid
  wr_created_at :: instant
  wr_expires_at :: instant
  wr_members :: "uuid set"
  wr_queue :: "queue_entry list"
  wr_version :: int
  wr_sequence :: int
  wr_closed_at :: "instant option"
  wr_host_lost_at :: "instant option"
  wr_epoch :: int
  wr_state :: room_state
  wr_playback :: playback_state
  wr_role :: room_role
  wr_preflight :: "(uuid \<times> availability) list"
  wr_targets :: "transfer_target list"
  wr_command :: "'c option"

text \<open>\<open>WaveRoom.create\<close>, with the identifier and the random bits it draws.\<close>

definition create_room :: "uuid \<Rightarrow> nat \<Rightarrow> uuid \<Rightarrow> instant \<Rightarrow> 'c wave_room" where
  "create_room fresh bits host now =
     \<lparr>wr_id = fresh, wr_code = new_room_code bits, wr_host = host, wr_created_at = now,
      wr_expires_at = now + room_ttl, wr_members = {host}, wr_queue = [], wr_version = 1,
      wr_sequence = 0, wr_closed_at = None, wr_host_lost_at = None, wr_epoch = 1, wr_state = OPEN,
      wr_playback = IDLE, wr_role = MemberRole, wr_preflight = [], wr_targets = [], wr_command = None\<rparr>"

definition room_active :: "'c wave_room \<Rightarrow> instant \<Rightarrow> bool" where
  "room_active r now \<longleftrightarrow> wr_closed_at r = None \<and> now < wr_expires_at r"

definition require_member :: "'c wave_room \<Rightarrow> uuid \<Rightarrow> instant \<Rightarrow> wave_exn + unit" where
  "require_member r user now = require (room_active r now \<and> user \<in> wr_members r) WaveForbidden"

definition require_host :: "'c wave_room \<Rightarrow> uuid \<Rightarrow> instant \<Rightarrow> wave_exn + unit" where
  "require_host r user now =
     bind_result (require_member r user now) (\<lambda>_. require (user = wr_host r) WaveForbidden)"

definition join_room :: "'c wave_room \<Rightarrow> uuid \<Rightarrow> instant \<Rightarrow> wave_exn + 'c wave_room" where
  "join_room r user now =
     (if \<not> room_active r now then Inl WaveForbidden
      else if user \<notin> wr_members r \<and> max_members \<le> card (wr_members r) then Inl WaveConflict
      else Inr (r\<lparr>wr_members := insert user (wr_members r)\<rparr>))"

definition enqueue_room ::
  "uuid \<Rightarrow> 'c wave_room \<Rightarrow> uuid \<Rightarrow> uuid \<Rightarrow> int \<Rightarrow> instant \<Rightarrow> wave_exn + (queue_entry \<times> 'c wave_room)" where
  "enqueue_room fresh r user recording base_version now =
     bind_result (require_host r user now) (\<lambda>_.
     if base_version \<noteq> wr_version r then Inl WaveConflict
     else if max_queue \<le> length (wr_queue r) then Inl WaveConflict
     else let entry = \<lparr>qe_id = fresh, qe_recording = recording, qe_position = int (length (wr_queue r))\<rparr>
          in Inr (entry, r\<lparr>wr_queue := wr_queue r @ [entry], wr_version := wr_version r + 1\<rparr>))"

definition transfer_host_room ::
  "'c wave_room \<Rightarrow> uuid \<Rightarrow> uuid \<Rightarrow> instant \<Rightarrow> wave_exn + 'c wave_room" where
  "transfer_host_room r actor target now =
     bind_result (require_host r actor now) (\<lambda>_.
     if target \<notin> wr_members r then Inl WaveForbidden
     else Inr (r\<lparr>wr_host := target, wr_host_lost_at := None, wr_version := wr_version r + 1\<rparr>))"

definition host_disconnected :: "'c wave_room \<Rightarrow> instant \<Rightarrow> 'c wave_room" where
  "host_disconnected r now = r\<lparr>wr_host_lost_at := Some now\<rparr>"

definition expire_host_grace :: "'c wave_room \<Rightarrow> instant \<Rightarrow> bool \<times> 'c wave_room" where
  "expire_host_grace r now =
     (case wr_host_lost_at r of
        None \<Rightarrow> (False, r)
      | Some lost \<Rightarrow>
          if lost + host_grace \<le> now
          then (True, r\<lparr>wr_closed_at := Some now, wr_version := wr_version r + 1\<rparr>)
          else (False, r))"

definition schedule_lead_ms :: "int \<Rightarrow> wave_exn + int" where
  "schedule_lead_ms rtt =
     (if 0 \<le> rtt \<and> rtt \<le> max_rtt_ms then Inr (min 8000 (max 2000 (3 * rtt + 250)))
      else Inl (WaveValueError ''wave RTT is outside accepted bounds''))"

subsection \<open>Room codes are read back\<close>

text \<open>The value a code was drawn from.\<close>

definition alphabet_index :: "char \<Rightarrow> nat" where
  "alphabet_index c = length (takeWhile (\<lambda>d. d \<noteq> c) room_alphabet)"

definition room_code_value :: "string \<Rightarrow> nat" where
  "room_code_value code = foldl (\<lambda>v c. 32 * v + alphabet_index c) 0 code"

lemma alphabet_index_nth: "i < 32 \<Longrightarrow> alphabet_index (room_alphabet ! i) = i"
proof -
  have "\<forall>i \<in> {0..<32}. alphabet_index (room_alphabet ! i) = i" by code_simp
  then show "i < 32 \<Longrightarrow> alphabet_index (room_alphabet ! i) = i" by simp
qed

lemma new_room_code_characters: "c \<in> set (new_room_code v) \<Longrightarrow> c \<in> set room_alphabet"
proof -
  have "length room_alphabet = 32" by code_simp
  then have "room_alphabet ! (n mod 32) \<in> set room_alphabet" for n by simp
  then show "c \<in> set (new_room_code v) \<Longrightarrow> c \<in> set room_alphabet"
    unfolding new_room_code_def by auto
qed

lemma digits_value:
  "foldl (\<lambda>v i. 32 * v + x div 32 ^ i mod 32) a (rev [0..<n]) = a * 32 ^ n + x mod 32 ^ n" for x :: nat
proof (induction n arbitrary: a)
  case (Suc n)
  have "x mod 32 ^ Suc n = 32 ^ n * (x div 32 ^ n mod 32) + x mod 32 ^ n"
    using mod_mult2_eq [of x "32 ^ n" 32] by (simp add: mult.commute)
  with Suc show ?case by (simp add: algebra_simps)
qed simp

lemma room_code_value_new: "room_code_value (new_room_code v) = v mod 2 ^ 50"
proof -
  have "rev [0..<10] = [9, 8, 7, 6, 5, 4, 3, 2, 1, 0]" by (simp add: upt_rec)
  then have "room_code_value (new_room_code v) = foldl (\<lambda>u i. 32 * u + v div 32 ^ i mod 32) 0 (rev [0..<10])"
    by (simp add: room_code_value_def new_room_code_def alphabet_index_nth power_mult)
  also have "\<dots> = v mod 32 ^ 10" by (simp only: digits_value mult_zero_left add_0)
  finally show ?thesis by simp
qed

end
