(* ===== verification/Wave_Tables.thy ===== *)
theory Wave_Tables
  imports Wave_Domain Resource_Tables
begin

text \<open>
  The tables behind Wave rooms and their guests: \<open>models/wave.py\<close>, the guest half of
  \<open>models/social.py\<close>, and the constraints and triggers the migrations \<open>0015_wave_runtime\<close> and
  \<open>0026_s1d_guest_room_access\<close> declare for them. Constraints are predicates on rows, foreign keys and
  unique indexes predicates on tables; a trigger is a function applied with the write that fires it.
\<close>

subsection \<open>Rooms, members, queue, commands\<close>

record room_row =
  ro_id :: uuid
  ro_code_sha256 :: "8 word list"
  ro_host_user :: uuid
  ro_host_device :: uuid
  ro_state :: room_state
  ro_playback :: playback_state
  ro_epoch :: int
  ro_version :: int
  ro_position_ms :: int
  ro_recording :: "uuid option"
  ro_sequence :: int
  ro_effective_at :: "instant option"
  ro_expires_at :: instant
  ro_host_lost_at :: "instant option"
  ro_closed_at :: "instant option"
  ro_created_at :: instant

definition room_row_checks :: "room_row \<Rightarrow> bool" where
  "room_row_checks r \<longleftrightarrow>
     length (ro_code_sha256 r) = 32
     \<and> 1 \<le> ro_epoch r \<and> 1 \<le> ro_version r \<and> 0 \<le> ro_sequence r \<and> 0 \<le> ro_position_ms r
     \<and> ro_created_at r < ro_expires_at r"

datatype member_status = MsAllowed | MsJoined | MsLeft | MsRevoked

record member_row =
  wm_room :: uuid
  wm_user :: uuid
  wm_device :: uuid
  wm_role :: room_role
  wm_status :: member_status
  wm_joined_at :: instant
  wm_left_at :: "instant option"
  wm_present_at :: "instant option"

definition member_row_checks :: "member_row \<Rightarrow> bool" where
  "member_row_checks m \<longleftrightarrow>
     wm_role m \<noteq> GuestRole
     \<and> (case wm_present_at m of None \<Rightarrow> True | Some t \<Rightarrow> wm_joined_at m \<le> t)"

definition member_key :: "member_row \<Rightarrow> uuid \<times> uuid" where
  "member_key m = (wm_room m, wm_device m)"

record queue_row =
  wq_id :: uuid
  wq_room :: uuid
  wq_recording :: uuid
  wq_position :: int
  wq_removed_at :: "instant option"

definition queue_row_checks :: "queue_row \<Rightarrow> bool" where
  "queue_row_checks q \<longleftrightarrow> 0 \<le> wq_position q \<and> wq_position q < 100"

record command_row =
  wc_room :: uuid
  wc_sequence :: int
  wc_user :: uuid
  wc_device :: uuid
  wc_key :: string
  wc_sha256 :: "8 word list"
  wc_expected_version :: int
  wc_expected_sequence :: int
  wc_kind :: string
  wc_document :: document
  wc_effective_at :: "instant option"
  wc_created_at :: instant

definition command_kinds :: "string list" where
  "command_kinds = [''PLAY'', ''PAUSE'', ''SEEK'', ''SKIP'', ''QUEUE'', ''TRANSFER'', ''CLOSE'', ''LEAVE'',
     ''EXPIRE'', ''START_ABORTED'']"

definition command_row_checks :: "command_row \<Rightarrow> bool" where
  "command_row_checks c \<longleftrightarrow>
     1 \<le> len (wc_key c) \<and> len (wc_key c) \<le> 128
     \<and> length (wc_sha256 c) = 32
     \<and> 1 \<le> wc_expected_version c \<and> 0 \<le> wc_expected_sequence c
     \<and> wc_kind c \<in> set command_kinds"

subsection \<open>Readiness and timing\<close>

text \<open>
  A participant of \<open>wave.preflight\<close> and \<open>wave.timing_report\<close> is a device, one of the guest tables a
  guest session; the columns are otherwise the same, but for the user of a member's preflight, which
  nothing reads.
\<close>

record preflight_row =
  wp_room :: uuid
  wp_participant :: uuid
  wp_entry :: uuid
  wp_recording :: uuid
  wp_version :: int
  wp_availability :: availability
  wp_ready :: bool
  wp_checked_at :: instant
  wp_expires_at :: instant

definition preflight_row_checks :: "preflight_row \<Rightarrow> bool" where
  "preflight_row_checks p \<longleftrightarrow> 1 \<le> wp_version p \<and> wp_checked_at p < wp_expires_at p"

definition preflight_key :: "preflight_row \<Rightarrow> uuid \<times> uuid \<times> uuid" where
  "preflight_key p = (wp_room p, wp_participant p, wp_entry p)"

record timing_row =
  wt_room :: uuid
  wt_participant :: uuid
  wt_sequence :: int
  wt_rtt_ms :: int
  wt_offset_ms :: int
  wt_uncertainty_ms :: int
  wt_skew_ms :: "int option"
  wt_drift_ms :: "int option"
  wt_reported_at :: instant

definition timing_row_checks :: "timing_row \<Rightarrow> bool" where
  "timing_row_checks t \<longleftrightarrow>
     0 \<le> wt_rtt_ms t \<and> wt_rtt_ms t \<le> 1000 \<and> 0 \<le> wt_uncertainty_ms t \<and> wt_uncertainty_ms t \<le> 100
     \<and> \<bar>wt_offset_ms t\<bar> \<le> 86400000"

definition timing_key :: "timing_row \<Rightarrow> uuid \<times> uuid \<times> int" where
  "timing_key t = (wt_room t, wt_participant t, wt_sequence t)"

subsection \<open>Guests\<close>

definition guest_actions :: "string list" where
  "guest_actions = [''ROOM_SNAPSHOT'', ''ROOM_EVENTS'', ''ROOM_PRESENCE'', ''ROOM_PREFLIGHT'',
     ''ROOM_TIMING'', ''ROOM_LEAVE'']"

datatype invitation_state = GiPending | GiDepleted | GiRevoked | GiExpired | GiRoomClosed

record guest_invitation =
  gi_id :: uuid
  gi_room :: uuid
  gi_epoch :: int
  gi_host_user :: uuid
  gi_host_device :: uuid
  gi_host_session :: uuid
  gi_secret :: "8 word list"
  gi_actions :: "string list"
  gi_state :: invitation_state
  gi_max_uses :: int
  gi_consumed :: int
  gi_expires_at :: instant
  gi_revoked_at :: "instant option"
  gi_terminal_at :: "instant option"
  gi_reason :: "string option"
  gi_created_at :: instant

definition guest_invitation_checks :: "guest_invitation \<Rightarrow> bool" where
  "guest_invitation_checks i \<longleftrightarrow>
     length (gi_secret i) = 32 \<and> 1 \<le> gi_epoch i \<and> gi_actions i = guest_actions
     \<and> 1 \<le> gi_max_uses i \<and> gi_max_uses i \<le> 8 \<and> 0 \<le> gi_consumed i \<and> gi_consumed i \<le> gi_max_uses i
     \<and> gi_created_at i < gi_expires_at i
     \<and> (gi_state i = GiPending \<longleftrightarrow> gi_terminal_at i = None)"

datatype guest_state = GsActive | GsLeft | GsRevoked | GsExpired | GsRoomClosed

record guest_session =
  gs_id :: uuid
  gs_invitation :: uuid
  gs_room :: uuid
  gs_epoch :: int
  gs_secret :: "8 word list"
  gs_name :: string
  gs_actions :: "string list"
  gs_state :: guest_state
  gs_expires_at :: instant
  gs_present_at :: "instant option"
  gs_left_at :: "instant option"
  gs_revoked_at :: "instant option"
  gs_terminal_at :: "instant option"
  gs_reason :: "string option"
  gs_created_at :: instant

definition guest_session_checks :: "guest_session \<Rightarrow> bool" where
  "guest_session_checks s \<longleftrightarrow>
     length (gs_secret s) = 32 \<and> 1 \<le> gs_epoch s \<and> gs_actions s = guest_actions
     \<and> 1 \<le> len (gs_name s) \<and> len (gs_name s) \<le> 40
     \<and> list_all (\<lambda>c. 32 \<le> (of_char c :: nat) \<and> (of_char c :: nat) \<noteq> 127) (gs_name s)
     \<and> gs_created_at s < gs_expires_at s
     \<and> (case gs_present_at s of None \<Rightarrow> True | Some t \<Rightarrow> gs_created_at s \<le> t)
     \<and> (gs_state s = GsActive \<longleftrightarrow> gs_terminal_at s = None)"

text \<open>
  The columns that name the actor of a receipt, in the three shapes \<open>ck_social_guest_operation_actor\<close>
  allows.
\<close>

datatype guest_actor =
    HostActor uuid uuid
  | DocumentActor "8 word list"
  | SessionActor uuid

record guest_receipt =
  gr_operation :: uuid
  gr_actor :: guest_actor
  gr_action :: string
  gr_sha256 :: "8 word list"
  gr_code :: string
  gr_invitation :: "uuid option"
  gr_session :: "uuid option"
  gr_room :: "uuid option"
  gr_result :: document
  gr_expires_at :: instant
  gr_created_at :: instant

record rate_row =
  rw_key :: "8 word list"
  rw_scope :: string
  rw_started_at :: instant
  rw_expires_at :: instant
  rw_attempts :: int

definition rate_row_checks :: "rate_row \<Rightarrow> bool" where
  "rate_row_checks w \<longleftrightarrow> length (rw_key w) = 32 \<and> 1 \<le> rw_attempts w \<and> rw_started_at w < rw_expires_at w"

subsection \<open>The state of the subsystem\<close>

record named_device = device_row +
  dv_name :: string

text \<open>
  The tables of the schema \<open>wave\<close>, the guest tables of the schema \<open>social\<close>, and what both read or
  reference of accounts, devices, sessions and recordings.
\<close>

record wave_db =
  wv_rooms :: "room_row list"
  wv_members :: "member_row list"
  wv_invited :: "(uuid \<times> uuid) list"
  wv_queue :: "queue_row list"
  wv_commands :: "command_row list"
  wv_preflights :: "preflight_row list"
  wv_timings :: "timing_row list"
  wv_invitations :: "guest_invitation list"
  wv_guests :: "guest_session list"
  wv_receipts :: "guest_receipt list"
  wv_guest_preflights :: "preflight_row list"
  wv_guest_timings :: "timing_row list"
  wv_rates :: "rate_row list"
  wv_accounts :: "account_row list"
  wv_devices :: "named_device list"
  wv_sessions :: "session_row list"
  wv_recordings :: "uuid list"

definition find_room :: "uuid \<Rightarrow> wave_db \<Rightarrow> room_row option" where
  "find_room i db = find (\<lambda>r. ro_id r = i) (wv_rooms db)"

definition find_invitation :: "uuid \<Rightarrow> wave_db \<Rightarrow> guest_invitation option" where
  "find_invitation i db = find (\<lambda>v. gi_id v = i) (wv_invitations db)"

definition find_guest :: "8 word list \<Rightarrow> wave_db \<Rightarrow> guest_session option" where
  "find_guest secret db = find (\<lambda>s. gs_secret s = secret) (wv_guests db)"

definition find_receipt :: "uuid \<Rightarrow> wave_db \<Rightarrow> guest_receipt option" where
  "find_receipt i db = find (\<lambda>q. gr_operation q = i) (wv_receipts db)"

subsection \<open>Triggers\<close>

definition retired_guest_state :: "invitation_state \<Rightarrow> guest_state" where
  "retired_guest_state s =
     (case s of GiRevoked \<Rightarrow> GsRevoked | GiExpired \<Rightarrow> GsExpired | GiRoomClosed \<Rightarrow> GsRoomClosed
        | _ \<Rightarrow> GsActive)"

definition state_text :: "invitation_state \<Rightarrow> string" where
  "state_text s =
     (case s of GiPending \<Rightarrow> ''PENDING'' | GiDepleted \<Rightarrow> ''DEPLETED'' | GiRevoked \<Rightarrow> ''REVOKED''
        | GiExpired \<Rightarrow> ''EXPIRED'' | GiRoomClosed \<Rightarrow> ''ROOM_CLOSED'')"

text \<open>
  \<open>social.retire_guest_invitation_sessions\<close>: an invitation that becomes revoked, expired or closed with
  its room takes its active sessions along.
\<close>

definition retired_guest :: "guest_invitation \<Rightarrow> instant \<Rightarrow> guest_session \<Rightarrow> guest_session" where
  "retired_guest i clk s =
     s\<lparr>gs_state := retired_guest_state (gi_state i),
       gs_revoked_at := (if gi_state i = GiRevoked then Some clk else gs_revoked_at s),
       gs_terminal_at := Some clk,
       gs_reason := Some (case gi_reason i of Some x \<Rightarrow> x | None \<Rightarrow> state_text (gi_state i))\<rparr>"

definition retire_sessions :: "instant \<Rightarrow> guest_invitation \<Rightarrow> guest_invitation \<Rightarrow> guest_session list \<Rightarrow> guest_session list" where
  "retire_sessions clk old new guests =
     (if gi_state new \<in> {GiRevoked, GiExpired, GiRoomClosed} \<and> gi_state old \<noteq> gi_state new
      then update_rows (\<lambda>s. gs_invitation s = gi_id new \<and> gs_state s = GsActive) (retired_guest new clk) guests
      else guests)"

text \<open>An \<open>UPDATE\<close> of the invitations that \<open>P\<close> selects, with the trigger run for each of them.\<close>

fun retire_each :: "instant \<Rightarrow> (guest_invitation \<Rightarrow> guest_invitation) \<Rightarrow> guest_invitation list \<Rightarrow> guest_session list
   \<Rightarrow> guest_session list" where
  "retire_each clk f [] guests = guests"
| "retire_each clk f (i # rows) guests = retire_each clk f rows (retire_sessions clk i (f i) guests)"

definition update_invitations ::
  "instant \<Rightarrow> (guest_invitation \<Rightarrow> bool) \<Rightarrow> (guest_invitation \<Rightarrow> guest_invitation) \<Rightarrow> wave_db \<Rightarrow> wave_db" where
  "update_invitations clk P f db =
     db\<lparr>wv_invitations := update_rows P f (wv_invitations db),
        wv_guests := retire_each clk f (filter P (wv_invitations db)) (wv_guests db)\<rparr>"

definition live_invitation :: "guest_invitation \<Rightarrow> bool" where
  "live_invitation i \<longleftrightarrow> gi_state i = GiPending \<or> gi_state i = GiDepleted"

text \<open>\<open>social.retire_guest_room_state\<close>, fired by every \<open>UPDATE\<close> of a room that sets its state.\<close>

definition room_retired :: "room_row \<Rightarrow> instant \<Rightarrow> guest_invitation \<Rightarrow> guest_invitation" where
  "room_retired r clk i =
     (if ro_state r = CLOSED
      then i\<lparr>gi_state := GiRoomClosed, gi_terminal_at := Some clk, gi_reason := Some ''ROOM_CLOSED''\<rparr>
      else i\<lparr>gi_state := GiExpired, gi_terminal_at := Some clk, gi_reason := Some ''ROOM_EXPIRED''\<rparr>)"

definition retire_room :: "instant \<Rightarrow> room_row \<Rightarrow> wave_db \<Rightarrow> wave_db" where
  "retire_room clk r db =
     (if ro_state r \<in> {CLOSED, EXPIRED} \<or> ro_expires_at r \<le> clk
      then update_invitations clk (\<lambda>i. gi_room i = ro_id r \<and> live_invitation i) (room_retired r clk) db
      else db)"

text \<open>
  \<open>social.retire_guest_device_state\<close>, \<open>retire_guest_user_session_state\<close> and the \<open>UPDATE\<close> branch of
  \<open>retire_guest_account_state\<close>: the host of an invitation loses the device, the session or the account.
\<close>

definition host_retired :: "string \<Rightarrow> instant \<Rightarrow> guest_invitation \<Rightarrow> guest_invitation" where
  "host_retired reason clk i =
     i\<lparr>gi_state := GiRevoked, gi_revoked_at := Some clk, gi_terminal_at := Some clk, gi_reason := Some reason\<rparr>"

definition retire_device :: "instant \<Rightarrow> named_device \<Rightarrow> named_device \<Rightarrow> wave_db \<Rightarrow> wave_db" where
  "retire_device clk old new db =
     (if dv_revoked_at new \<noteq> None \<and> dv_revoked_at old \<noteq> dv_revoked_at new
      then update_invitations clk
             (\<lambda>i. gi_host_user i = dv_user new \<and> gi_host_device i = dv_id new \<and> live_invitation i)
             (host_retired ''HOST_DEVICE_REVOKED'' clk) db
      else db)"

definition retire_session :: "instant \<Rightarrow> session_row \<Rightarrow> session_row \<Rightarrow> wave_db \<Rightarrow> wave_db" where
  "retire_session clk old new db =
     (if us_revoked_at new \<noteq> None \<and> us_revoked_at old \<noteq> us_revoked_at new
      then update_invitations clk
             (\<lambda>i. gi_host_user i = us_user new \<and> gi_host_device i = us_device new
                  \<and> gi_host_session i = us_id new \<and> live_invitation i)
             (host_retired ''HOST_SESSION_REVOKED'' clk) db
      else db)"

definition retire_account :: "instant \<Rightarrow> account_row \<Rightarrow> wave_db \<Rightarrow> wave_db" where
  "retire_account clk new db =
     (if ua_status new \<noteq> ''ACTIVE'' \<or> ua_deleted_at new \<noteq> None
      then update_invitations clk (\<lambda>i. gi_host_user i = ua_id new \<and> live_invitation i)
             (host_retired ''HOST_ACCOUNT_UNAVAILABLE'' clk) db
      else db)"

end
