(* ===== verification/Timestamps.thy ===== *)
theory Timestamps
  imports Job_Documents
begin

text \<open>
  The texts the server writes for instants: \<open>datetime.isoformat\<close> of a UTC time, and \<open>iso8601\<close> of
  \<open>server/src/autplay/domain/profile_pairing.py\<close>, which abbreviates the offset. The calendar date is
  computed from the count of days since the epoch in the proleptic Gregorian calendar.
\<close>

text \<open>A count of days since 1970-01-01 as year, month and day; eras of 400 years start on 1 March.\<close>

definition civil_date :: "int \<Rightarrow> int \<times> int \<times> int" where
  "civil_date n =
     (let z = n + 719468;
          era = z div 146097;
          doe = z mod 146097;
          yoe = (doe - doe div 1460 + doe div 36524 - doe div 146096) div 365;
          doy = doe - (365 * yoe + yoe div 4 - yoe div 100);
          mp = (5 * doy + 2) div 153;
          d = doy - (153 * mp + 2) div 5 + 1;
          m = (if mp < 10 then mp + 3 else mp - 9)
      in (yoe + era * 400 + (if m \<le> 2 then 1 else 0), m, d))"

definition padded :: "nat \<Rightarrow> int \<Rightarrow> string" where
  "padded width n =
     (let ds = nat_digits (nat n) in replicate (width - length ds) (CHR ''0'') @ ds)"

text \<open>Date and time, with microseconds only when there are any.\<close>

definition iso_date_time :: "instant \<Rightarrow> string" where
  "iso_date_time t =
     (let (y, m, d) = civil_date (t div days 1);
          us = t mod days 1;
          fraction = us mod seconds 1
      in padded 4 y @ ''-'' @ padded 2 m @ ''-'' @ padded 2 d @ ''T''
         @ padded 2 (us div hours 1) @ '':'' @ padded 2 (us mod hours 1 div minutes 1) @ '':''
         @ padded 2 (us mod minutes 1 div seconds 1)
         @ (if fraction = 0 then '''' else ''.'' @ padded 6 fraction))"

definition isoformat :: "instant \<Rightarrow> string" where
  "isoformat t = iso_date_time t @ ''+00:00''"

definition iso8601 :: "instant \<Rightarrow> string" where
  "iso8601 t = iso_date_time t @ ''Z''"

end
