(* ===== verification/Base64.thy ===== *)
theory Base64
  imports Prelude "HOL-Library.Word"
begin

text \<open>
  Opaque secrets as the server writes them: the unpadded URL-safe base-64 text of some bytes. Refresh
  tokens, invitation documents and guest sessions are such texts of 32 bytes. A digest is SHA-256, code
  outside the repository, and always an argument.
\<close>

type_synonym digest = "8 word list \<Rightarrow> 8 word list"

text \<open>\<open>str.encode\<close> on ASCII texts.\<close>

definition text_bytes :: "string \<Rightarrow> 8 word list" where
  "text_bytes s = map (\<lambda>c. word_of_nat (of_char c)) s"

subsection \<open>Encoding and decoding\<close>

definition b64_alphabet :: string where
  "b64_alphabet = ''ABCDEFGHIJKLMNOPQRSTUVWXYZabcdefghijklmnopqrstuvwxyz0123456789-_''"

definition b64_char :: "nat \<Rightarrow> char" where
  "b64_char n = b64_alphabet ! n"

definition b64_index :: "char \<Rightarrow> nat" where
  "b64_index c = length (takeWhile (\<lambda>d. d \<noteq> c) b64_alphabet)"

text \<open>\<open>base64.urlsafe_b64encode\<close> without its padding.\<close>

fun b64_encode :: "8 word list \<Rightarrow> string" where
  "b64_encode [] = []"
| "b64_encode [a] = [b64_char (unat a div 4), b64_char (unat a mod 4 * 16)]"
| "b64_encode [a, b] =
     [b64_char (unat a div 4), b64_char (unat a mod 4 * 16 + unat b div 16), b64_char (unat b mod 16 * 4)]"
| "b64_encode (a # b # c # rest) =
     [b64_char (unat a div 4), b64_char (unat a mod 4 * 16 + unat b div 16),
      b64_char (unat b mod 16 * 4 + unat c div 64), b64_char (unat c mod 64)] @ b64_encode rest"

text \<open>
  \<open>base64.urlsafe_b64decode\<close> of a text with its padding put back; bits beyond the last whole byte are
  dropped. A single left-over character cannot occur in texts of 43 characters.
\<close>

fun b64_decode :: "string \<Rightarrow> 8 word list" where
  "b64_decode (p # q # r # s # rest) =
     [word_of_nat (b64_index p * 4 + b64_index q div 16),
      word_of_nat (b64_index q mod 16 * 16 + b64_index r div 4),
      word_of_nat (b64_index r mod 4 * 64 + b64_index s)] @ b64_decode rest"
| "b64_decode [p, q, r] =
     [word_of_nat (b64_index p * 4 + b64_index q div 16),
      word_of_nat (b64_index q mod 16 * 16 + b64_index r div 4)]"
| "b64_decode [p, q] = [word_of_nat (b64_index p * 4 + b64_index q div 16)]"
| "b64_decode _ = []"

subsection \<open>Texts are read back\<close>

lemma b64_index_char [simp]: "n < 64 \<Longrightarrow> b64_index (b64_char n) = n"
proof -
  have "\<forall>n \<in> {0..<64}. b64_index (b64_char n) = n" by code_simp
  then show "n < 64 \<Longrightarrow> b64_index (b64_char n) = n" by simp
qed

lemma b64_char_alphabet: "n < 64 \<Longrightarrow> b64_char n \<in> set b64_alphabet"
proof -
  have "length b64_alphabet = 64" by code_simp
  then show "n < 64 \<Longrightarrow> b64_char n \<in> set b64_alphabet" by (simp add: b64_char_def)
qed

lemma byte_bound: "unat (b :: 8 word) < 256"
  using unsigned_less [of b] by simp

lemma byte_div [simp]:
  fixes b :: "8 word"
  shows "unat b div 4 < 64" "unat b div 16 < 16" "unat b div 64 < 4"
    "unat b div 16 div 16 = 0" "unat b div 64 div 4 = 0" "unat b div 16 mod 16 = unat b div 16"
    "unat b div 64 mod 4 = unat b div 64"
  using byte_bound [of b] by (simp_all add: less_mult_imp_div_less)

lemma byte_parts [simp]:
  fixes a b c :: "8 word"
  shows "unat a mod 4 * 16 + unat b div 16 < 64" "unat b mod 16 * 4 + unat c div 64 < 64"
    "unat a mod 4 * 16 < 64" "unat b mod 16 * 4 < 64"
proof -
  have "unat a mod 4 < 4" "unat b mod 16 < 16" by simp_all
  moreover have "unat b div 16 < 16" "unat c div 64 < 4" by simp_all
  ultimately show "unat a mod 4 * 16 + unat b div 16 < 64" "unat b mod 16 * 4 + unat c div 64 < 64"
    "unat a mod 4 * 16 < 64" "unat b mod 16 * 4 < 64" by linarith+
qed

lemma b64_decode_encode: "b64_decode (b64_encode bs) = bs"
  by (induction bs rule: b64_encode.induct) (simp_all del: of_nat_add of_nat_mult)

lemma b64_encode_alphabet: "list_all (\<lambda>c. c \<in> set b64_alphabet) (b64_encode bs)"
  by (induction bs rule: b64_encode.induct) (auto intro!: b64_char_alphabet)

lemma length_b64_encode: "length (b64_encode bs) = (4 * length bs + 2) div 3"
  by (induction bs rule: b64_encode.induct) auto

end
