(* ===== verification/Wave_Service.thy ===== *)
theory Wave_Service
  imports Wave_Tables Timestamps Base64
begin

text \<open>
  The durable room service, \<open>SqlAlchemyWaveService\<close> of
  \<open>server/src/autplay/adapters/postgresql/wave.py\<close>, with \<open>playback_command\<close> of
  \<open>application/wave_timeline.py\<close>. An operation is one transaction: it returns its value and the new
  tables, or the exception that rolled it back. \<open>FOR UPDATE\<close> on the room row serialises the operations
  of a room, so they are modelled one after another; \<open>SKIP LOCKED\<close> is a predicate on room identifiers.

  \<open>now\<close> is the time the caller passes, \<open>clk\<close> the database's \<open>statement_timestamp()\<close> the triggers read;
  identifiers the code draws and SHA-256 are arguments.
\<close>

text \<open>\<open>str.upper\<close> and the decimal text of a number, on the ASCII texts used here.\<close>

definition upper_char :: "char \<Rightarrow> char" where
  "upper_char c = (let n = (of_char c :: nat) in if 97 \<le> n \<and> n \<le> 122 then char_of (n - 32) else c)"

definition number_text :: "int \<Rightarrow> string" where
  "number_text n = (if n < 0 then CHR ''-'' # nat_digits (nat (- n)) else nat_digits (nat n))"

subsection \<open>Statements\<close>

text \<open>An \<open>UPDATE\<close> whose \<open>CHECK\<close> constraints are verified on the rows it writes.\<close>

definition checked_update ::
  "('r \<Rightarrow> bool) \<Rightarrow> string \<Rightarrow> ('r \<Rightarrow> bool) \<Rightarrow> ('r \<Rightarrow> 'r) \<Rightarrow> 'r list \<Rightarrow> wave_exn + 'r list" where
  "checked_update chk name P f rows =
     (if list_all (\<lambda>r. P r \<longrightarrow> chk (f r)) rows then Inr (update_rows P f rows)
      else Inl (WaveIntegrityError name))"

definition known_actor :: "uuid \<Rightarrow> uuid \<Rightarrow> wave_db \<Rightarrow> bool" where
  "known_actor user device db \<longleftrightarrow>
     list_ex (\<lambda>u. ua_id u = user) (wv_accounts db) \<and> list_ex (\<lambda>d. dv_id d = device) (wv_devices db)"

definition insert_room :: "room_row \<Rightarrow> wave_db \<Rightarrow> wave_exn + wave_db" where
  "insert_room r db =
     (if \<not> room_row_checks r then Inl (WaveIntegrityError ''ck_wave_room'')
      else if list_ex (\<lambda>s. ro_id s = ro_id r) (wv_rooms db) then Inl (WaveIntegrityError ''room_pkey'')
      else if list_ex (\<lambda>s. ro_code_sha256 s = ro_code_sha256 r) (wv_rooms db)
      then Inl (WaveIntegrityError ''room_room_code_sha256_key'')
      else if \<not> known_actor (ro_host_user r) (ro_host_device r) db
      then Inl (WaveIntegrityError ''room_host_fkey'')
      else Inr (db\<lparr>wv_rooms := wv_rooms db @ [r]\<rparr>))"

definition insert_member :: "member_row \<Rightarrow> wave_db \<Rightarrow> wave_exn + wave_db" where
  "insert_member m db =
     (if \<not> member_row_checks m then Inl (WaveIntegrityError ''ck_wave_member'')
      else if list_ex (\<lambda>n. member_key n = member_key m) (wv_members db)
      then Inl (WaveIntegrityError ''member_pkey'')
      else if \<not> known_actor (wm_user m) (wm_device m) db then Inl (WaveIntegrityError ''member_fkey'')
      else Inr (db\<lparr>wv_members := wv_members db @ [m]\<rparr>))"

definition insert_invited :: "uuid \<Rightarrow> uuid \<Rightarrow> wave_db \<Rightarrow> wave_exn + wave_db" where
  "insert_invited room user db =
     (if (room, user) \<in> set (wv_invited db) then Inl (WaveIntegrityError ''invitation_pkey'')
      else if \<not> list_ex (\<lambda>u. ua_id u = user) (wv_accounts db)
      then Inl (WaveIntegrityError ''invitation_user_id_fkey'')
      else Inr (db\<lparr>wv_invited := wv_invited db @ [(room, user)]\<rparr>))"

definition insert_queue :: "queue_row \<Rightarrow> wave_db \<Rightarrow> wave_exn + wave_db" where
  "insert_queue q db =
     (if \<not> queue_row_checks q then Inl (WaveIntegrityError ''ck_wave_queue_position'')
      else if list_ex (\<lambda>p. wq_id p = wq_id q) (wv_queue db)
      then Inl (WaveIntegrityError ''queue_entry_pkey'')
      else if wq_recording q \<notin> set (wv_recordings db)
      then Inl (WaveIntegrityError ''queue_entry_recording_id_fkey'')
      else Inr (db\<lparr>wv_queue := wv_queue db @ [q]\<rparr>))"

definition insert_command :: "command_row \<Rightarrow> wave_db \<Rightarrow> wave_exn + wave_db" where
  "insert_command c db =
     (if \<not> command_row_checks c then Inl (WaveIntegrityError ''ck_wave_command'')
      else if list_ex (\<lambda>d. wc_room d = wc_room c \<and> wc_sequence d = wc_sequence c) (wv_commands db)
      then Inl (WaveIntegrityError ''command_pkey'')
      else if list_ex (\<lambda>d. wc_room d = wc_room c \<and> wc_key d = wc_key c) (wv_commands db)
      then Inl (WaveIntegrityError ''uq_wave_command_idempotency'')
      else if \<not> known_actor (wc_user c) (wc_device c) db then Inl (WaveIntegrityError ''command_fkey'')
      else Inr (db\<lparr>wv_commands := wv_commands db @ [c]\<rparr>))"

text \<open>\<open>UPDATE wave.room \<dots> WHERE room_id\<close> without, and with, the trigger on the state.\<close>

definition update_room :: "uuid \<Rightarrow> (room_row \<Rightarrow> room_row) \<Rightarrow> wave_db \<Rightarrow> wave_db" where
  "update_room i f db = db\<lparr>wv_rooms := update_rows (\<lambda>r. ro_id r = i) f (wv_rooms db)\<rparr>"

definition update_room_state :: "instant \<Rightarrow> uuid \<Rightarrow> (room_row \<Rightarrow> room_row) \<Rightarrow> wave_db \<Rightarrow> wave_db" where
  "update_room_state clk i f db =
     (let db' = update_room i f db
      in case find_room i db' of None \<Rightarrow> db' | Some r \<Rightarrow> retire_room clk r db')"

definition the_room :: "uuid \<Rightarrow> wave_db \<Rightarrow> wave_exn + room_row" where
  "the_room i db = (case find_room i db of None \<Rightarrow> Inl NoResultFound | Some r \<Rightarrow> Inr r)"

definition joined :: "uuid \<Rightarrow> member_row \<Rightarrow> bool" where
  "joined room m \<longleftrightarrow> wm_room m = room \<and> wm_status m = MsJoined"

definition present_since :: "instant \<Rightarrow> instant option \<Rightarrow> bool" where
  "present_since cutoff t = (case t of None \<Rightarrow> False | Some x \<Rightarrow> cutoff \<le> x)"

subsection \<open>Reading a room\<close>

record playback_command =
  pc_sequence :: int
  pc_kind :: string
  pc_payload :: document

definition playback_kinds :: "string list" where
  "playback_kinds = [''PLAY'', ''PAUSE'', ''SKIP'', ''START_ABORTED'', ''HOST_LOST'', ''CLOSE'', ''EXPIRE'']"

definition read_playback_command :: "uuid \<Rightarrow> wave_db \<Rightarrow> playback_command option" where
  "read_playback_command room db =
     (case sort_key (\<lambda>c. - wc_sequence c)
             (filter (\<lambda>c. wc_room c = room \<and> wc_kind c \<in> set playback_kinds) (wv_commands db)) of
        [] \<Rightarrow> None
      | c # _ \<Rightarrow> Some \<lparr>pc_sequence = wc_sequence c, pc_kind = wc_kind c, pc_payload = wc_document c\<rparr>)"

definition require_membership :: "uuid \<Rightarrow> principal \<Rightarrow> instant \<Rightarrow> wave_db \<Rightarrow> wave_exn + wave_db" where
  "require_membership room p now db =
     (if \<not> list_ex (\<lambda>m. joined room m \<and> wm_user m = pr_user p \<and> wm_device m = pr_device p) (wv_members db)
      then Inl WaveForbidden
      else bind_result
             (checked_update member_row_checks ''ck_wave_member_presence''
               (\<lambda>m. wm_room m = room \<and> wm_device m = pr_device p) (\<lambda>m. m\<lparr>wm_present_at := Some now\<rparr>)
               (wv_members db))
             (\<lambda>rows. Inr (db\<lparr>wv_members := rows\<rparr>)))"

definition room_queue :: "uuid \<Rightarrow> wave_db \<Rightarrow> queue_entry list" where
  "room_queue room db =
     map (\<lambda>q. \<lparr>qe_id = wq_id q, qe_recording = wq_recording q, qe_position = wq_position q\<rparr>)
       (sort_key wq_position (filter (\<lambda>q. wq_room q = room \<and> wq_removed_at q = None) (wv_queue db)))"

definition room_users :: "uuid \<Rightarrow> wave_db \<Rightarrow> uuid set" where
  "room_users room db = set (map wm_user (filter (joined room) (wv_members db)))"

definition own_preflight :: "uuid \<Rightarrow> uuid \<Rightarrow> int \<Rightarrow> instant \<Rightarrow> preflight_row list \<Rightarrow> (uuid \<times> availability) list" where
  "own_preflight room participant version now rows =
     map (\<lambda>p. (wp_entry p, wp_availability p))
       (filter (\<lambda>p. wp_room p = room \<and> wp_participant p = participant \<and> wp_version p = version
                    \<and> now < wp_expires_at p) rows)"

text \<open>The device of a member that is still the member's and not revoked.\<close>

definition member_device :: "member_row \<Rightarrow> wave_db \<Rightarrow> named_device option" where
  "member_device m db =
     find (\<lambda>d. dv_id d = wm_device m \<and> dv_user d = wm_user m \<and> dv_revoked_at d = None) (wv_devices db)"

definition transfer_targets :: "uuid \<Rightarrow> uuid \<Rightarrow> instant \<Rightarrow> wave_db \<Rightarrow> transfer_target list" where
  "transfer_targets room device now db =
     take 7 (List.map_filter
       (\<lambda>m. map_option (\<lambda>d. \<lparr>tt_device = wm_device m, tt_name = dv_name d\<rparr>) (member_device m db))
       (sort_key (\<lambda>m. (wm_joined_at m, wm_device m))
         (filter (\<lambda>m. joined room m \<and> wm_device m \<noteq> device
                      \<and> present_since (now - seconds 30) (wm_present_at m)) (wv_members db))))"

definition room_snapshot ::
  "uuid \<Rightarrow> principal \<Rightarrow> instant \<Rightarrow> wave_db \<Rightarrow> wave_exn + (playback_command wave_room \<times> wave_db)" where
  "room_snapshot room p now db =
     (case find (\<lambda>r. ro_id r = room \<and> now < ro_expires_at r \<and> ro_state r \<notin> {CLOSED, EXPIRED}) (wv_rooms db) of
        None \<Rightarrow> Inl NoResultFound
      | Some row \<Rightarrow>
          bind_result (require_membership room p now db) (\<lambda>db1.
          case find (\<lambda>m. wm_room m = room \<and> wm_user m = pr_user p \<and> wm_device m = pr_device p) (wv_members db1) of
            None \<Rightarrow> Inl NoResultFound
          | Some self \<Rightarrow>
              Inr (\<lparr>wr_id = ro_id row, wr_code = '''', wr_host = ro_host_user row,
                    wr_created_at = ro_created_at row, wr_expires_at = ro_expires_at row,
                    wr_members = room_users room db1, wr_queue = room_queue room db1,
                    wr_version = ro_version row, wr_sequence = ro_sequence row,
                    wr_closed_at = ro_closed_at row, wr_host_lost_at = ro_host_lost_at row,
                    wr_epoch = ro_epoch row, wr_state = ro_state row, wr_playback = ro_playback row,
                    wr_role = wm_role self,
                    wr_preflight = own_preflight room (pr_device p) (ro_version row) now (wv_preflights db1),
                    wr_targets = (if wm_role self = HostRole then transfer_targets room (pr_device p) now db1 else []),
                    wr_command = read_playback_command room db1\<rparr>, db1)))"

definition require_room_host ::
  "uuid \<Rightarrow> principal \<Rightarrow> instant \<Rightarrow> wave_db \<Rightarrow> wave_exn + (playback_command wave_room \<times> wave_db)" where
  "require_room_host room p now db =
     bind_result (room_snapshot room p now db) (\<lambda>(value, db1).
     bind_result (the_room room db1) (\<lambda>row.
     if wr_host value \<noteq> pr_user p \<or> ro_host_device row \<noteq> pr_device p
        \<or> wr_host_lost_at value \<noteq> None \<or> wr_state value \<noteq> OPEN
     then Inl WaveForbidden else Inr (value, db1)))"

subsection \<open>The command log\<close>

text \<open>\<open>json.dumps\<close> with sorted keys; the documents here hold no number that could be refused.\<close>

definition dumped :: "document \<Rightarrow> string" where
  "dumped doc = (case json_dumps (\<lambda>_. '''') (JDict doc) of Some t \<Rightarrow> t | None \<Rightarrow> '''')"

definition lifecycle_command ::
  "digest \<Rightarrow> room_row \<Rightarrow> uuid \<Rightarrow> uuid \<Rightarrow> string \<Rightarrow> document \<Rightarrow> instant \<Rightarrow> command_row" where
  "lifecycle_command sha256 room user device kind doc now =
     (let sequence = ro_sequence room + 1
      in \<lparr>wc_room = ro_id room, wc_sequence = sequence, wc_user = user, wc_device = device,
          wc_key = ''lifecycle-'' @ map lower_char kind @ ''-'' @ number_text sequence,
          wc_sha256 = sha256 (text_bytes (uuid_str (ro_id room) @ '':'' @ number_text sequence @ '':'' @ kind
                                          @ '':'' @ dumped doc)),
          wc_expected_version = ro_version room, wc_expected_sequence = ro_sequence room,
          wc_kind = kind, wc_document = doc, wc_effective_at = None, wc_created_at = now\<rparr>)"

definition append_lifecycle ::
  "digest \<Rightarrow> uuid \<Rightarrow> uuid \<Rightarrow> uuid \<Rightarrow> string \<Rightarrow> document \<Rightarrow> instant \<Rightarrow> wave_db \<Rightarrow> wave_exn + wave_db" where
  "append_lifecycle sha256 room user device kind doc now db =
     bind_result (the_room room db) (\<lambda>row.
     bind_result (insert_command (lifecycle_command sha256 row user device kind doc now) db) (\<lambda>db1.
     Inr (update_room room (\<lambda>r. r\<lparr>ro_sequence := ro_sequence row + 1\<rparr>) db1)))"

end
