(* ===== verification/Wave_Operations.thy ===== *)
theory Wave_Operations
  imports Wave_Service
begin

text \<open>
  The operations of \<open>SqlAlchemyWaveService\<close>: creating, joining and leaving a room, its host and its
  expiry, commands, readiness, timing and the strict start.
\<close>

definition close_room :: "instant \<Rightarrow> room_row \<Rightarrow> room_row" where
  "close_room now r = r\<lparr>ro_state := CLOSED, ro_playback := PlaybackPaused, ro_closed_at := Some now\<rparr>"

definition str_value :: "string \<Rightarrow> string \<Rightarrow> doc_key \<times> json" where
  "str_value key v = (KStr key, JStr v)"

subsection \<open>Membership\<close>

fun invite_each :: "uuid \<Rightarrow> uuid \<Rightarrow> uuid list \<Rightarrow> wave_db \<Rightarrow> wave_exn + wave_db" where
  "invite_each room host [] db = Inr db"
| "invite_each room host (user # users) db =
     (if user = host then invite_each room host users db
      else bind_result (insert_invited room user db) (invite_each room host users))"

definition new_room_row :: "digest \<Rightarrow> uuid \<Rightarrow> string \<Rightarrow> principal \<Rightarrow> instant \<Rightarrow> room_row" where
  "new_room_row sha256 fresh code p now =
     \<lparr>ro_id = fresh, ro_code_sha256 = sha256 (text_bytes code), ro_host_user = pr_user p,
      ro_host_device = pr_device p, ro_state = OPEN, ro_playback = IDLE, ro_epoch = 1, ro_version = 1,
      ro_position_ms = 0, ro_recording = None, ro_sequence = 0, ro_effective_at = None,
      ro_expires_at = now + hours 6, ro_host_lost_at = None, ro_closed_at = None, ro_created_at = now\<rparr>"

definition new_member :: "uuid \<Rightarrow> principal \<Rightarrow> room_role \<Rightarrow> instant \<Rightarrow> member_row" where
  "new_member room p role now =
     \<lparr>wm_room = room, wm_user = pr_user p, wm_device = pr_device p, wm_role = role, wm_status = MsJoined,
      wm_joined_at = now, wm_left_at = None, wm_present_at = Some now\<rparr>"

definition wave_create ::
  "digest \<Rightarrow> uuid \<Rightarrow> nat \<Rightarrow> principal \<Rightarrow> instant \<Rightarrow> uuid list \<Rightarrow> wave_db
   \<Rightarrow> wave_exn + (playback_command wave_room \<times> wave_db)" where
  "wave_create sha256 fresh bits p now users db =
     bind_result (insert_room (new_room_row sha256 fresh (new_room_code bits) p now) db) (\<lambda>db1.
     bind_result (insert_member (new_member fresh p HostRole now) db1) (\<lambda>db2.
     if 7 < length users then Inl (WaveValueError ''Wave allowlist exceeds seven invitees'')
     else bind_result (invite_each fresh (pr_user p) users db2) (\<lambda>db3.
          Inr (create_room fresh bits (pr_user p) now, db3))))"

definition active_guest :: "uuid \<Rightarrow> instant \<Rightarrow> guest_session \<Rightarrow> bool" where
  "active_guest room now s \<longleftrightarrow> gs_room s = room \<and> gs_state s = GsActive \<and> now < gs_expires_at s"

definition participants :: "uuid \<Rightarrow> instant \<Rightarrow> wave_db \<Rightarrow> nat" where
  "participants room now db =
     count_rows (joined room) (wv_members db) + count_rows (active_guest room now) (wv_guests db)"

definition rejoined :: "instant \<Rightarrow> member_row \<Rightarrow> member_row" where
  "rejoined now m = m\<lparr>wm_status := MsJoined, wm_present_at := Some now, wm_left_at := None\<rparr>"

definition join_member :: "uuid \<Rightarrow> principal \<Rightarrow> instant \<Rightarrow> wave_db \<Rightarrow> wave_exn + wave_db" where
  "join_member room p now db =
     (let P = \<lambda>m. wm_room m = room \<and> wm_device m = pr_device p
      in if (room, pr_user p) \<notin> set (wv_invited db) then Inr db
         else if list_ex P (wv_members db) then
           bind_result (checked_update member_row_checks ''ck_wave_member_presence'' P (rejoined now) (wv_members db))
             (\<lambda>rows. Inr (db\<lparr>wv_members := rows\<rparr>))
         else insert_member (new_member room p MemberRole now) db)"

definition wave_join ::
  "digest \<Rightarrow> string \<Rightarrow> principal \<Rightarrow> instant \<Rightarrow> wave_db \<Rightarrow> wave_exn + (playback_command wave_room \<times> wave_db)" where
  "wave_join sha256 code p now db =
     (case find (\<lambda>r. ro_code_sha256 r = sha256 (text_bytes (map upper_char code)) \<and> ro_state r = OPEN
                     \<and> now < ro_expires_at r) (wv_rooms db) of
        None \<Rightarrow> Inl NoResultFound
      | Some r \<Rightarrow>
          let room = ro_id r in
          if \<not> list_ex (\<lambda>m. joined room m \<and> wm_device m = pr_device p) (wv_members db)
             \<and> 8 \<le> participants room now db
          then Inl WaveConflict
          else bind_result (join_member room p now db) (\<lambda>db1.
            if \<not> list_ex (\<lambda>m. joined room m \<and> wm_user m = pr_user p \<and> wm_device m = pr_device p)
                 (wv_members db1)
            then Inl WaveForbidden
            else room_snapshot room p now db1))"

definition left_member :: "instant \<Rightarrow> member_row \<Rightarrow> member_row" where
  "left_member now m = m\<lparr>wm_status := MsLeft, wm_left_at := Some now\<rparr>"

definition wave_leave ::
  "digest \<Rightarrow> uuid \<Rightarrow> principal \<Rightarrow> instant \<Rightarrow> instant \<Rightarrow> wave_db \<Rightarrow> wave_exn + wave_db" where
  "wave_leave sha256 room p now clk db =
     bind_result (room_snapshot room p now db) (\<lambda>(_, db1).
     bind_result (the_room room db1) (\<lambda>row.
     if pr_device p = ro_host_device row \<and> 1 < count_rows (joined room) (wv_members db1)
     then Inl WaveConflict
     else let kind = (if pr_device p = ro_host_device row then ''CLOSE'' else ''LEAVE'') in
       bind_result (append_lifecycle sha256 room (pr_user p) (pr_device p) kind
                      [(KStr ''device_left'', JBool True)] now db1) (\<lambda>db2.
       let db3 = db2\<lparr>wv_members := update_rows (\<lambda>m. wm_room m = room \<and> wm_device m = pr_device p)
                                    (left_member now) (wv_members db2)\<rparr>
       in Inr (if kind = ''CLOSE'' then update_room_state clk room (close_room now) db3 else db3))))"

definition wave_close ::
  "digest \<Rightarrow> uuid \<Rightarrow> principal \<Rightarrow> instant \<Rightarrow> instant \<Rightarrow> wave_db \<Rightarrow> wave_exn + wave_db" where
  "wave_close sha256 room p now clk db =
     bind_result (require_room_host room p now db) (\<lambda>(_, db1).
     bind_result (append_lifecycle sha256 room (pr_user p) (pr_device p) ''CLOSE'' [] now db1) (\<lambda>db2.
     Inr (update_room_state clk room (close_room now) db2)))"

subsection \<open>The host\<close>

definition assign_roles :: "uuid \<Rightarrow> uuid \<Rightarrow> wave_db \<Rightarrow> wave_db" where
  "assign_roles room device db =
     db\<lparr>wv_members := update_rows (\<lambda>m. wm_room m = room)
          (\<lambda>m. m\<lparr>wm_role := (if wm_device m = device then HostRole else MemberRole)\<rparr>) (wv_members db)\<rparr>"

definition wave_transfer_host ::
  "digest \<Rightarrow> uuid \<Rightarrow> principal \<Rightarrow> uuid \<Rightarrow> instant \<Rightarrow> wave_db \<Rightarrow> wave_exn + wave_db" where
  "wave_transfer_host sha256 room p target now db =
     bind_result (require_room_host room p now db) (\<lambda>(_, db1).
     case find (\<lambda>m. joined room m \<and> wm_device m = target \<and> wm_device m \<noteq> pr_device p
                    \<and> present_since (now - seconds 30) (wm_present_at m) \<and> member_device m db1 \<noteq> None)
            (wv_members db1) of
       None \<Rightarrow> Inl WaveForbidden
     | Some m \<Rightarrow>
         bind_result (append_lifecycle sha256 room (pr_user p) (pr_device p) ''TRANSFER''
                        [str_value ''target_device_id'' (uuid_str target)] now db1) (\<lambda>db2.
         Inr (assign_roles room target
           (update_room room (\<lambda>r. r\<lparr>ro_host_user := wm_user m, ro_host_device := target,
                                    ro_epoch := ro_epoch r + 1\<rparr>) db2))))"

text \<open>
  \<open>recover_host\<close>: the host is back, is away for less than the grace period, is replaced by the first
  present member, or leaves the room orphaned.
\<close>

definition host_returned :: "room_row \<Rightarrow> room_row" where
  "host_returned r = r\<lparr>ro_host_lost_at := None, ro_state := OPEN, ro_epoch := ro_epoch r + 1\<rparr>"

definition host_replaced :: "member_row \<Rightarrow> room_row \<Rightarrow> room_row" where
  "host_replaced m r =
     r\<lparr>ro_host_user := wm_user m, ro_host_device := wm_device m, ro_host_lost_at := None, ro_state := OPEN,
       ro_epoch := ro_epoch r + 1\<rparr>"

definition host_missing :: "instant \<Rightarrow> room_row \<Rightarrow> room_row" where
  "host_missing now r =
     r\<lparr>ro_host_lost_at := (case ro_host_lost_at r of Some t \<Rightarrow> Some t | None \<Rightarrow> Some now)\<rparr>"

definition elected :: "uuid \<Rightarrow> instant \<Rightarrow> wave_db \<Rightarrow> member_row option" where
  "elected room now db =
     (case sort_key (\<lambda>m. (wm_joined_at m, wm_device m))
             (filter (\<lambda>m. joined room m \<and> present_since (now - seconds 30) (wm_present_at m)) (wv_members db)) of
        [] \<Rightarrow> None | m # _ \<Rightarrow> Some m)"

definition wave_recover_host ::
  "digest \<Rightarrow> uuid \<Rightarrow> instant \<Rightarrow> instant \<Rightarrow> wave_db \<Rightarrow> wave_exn + (uuid option \<times> wave_db)" where
  "wave_recover_host sha256 room now clk db =
     (case find (\<lambda>r. ro_id r = room \<and> ro_state r \<in> {OPEN, ORPHANED}) (wv_rooms db) of
        None \<Rightarrow> Inl NoResultFound
      | Some row \<Rightarrow>
          let log = (\<lambda>kind doc. append_lifecycle sha256 room (ro_host_user row) (ro_host_device row) kind doc now) in
          if list_ex (\<lambda>m. joined room m \<and> wm_device m = ro_host_device row
                          \<and> present_since (now - seconds 30) (wm_present_at m)) (wv_members db)
          then
            if ro_host_lost_at row \<noteq> None \<or> ro_state row = ORPHANED
            then bind_result (log ''TRANSFER'' [(KStr ''recovered'', JBool True)] db) (\<lambda>db1.
                 Inr (Some (ro_host_user row), update_room_state clk room host_returned db1))
            else Inr (None, db)
          else
            let db1 = update_room room (host_missing now) db;
                lost_at = (case ro_host_lost_at row of Some t \<Rightarrow> t | None \<Rightarrow> now)
            in if now < lost_at + seconds 30 then Inr (None, db1)
               else (case elected room now db1 of
                   None \<Rightarrow>
                     if ro_state row \<noteq> ORPHANED
                     then bind_result (log ''PAUSE'' [str_value ''reason'' ''host_unavailable''] db1) (\<lambda>db2.
                          Inr (None, update_room_state clk room
                                       (\<lambda>r. r\<lparr>ro_state := ORPHANED, ro_playback := PlaybackPaused\<rparr>) db2))
                     else Inr (None, db1)
                 | Some m \<Rightarrow>
                     bind_result (log ''TRANSFER''
                        [str_value ''target_device_id'' (uuid_str (wm_device m)), (KStr ''automatic'', JBool True)]
                        db1) (\<lambda>db2.
                     Inr (Some (wm_user m),
                          assign_roles room (wm_device m) (update_room_state clk room (host_replaced m) db2)))))"

text \<open>\<open>snapshot\<close> runs three transactions: the later ones see what the earlier ones committed.\<close>

definition wave_snapshot ::
  "digest \<Rightarrow> uuid \<Rightarrow> principal \<Rightarrow> instant \<Rightarrow> instant \<Rightarrow> wave_db
   \<Rightarrow> (wave_exn + playback_command wave_room) \<times> wave_db" where
  "wave_snapshot sha256 room p now clk db =
     (case room_snapshot room p now db of
        Inl e \<Rightarrow> (Inl e, db)
      | Inr (_, db1) \<Rightarrow>
          (case wave_recover_host sha256 room now clk db1 of
             Inl e \<Rightarrow> (Inl e, db1)
           | Inr (_, db2) \<Rightarrow>
               (case room_snapshot room p now db2 of
                  Inl e \<Rightarrow> (Inl e, db2)
                | Inr (value, db3) \<Rightarrow> (Inr value, db3))))"

subsection \<open>Expiry\<close>

definition due_rooms :: "(uuid \<Rightarrow> bool) \<Rightarrow> instant \<Rightarrow> int \<Rightarrow> wave_db \<Rightarrow> room_row list" where
  "due_rooms locked now limit db =
     take (nat limit) (sort_key ro_expires_at
       (filter (\<lambda>r. ro_state r \<in> {OPEN, ORPHANED} \<and> ro_expires_at r \<le> now \<and> \<not> locked (ro_id r)) (wv_rooms db)))"

definition expired_room :: "instant \<Rightarrow> room_row \<Rightarrow> room_row" where
  "expired_room now r = r\<lparr>ro_state := EXPIRED, ro_playback := PlaybackPaused, ro_closed_at := Some now\<rparr>"

fun expire_rooms :: "digest \<Rightarrow> instant \<Rightarrow> instant \<Rightarrow> room_row list \<Rightarrow> wave_db \<Rightarrow> wave_exn + wave_db" where
  "expire_rooms sha256 now clk [] db = Inr db"
| "expire_rooms sha256 now clk (r # rooms) db =
     bind_result (append_lifecycle sha256 (ro_id r) (ro_host_user r) (ro_host_device r) ''EXPIRE'' [] now db) (\<lambda>db1.
     expire_rooms sha256 now clk rooms (update_room_state clk (ro_id r) (expired_room now) db1))"

definition wave_expire_due ::
  "digest \<Rightarrow> (uuid \<Rightarrow> bool) \<Rightarrow> instant \<Rightarrow> instant \<Rightarrow> int \<Rightarrow> wave_db \<Rightarrow> wave_exn + (int \<times> wave_db)" where
  "wave_expire_due sha256 locked now clk limit db =
     (if \<not> (1 \<le> limit \<and> limit \<le> 100)
      then Inl (WaveValueError ''Wave expiry batch must be between 1 and 100'')
      else let due = due_rooms locked now limit db
           in bind_result (expire_rooms sha256 now clk due db) (\<lambda>db'. Inr (len due, db')))"

subsection \<open>Commands\<close>

record command_result =
  cr_sequence :: int
  cr_version :: "int option"
  cr_idempotent :: bool

text \<open>The queue entry the last playback command names, or the first one.\<close>

definition current_index :: "playback_command wave_room \<Rightarrow> nat" where
  "current_index room =
     (let current = (case wr_command room of
            None \<Rightarrow> None
          | Some c \<Rightarrow> map_of (pc_payload c) (KStr ''queue_entry_id''));
          before = takeWhile (\<lambda>e. Some (JStr (uuid_str (qe_id e))) \<noteq> current) (wr_queue room)
      in if length before < length (wr_queue room) then length before else 0)"

definition entry_document :: "queue_entry \<Rightarrow> document" where
  "entry_document e =
     [str_value ''queue_entry_id'' (uuid_str (qe_id e)), str_value ''recording_id'' (uuid_str (qe_recording e))]"

text \<open>
  What a command writes beside the log: the new queue version, the command's document and the tables
  with a queued entry.
\<close>

definition command_effect ::
  "uuid \<Rightarrow> uuid \<Rightarrow> string \<Rightarrow> playback_command wave_room \<Rightarrow> uuid option \<Rightarrow> wave_db
   \<Rightarrow> wave_exn + (int \<times> document \<times> wave_db)" where
  "command_effect fresh room kind value recording db =
     (let queue = wr_queue value; version = wr_version value; index = current_index value
      in if kind = ''QUEUE'' \<and> recording \<noteq> None then
           bind_result (insert_queue \<lparr>wq_id = fresh, wq_room = room, wq_recording = the recording,
                                       wq_position = len queue, wq_removed_at = None\<rparr> db)
             (\<lambda>db1. Inr (version + 1, [], db1))
         else if kind = ''PLAY'' then Inl (WaveValueError ''PLAY requires strict Wave start'')
         else if kind = ''SKIP'' then
           if length queue \<le> index + 1 then Inl WaveConflict
           else Inr (version, entry_document (queue ! (index + 1)), db)
         else if kind = ''PAUSE'' then
           Inr (version, if queue = [] then [] else entry_document (queue ! index), db)
         else if kind = ''SEEK'' \<or> kind = ''TRANSFER'' then Inr (version, [], db)
         else Inl (WaveValueError ''unsupported Wave command''))"

definition after_command :: "int \<Rightarrow> int \<Rightarrow> string \<Rightarrow> room_row \<Rightarrow> room_row" where
  "after_command version sequence kind r =
     r\<lparr>ro_version := version, ro_sequence := sequence,
       ro_playback := (if kind = ''PAUSE'' \<or> kind = ''SKIP'' then PlaybackPaused else ro_playback r)\<rparr>"

definition wave_command ::
  "uuid \<Rightarrow> uuid \<Rightarrow> principal \<Rightarrow> string \<Rightarrow> string \<Rightarrow> 8 word list \<Rightarrow> int \<Rightarrow> int \<Rightarrow> uuid option \<Rightarrow> instant \<Rightarrow> wave_db
   \<Rightarrow> wave_exn + (command_result \<times> wave_db)" where
  "wave_command fresh room p kind key request expected_version expected_sequence recording now db =
     (case find (\<lambda>c. wc_room c = room \<and> wc_key c = key) (wv_commands db) of
        Some prior \<Rightarrow>
          if wc_sha256 prior \<noteq> request then Inl WaveConflict
          else Inr (\<lparr>cr_sequence = wc_sequence prior, cr_version = None, cr_idempotent = True\<rparr>, db)
      | None \<Rightarrow>
          bind_result (require_room_host room p now db) (\<lambda>(value, db1).
          if wr_version value \<noteq> expected_version \<or> wr_sequence value \<noteq> expected_sequence
          then Inl WaveConflict
          else
            bind_result (command_effect fresh room kind value recording db1) (\<lambda>(version, doc, db2).
            bind_result
              (insert_command
                 \<lparr>wc_room = room, wc_sequence = expected_sequence + 1, wc_user = pr_user p,
                  wc_device = pr_device p, wc_key = key, wc_sha256 = request,
                  wc_expected_version = expected_version, wc_expected_sequence = expected_sequence,
                  wc_kind = kind, wc_document = doc, wc_effective_at = None, wc_created_at = now\<rparr>
                 (update_room room (after_command version (expected_sequence + 1) kind) db2)) (\<lambda>db3.
            Inr (\<lparr>cr_sequence = expected_sequence + 1, cr_version = Some version, cr_idempotent = False\<rparr>, db3)))))"

subsection \<open>Readiness and timing\<close>

definition queued :: "uuid \<Rightarrow> uuid \<Rightarrow> uuid \<Rightarrow> wave_db \<Rightarrow> bool" where
  "queued room entry recording db \<longleftrightarrow>
     list_ex (\<lambda>q. wq_room q = room \<and> wq_id q = entry \<and> wq_recording q = recording \<and> wq_removed_at q = None)
       (wv_queue db)"

text \<open>\<open>INSERT \<dots> ON CONFLICT DO UPDATE\<close> of every column outside the primary key.\<close>

definition upsert :: "('r \<Rightarrow> 'k) \<Rightarrow> 'r \<Rightarrow> 'r list \<Rightarrow> 'r list" where
  "upsert key row rows =
     (if list_ex (\<lambda>r. key r = key row) rows then update_rows (\<lambda>r. key r = key row) (\<lambda>_. row) rows
      else rows @ [row])"

definition current_entry :: "uuid \<Rightarrow> uuid \<Rightarrow> uuid \<Rightarrow> int \<Rightarrow> wave_db \<Rightarrow> bool" where
  "current_entry room entry recording version db \<longleftrightarrow>
     queued room entry recording db
     \<and> list_ex (\<lambda>r. ro_id r = room \<and> ro_version r = version \<and> ro_state r = OPEN) (wv_rooms db)"

definition preflight_report ::
  "uuid \<Rightarrow> uuid \<Rightarrow> uuid \<Rightarrow> uuid \<Rightarrow> int \<Rightarrow> availability \<Rightarrow> bool \<Rightarrow> instant \<Rightarrow> preflight_row" where
  "preflight_report room participant entry recording version value ready now =
     \<lparr>wp_room = room, wp_participant = participant, wp_entry = entry, wp_recording = recording,
      wp_version = version, wp_availability = value, wp_ready = ready, wp_checked_at = now,
      wp_expires_at = now + seconds (if ready then 15 else 30)\<rparr>"

definition wave_preflight ::
  "uuid \<Rightarrow> principal \<Rightarrow> uuid \<Rightarrow> uuid \<Rightarrow> int \<Rightarrow> availability \<Rightarrow> bool \<Rightarrow> instant \<Rightarrow> wave_db \<Rightarrow> wave_exn + wave_db" where
  "wave_preflight room p entry recording version value ready now db =
     bind_result (require_membership room p now db) (\<lambda>db1.
     if \<not> current_entry room entry recording version db1 then Inl WaveConflict
     else let row = preflight_report room (pr_device p) entry recording version value ready now
          in if \<not> preflight_row_checks row then Inl (WaveIntegrityError ''ck_wave_preflight_version'')
             else Inr (db1\<lparr>wv_preflights := upsert preflight_key row (wv_preflights db1)\<rparr>))"

definition wave_timing ::
  "uuid \<Rightarrow> principal \<Rightarrow> int \<Rightarrow> int \<Rightarrow> int \<Rightarrow> int \<Rightarrow> int option \<Rightarrow> int option \<Rightarrow> instant \<Rightarrow> wave_db
   \<Rightarrow> wave_exn + wave_db" where
  "wave_timing room p sequence rtt offset uncertainty skew drift now db =
     bind_result (require_membership room p now db) (\<lambda>db1.
     let row = \<lparr>wt_room = room, wt_participant = pr_device p, wt_sequence = sequence, wt_rtt_ms = rtt,
                wt_offset_ms = offset, wt_uncertainty_ms = uncertainty, wt_skew_ms = skew,
                wt_drift_ms = drift, wt_reported_at = now\<rparr>
     in if \<not> timing_row_checks row then Inl (WaveIntegrityError ''ck_wave_timing_bounds'')
        else Inr (db1\<lparr>wv_timings := upsert timing_key row (wv_timings db1)\<rparr>))"

subsection \<open>The strict start\<close>

record participant_gate =
  pg_ready :: bool
  pg_rtt :: "int option"
  pg_uncertainty :: "int option"

record start_request =
  sr_room :: uuid
  sr_entry :: uuid
  sr_recording :: uuid
  sr_version :: int
  sr_sequence :: int

definition gate_ready :: "start_request \<Rightarrow> uuid \<Rightarrow> instant \<Rightarrow> preflight_row list \<Rightarrow> bool" where
  "gate_ready q participant now rows =
     list_ex (\<lambda>p. wp_room p = sr_room q \<and> wp_participant p = participant \<and> wp_entry p = sr_entry q
                 \<and> wp_recording p = sr_recording q \<and> wp_version p = sr_version q \<and> wp_ready p
                 \<and> wp_availability p \<noteq> UNAVAILABLE \<and> now < wp_expires_at p) rows"

definition gate_timing :: "start_request \<Rightarrow> uuid \<Rightarrow> instant \<Rightarrow> timing_row list \<Rightarrow> timing_row option" where
  "gate_timing q participant now rows =
     (case sort_key (\<lambda>t. - wt_reported_at t)
             (filter (\<lambda>t. wt_room t = sr_room q \<and> wt_participant t = participant
                          \<and> wt_sequence t = sr_sequence q \<and> now - seconds 60 \<le> wt_reported_at t) rows) of
        [] \<Rightarrow> None | t # _ \<Rightarrow> Some t)"

definition gate_of :: "start_request \<Rightarrow> uuid \<Rightarrow> instant \<Rightarrow> preflight_row list \<Rightarrow> timing_row list \<Rightarrow> participant_gate" where
  "gate_of q participant now preflights timings =
     \<lparr>pg_ready = gate_ready q participant now preflights,
      pg_rtt = map_option wt_rtt_ms (gate_timing q participant now timings),
      pg_uncertainty = map_option wt_uncertainty_ms (gate_timing q participant now timings)\<rparr>"

definition present_member :: "uuid \<Rightarrow> instant \<Rightarrow> member_row \<Rightarrow> bool" where
  "present_member room now m \<longleftrightarrow> joined room m \<and> present_since (now - seconds 30) (wm_present_at m)"

definition present_guest :: "uuid \<Rightarrow> instant \<Rightarrow> wave_db \<Rightarrow> guest_session \<Rightarrow> bool" where
  "present_guest room now db s \<longleftrightarrow>
     active_guest room now s \<and> present_since (now - seconds 30) (gs_present_at s)
     \<and> list_ex (\<lambda>i. gi_id i = gs_invitation s \<and> live_invitation i \<and> now < gi_expires_at i) (wv_invitations db)"

definition participant_gates :: "start_request \<Rightarrow> instant \<Rightarrow> wave_db \<Rightarrow> participant_gate list" where
  "participant_gates q now db =
     map (\<lambda>m. gate_of q (wm_device m) now (wv_preflights db) (wv_timings db))
       (filter (present_member (sr_room q) now) (wv_members db))
     @ map (\<lambda>s. gate_of q (gs_id s) now (wv_guest_preflights db) (wv_guest_timings db))
         (filter (present_guest (sr_room q) now db) (wv_guests db))"

definition gate_clocked :: "participant_gate \<Rightarrow> bool" where
  "gate_clocked g =
     (case (pg_rtt g, pg_uncertainty g) of
        (Some r, Some u) \<Rightarrow> 0 \<le> r \<and> r \<le> 1000 \<and> 0 \<le> u \<and> u \<le> 100 | _ \<Rightarrow> False)"

text \<open>\<open>coalesce(max(\<dots>),0)\<close> over the values that are not null.\<close>

definition max_or_zero :: "int option list \<Rightarrow> int" where
  "max_or_zero vs = (case List.map_filter (\<lambda>v. v) vs of [] \<Rightarrow> 0 | x # xs \<Rightarrow> foldl max x xs)"

definition lead_ms :: "participant_gate list \<Rightarrow> int" where
  "lead_ms gates =
     max 2000 (3 * max_or_zero (map pg_rtt gates) + 2 * max_or_zero (map pg_uncertainty gates) + 250)"

record start_result =
  st_sequence :: int
  st_started :: bool
  st_effective_at :: "instant option"

definition start_document :: "start_request \<Rightarrow> instant option \<Rightarrow> document" where
  "start_document q effective =
     [str_value ''queue_entry_id'' (uuid_str (sr_entry q)), str_value ''recording_id'' (uuid_str (sr_recording q)),
      (KStr ''effective_at'', case effective of None \<Rightarrow> JNull | Some t \<Rightarrow> JStr (isoformat t))]"

definition wave_start ::
  "digest \<Rightarrow> principal \<Rightarrow> start_request \<Rightarrow> instant \<Rightarrow> wave_db \<Rightarrow> wave_exn + (start_result \<times> wave_db)" where
  "wave_start sha256 p q now db =
     bind_result (require_room_host (sr_room q) p now db) (\<lambda>(value, db1).
     if wr_version value \<noteq> sr_version q \<or> wr_sequence value \<noteq> sr_sequence q then Inl WaveConflict
     else
       let gates = participant_gates q now db1;
           sequence = sr_sequence q + 1;
           ready = queued (sr_room q) (sr_entry q) (sr_recording q) db1 \<and> gates \<noteq> []
                   \<and> list_all pg_ready gates \<and> list_all gate_clocked gates;
           play = (ready \<and> lead_ms gates \<le> 8000);
           effective = (if play then Some (now + milliseconds (lead_ms gates)) else None)
       in bind_result
            (insert_command
               \<lparr>wc_room = sr_room q, wc_sequence = sequence, wc_user = pr_user p, wc_device = pr_device p,
                wc_key = ''start-'' @ number_text sequence,
                wc_sha256 = sha256 (text_bytes (uuid_str (sr_room q) @ '':'' @ number_text sequence)),
                wc_expected_version = sr_version q, wc_expected_sequence = sr_sequence q,
                wc_kind = (if play then ''PLAY'' else ''START_ABORTED''),
                wc_document = start_document q effective, wc_effective_at = effective, wc_created_at = now\<rparr>
               (update_room (sr_room q)
                  (\<lambda>r. r\<lparr>ro_sequence := sequence, ro_playback := (if play then PLAYING else PlaybackPaused),
                         ro_effective_at := effective\<rparr>) db1)) (\<lambda>db2.
          Inr (\<lparr>st_sequence = sequence, st_started = play, st_effective_at = effective\<rparr>, db2)))"

subsection \<open>Catching up\<close>

record room_event =
  ev_sequence :: int
  ev_kind :: string
  ev_payload :: document
  ev_effective_at :: "string option"

definition event_of :: "(instant \<Rightarrow> string) \<Rightarrow> command_row \<Rightarrow> room_event" where
  "event_of fmt c =
     \<lparr>ev_sequence = wc_sequence c, ev_kind = wc_kind c, ev_payload = wc_document c,
      ev_effective_at = map_option fmt (wc_effective_at c)\<rparr>"

definition events_after :: "uuid \<Rightarrow> int \<Rightarrow> wave_db \<Rightarrow> command_row list" where
  "events_after room after_sequence db =
     take 100 (sort_key wc_sequence
       (filter (\<lambda>c. wc_room c = room \<and> after_sequence < wc_sequence c) (wv_commands db)))"

definition wave_catch_up ::
  "uuid \<Rightarrow> principal \<Rightarrow> int \<Rightarrow> instant \<Rightarrow> wave_db \<Rightarrow> wave_exn + (room_event list \<times> wave_db)" where
  "wave_catch_up room p after_sequence now db =
     bind_result (require_membership room p now db) (\<lambda>db1.
     Inr (map (event_of isoformat) (events_after room after_sequence db1), db1))"

end
