(* ===== verification/Guest_Secrets.thy ===== *)
theory Guest_Secrets
  imports Wave_Service Base64
begin

text \<open>
  The texts a guest presents, \<open>_secret_hash\<close> and \<open>_display_name\<close> of
  \<open>server/src/autplay/application/guest_room.py\<close>: a bearer secret is the unpadded URL-safe base-64 text
  of 32 bytes, a display name is normalised and bounded. The Unicode tables are an argument.
\<close>

subsection \<open>Secrets\<close>

definition secret_hash :: "digest \<Rightarrow> string \<Rightarrow> wave_exn + 8 word list" where
  "secret_hash sha256 value =
     (if \<not> (length value = 43 \<and> list_all (\<lambda>c. c \<in> set b64_alphabet) value)
      then Inl (GuestRoomError ''guest_unavailable'')
      else let decoded = b64_decode value
           in if length decoded \<noteq> 32 \<or> b64_encode decoded \<noteq> value
              then Inl (GuestRoomError ''guest_unavailable'')
              else Inr (sha256 decoded))"

subsection \<open>Display names\<close>

record unicode =
  uc_nfkc :: "string \<Rightarrow> string"
  uc_space :: "char \<Rightarrow> bool"
  uc_other :: "char \<Rightarrow> bool"

text \<open>\<open>str.split\<close>: the maximal runs of characters that are not white space.\<close>

fun split_words :: "(char \<Rightarrow> bool) \<Rightarrow> string \<Rightarrow> string \<Rightarrow> string list" where
  "split_words space word [] = (if word = [] then [] else [rev word])"
| "split_words space word (c # s) =
     (if space c then (if word = [] then split_words space [] s else rev word # split_words space [] s)
      else split_words space (c # word) s)"

fun join_words :: "string list \<Rightarrow> string" where
  "join_words [] = []"
| "join_words [w] = w"
| "join_words (w # v # ws) = w @ CHR '' '' # join_words (v # ws)"

definition display_name :: "unicode \<Rightarrow> string \<Rightarrow> wave_exn + string" where
  "display_name uc value =
     (let normalized = join_words (split_words (uc_space uc) [] (uc_nfkc uc value))
      in if \<not> (1 \<le> len normalized \<and> len normalized \<le> 40) \<or> list_ex (uc_other uc) normalized
         then Inl (GuestRoomError ''guest_invalid'') else Inr normalized)"

end
