(* ===== verification/Guest_Access.thy ===== *)
theory Guest_Access
  imports Wave_Operations Guest_Secrets
begin

text \<open>
  Guests of a room, \<open>GuestRoomService\<close> of \<open>server/src/autplay/application/guest_room.py\<close>: a host issues
  and revokes invitations, the bearer of an invitation's document redeems it for a session, and the
  session acts in its one room. A transaction that raises writes nothing, so the writes the code makes
  on its way to an exception do not appear in a result. \<open>canonical_sha256\<close> hashes a request as RFC 8785
  JSON, a third-party encoding: it is the argument \<open>canonical\<close>.
\<close>

type_synonym canonical = "document \<Rightarrow> 8 word list"

definition max_guest_ttl :: int where "max_guest_ttl = 21600"
definition max_guest_uses :: int where "max_guest_uses = 8"
definition max_room_participants :: nat where "max_room_participants = 8"

definition int_value :: "string \<Rightarrow> int \<Rightarrow> doc_key \<times> json" where
  "int_value key v = (KStr key, JInt v)"

subsection \<open>Rooms and their hosts\<close>

definition open_room :: "uuid \<Rightarrow> instant \<Rightarrow> wave_db \<Rightarrow> wave_exn + room_row" where
  "open_room room now db =
     (case find_room room db of
        None \<Rightarrow> Inl (GuestRoomError ''guest_unavailable'')
      | Some r \<Rightarrow>
          if ro_state r = EXPIRED \<or> ro_expires_at r \<le> now then Inl (GuestRoomError ''guest_expired'')
          else if ro_state r \<noteq> OPEN then Inl (GuestRoomError ''guest_unavailable'')
          else Inr r)"

definition host_room :: "principal \<Rightarrow> uuid \<Rightarrow> instant \<Rightarrow> bool \<Rightarrow> wave_db \<Rightarrow> wave_exn + room_row" where
  "host_room p room now allow_terminal db =
     (if \<not> list_ex (\<lambda>m. joined room m \<and> wm_user m = pr_user p \<and> wm_device m = pr_device p
                       \<and> wm_role m = HostRole) (wv_members db)
      then Inl (GuestRoomError ''guest_unavailable'')
      else case find_room room db of
        None \<Rightarrow> Inl (GuestRoomError ''guest_unavailable'')
      | Some r \<Rightarrow>
          if \<not> allow_terminal \<and> (ro_state r \<noteq> OPEN \<or> ro_expires_at r \<le> now)
          then Inl (GuestRoomError ''guest_unavailable'')
          else Inr r)"

subsection \<open>Rate windows\<close>

definition rate_key :: "digest \<Rightarrow> string \<Rightarrow> 8 word list \<Rightarrow> 8 word list" where
  "rate_key sha256 scope subject = sha256 (text_bytes (scope @ '':'') @ subject)"

definition fresh_window :: "8 word list \<Rightarrow> string \<Rightarrow> instant \<Rightarrow> rate_row" where
  "fresh_window key scope now =
     \<lparr>rw_key = key, rw_scope = scope, rw_started_at = now, rw_expires_at = now + minutes 15, rw_attempts = 1\<rparr>"

definition rate :: "digest \<Rightarrow> string \<Rightarrow> 8 word list \<Rightarrow> int \<Rightarrow> instant \<Rightarrow> wave_db \<Rightarrow> wave_exn + wave_db" where
  "rate sha256 scope subject limit now db =
     (let key = rate_key sha256 scope subject;
          put = (\<lambda>w. db\<lparr>wv_rates := update_rows (\<lambda>v. rw_key v = key) (\<lambda>_. w) (wv_rates db)\<rparr>)
      in case find (\<lambda>w. rw_key w = key) (wv_rates db) of
           None \<Rightarrow> Inr (db\<lparr>wv_rates := wv_rates db @ [fresh_window key scope now]\<rparr>)
         | Some w \<Rightarrow>
             if rw_expires_at w \<le> now then Inr (put (fresh_window key scope now))
             else if limit \<le> rw_attempts w then Inl (GuestRoomError ''rate_limited'')
             else Inr (put (w\<lparr>rw_attempts := rw_attempts w + 1\<rparr>)))"

subsection \<open>Receipts\<close>

definition insert_receipt :: "guest_receipt \<Rightarrow> wave_db \<Rightarrow> wave_exn + wave_db" where
  "insert_receipt r db =
     (if length (gr_sha256 r) \<noteq> 32 \<or> \<not> (1 \<le> len (gr_code r) \<and> len (gr_code r) \<le> 64)
         \<or> gr_expires_at r \<le> gr_created_at r
      then Inl (WaveIntegrityError ''ck_social_guest_operation'')
      else if list_ex (\<lambda>q. gr_operation q = gr_operation r) (wv_receipts db)
      then Inl (WaveIntegrityError ''guest_operation_receipt_pkey'')
      else Inr (db\<lparr>wv_receipts := wv_receipts db @ [r]\<rparr>))"

definition new_receipt ::
  "uuid \<Rightarrow> guest_actor \<Rightarrow> string \<Rightarrow> 8 word list \<Rightarrow> document \<Rightarrow> instant \<Rightarrow> uuid option \<Rightarrow> uuid option \<Rightarrow> uuid
   \<Rightarrow> guest_receipt" where
  "new_receipt operation actor action request result now invitation session room =
     \<lparr>gr_operation = operation, gr_actor = actor, gr_action = action, gr_sha256 = request,
      gr_code = (case map_of result (KStr ''state'') of Some (JStr s) \<Rightarrow> s | _ \<Rightarrow> ''ACTIVE''),
      gr_invitation = invitation, gr_session = session, gr_room = Some room, gr_result = result,
      gr_expires_at = now + days 30, gr_created_at = now\<rparr>"

definition host_replay ::
  "guest_receipt \<Rightarrow> principal \<Rightarrow> string \<Rightarrow> 8 word list \<Rightarrow> uuid \<Rightarrow> wave_exn + document" where
  "host_replay r p action request room =
     (if gr_actor r \<noteq> HostActor (pr_user p) (pr_device p) \<or> gr_action r \<noteq> action
         \<or> gr_room r \<noteq> Some room \<or> gr_sha256 r \<noteq> request
      then Inl (GuestRoomError ''operation_conflict'') else Inr (gr_result r))"

definition action_list :: "string list \<Rightarrow> json" where
  "action_list actions = JList (map JStr actions)"

definition invitation_view :: "guest_invitation \<Rightarrow> uuid \<Rightarrow> document" where
  "invitation_view i operation =
     [str_value ''operation_id'' (uuid_str operation), str_value ''invitation_id'' (uuid_str (gi_id i)),
      str_value ''kind'' ''GUEST'', str_value ''state'' (state_text (gi_state i)),
      str_value ''room_id'' (uuid_str (gi_room i)), int_value ''room_epoch'' (gi_epoch i),
      str_value ''role'' ''GUEST'', (KStr ''allowed_actions'', action_list (gi_actions i)),
      int_value ''max_uses'' (gi_max_uses i), int_value ''consumed_uses'' (gi_consumed i),
      str_value ''expires_at'' (iso8601 (gi_expires_at i)),
      str_value ''media_boundary'' ''INDEPENDENT_DEVICE_AUTHORIZATION_ONLY'']"

subsection \<open>Issuing and revoking\<close>

definition insert_invitation :: "guest_invitation \<Rightarrow> wave_db \<Rightarrow> wave_exn + wave_db" where
  "insert_invitation i db =
     (if \<not> guest_invitation_checks i then Inl (WaveIntegrityError ''ck_social_guest_invitation'')
      else if list_ex (\<lambda>j. gi_id j = gi_id i) (wv_invitations db)
      then Inl (WaveIntegrityError ''guest_invitation_pkey'')
      else if list_ex (\<lambda>j. gi_secret j = gi_secret i) (wv_invitations db)
      then Inl (WaveIntegrityError ''guest_invitation_document_secret_sha256_key'')
      else if \<not> list_ex (\<lambda>s. us_id s = gi_host_session i \<and> us_user s = gi_host_user i
                            \<and> us_device s = gi_host_device i) (wv_sessions db)
      then Inl (WaveIntegrityError ''fk_social_guest_invitation_host_session'')
      else Inr (db\<lparr>wv_invitations := wv_invitations db @ [i]\<rparr>))"

definition new_invitation ::
  "uuid \<Rightarrow> room_row \<Rightarrow> principal \<Rightarrow> 8 word list \<Rightarrow> int \<Rightarrow> instant \<Rightarrow> instant \<Rightarrow> guest_invitation" where
  "new_invitation fresh r p secret uses expires now =
     \<lparr>gi_id = fresh, gi_room = ro_id r, gi_epoch = ro_epoch r, gi_host_user = pr_user p,
      gi_host_device = pr_device p, gi_host_session = pr_session p, gi_secret = secret,
      gi_actions = guest_actions, gi_state = GiPending, gi_max_uses = uses, gi_consumed = 0,
      gi_expires_at = expires, gi_revoked_at = None, gi_terminal_at = None, gi_reason = None,
      gi_created_at = now\<rparr>"

text \<open>\<open>bytes.hex\<close>.\<close>

definition bytes_hex :: "8 word list \<Rightarrow> string" where
  "bytes_hex bs = concat (map (\<lambda>b. [hex_char (unat b div 16), hex_char (unat b mod 16)]) bs)"

definition issue_request :: "uuid \<Rightarrow> 8 word list \<Rightarrow> int \<Rightarrow> int \<Rightarrow> document" where
  "issue_request room secret ttl uses =
     [str_value ''room_id'' (uuid_str room), str_value ''document_secret_sha256'' (bytes_hex secret),
      int_value ''ttl_seconds'' ttl, int_value ''max_uses'' uses]"

definition guest_issue ::
  "digest \<Rightarrow> canonical \<Rightarrow> uuid \<Rightarrow> principal \<Rightarrow> uuid \<Rightarrow> uuid \<Rightarrow> string \<Rightarrow> int \<Rightarrow> int \<Rightarrow> instant \<Rightarrow> wave_db
   \<Rightarrow> wave_exn + (document \<times> wave_db)" where
  "guest_issue sha256 canonical fresh p room operation bearer ttl uses now db =
     bind_result (secret_hash sha256 bearer) (\<lambda>secret.
     if \<not> (60 \<le> ttl \<and> ttl \<le> max_guest_ttl) \<or> \<not> (1 \<le> uses \<and> uses \<le> max_guest_uses)
     then Inl (GuestRoomError ''guest_invalid'')
     else
       let request = canonical (issue_request room secret ttl uses) in
       bind_result (host_room p room now False db) (\<lambda>r.
       case find_receipt operation db of
         Some receipt \<Rightarrow> bind_result (host_replay receipt p ''ISSUE'' request room) (\<lambda>doc. Inr (doc, db))
       | None \<Rightarrow>
           bind_result (rate sha256 ''ISSUE_HOST''
               (sha256 (text_bytes (uuid_str (pr_user p) @ '':'' @ uuid_str (pr_device p)))) 20 now db) (\<lambda>db1.
           if list_ex (\<lambda>i. gi_secret i = secret) (wv_invitations db1)
           then Inl (GuestRoomError ''operation_conflict'')
           else
             let expires = min (now + seconds ttl) (ro_expires_at r) in
             if expires \<le> now then Inl (GuestRoomError ''guest_unavailable'')
             else
               let i = new_invitation fresh r p secret uses expires now; doc = invitation_view i operation in
               bind_result (insert_invitation i db1) (\<lambda>db2.
               bind_result (insert_receipt (new_receipt operation (HostActor (pr_user p) (pr_device p)) ''ISSUE''
                   request doc now (Some fresh) None room) db2) (\<lambda>db3. Inr (doc, db3))))))"

definition revoked_invitation :: "instant \<Rightarrow> guest_invitation \<Rightarrow> guest_invitation" where
  "revoked_invitation now i =
     i\<lparr>gi_state := GiRevoked, gi_revoked_at := Some now, gi_terminal_at := Some now,
       gi_reason := Some ''HOST_REVOKED''\<rparr>"

definition guest_revoke ::
  "canonical \<Rightarrow> principal \<Rightarrow> uuid \<Rightarrow> uuid \<Rightarrow> instant \<Rightarrow> instant \<Rightarrow> wave_db \<Rightarrow> wave_exn + (document \<times> wave_db)" where
  "guest_revoke canonical p invitation operation now clk db =
     (let request = canonical [str_value ''invitation_id'' (uuid_str invitation)] in
      case find_invitation invitation db of
        None \<Rightarrow> Inl (GuestRoomError ''guest_unavailable'')
      | Some i \<Rightarrow>
          bind_result (host_room p (gi_room i) now True db) (\<lambda>_.
          case find_receipt operation db of
            Some receipt \<Rightarrow>
              bind_result (host_replay receipt p ''REVOKE'' request (gi_room i)) (\<lambda>doc. Inr (doc, db))
          | None \<Rightarrow>
              if gi_host_user i \<noteq> pr_user p \<or> gi_host_device i \<noteq> pr_device p
              then Inl (GuestRoomError ''guest_unavailable'')
              else
                let live = live_invitation i;
                    i' = (if live then revoked_invitation now i else i);
                    db1 = (if live then update_invitations clk (\<lambda>j. gi_id j = invitation)
                                          (revoked_invitation now) db else db);
                    doc = invitation_view i' operation
                in bind_result (insert_receipt (new_receipt operation (HostActor (pr_user p) (pr_device p))
                       ''REVOKE'' request doc now (Some invitation) None (gi_room i)) db1)
                     (\<lambda>db2. Inr (doc, db2))))"

subsection \<open>Authenticating a guest\<close>

record guest_principal =
  gp_session :: uuid
  gp_invitation :: uuid
  gp_room :: uuid
  gp_epoch :: int
  gp_actions :: "string list"
  gp_expires_at :: instant

definition invitation_failure :: "invitation_state \<Rightarrow> string" where
  "invitation_failure s =
     (case s of GiRevoked \<Rightarrow> ''guest_revoked'' | GiExpired \<Rightarrow> ''guest_expired'' | _ \<Rightarrow> ''guest_unavailable'')"

definition session_failure :: "guest_state \<Rightarrow> string" where
  "session_failure s =
     (case s of GsRevoked \<Rightarrow> ''guest_revoked'' | GsExpired \<Rightarrow> ''guest_expired'' | _ \<Rightarrow> ''guest_unavailable'')"

definition host_active :: "guest_invitation \<Rightarrow> instant \<Rightarrow> wave_db \<Rightarrow> bool" where
  "host_active i now db \<longleftrightarrow>
     list_ex (\<lambda>u. ua_id u = gi_host_user i \<and> ua_status u = ''ACTIVE'' \<and> ua_deleted_at u = None) (wv_accounts db)
     \<and> list_ex (\<lambda>d. dv_id d = gi_host_device i \<and> dv_user d = gi_host_user i \<and> dv_revoked_at d = None)
         (wv_devices db)
     \<and> list_ex (\<lambda>s. us_id s = gi_host_session i \<and> us_user s = gi_host_user i
                    \<and> us_device s = gi_host_device i \<and> us_revoked_at s = None \<and> now < us_expires_at s)
         (wv_sessions db)"

definition set_guest :: "uuid \<Rightarrow> (guest_session \<Rightarrow> guest_session) \<Rightarrow> wave_db \<Rightarrow> wave_exn + wave_db" where
  "set_guest i f db =
     bind_result (checked_update guest_session_checks ''ck_social_guest_session'' (\<lambda>s. gs_id s = i) f (wv_guests db))
       (\<lambda>rows. Inr (db\<lparr>wv_guests := rows\<rparr>))"

definition guest_access ::
  "8 word list \<Rightarrow> uuid \<Rightarrow> string \<Rightarrow> instant \<Rightarrow> wave_db \<Rightarrow> wave_exn + (guest_principal \<times> wave_db)" where
  "guest_access secret room action now db =
     (case find_guest secret db of
        None \<Rightarrow> Inl (GuestRoomError ''guest_unavailable'')
      | Some s \<Rightarrow>
          if gs_room s \<noteq> room then Inl (GuestRoomError ''guest_scope_denied'')
          else (case find_invitation (gs_invitation s) db of
            None \<Rightarrow> Inl (GuestRoomError ''guest_unavailable'')
          | Some i \<Rightarrow>
              if gs_expires_at s \<le> now \<or> gi_expires_at i \<le> now then Inl (GuestRoomError ''guest_expired'')
              else if gi_state i \<in> {GiRevoked, GiRoomClosed, GiExpired}
              then Inl (GuestRoomError (invitation_failure (gi_state i)))
              else if \<not> host_active i now db then Inl (GuestRoomError ''guest_revoked'')
              else if gs_state s \<noteq> GsActive then Inl (GuestRoomError (session_failure (gs_state s)))
              else bind_result (open_room room now db) (\<lambda>r.
                if gs_epoch s \<noteq> ro_epoch r \<or> gi_epoch i \<noteq> ro_epoch r then Inl (GuestRoomError ''room_changed'')
                else if action \<notin> set (gs_actions s) then Inl (GuestRoomError ''guest_scope_denied'')
                else bind_result (set_guest (gs_id s) (\<lambda>s. s\<lparr>gs_present_at := Some now\<rparr>) db) (\<lambda>db1.
                  Inr (\<lparr>gp_session = gs_id s, gp_invitation = gs_invitation s, gp_room = gs_room s,
                        gp_epoch = gs_epoch s, gp_actions = gs_actions s, gp_expires_at = gs_expires_at s\<rparr>,
                       db1)))))"

subsection \<open>Redeeming an invitation\<close>

definition redeem_request :: "uuid \<Rightarrow> uuid \<Rightarrow> 8 word list \<Rightarrow> 8 word list \<Rightarrow> string \<Rightarrow> document" where
  "redeem_request invitation room document_hash access name =
     [str_value ''invitation_id'' (uuid_str invitation), str_value ''room_id'' (uuid_str room),
      str_value ''document_secret_sha256'' (bytes_hex document_hash),
      str_value ''access_secret_sha256'' (bytes_hex access), str_value ''display_name'' name]"

definition document_replay ::
  "guest_receipt \<Rightarrow> 8 word list \<Rightarrow> 8 word list \<Rightarrow> 8 word list \<Rightarrow> uuid \<Rightarrow> instant \<Rightarrow> wave_db
   \<Rightarrow> wave_exn + (document \<times> wave_db)" where
  "document_replay r document_hash access request room now db =
     (if gr_actor r \<noteq> DocumentActor document_hash \<or> gr_action r \<noteq> ''REDEEM'' \<or> gr_room r \<noteq> Some room
         \<or> gr_sha256 r \<noteq> request
      then Inl (GuestRoomError ''operation_conflict'')
      else case gr_session r of
        None \<Rightarrow> Inl (GuestRoomError ''guest_unavailable'')
      | Some session \<Rightarrow>
          bind_result (guest_access access room ''ROOM_SNAPSHOT'' now db) (\<lambda>(g, db1).
          if gp_session g \<noteq> session then Inl (GuestRoomError ''operation_conflict'')
          else Inr (gr_result r, db1)))"

definition insert_guest :: "guest_session \<Rightarrow> wave_db \<Rightarrow> wave_exn + wave_db" where
  "insert_guest s db =
     (if \<not> guest_session_checks s then Inl (WaveIntegrityError ''ck_social_guest_session'')
      else if list_ex (\<lambda>t. gs_id t = gs_id s) (wv_guests db) then Inl (WaveIntegrityError ''guest_session_pkey'')
      else if list_ex (\<lambda>t. gs_secret t = gs_secret s) (wv_guests db)
      then Inl (WaveIntegrityError ''guest_session_access_secret_sha256_key'')
      else Inr (db\<lparr>wv_guests := wv_guests db @ [s]\<rparr>))"

definition new_guest ::
  "uuid \<Rightarrow> guest_invitation \<Rightarrow> room_row \<Rightarrow> 8 word list \<Rightarrow> string \<Rightarrow> instant \<Rightarrow> guest_session" where
  "new_guest fresh i r access name now =
     \<lparr>gs_id = fresh, gs_invitation = gi_id i, gs_room = ro_id r, gs_epoch = ro_epoch r, gs_secret = access,
      gs_name = name, gs_actions = guest_actions, gs_state = GsActive,
      gs_expires_at = min (gi_expires_at i) (ro_expires_at r), gs_present_at = Some now, gs_left_at = None,
      gs_revoked_at = None, gs_terminal_at = None, gs_reason = None, gs_created_at = now\<rparr>"

definition consumed_invitation :: "instant \<Rightarrow> guest_invitation \<Rightarrow> guest_invitation" where
  "consumed_invitation now i =
     (let i' = i\<lparr>gi_consumed := gi_consumed i + 1\<rparr>
      in if gi_consumed i' = gi_max_uses i'
         then i'\<lparr>gi_state := GiDepleted, gi_terminal_at := Some now, gi_reason := Some ''USES_EXHAUSTED''\<rparr>
         else i')"

definition redeem_result :: "uuid \<Rightarrow> guest_session \<Rightarrow> document" where
  "redeem_result operation s =
     [str_value ''operation_id'' (uuid_str operation), str_value ''guest_session_id'' (uuid_str (gs_id s)),
      str_value ''invitation_id'' (uuid_str (gs_invitation s)), str_value ''room_id'' (uuid_str (gs_room s)),
      int_value ''room_epoch'' (gs_epoch s), str_value ''role'' ''GUEST'',
      (KStr ''allowed_actions'', action_list guest_actions), str_value ''display_name'' (gs_name s),
      str_value ''expires_at'' (iso8601 (gs_expires_at s)),
      str_value ''media_boundary'' ''INDEPENDENT_DEVICE_AUTHORIZATION_ONLY'']"

definition redeem_body ::
  "uuid \<Rightarrow> uuid \<Rightarrow> uuid \<Rightarrow> uuid \<Rightarrow> 8 word list \<Rightarrow> 8 word list \<Rightarrow> string \<Rightarrow> 8 word list \<Rightarrow> instant \<Rightarrow> instant
   \<Rightarrow> wave_db \<Rightarrow> wave_exn + (document \<times> wave_db)" where
  "redeem_body fresh invitation room operation document_hash access name request now clk db =
     (case find (\<lambda>i. gi_id i = invitation \<and> gi_room i = room \<and> gi_secret i = document_hash) (wv_invitations db) of
        None \<Rightarrow> Inl (GuestRoomError ''guest_unavailable'')
      | Some i \<Rightarrow>
          if gi_expires_at i \<le> now then Inl (GuestRoomError ''guest_expired'')
          else if gi_state i \<noteq> GiPending then Inl (GuestRoomError (invitation_failure (gi_state i)))
          else bind_result (open_room room now db) (\<lambda>r.
            if ro_epoch r \<noteq> gi_epoch i then Inl (GuestRoomError ''room_changed'')
            else if max_room_participants \<le> participants room now db then Inl (GuestRoomError ''room_full'')
            else if list_ex (\<lambda>s. gs_secret s = access) (wv_guests db)
            then Inl (GuestRoomError ''operation_conflict'')
            else
              let s = new_guest fresh i r access name now; doc = redeem_result operation s in
              bind_result (insert_guest s db) (\<lambda>db1.
              bind_result (insert_receipt (new_receipt operation (DocumentActor document_hash) ''REDEEM'' request
                  doc now (Some invitation) (Some fresh) room)
                (update_invitations clk (\<lambda>j. gi_id j = invitation) (consumed_invitation now) db1)) (\<lambda>db2.
              Inr (doc, db2)))))"

text \<open>
  \<open>redeem\<close>: a first transaction replays a receipt or counts the attempt, and commits; a second one
  replays or redeems.
\<close>

definition guest_redeem ::
  "digest \<Rightarrow> canonical \<Rightarrow> unicode \<Rightarrow> uuid \<Rightarrow> uuid \<Rightarrow> uuid \<Rightarrow> uuid \<Rightarrow> string \<Rightarrow> string \<Rightarrow> string \<Rightarrow> 8 word list
   \<Rightarrow> instant \<Rightarrow> instant \<Rightarrow> wave_db \<Rightarrow> (wave_exn + document) \<times> wave_db" where
  "guest_redeem sha256 canonical uc fresh invitation room operation document_bearer session_bearer display
     source now clk db =
     (case bind_result (secret_hash sha256 document_bearer) (\<lambda>document_hash.
           bind_result (secret_hash sha256 session_bearer) (\<lambda>access.
           bind_result (display_name uc display) (\<lambda>name. Inr (document_hash, access, name)))) of
        Inl e \<Rightarrow> (Inl e, db)
      | Inr (document_hash, access, name) \<Rightarrow>
          let request = canonical (redeem_request invitation room document_hash access name);
              commit = (\<lambda>db r. case r of Inl e \<Rightarrow> (Inl e, db) | Inr (doc, db') \<Rightarrow> (Inr doc, db'))
          in case find_receipt operation db of
               Some receipt \<Rightarrow> commit db (document_replay receipt document_hash access request room now db)
             | None \<Rightarrow>
                 (case bind_result (rate sha256 ''REDEEM_SOURCE'' source 30 now db)
                         (rate sha256 ''REDEEM_DOCUMENT'' document_hash 10 now) of
                    Inl e \<Rightarrow> (Inl e, db)
                  | Inr db1 \<Rightarrow>
                      commit db1 (case find_receipt operation db1 of
                        Some receipt \<Rightarrow> document_replay receipt document_hash access request room now db1
                      | None \<Rightarrow> redeem_body fresh invitation room operation document_hash access name request
                                  now clk db1)))"

subsection \<open>What a guest does in its room\<close>

definition guest_authenticate ::
  "digest \<Rightarrow> string \<Rightarrow> uuid \<Rightarrow> string \<Rightarrow> instant \<Rightarrow> wave_db \<Rightarrow> wave_exn + (guest_principal \<times> wave_db)" where
  "guest_authenticate sha256 bearer room action now db =
     bind_result (secret_hash sha256 bearer) (\<lambda>secret. guest_access secret room action now db)"

definition guest_view :: "guest_principal \<Rightarrow> instant \<Rightarrow> wave_db \<Rightarrow> wave_exn + playback_command wave_room" where
  "guest_view g now db =
     bind_result (open_room (gp_room g) now db) (\<lambda>r.
     Inr \<lparr>wr_id = ro_id r, wr_code = '''', wr_host = ro_host_user r, wr_created_at = ro_created_at r,
          wr_expires_at = min (ro_expires_at r) (gp_expires_at g), wr_members = {gp_session g},
          wr_queue = room_queue (gp_room g) db, wr_version = ro_version r, wr_sequence = ro_sequence r,
          wr_closed_at = ro_closed_at r, wr_host_lost_at = ro_host_lost_at r, wr_epoch = ro_epoch r,
          wr_state = ro_state r, wr_playback = ro_playback r, wr_role = GuestRole,
          wr_preflight = own_preflight (gp_room g) (gp_session g) (ro_version r) now (wv_guest_preflights db),
          wr_targets = [], wr_command = read_playback_command (gp_room g) db\<rparr>)"

definition guest_snapshot ::
  "digest \<Rightarrow> string \<Rightarrow> uuid \<Rightarrow> instant \<Rightarrow> wave_db \<Rightarrow> wave_exn + (playback_command wave_room \<times> wave_db)" where
  "guest_snapshot sha256 bearer room now db =
     bind_result (guest_authenticate sha256 bearer room ''ROOM_SNAPSHOT'' now db) (\<lambda>(g, db1).
     bind_result (guest_view g now db1) (\<lambda>value. Inr (value, db1)))"

definition guest_presence ::
  "digest \<Rightarrow> string \<Rightarrow> uuid \<Rightarrow> instant \<Rightarrow> wave_db \<Rightarrow> wave_exn + wave_db" where
  "guest_presence sha256 bearer room now db =
     bind_result (guest_authenticate sha256 bearer room ''ROOM_PRESENCE'' now db) (\<lambda>(_, db1). Inr db1)"

definition guest_preflight ::
  "digest \<Rightarrow> string \<Rightarrow> uuid \<Rightarrow> uuid \<Rightarrow> uuid \<Rightarrow> int \<Rightarrow> availability \<Rightarrow> bool \<Rightarrow> instant \<Rightarrow> wave_db
   \<Rightarrow> wave_exn + wave_db" where
  "guest_preflight sha256 bearer room entry recording version value ready now db =
     bind_result (guest_authenticate sha256 bearer room ''ROOM_PREFLIGHT'' now db) (\<lambda>(g, db1).
     if \<not> current_entry room entry recording version db1 then Inl (GuestRoomError ''room_changed'')
     else let row = preflight_report room (gp_session g) entry recording version value ready now
          in if \<not> preflight_row_checks row then Inl (WaveIntegrityError ''ck_social_guest_preflight_version'')
             else Inr (db1\<lparr>wv_guest_preflights := upsert preflight_key row (wv_guest_preflights db1)\<rparr>))"

definition guest_timing ::
  "digest \<Rightarrow> string \<Rightarrow> uuid \<Rightarrow> int \<Rightarrow> int \<Rightarrow> int \<Rightarrow> int \<Rightarrow> int option \<Rightarrow> int option \<Rightarrow> instant \<Rightarrow> wave_db
   \<Rightarrow> wave_exn + wave_db" where
  "guest_timing sha256 bearer room sequence rtt offset uncertainty skew drift now db =
     (if \<not> (0 \<le> rtt \<and> rtt \<le> 1000) \<or> \<not> (0 \<le> uncertainty \<and> uncertainty \<le> 100)
      then Inl (GuestRoomError ''guest_invalid'')
      else if 86400000 < \<bar>offset\<bar> then Inl (GuestRoomError ''guest_invalid'')
      else bind_result (guest_authenticate sha256 bearer room ''ROOM_TIMING'' now db) (\<lambda>(g, db1).
        Inr (db1\<lparr>wv_guest_timings := upsert timing_key
               \<lparr>wt_room = room, wt_participant = gp_session g, wt_sequence = sequence, wt_rtt_ms = rtt,
                wt_offset_ms = offset, wt_uncertainty_ms = uncertainty, wt_skew_ms = skew,
                wt_drift_ms = drift, wt_reported_at = now\<rparr> (wv_guest_timings db1)\<rparr>)))"

definition guest_catch_up ::
  "digest \<Rightarrow> string \<Rightarrow> uuid \<Rightarrow> int \<Rightarrow> instant \<Rightarrow> wave_db \<Rightarrow> wave_exn + (room_event list \<times> wave_db)" where
  "guest_catch_up sha256 bearer room after_sequence now db =
     bind_result (guest_authenticate sha256 bearer room ''ROOM_EVENTS'' now db) (\<lambda>(_, db1).
     Inr (map (event_of iso8601) (events_after room after_sequence db1), db1))"

definition left_guest :: "instant \<Rightarrow> guest_session \<Rightarrow> guest_session" where
  "left_guest now s =
     s\<lparr>gs_state := GsLeft, gs_left_at := Some now, gs_terminal_at := Some now, gs_reason := Some ''GUEST_LEFT''\<rparr>"

definition leave_result :: "uuid \<Rightarrow> guest_principal \<Rightarrow> uuid \<Rightarrow> document" where
  "leave_result operation g room =
     [str_value ''operation_id'' (uuid_str operation), str_value ''guest_session_id'' (uuid_str (gp_session g)),
      str_value ''room_id'' (uuid_str room), str_value ''state'' ''LEFT'']"

definition guest_leave ::
  "digest \<Rightarrow> canonical \<Rightarrow> string \<Rightarrow> uuid \<Rightarrow> uuid \<Rightarrow> instant \<Rightarrow> wave_db \<Rightarrow> wave_exn + (document \<times> wave_db)" where
  "guest_leave sha256 canonical bearer room operation now db =
     bind_result (secret_hash sha256 bearer) (\<lambda>secret.
     let request = canonical [str_value ''room_id'' (uuid_str room)] in
     case find (\<lambda>s. gs_secret s = secret \<and> gs_room s = room) (wv_guests db) of
       None \<Rightarrow> Inl (GuestRoomError ''guest_unavailable'')
     | Some s \<Rightarrow>
         (case find_receipt operation db of
            Some r \<Rightarrow>
              if gr_actor r \<noteq> SessionActor (gs_id s) \<or> gr_action r \<noteq> ''LEAVE'' \<or> gr_sha256 r \<noteq> request
              then Inl (GuestRoomError ''operation_conflict'') else Inr (gr_result r, db)
          | None \<Rightarrow>
              bind_result (guest_access secret room ''ROOM_LEAVE'' now db) (\<lambda>(g, db1).
              bind_result (set_guest (gs_id s) (left_guest now) db1) (\<lambda>db2.
              let doc = leave_result operation g room in
              bind_result (insert_receipt (new_receipt operation (SessionActor (gp_session g)) ''LEAVE'' request
                  doc now None (Some (gp_session g)) room) db2) (\<lambda>db3. Inr (doc, db3))))))"

subsection \<open>Cleaning up\<close>

text \<open>
  The keys of the first \<open>limit\<close> rows in an order. No row is locked by another transaction, so none is
  skipped.
\<close>

definition first_keys :: "nat \<Rightarrow> ('r \<Rightarrow> instant) \<Rightarrow> ('r \<Rightarrow> bool) \<Rightarrow> ('r \<Rightarrow> 'k) \<Rightarrow> 'r list \<Rightarrow> 'k list" where
  "first_keys limit order P key rows = map key (take limit (sort_key order (filter P rows)))"

definition expired_invitation :: "instant \<Rightarrow> guest_invitation \<Rightarrow> guest_invitation" where
  "expired_invitation now i =
     i\<lparr>gi_state := GiExpired, gi_terminal_at := Some now, gi_reason := Some ''INVITATION_EXPIRED''\<rparr>"

definition expired_guest :: "instant \<Rightarrow> guest_session \<Rightarrow> guest_session" where
  "expired_guest now s =
     s\<lparr>gs_state := GsExpired, gs_terminal_at := Some now, gs_reason := Some ''SESSION_EXPIRED''\<rparr>"

definition expire_guests :: "instant \<Rightarrow> instant \<Rightarrow> nat \<Rightarrow> wave_db \<Rightarrow> nat \<times> nat \<times> wave_db" where
  "expire_guests now clk limit db =
     (let invitations = first_keys limit gi_expires_at (\<lambda>i. gi_state i = GiPending \<and> gi_expires_at i \<le> now) gi_id
                          (wv_invitations db);
          db1 = update_invitations clk (\<lambda>i. gi_id i \<in> set invitations) (expired_invitation now) db;
          sessions = first_keys limit gs_expires_at (\<lambda>s. gs_state s = GsActive \<and> gs_expires_at s \<le> now) gs_id
                       (wv_guests db1)
      in (length invitations, length sessions,
          db1\<lparr>wv_guests := update_rows (\<lambda>s. gs_id s \<in> set sessions) (expired_guest now) (wv_guests db1)\<rparr>))"

text \<open>\<open>DELETE \<dots> WHERE ctid IN (SELECT \<dots> ORDER BY \<dots> LIMIT \<dots>)\<close>.\<close>

definition delete_first :: "nat \<Rightarrow> ('r \<Rightarrow> instant) \<Rightarrow> ('r \<Rightarrow> bool) \<Rightarrow> ('r \<Rightarrow> 'k) \<Rightarrow> 'r list \<Rightarrow> nat \<times> 'r list" where
  "delete_first limit order P key rows =
     (let keys = first_keys limit order P key rows
      in (length keys, delete_rows (\<lambda>r. key r \<in> set keys) rows))"

definition drop_evidence :: "instant \<Rightarrow> nat \<Rightarrow> wave_db \<Rightarrow> nat list \<times> wave_db" where
  "drop_evidence now limit db =
     (let cutoff = now - days 30;
          (n1, preflights) = delete_first limit wp_expires_at (\<lambda>p. wp_expires_at p \<le> now) preflight_key
                               (wv_guest_preflights db);
          (n2, timings) = delete_first limit wt_reported_at (\<lambda>t. wt_reported_at t \<le> cutoff) timing_key
                            (wv_guest_timings db);
          (n3, rates) = delete_first limit rw_expires_at (\<lambda>w. rw_expires_at w \<le> now) rw_key (wv_rates db);
          (n4, receipts) = delete_first limit gr_expires_at (\<lambda>r. gr_expires_at r \<le> now) gr_operation
                             (wv_receipts db)
      in ([n1, n2, n3, n4],
          db\<lparr>wv_guest_preflights := preflights, wv_guest_timings := timings, wv_rates := rates,
             wv_receipts := receipts\<rparr>))"

text \<open>
  Deleting a session that evidence still references breaks a foreign key (\<open>ON DELETE RESTRICT\<close>); the
  query excludes the sessions receipts refer to, and not those readiness or timing rows refer to.
\<close>

definition forgettable_sessions :: "instant \<Rightarrow> nat \<Rightarrow> wave_db \<Rightarrow> uuid list" where
  "forgettable_sessions cutoff limit db =
     first_keys limit (\<lambda>s. case gs_terminal_at s of Some t \<Rightarrow> t | None \<Rightarrow> 0)
       (\<lambda>s. gs_state s \<noteq> GsActive \<and> (case gs_terminal_at s of Some t \<Rightarrow> t \<le> cutoff | None \<Rightarrow> False)
            \<and> \<not> list_ex (\<lambda>r. gr_actor r = SessionActor (gs_id s) \<or> gr_session r = Some (gs_id s)) (wv_receipts db))
       gs_id (wv_guests db)"

definition forgettable_invitations :: "instant \<Rightarrow> nat \<Rightarrow> wave_db \<Rightarrow> uuid list" where
  "forgettable_invitations cutoff limit db =
     first_keys limit (\<lambda>i. case gi_terminal_at i of Some t \<Rightarrow> t | None \<Rightarrow> 0)
       (\<lambda>i. gi_state i \<noteq> GiPending \<and> (case gi_terminal_at i of Some t \<Rightarrow> t \<le> cutoff | None \<Rightarrow> False)
            \<and> \<not> list_ex (\<lambda>s. gs_invitation s = gi_id i) (wv_guests db)
            \<and> \<not> list_ex (\<lambda>r. gr_invitation r = Some (gi_id i)) (wv_receipts db))
       gi_id (wv_invitations db)"

definition delete_sessions :: "uuid list \<Rightarrow> wave_db \<Rightarrow> wave_exn + wave_db" where
  "delete_sessions ids db =
     (if list_ex (\<lambda>p. wp_participant p \<in> set ids) (wv_guest_preflights db)
      then Inl (WaveIntegrityError ''fk_social_guest_preflight_session'')
      else if list_ex (\<lambda>t. wt_participant t \<in> set ids) (wv_guest_timings db)
      then Inl (WaveIntegrityError ''fk_social_guest_timing_session'')
      else Inr (db\<lparr>wv_guests := delete_rows (\<lambda>s. gs_id s \<in> set ids) (wv_guests db)\<rparr>))"

definition guest_cleanup :: "instant \<Rightarrow> instant \<Rightarrow> int \<Rightarrow> wave_db \<Rightarrow> wave_exn + (nat list \<times> wave_db)" where
  "guest_cleanup now clk limit db =
     (if \<not> (1 \<le> limit \<and> limit \<le> 1000)
      then Inl (WaveValueError ''guest cleanup limit must be between 1 and 1000'')
      else
        let (n1, n2, db1) = expire_guests now clk (nat limit) db;
            (ns, db2) = drop_evidence now (nat limit) db1;
            sessions = forgettable_sessions (now - days 30) (nat limit) db2
        in bind_result (delete_sessions sessions db2) (\<lambda>db3.
           let invitations = forgettable_invitations (now - days 30) (nat limit) db3
           in Inr ([n1, n2] @ ns @ [length sessions, length invitations],
                   db3\<lparr>wv_invitations := delete_rows (\<lambda>i. gi_id i \<in> set invitations) (wv_invitations db3)\<rparr>)))"

end
