(* ===== verification/Wave_Invariants.thy ===== *)
theory Wave_Invariants
  imports Guest_Access
begin

text \<open>
  What the tables of rooms and guests keep. Each predicate reads the rooms through a projection (their
  hosts, their sequence numbers, their queue versions, their states), so a write that leaves the
  projection alone leaves the predicate alone.
\<close>

subsection \<open>The invariant\<close>

definition terminal_room :: "room_row \<Rightarrow> bool" where
  "terminal_room r \<longleftrightarrow> ro_state r = CLOSED \<or> ro_state r = EXPIRED"

definition rooms_ok :: "room_row list \<Rightarrow> bool" where
  "rooms_ok rooms \<longleftrightarrow>
     distinct (map ro_id rooms) \<and> distinct (map ro_code_sha256 rooms)
     \<and> (\<forall>r \<in> set rooms. room_row_checks r \<and> (ro_closed_at r \<noteq> None \<longleftrightarrow> terminal_room r))"

definition members_ok :: "member_row list \<Rightarrow> bool" where
  "members_ok members \<longleftrightarrow> distinct (map member_key members) \<and> (\<forall>m \<in> set members. member_row_checks m)"

text \<open>The host of a room is the one member with that role, and has joined while the room lives.\<close>

definition host_view :: "room_row \<Rightarrow> uuid \<times> uuid \<times> uuid \<times> bool" where
  "host_view r = (ro_id r, ro_host_user r, ro_host_device r, terminal_room r)"

definition hosts_ok :: "(uuid \<times> uuid \<times> uuid \<times> bool) set \<Rightarrow> member_row list \<Rightarrow> bool" where
  "hosts_ok views members \<longleftrightarrow>
     (\<forall>(i, user, device, terminal) \<in> views.
        (\<forall>m \<in> set members. wm_room m = i \<longrightarrow> (wm_role m = HostRole \<longleftrightarrow> wm_device m = device))
        \<and> (\<exists>m \<in> set members. wm_room m = i \<and> wm_device m = device \<and> wm_user m = user
             \<and> (terminal \<or> wm_status m = MsJoined)))
     \<and> (\<forall>m \<in> set members. wm_room m \<in> fst ` views)"

text \<open>The log of a room holds its sequence numbers, in order and without a gap.\<close>

definition sequence_view :: "room_row \<Rightarrow> uuid \<times> int" where
  "sequence_view r = (ro_id r, ro_sequence r)"

definition command_key :: "command_row \<Rightarrow> uuid \<times> string" where
  "command_key c = (wc_room c, wc_key c)"

definition log_of :: "uuid \<Rightarrow> command_row list \<Rightarrow> command_row list" where
  "log_of i commands = filter (\<lambda>c. wc_room c = i) commands"

definition log_ok :: "(uuid \<times> int) set \<Rightarrow> command_row list \<Rightarrow> bool" where
  "log_ok views commands \<longleftrightarrow>
     (\<forall>(i, n) \<in> views. map wc_sequence (log_of i commands) = [1..n])
     \<and> (\<forall>c \<in> set commands. command_row_checks c \<and> wc_room c \<in> fst ` views)
     \<and> distinct (map command_key commands)"

text \<open>The queue of a room holds its positions, and its version counts the entries.\<close>

definition version_view :: "room_row \<Rightarrow> uuid \<times> int" where
  "version_view r = (ro_id r, ro_version r)"

definition queue_of :: "uuid \<Rightarrow> queue_row list \<Rightarrow> queue_row list" where
  "queue_of i queue = filter (\<lambda>q. wq_room q = i) queue"

definition queue_ok :: "(uuid \<times> int) set \<Rightarrow> queue_row list \<Rightarrow> bool" where
  "queue_ok views queue \<longleftrightarrow>
     (\<forall>(i, n) \<in> views. map wq_position (queue_of i queue) = [0..n - 2])
     \<and> (\<forall>q \<in> set queue. queue_row_checks q \<and> wq_removed_at q = None \<and> wq_room q \<in> fst ` views)
     \<and> distinct (map wq_id queue)"

text \<open>
  An invitation lives only while its room does; a session belongs to an invitation of its room, is
  active only under a live one, and there are at most as many as were consumed.
\<close>

definition state_view :: "room_row \<Rightarrow> uuid \<times> bool" where
  "state_view r = (ro_id r, terminal_room r)"

definition invitations_ok :: "(uuid \<times> bool) set \<Rightarrow> guest_invitation list \<Rightarrow> bool" where
  "invitations_ok views invitations \<longleftrightarrow>
     distinct (map gi_id invitations) \<and> distinct (map gi_secret invitations)
     \<and> (\<forall>i \<in> set invitations. guest_invitation_checks i
          \<and> gi_room i \<in> fst ` views
          \<and> (live_invitation i \<longrightarrow> (gi_room i, True) \<notin> views)
          \<and> (gi_state i = GiPending \<longrightarrow> gi_consumed i < gi_max_uses i))"

definition session_of :: "guest_invitation list \<Rightarrow> guest_session \<Rightarrow> bool" where
  "session_of invitations s \<longleftrightarrow>
     (\<exists>i \<in> set invitations. gi_id i = gs_invitation s \<and> gi_room i = gs_room s \<and> gi_epoch i = gs_epoch s
        \<and> gs_expires_at s \<le> gi_expires_at i \<and> (gs_state s = GsActive \<longrightarrow> live_invitation i))"

definition guests_ok :: "guest_invitation list \<Rightarrow> guest_session list \<Rightarrow> bool" where
  "guests_ok invitations guests \<longleftrightarrow>
     distinct (map gs_id guests) \<and> distinct (map gs_secret guests)
     \<and> (\<forall>s \<in> set guests. guest_session_checks s \<and> session_of invitations s)
     \<and> (\<forall>i \<in> set invitations. int (count_rows (\<lambda>s. gs_invitation s = gi_id i) guests) \<le> gi_consumed i)"

text \<open>Readiness, timing, receipts and rate windows: keys, checks and references.\<close>

definition reports_ok :: "preflight_row list \<Rightarrow> timing_row list \<Rightarrow> bool" where
  "reports_ok preflights timings \<longleftrightarrow>
     distinct (map preflight_key preflights) \<and> (\<forall>p \<in> set preflights. preflight_row_checks p)
     \<and> distinct (map timing_key timings) \<and> (\<forall>t \<in> set timings. timing_row_checks t)"

definition receipts_ok :: "guest_receipt list \<Rightarrow> bool" where
  "receipts_ok receipts \<longleftrightarrow> distinct (map gr_operation receipts) \<and> (\<forall>r \<in> set receipts. length (gr_sha256 r) = 32)"

definition references_ok :: "uuid set \<Rightarrow> uuid set \<Rightarrow> preflight_row list \<Rightarrow> timing_row list \<Rightarrow> guest_receipt list \<Rightarrow> bool" where
  "references_ok sessions invitations preflights timings receipts \<longleftrightarrow>
     wp_participant ` set preflights \<subseteq> sessions \<and> wt_participant ` set timings \<subseteq> sessions
     \<and> (\<forall>r \<in> set receipts. set_option (gr_session r) \<subseteq> sessions \<and> set_option (gr_invitation r) \<subseteq> invitations)"

definition wave_inv :: "wave_db \<Rightarrow> bool" where
  "wave_inv db \<longleftrightarrow>
     rooms_ok (wv_rooms db) \<and> members_ok (wv_members db)
     \<and> hosts_ok (host_view ` set (wv_rooms db)) (wv_members db)
     \<and> log_ok (sequence_view ` set (wv_rooms db)) (wv_commands db)
     \<and> queue_ok (version_view ` set (wv_rooms db)) (wv_queue db)
     \<and> invitations_ok (state_view ` set (wv_rooms db)) (wv_invitations db)
     \<and> guests_ok (wv_invitations db) (wv_guests db)
     \<and> reports_ok (wv_preflights db) (wv_timings db)
     \<and> reports_ok (wv_guest_preflights db) (wv_guest_timings db)
     \<and> receipts_ok (wv_receipts db)
     \<and> references_ok (gs_id ` set (wv_guests db)) (gi_id ` set (wv_invitations db))
         (wv_guest_preflights db) (wv_guest_timings db) (wv_receipts db)
     \<and> distinct (map rw_key (wv_rates db))"

lemma wave_invI:
  assumes "rooms_ok (wv_rooms db)" "members_ok (wv_members db)"
    "hosts_ok (host_view ` set (wv_rooms db)) (wv_members db)"
    "log_ok (sequence_view ` set (wv_rooms db)) (wv_commands db)"
    "queue_ok (version_view ` set (wv_rooms db)) (wv_queue db)"
    "invitations_ok (state_view ` set (wv_rooms db)) (wv_invitations db)"
    "guests_ok (wv_invitations db) (wv_guests db)"
    "reports_ok (wv_preflights db) (wv_timings db)"
    "reports_ok (wv_guest_preflights db) (wv_guest_timings db)"
    "receipts_ok (wv_receipts db)"
    "references_ok (gs_id ` set (wv_guests db)) (gi_id ` set (wv_invitations db))
       (wv_guest_preflights db) (wv_guest_timings db) (wv_receipts db)"
    "distinct (map rw_key (wv_rates db))"
  shows "wave_inv db"
  using assms by (simp add: wave_inv_def)

lemma wave_invD:
  assumes "wave_inv db"
  shows "rooms_ok (wv_rooms db)" "members_ok (wv_members db)"
    "hosts_ok (host_view ` set (wv_rooms db)) (wv_members db)"
    "log_ok (sequence_view ` set (wv_rooms db)) (wv_commands db)"
    "queue_ok (version_view ` set (wv_rooms db)) (wv_queue db)"
    "invitations_ok (state_view ` set (wv_rooms db)) (wv_invitations db)"
    "guests_ok (wv_invitations db) (wv_guests db)"
    "reports_ok (wv_preflights db) (wv_timings db)"
    "reports_ok (wv_guest_preflights db) (wv_guest_timings db)"
    "receipts_ok (wv_receipts db)"
    "references_ok (gs_id ` set (wv_guests db)) (gi_id ` set (wv_invitations db))
       (wv_guest_preflights db) (wv_guest_timings db) (wv_receipts db)"
    "distinct (map rw_key (wv_rates db))"
  using assms by (simp_all add: wave_inv_def)

lemma log_okI:
  assumes "\<And>i n. (i, n) \<in> views \<Longrightarrow> map wc_sequence (log_of i commands) = [1..n]"
    and "\<And>c. c \<in> set commands \<Longrightarrow> command_row_checks c \<and> wc_room c \<in> fst ` views"
    and "distinct (map command_key commands)"
  shows "log_ok views commands"
  unfolding log_ok_def using assms by (simp add: split_def)

lemma log_okD:
  assumes "log_ok views commands"
  shows "(i, n) \<in> views \<Longrightarrow> map wc_sequence (log_of i commands) = [1..n]"
    and "c \<in> set commands \<Longrightarrow> command_row_checks c \<and> wc_room c \<in> fst ` views"
    and "distinct (map command_key commands)"
  using assms unfolding log_ok_def by blast+

lemma queue_okI:
  assumes "\<And>i n. (i, n) \<in> views \<Longrightarrow> map wq_position (queue_of i queue) = [0..n - 2]"
    and "\<And>q. q \<in> set queue \<Longrightarrow> queue_row_checks q \<and> wq_removed_at q = None \<and> wq_room q \<in> fst ` views"
    and "distinct (map wq_id queue)"
  shows "queue_ok views queue"
  unfolding queue_ok_def using assms by (simp add: split_def)

lemma queue_okD:
  assumes "queue_ok views queue"
  shows "(i, n) \<in> views \<Longrightarrow> map wq_position (queue_of i queue) = [0..n - 2]"
    and "q \<in> set queue \<Longrightarrow> queue_row_checks q \<and> wq_removed_at q = None \<and> wq_room q \<in> fst ` views"
    and "distinct (map wq_id queue)"
  using assms unfolding queue_ok_def by blast+

lemma hosts_okI:
  assumes "\<And>i user device terminal m. (i, user, device, terminal) \<in> views \<Longrightarrow> m \<in> set members \<Longrightarrow>
      wm_room m = i \<Longrightarrow> (wm_role m = HostRole \<longleftrightarrow> wm_device m = device)"
    and "\<And>i user device terminal. (i, user, device, terminal) \<in> views \<Longrightarrow>
      \<exists>m \<in> set members. wm_room m = i \<and> wm_device m = device \<and> wm_user m = user
        \<and> (terminal \<or> wm_status m = MsJoined)"
    and "\<And>m. m \<in> set members \<Longrightarrow> wm_room m \<in> fst ` views"
  shows "hosts_ok views members"
proof -
  have each: "case v of (i, user, device, terminal) \<Rightarrow>
      (\<forall>m \<in> set members. wm_room m = i \<longrightarrow> (wm_role m = HostRole \<longleftrightarrow> wm_device m = device))
      \<and> (\<exists>m \<in> set members. wm_room m = i \<and> wm_device m = device \<and> wm_user m = user
           \<and> (terminal \<or> wm_status m = MsJoined))" if "v \<in> views" for v
  proof -
    obtain i user device terminal where v: "v = (i, user, device, terminal)" by (cases v)
    show ?thesis unfolding v prod.case
    proof (intro conjI ballI impI)
      show "wm_role m = HostRole \<longleftrightarrow> wm_device m = device" if "m \<in> set members" "wm_room m = i" for m
        by (rule assms(1) [OF \<open>v \<in> views\<close> [unfolded v] that])
    qed (rule assms(2) [OF that [unfolded v]])
  qed
  show ?thesis unfolding hosts_ok_def by (intro conjI ballI) (erule each, erule assms(3))
qed

lemma hosts_okD:
  assumes "hosts_ok views members"
  shows "(i, user, device, terminal) \<in> views \<Longrightarrow> m \<in> set members \<Longrightarrow>
      wm_room m = i \<Longrightarrow> (wm_role m = HostRole \<longleftrightarrow> wm_device m = device)"
    and "(i, user, device, terminal) \<in> views \<Longrightarrow>
      \<exists>m \<in> set members. wm_room m = i \<and> wm_device m = device \<and> wm_user m = user
        \<and> (terminal \<or> wm_status m = MsJoined)"
    and "m \<in> set members \<Longrightarrow> wm_room m \<in> fst ` views"
proof -
  note parts = assms [unfolded hosts_ok_def]
  note view = bspec [OF conjunct1 [OF parts], of "(i, user, device, terminal)", unfolded prod.case]
  show "(i, user, device, terminal) \<in> views \<Longrightarrow> m \<in> set members \<Longrightarrow>
      wm_room m = i \<Longrightarrow> (wm_role m = HostRole \<longleftrightarrow> wm_device m = device)"
    by (drule view [THEN conjunct1, THEN bspec]) (assumption, erule mp)
  show "(i, user, device, terminal) \<in> views \<Longrightarrow>
      \<exists>m \<in> set members. wm_room m = i \<and> wm_device m = device \<and> wm_user m = user
        \<and> (terminal \<or> wm_status m = MsJoined)"
    by (rule view [THEN conjunct2])
  show "m \<in> set members \<Longrightarrow> wm_room m \<in> fst ` views"
    by (rule bspec [OF conjunct2 [OF parts]])
qed

subsection \<open>Updates of rows\<close>

lemma map_update_rows_same:
  assumes "\<And>r. r \<in> set rows \<Longrightarrow> P r \<Longrightarrow> g (f r) = g r"
  shows "map g (update_rows P f rows) = map g rows"
  using assms by (induction rows) auto

lemma image_update_rows_same:
  assumes "\<And>r. r \<in> set rows \<Longrightarrow> P r \<Longrightarrow> g (f r) = g r"
  shows "g ` set (update_rows P f rows) = g ` set rows"
  using map_update_rows_same [of rows P g f, OF assms] by (metis list.set_map)

lemma checked_update_Inr:
  "checked_update chk name P f rows = Inr rows' \<longleftrightarrow>
     rows' = update_rows P f rows \<and> (\<forall>r \<in> set rows. P r \<longrightarrow> chk (f r))"
  by (auto simp: checked_update_def list_all_iff)

lemma ball_update_rows:
  assumes "\<forall>r \<in> set rows. Q r" and "\<And>r. r \<in> set rows \<Longrightarrow> P r \<Longrightarrow> Q r \<Longrightarrow> Q (f r)"
  shows "\<forall>r \<in> set (update_rows P f rows). Q r"
  using assms by (auto elim!: in_update_rowsE)

text \<open>The row a key selects is the only one with it.\<close>

lemma room_unique: "rooms_ok rooms \<Longrightarrow> r \<in> set rooms \<Longrightarrow> s \<in> set rooms \<Longrightarrow> ro_id r = ro_id s \<Longrightarrow> r = s"
  by (auto simp: rooms_ok_def dest: inj_onD [OF distinct_map [THEN iffD1, THEN conjunct2]])

lemma find_room_Some:
  assumes "find_room i db = Some r"
  shows "r \<in> set (wv_rooms db)" and "ro_id r = i"
  using find_eq_Some_unique [OF assms [unfolded find_room_def]] by auto

lemma find_room_in: "wave_inv db \<Longrightarrow> r \<in> set (wv_rooms db) \<Longrightarrow> find_room (ro_id r) db = Some r"
  unfolding find_room_def by (intro find_keyI) (auto dest!: wave_invD(1) simp: rooms_ok_def)

lemma member_unique:
  "members_ok members \<Longrightarrow> m \<in> set members \<Longrightarrow> n \<in> set members \<Longrightarrow> member_key m = member_key n \<Longrightarrow> m = n"
  by (auto simp: members_ok_def dest: inj_onD [OF distinct_map [THEN iffD1, THEN conjunct2]])

subsection \<open>Writes to rooms\<close>

text \<open>A room is rewritten with its identifier, its code and its lifetime kept.\<close>

lemma rooms_ok_update:
  assumes "rooms_ok rooms"
    and "\<And>r. r \<in> set rooms \<Longrightarrow> ro_id r = i \<Longrightarrow> ro_id (f r) = i \<and> ro_code_sha256 (f r) = ro_code_sha256 r
      \<and> room_row_checks (f r) \<and> (ro_closed_at (f r) \<noteq> None \<longleftrightarrow> terminal_room (f r))"
  shows "rooms_ok (update_rows (\<lambda>r. ro_id r = i) f rooms)"
proof -
  have "map ro_id (update_rows (\<lambda>r. ro_id r = i) f rooms) = map ro_id rooms"
    "map ro_code_sha256 (update_rows (\<lambda>r. ro_id r = i) f rooms) = map ro_code_sha256 rooms"
    by (rule map_update_rows_same; use assms(2) in simp)+
  moreover have "\<forall>r \<in> set (update_rows (\<lambda>r. ro_id r = i) f rooms).
      room_row_checks r \<and> (ro_closed_at r \<noteq> None \<longleftrightarrow> terminal_room r)"
    by (rule ball_update_rows) (use assms in \<open>auto simp: rooms_ok_def\<close>)
  ultimately show ?thesis using assms(1) by (simp add: rooms_ok_def)
qed

text \<open>What a projection of the rooms is after one room was rewritten.\<close>

lemma updated_view:
  assumes "rooms_ok rooms" and "r \<in> set rooms" and "\<And>s. fst (view s) = ro_id s" and "ro_id (f r) = ro_id r"
    and "v \<in> view ` set (update_rows (\<lambda>s. ro_id s = ro_id r) f rooms)"
  shows "v \<in> view ` set rooms \<and> fst v \<noteq> ro_id r \<or> v = view (f r)"
proof -
  from assms(5) obtain s' where "s' \<in> set (update_rows (\<lambda>s. ro_id s = ro_id r) f rooms)" "v = view s'" by blast
  then show ?thesis
    using room_unique [OF assms(1) _ assms(2)] assms(3) by (auto elim!: in_update_rowsE)
qed

lemma updated_ids:
  assumes "rooms_ok rooms" and "r \<in> set rooms" and "\<And>s. fst (view s) = ro_id s" and "ro_id (f r) = ro_id r"
  shows "fst ` view ` set (update_rows (\<lambda>s. ro_id s = ro_id r) f rooms) = fst ` view ` set rooms"
proof -
  have "ro_id (f s) = ro_id s" if "s \<in> set rooms" "ro_id s = ro_id r" for s
    using room_unique [OF assms(1) that(1) assms(2) that(2)] assms(4) by simp
  then show ?thesis
    unfolding image_image assms(3) by (rule image_update_rows_same)
qed

lemma view_fst [simp]:
  "fst (host_view r) = ro_id r" "fst (sequence_view r) = ro_id r" "fst (version_view r) = ro_id r"
  "fst (state_view r) = ro_id r"
  by (simp_all add: host_view_def sequence_view_def version_view_def state_view_def)

lemma in_ids: "r \<in> set rooms \<Longrightarrow> (\<And>s. fst (view s) = ro_id s) \<Longrightarrow> ro_id r \<in> fst ` view ` set rooms"
  by (metis image_eqI)

lemma log_ok_append:
  assumes "rooms_ok rooms" and "log_ok (sequence_view ` set rooms) commands"
    and "r \<in> set rooms" and "wc_room c = ro_id r" and "wc_sequence c = ro_sequence r + 1"
    and "command_row_checks c" and "\<not> list_ex (\<lambda>d. wc_room d = wc_room c \<and> wc_key d = wc_key c) commands"
    and "ro_id (f r) = ro_id r" and "ro_sequence (f r) = ro_sequence r + 1"
  shows "log_ok (sequence_view ` set (update_rows (\<lambda>s. ro_id s = ro_id r) f rooms)) (commands @ [c])"
proof (rule log_okI)
  have nonneg: "0 \<le> ro_sequence r" using assms(1,3) by (auto simp: rooms_ok_def room_row_checks_def)
  fix i n
  assume "(i, n) \<in> sequence_view ` set (update_rows (\<lambda>s. ro_id s = ro_id r) f rooms)"
  from updated_view [OF assms(1,3) _ assms(8) this]
  consider "(i, n) \<in> sequence_view ` set rooms" "i \<noteq> ro_id r" | "i = ro_id r" "n = ro_sequence r + 1"
    by (auto simp: sequence_view_def assms(8,9))
  then show "map wc_sequence (log_of i (commands @ [c])) = [1..n]"
  proof cases
    case 1
    with log_okD(1) [OF assms(2)] assms(4) show ?thesis by (simp add: log_of_def)
  next
    case 2
    have "(ro_id r, ro_sequence r) \<in> sequence_view ` set rooms" using assms(3) by (auto simp: sequence_view_def)
    from log_okD(1) [OF assms(2) this] nonneg 2 assms(4,5) upto_rec2 [of 1 "ro_sequence r + 1"]
    show ?thesis by (simp add: log_of_def)
  qed
next
  fix d
  assume "d \<in> set (commands @ [c])"
  then show "command_row_checks d
      \<and> wc_room d \<in> fst ` sequence_view ` set (update_rows (\<lambda>s. ro_id s = ro_id r) f rooms)"
    using log_okD(2) [OF assms(2), of d] in_ids [OF assms(3), of sequence_view] assms(4,6)
    by (auto simp only: updated_ids [where f = f, OF assms(1,3) view_fst(2) assms(8)] view_fst set_append list.set Un_iff insert_iff empty_iff)
next
  have "command_key c \<notin> command_key ` set commands"
    using assms(7) by (auto simp: command_key_def list_ex_iff)
  with log_okD(3) [OF assms(2)] show "distinct (map command_key (commands @ [c]))" by simp
qed

lemma queue_length:
  assumes "rooms_ok rooms" and "queue_ok (version_view ` set rooms) queue" and "r \<in> set rooms"
  shows "len (queue_of (ro_id r) queue) = ro_version r - 1"
proof -
  have "(ro_id r, ro_version r) \<in> version_view ` set rooms" using assms(3) by (auto simp: version_view_def)
  from queue_okD(1) [OF assms(2) this] have "length (queue_of (ro_id r) queue) = length [0..ro_version r - 2]"
    by (metis length_map)
  moreover have "1 \<le> ro_version r" using assms(1,3) by (auto simp: rooms_ok_def room_row_checks_def)
  ultimately show ?thesis by simp
qed

lemma queue_ok_append:
  assumes "rooms_ok rooms" and "queue_ok (version_view ` set rooms) queue"
    and "r \<in> set rooms" and "wq_room q = ro_id r" and "wq_position q = ro_version r - 1"
    and "queue_row_checks q" and "wq_removed_at q = None" and "\<not> list_ex (\<lambda>p. wq_id p = wq_id q) queue"
    and "ro_id (f r) = ro_id r" and "ro_version (f r) = ro_version r + 1"
  shows "queue_ok (version_view ` set (update_rows (\<lambda>s. ro_id s = ro_id r) f rooms)) (queue @ [q])"
proof (rule queue_okI)
  have nonneg: "1 \<le> ro_version r" using assms(1,3) by (auto simp: rooms_ok_def room_row_checks_def)
  fix i n
  assume "(i, n) \<in> version_view ` set (update_rows (\<lambda>s. ro_id s = ro_id r) f rooms)"
  from updated_view [OF assms(1,3) _ assms(9) this]
  consider "(i, n) \<in> version_view ` set rooms" "i \<noteq> ro_id r" | "i = ro_id r" "n = ro_version r + 1"
    by (auto simp: version_view_def assms(9,10))
  then show "map wq_position (queue_of i (queue @ [q])) = [0..n - 2]"
  proof cases
    case 1
    with queue_okD(1) [OF assms(2)] assms(4) show ?thesis by (simp add: queue_of_def)
  next
    case 2
    have "(ro_id r, ro_version r) \<in> version_view ` set rooms" using assms(3) by (auto simp: version_view_def)
    from queue_okD(1) [OF assms(2) this] nonneg 2 assms(4,5) upto_rec2 [of 0 "ro_version r - 1"]
    show ?thesis by (simp add: queue_of_def)
  qed
next
  fix p
  assume "p \<in> set (queue @ [q])"
  then show "queue_row_checks p \<and> wq_removed_at p = None
      \<and> wq_room p \<in> fst ` version_view ` set (update_rows (\<lambda>s. ro_id s = ro_id r) f rooms)"
    using queue_okD(2) [OF assms(2), of p] in_ids [OF assms(3), of version_view] assms(4,6,7)
    by (auto simp only: updated_ids [where f = f, OF assms(1,3) view_fst(3) assms(9)] view_fst set_append list.set Un_iff insert_iff empty_iff)
next
  have "wq_id q \<notin> wq_id ` set queue" using assms(8) by (auto simp: list_ex_iff)
  with queue_okD(3) [OF assms(2)] show "distinct (map wq_id (queue @ [q]))" by simp
qed

subsection \<open>Writes to members\<close>

lemma members_ok_update:
  assumes "members_ok members" and "\<And>m. m \<in> set members \<Longrightarrow> P m \<Longrightarrow> member_key (f m) = member_key m \<and> member_row_checks (f m)"
  shows "members_ok (update_rows P f members)"
proof -
  have "map member_key (update_rows P f members) = map member_key members"
    by (rule map_update_rows_same) (use assms(2) in blast)
  moreover have "\<forall>m \<in> set (update_rows P f members). member_row_checks m"
    by (rule ball_update_rows) (use assms in \<open>auto simp: members_ok_def\<close>)
  ultimately show ?thesis using assms(1) by (simp add: members_ok_def)
qed

text \<open>
  Members change their presence or their status, rooms may become terminal; no living room loses its
  host.
\<close>

lemma hosts_ok_update:
  assumes "hosts_ok views members"
    and "\<And>m. m \<in> set members \<Longrightarrow> P m \<Longrightarrow> wm_room (f m) = wm_room m \<and> wm_device (f m) = wm_device m
      \<and> wm_user (f m) = wm_user m \<and> wm_role (f m) = wm_role m"
    and "fst ` views' = fst ` views"
    and "\<And>i user device terminal. (i, user, device, terminal) \<in> views' \<Longrightarrow>
      \<exists>t. (i, user, device, t) \<in> views \<and> (t \<longrightarrow> terminal)
        \<and> (terminal \<or> (\<forall>m \<in> set members. P m \<longrightarrow> wm_room m = i \<longrightarrow> wm_device m = device \<longrightarrow>
             wm_status m = MsJoined \<longrightarrow> wm_status (f m) = MsJoined))"
  shows "hosts_ok views' (update_rows P f members)"
proof (rule hosts_okI)
  fix i user device terminal m
  assume v: "(i, user, device, terminal) \<in> views'" and m: "m \<in> set (update_rows P f members)" "wm_room m = i"
  from assms(4) [OF v] obtain t where "(i, user, device, t) \<in> views" by blast
  note role = hosts_okD(1) [OF assms(1) this]
  from m(1) show "wm_role m = HostRole \<longleftrightarrow> wm_device m = device"
    by (rule in_update_rowsE) (use m(2) role assms(2) in auto)
next
  fix i user device terminal
  assume v: "(i, user, device, terminal) \<in> views'"
  from assms(4) [OF v] obtain t where t: "(i, user, device, t) \<in> views" "t \<longrightarrow> terminal"
    "terminal \<or> (\<forall>m \<in> set members. P m \<longrightarrow> wm_room m = i \<longrightarrow> wm_device m = device \<longrightarrow>
       wm_status m = MsJoined \<longrightarrow> wm_status (f m) = MsJoined)" by blast
  from hosts_okD(2) [OF assms(1) t(1)] obtain m where m: "m \<in> set members" "wm_room m = i" "wm_device m = device"
    "wm_user m = user" "t \<or> wm_status m = MsJoined" by blast
  let ?m = "if P m then f m else m"
  have "?m \<in> set (update_rows P f members)" using m(1) by (auto simp: in_update_rows)
  moreover have "wm_room ?m = i \<and> wm_device ?m = device \<and> wm_user ?m = user \<and> (terminal \<or> wm_status ?m = MsJoined)"
    using m t(2,3) assms(2) by auto
  ultimately show "\<exists>m \<in> set (update_rows P f members). wm_room m = i \<and> wm_device m = device \<and> wm_user m = user
      \<and> (terminal \<or> wm_status m = MsJoined)" by blast
next
  fix m
  assume "m \<in> set (update_rows P f members)"
  then show "wm_room m \<in> fst ` views'"
    unfolding assms(3) by (rule in_update_rowsE) (use hosts_okD(3) [OF assms(1)] assms(2) in auto)
qed

lemma hosts_ok_insert:
  assumes "hosts_ok views members" and "wm_room m \<in> fst ` views" and "wm_role m \<noteq> HostRole"
    and "\<not> list_ex (\<lambda>n. member_key n = member_key m) members"
  shows "hosts_ok views (members @ [m])"
proof (rule hosts_okI)
  fix i user device terminal n
  assume v: "(i, user, device, terminal) \<in> views" and n: "n \<in> set (members @ [m])" "wm_room n = i"
  have "wm_device m \<noteq> device" if "wm_room m = i"
    using hosts_okD(2) [OF assms(1) v] assms(4) that by (auto simp: list_ex_iff member_key_def)
  with n hosts_okD(1) [OF assms(1) v] assms(3) show "wm_role n = HostRole \<longleftrightarrow> wm_device n = device" by auto
next
  fix i user device terminal
  assume "(i, user, device, terminal) \<in> views"
  from hosts_okD(2) [OF assms(1) this]
  show "\<exists>n \<in> set (members @ [m]). wm_room n = i \<and> wm_device n = device \<and> wm_user n = user
      \<and> (terminal \<or> wm_status n = MsJoined)" by auto
next
  fix n
  assume "n \<in> set (members @ [m])"
  then show "wm_room n \<in> fst ` views" using hosts_okD(3) [OF assms(1)] assms(2) by auto
qed

lemma hosts_ok_create:
  assumes "hosts_ok (host_view ` set rooms) members" and "ro_id r \<notin> ro_id ` set rooms"
    and "wm_room m = ro_id r" "wm_device m = ro_host_device r" "wm_user m = ro_host_user r"
    and "wm_role m = HostRole" "wm_status m = MsJoined"
  shows "hosts_ok (host_view ` set (rooms @ [r])) (members @ [m])"
proof (rule hosts_okI)
  have fresh: "wm_room n \<noteq> ro_id r" if "n \<in> set members" for n
    using hosts_okD(3) [OF assms(1) that] assms(2) by (auto simp: image_image)
  fix i user device terminal n
  assume v: "(i, user, device, terminal) \<in> host_view ` set (rooms @ [r])"
    and n: "n \<in> set (members @ [m])" "wm_room n = i"
  from v consider "(i, user, device, terminal) \<in> host_view ` set rooms" | "(i, user, device, terminal) = host_view r"
    by auto
  then show "wm_role n = HostRole \<longleftrightarrow> wm_device n = device"
  proof cases
    case 1
    then have "i \<noteq> ro_id r" using assms(2) by (force simp: host_view_def)
    with n assms(3) hosts_okD(1) [OF assms(1) 1] show ?thesis by auto
  next
    case 2
    with n fresh assms(3,4,6) show ?thesis by (auto simp: host_view_def)
  qed
next
  fix i user device terminal
  assume "(i, user, device, terminal) \<in> host_view ` set (rooms @ [r])"
  then consider "(i, user, device, terminal) \<in> host_view ` set rooms" | "(i, user, device, terminal) = host_view r"
    by auto
  then show "\<exists>n \<in> set (members @ [m]). wm_room n = i \<and> wm_device n = device \<and> wm_user n = user
      \<and> (terminal \<or> wm_status n = MsJoined)"
    by cases (use hosts_okD(2) [OF assms(1)] in \<open>fastforce\<close>, use assms in \<open>auto simp: host_view_def\<close>)
next
  fix n
  assume "n \<in> set (members @ [m])"
  then show "wm_room n \<in> fst ` host_view ` set (rooms @ [r])"
    using hosts_okD(3) [OF assms(1)] assms(3) by auto
qed

text \<open>The host passes to a member that has joined.\<close>

lemma hosts_ok_transfer:
  assumes "rooms_ok rooms" and "hosts_ok (host_view ` set rooms) members" and "r \<in> set rooms"
    and "m \<in> set members" and "joined (ro_id r) m"
    and "host_view (f r) = (ro_id r, wm_user m, wm_device m, terminal)"
  shows "hosts_ok (host_view ` set (update_rows (\<lambda>s. ro_id s = ro_id r) f rooms))
    (update_rows (\<lambda>n. wm_room n = ro_id r)
       (\<lambda>n. n\<lparr>wm_role := (if wm_device n = wm_device m then HostRole else MemberRole)\<rparr>) members)"
proof (rule hosts_okI)
  have same_id: "ro_id (f r) = ro_id r" using assms(6) by (simp add: host_view_def)
  let ?rooms = "update_rows (\<lambda>s. ro_id s = ro_id r) f rooms"
  let ?g = "\<lambda>n. n\<lparr>wm_role := (if wm_device n = wm_device m then HostRole else MemberRole)\<rparr>"
  let ?members = "update_rows (\<lambda>n. wm_room n = ro_id r) ?g members"
  have views: "(i, user, device, t) \<in> host_view ` set rooms \<and> i \<noteq> ro_id r
      \<or> i = ro_id r \<and> user = wm_user m \<and> device = wm_device m"
    if "(i, user, device, t) \<in> host_view ` set ?rooms" for i user device t
    using updated_view [OF assms(1,3) _ same_id that] assms(6) by auto
  {
    fix i user device t n
    assume v: "(i, user, device, t) \<in> host_view ` set ?rooms" and n: "n \<in> set ?members" "wm_room n = i"
    from n(1) show "wm_role n = HostRole \<longleftrightarrow> wm_device n = device"
      by (rule in_update_rowsE)
        (use views [OF v] n(2) hosts_okD(1) [OF assms(2)] in \<open>auto split: if_splits\<close>)
  next
    fix i user device t
    assume "(i, user, device, t) \<in> host_view ` set ?rooms"
    from views [OF this]
    show "\<exists>n \<in> set ?members. wm_room n = i \<and> wm_device n = device \<and> wm_user n = user \<and> (t \<or> wm_status n = MsJoined)"
    proof
      assume v: "(i, user, device, t) \<in> host_view ` set rooms \<and> i \<noteq> ro_id r"
      with hosts_okD(2) [OF assms(2)] obtain n where n: "n \<in> set members" "wm_room n = i" "wm_device n = device"
        "wm_user n = user" "t \<or> wm_status n = MsJoined" by blast
      with v have "n \<in> set ?members" by (auto simp: in_update_rows)
      with n show ?thesis by blast
    next
      assume v: "i = ro_id r \<and> user = wm_user m \<and> device = wm_device m"
      have "?g m \<in> set ?members" using assms(4,5) by (auto simp: in_update_rows joined_def)
      with v assms(5) show ?thesis by (intro bexI [of _ "?g m"]) (auto simp: joined_def)
    qed
  next
    fix n
    assume "n \<in> set ?members"
    then show "wm_room n \<in> fst ` host_view ` set ?rooms"
      unfolding updated_ids [where f = f, OF assms(1,3) view_fst(1) same_id]
      by (rule in_update_rowsE) (use hosts_okD(3) [OF assms(2)] in_ids [OF assms(3) view_fst(1)] in auto)
  }
qed

subsection \<open>Writes to invitations and guests\<close>

lemma guests_okI:
  assumes "distinct (map gs_id guests)" and "distinct (map gs_secret guests)"
    and "\<And>s. s \<in> set guests \<Longrightarrow> guest_session_checks s \<and> session_of invitations s"
    and "\<And>i. i \<in> set invitations \<Longrightarrow> int (count_rows (\<lambda>s. gs_invitation s = gi_id i) guests) \<le> gi_consumed i"
  shows "guests_ok invitations guests"
  using assms by (simp add: guests_ok_def)

lemma count_rows_map: "count_rows P (map g rows) = count_rows (\<lambda>r. P (g r)) rows"
  by (induction rows) auto

text \<open>Sessions are rewritten with their keys kept, invitations with their identifiers.\<close>

lemma guests_ok_map:
  assumes "guests_ok invitations guests"
    and "\<And>s. s \<in> set guests \<Longrightarrow> gs_id (g s) = gs_id s \<and> gs_secret (g s) = gs_secret s
      \<and> gs_invitation (g s) = gs_invitation s \<and> guest_session_checks (g s) \<and> session_of invitations' (g s)"
    and "\<And>i'. i' \<in> set invitations' \<Longrightarrow> \<exists>i \<in> set invitations. gi_id i = gi_id i' \<and> gi_consumed i \<le> gi_consumed i'"
  shows "guests_ok invitations' (map g guests)"
proof (rule guests_okI)
  have "map gs_id (map g guests) = map gs_id guests" "map gs_secret (map g guests) = map gs_secret guests"
    using assms(2) by simp_all
  with assms(1) show "distinct (map gs_id (map g guests))" "distinct (map gs_secret (map g guests))"
    unfolding guests_ok_def by metis+
  show "guest_session_checks s \<and> session_of invitations' s" if "s \<in> set (map g guests)" for s
    using that assms(2) by auto
  show "int (count_rows (\<lambda>s. gs_invitation s = gi_id i') (map g guests)) \<le> gi_consumed i'"
    if "i' \<in> set invitations'" for i'
  proof -
    from assms(3) [OF that] obtain i where i: "i \<in> set invitations" "gi_id i = gi_id i'" "gi_consumed i \<le> gi_consumed i'"
      by blast
    have "count_rows (\<lambda>s. gs_invitation s = gi_id i') (map g guests) = count_rows (\<lambda>s. gs_invitation s = gi_id i) guests"
      unfolding count_rows_map using assms(2) i(2) by (intro count_rows_cong) auto
    with assms(1) i show ?thesis by (fastforce simp: guests_ok_def)
  qed
qed

lemma guests_ok_update:
  assumes "guests_ok invitations guests"
    and "\<And>s. s \<in> set guests \<Longrightarrow> P s \<Longrightarrow> gs_id (f s) = gs_id s \<and> gs_secret (f s) = gs_secret s
      \<and> gs_invitation (f s) = gs_invitation s \<and> guest_session_checks (f s) \<and> session_of invitations (f s)"
  shows "guests_ok invitations (update_rows P f guests)"
  unfolding update_rows_def
  by (rule guests_ok_map [OF assms(1)]) (use assms in \<open>auto simp: guests_ok_def\<close>)

text \<open>
  What the trigger on invitations does to the sessions: the active ones of a retired invitation are
  retired, the others stay as they are.
\<close>

definition retires ::
  "guest_invitation list \<Rightarrow> (guest_invitation \<Rightarrow> guest_invitation) \<Rightarrow> instant \<Rightarrow> guest_session \<Rightarrow> guest_session \<Rightarrow> bool" where
  "retires rows f clk s s' \<longleftrightarrow>
     (if gs_state s = GsActive \<and> gs_invitation s \<in> gi_id ` set rows
      then \<exists>i \<in> set rows. gi_id i = gs_invitation s \<and> s' = retired_guest (f i) clk s
      else s' = s)"

lemma retire_each_retires:
  assumes "\<And>i. i \<in> set rows \<Longrightarrow> gi_id (f i) = gi_id i \<and> gi_state (f i) \<noteq> gi_state i
      \<and> gi_state (f i) \<in> {GiRevoked, GiExpired, GiRoomClosed}"
  shows "\<exists>g. retire_each clk f rows guests = map g guests \<and> (\<forall>s. retires rows f clk s (g s))"
  using assms
proof (induction rows arbitrary: guests)
  case Nil
  show ?case by (rule exI [of _ id]) (simp add: retires_def)
next
  case (Cons i rows)
  let ?h = "\<lambda>s. if gs_invitation s = gi_id i \<and> gs_state s = GsActive then retired_guest (f i) clk s else s"
  have head: "gi_id (f i) = gi_id i" "gi_state (f i) \<noteq> gi_state i" "gi_state (f i) \<in> {GiRevoked, GiExpired, GiRoomClosed}"
    using Cons.prems by auto
  from Cons.prems Cons.IH obtain g where
    g: "retire_each clk f rows (map ?h guests) = map g (map ?h guests)" "\<forall>s. retires rows f clk s (g s)"
    by (metis (no_types, lifting) list.set_intros(2))
  have "retire_each clk f (i # rows) guests = map (g \<circ> ?h) guests"
    using head g(1) by (simp add: retire_sessions_def update_rows_def)
  moreover have "retires (i # rows) f clk s ((g \<circ> ?h) s)" for s
  proof (cases "gs_invitation s = gi_id i \<and> gs_state s = GsActive")
    case True
    have "gs_state (retired_guest (f i) clk s) \<noteq> GsActive"
      using head(3) by (auto simp: retired_guest_def retired_guest_state_def)
    with g(2) have "g (retired_guest (f i) clk s) = retired_guest (f i) clk s" by (simp add: retires_def)
    with True show ?thesis by (auto simp: retires_def)
  next
    case False
    with g(2) [rule_format, of s] show ?thesis by (auto simp: retires_def split: if_splits)
  qed
  ultimately show ?case by blast
qed

lemma retire_each_idle:
  assumes "\<And>i. i \<in> set rows \<Longrightarrow> gi_state (f i) \<notin> {GiRevoked, GiExpired, GiRoomClosed}"
  shows "retire_each clk f rows guests = guests"
  using assms by (induction rows) (auto simp: retire_sessions_def)

text \<open>
  The contract of the writes that end an invitation: they keep what identifies it and what was granted,
  and set a final state with its time.
\<close>

locale retirement =
  fixes f :: "guest_invitation \<Rightarrow> guest_invitation"
  assumes keeps: "gi_id (f i) = gi_id i \<and> gi_room (f i) = gi_room i \<and> gi_epoch (f i) = gi_epoch i
      \<and> gi_secret (f i) = gi_secret i \<and> gi_actions (f i) = gi_actions i \<and> gi_max_uses (f i) = gi_max_uses i
      \<and> gi_consumed (f i) = gi_consumed i \<and> gi_expires_at (f i) = gi_expires_at i
      \<and> gi_created_at (f i) = gi_created_at i"
    and final: "gi_state (f i) \<in> {GiRevoked, GiExpired, GiRoomClosed}" and timed: "gi_terminal_at (f i) \<noteq> None"
begin

lemma checks: "guest_invitation_checks i \<Longrightarrow> guest_invitation_checks (f i)"
  using keeps [of i] final [of i] timed [of i] by (auto simp: guest_invitation_checks_def)

lemma dead: "\<not> live_invitation (f i)"
  using final [of i] by (auto simp: live_invitation_def)

lemma invitations_ok_retire:
  assumes "invitations_ok views invitations" and "fst ` views' = fst ` views"
    and "\<And>i. (i, True) \<in> views' \<Longrightarrow>
      (i, True) \<in> views \<or> (\<forall>v \<in> set invitations. gi_room v = i \<longrightarrow> live_invitation v \<longrightarrow> P v)"
  shows "invitations_ok views' (update_rows P f invitations)"
proof -
  have "map gi_id (update_rows P f invitations) = map gi_id invitations"
    "map gi_secret (update_rows P f invitations) = map gi_secret invitations"
    by (rule map_update_rows_same; use keeps in simp)+
  moreover have "guest_invitation_checks j \<and> gi_room j \<in> fst ` views' \<and> (live_invitation j \<longrightarrow> (gi_room j, True) \<notin> views')
      \<and> (gi_state j = GiPending \<longrightarrow> gi_consumed j < gi_max_uses j)"
    if "j \<in> set (update_rows P f invitations)" for j
    using that
  proof (cases rule: in_update_rowsE)
    case (1 i)
    then show ?thesis
      using assms(1) keeps [of i] checks [of i] dead [of i] unfolding assms(2)
      by (auto simp: invitations_ok_def live_invitation_def)
  next
    case (2 i)
    then show ?thesis
      using assms(1) assms(3) [of "gi_room i"] unfolding assms(2) by (auto simp: invitations_ok_def)
  qed
  ultimately show ?thesis using assms(1) by (simp add: invitations_ok_def)
qed

lemma session_of_retire:
  assumes "session_of invitations s" and "gs_state s = GsActive \<Longrightarrow> gs_invitation s \<notin> gi_id ` set (filter P invitations)"
  shows "session_of (update_rows P f invitations) s"
proof -
  from assms(1) obtain i where i: "i \<in> set invitations" "gi_id i = gs_invitation s" "gi_room i = gs_room s"
    "gi_epoch i = gs_epoch s" "gs_expires_at s \<le> gi_expires_at i" "gs_state s = GsActive \<longrightarrow> live_invitation i"
    by (auto simp: session_of_def)
  have free: "\<not> P i" if "gs_state s = GsActive" using assms(2) [OF that] i(1,2) by force
  let ?i = "if P i then f i else i"
  have "?i \<in> set (update_rows P f invitations)" using i(1) by (auto simp: in_update_rows)
  moreover have "gi_id ?i = gs_invitation s \<and> gi_room ?i = gs_room s \<and> gi_epoch ?i = gs_epoch s
      \<and> gs_expires_at s \<le> gi_expires_at ?i \<and> (gs_state s = GsActive \<longrightarrow> live_invitation ?i)"
    using i keeps [of i] free by auto
  ultimately show ?thesis unfolding session_of_def by blast
qed

lemma guests_ok_retire:
  assumes "guests_ok invitations guests" and "\<And>i. i \<in> set invitations \<Longrightarrow> P i \<Longrightarrow> live_invitation i"
  shows "guests_ok (update_rows P f invitations) (retire_each clk f (filter P invitations) guests)"
proof -
  have "gi_id (f i) = gi_id i \<and> gi_state (f i) \<noteq> gi_state i \<and> gi_state (f i) \<in> {GiRevoked, GiExpired, GiRoomClosed}"
    if "i \<in> set (filter P invitations)" for i
    using that assms(2) [of i] keeps [of i] final [of i] by (auto simp: live_invitation_def)
  from retire_each_retires [OF this] obtain g where
    g: "retire_each clk f (filter P invitations) guests = map g guests"
      "\<And>s. retires (filter P invitations) f clk s (g s)" by blast
  have "gs_id (g s) = gs_id s \<and> gs_secret (g s) = gs_secret s \<and> gs_invitation (g s) = gs_invitation s
      \<and> guest_session_checks (g s) \<and> session_of (update_rows P f invitations) (g s)" if "s \<in> set guests" for s
  proof -
    from assms(1) that have s: "guest_session_checks s" "session_of invitations s" by (auto simp: guests_ok_def)
    show ?thesis
    proof (cases "gs_state s = GsActive \<and> gs_invitation s \<in> gi_id ` set (filter P invitations)")
      case True
      with g(2) [of s] obtain i where r: "g s = retired_guest (f i) clk s" by (auto simp: retires_def)
      have active: "gs_state (g s) \<noteq> GsActive"
        using final [of i] by (auto simp: r retired_guest_def retired_guest_state_def)
      then have "guest_session_checks (g s)"
        using s(1) by (simp add: guest_session_checks_def r retired_guest_def split: option.splits)
      moreover have "session_of invitations (g s)"
        using s(2) active by (auto simp: session_of_def r retired_guest_def)
      moreover from this have "session_of (update_rows P f invitations) (g s)"
        using active by (intro session_of_retire) simp_all
      moreover have "gs_id (g s) = gs_id s" "gs_secret (g s) = gs_secret s" "gs_invitation (g s) = gs_invitation s"
        by (simp_all add: r retired_guest_def)
      ultimately show ?thesis by blast
    next
      case False
      with g(2) [of s] s session_of_retire show ?thesis by (auto simp: retires_def)
    qed
  qed
  moreover have "\<exists>i \<in> set invitations. gi_id i = gi_id i' \<and> gi_consumed i \<le> gi_consumed i'"
    if "i' \<in> set (update_rows P f invitations)" for i'
    using that by (rule in_update_rowsE) (use keeps in force)+
  ultimately show ?thesis unfolding g(1) by (intro guests_ok_map [OF assms(1)])
qed

end

interpretation room_closes: retirement "room_retired r clk" for r clk
  by unfold_locales (simp_all add: room_retired_def)

interpretation host_leaves: retirement "host_retired reason clk" for reason clk
  by unfold_locales (simp_all add: host_retired_def)

interpretation host_revokes: retirement "revoked_invitation now" for now
  by unfold_locales (simp_all add: revoked_invitation_def)

interpretation time_passes: retirement "expired_invitation now" for now
  by unfold_locales (simp_all add: expired_invitation_def)

end
