(* ===== verification/Wave_Preservation.thy ===== *)
theory Wave_Preservation
  imports Wave_Invariants
begin

text \<open>
  Every operation of the room service keeps the invariant. Each is a composition of a few kinds of
  write: the members of a room, its log with a sequence number, its state with the triggers, its host.
\<close>

lemma bind_pair_Inr: "bind_result m (\<lambda>(x, y). k x y) = Inr z \<longleftrightarrow> (\<exists>x y. m = Inr (x, y) \<and> k x y = Inr z)"
  by (cases m) auto

subsection \<open>Frames\<close>

lemma inv_members:
  "wave_inv db \<Longrightarrow> members_ok ms \<Longrightarrow> hosts_ok (host_view ` set (wv_rooms db)) ms \<Longrightarrow> wave_inv (db\<lparr>wv_members := ms\<rparr>)"
  by (simp add: wave_inv_def)

lemma inv_invited [simp]: "wave_inv (db\<lparr>wv_invited := is\<rparr>) = wave_inv db"
  by (simp add: wave_inv_def)

lemma inv_reports:
  "wave_inv db \<Longrightarrow> reports_ok ps ts \<Longrightarrow> wave_inv (db\<lparr>wv_preflights := ps, wv_timings := ts\<rparr>)"
  by (simp add: wave_inv_def)

lemma find_eq_id: "rooms_ok rooms \<Longrightarrow> r \<in> set rooms \<Longrightarrow> s \<in> set rooms \<Longrightarrow> ro_id s = ro_id r \<Longrightarrow> s = r"
  by (rule room_unique)

text \<open>A projection of the rooms that the rewritten room keeps.\<close>

lemma view_kept:
  assumes "rooms_ok rooms" and "r \<in> set rooms" and "view (f r) = view r"
  shows "view ` set (update_rows (\<lambda>s. ro_id s = ro_id r) f rooms) = view ` set rooms"
  by (rule image_update_rows_same) (use room_unique [OF assms(1) _ assms(2)] assms(3) in metis)

lemma rooms_ok_rewrite:
  assumes "rooms_ok rooms" and "r \<in> set rooms" and "ro_id (f r) = ro_id r"
    and "ro_code_sha256 (f r) = ro_code_sha256 r" and "room_row_checks (f r)"
    and "ro_closed_at (f r) \<noteq> None \<longleftrightarrow> terminal_room (f r)"
  shows "rooms_ok (update_rows (\<lambda>s. ro_id s = ro_id r) f rooms)"
  by (rule rooms_ok_update [OF assms(1)]) (use room_unique [OF assms(1) _ assms(2)] assms(3-6) in metis)

subsection \<open>Presence\<close>

definition touch_members :: "uuid \<Rightarrow> uuid \<Rightarrow> instant \<Rightarrow> member_row list \<Rightarrow> member_row list" where
  "touch_members room device now members =
     update_rows (\<lambda>m. wm_room m = room \<and> wm_device m = device) (\<lambda>m. m\<lparr>wm_present_at := Some now\<rparr>) members"

lemma require_membership_Inr:
  "require_membership room p now db = Inr db' \<longleftrightarrow>
     (\<exists>m \<in> set (wv_members db). joined room m \<and> wm_user m = pr_user p \<and> wm_device m = pr_device p)
     \<and> (\<forall>m \<in> set (wv_members db). wm_room m = room \<and> wm_device m = pr_device p \<longrightarrow>
          member_row_checks (m\<lparr>wm_present_at := Some now\<rparr>))
     \<and> db' = db\<lparr>wv_members := touch_members room (pr_device p) now (wv_members db)\<rparr>"
  by (auto simp: require_membership_def bind_result_eq_Inr checked_update_Inr list_ex_iff touch_members_def)

lemma present_hosts:
  assumes "hosts_ok views members"
  shows "hosts_ok views (touch_members room device now members)"
  unfolding touch_members_def by (rule hosts_ok_update [OF assms]) auto

lemma require_membership_inv:
  assumes "require_membership room p now db = Inr db'" and "wave_inv db"
  shows "wave_inv db'"
proof -
  from assms(1) have eq: "db' = db\<lparr>wv_members := touch_members room (pr_device p) now (wv_members db)\<rparr>"
    and checks: "\<forall>m \<in> set (wv_members db). wm_room m = room \<and> wm_device m = pr_device p \<longrightarrow>
          member_row_checks (m\<lparr>wm_present_at := Some now\<rparr>)"
    by (simp_all add: require_membership_Inr)
  have "members_ok (touch_members room (pr_device p) now (wv_members db))"
    unfolding touch_members_def
    by (rule members_ok_update [OF wave_invD(2) [OF assms(2)]]) (use checks in \<open>simp add: member_key_def\<close>)
  then show ?thesis unfolding eq
    by (intro inv_members assms(2) present_hosts wave_invD)
qed

lemma room_snapshot_Inr:
  assumes "room_snapshot room p now db = Inr (value, db')"
  obtains row where "require_membership room p now db = Inr db'" and "row \<in> set (wv_rooms db)"
    and "ro_id row = room" and "now < ro_expires_at row" and "\<not> terminal_room row"
    and "wr_host value = ro_host_user row" and "wr_version value = ro_version row"
    and "wr_sequence value = ro_sequence row" and "wr_host_lost_at value = ro_host_lost_at row"
    and "wr_state value = ro_state row" and "wr_queue value = room_queue room db'"
    and "wr_members value = room_users room db'" and "wr_command value = read_playback_command room db'"
    and "wr_closed_at value = ro_closed_at row" and "wr_expires_at value = ro_expires_at row"
    and "wr_id value = room" and "wr_created_at value = ro_created_at row" and "wr_epoch value = ro_epoch row"
    and "wr_playback value = ro_playback row"
proof -
  from assms obtain row where row: "find (\<lambda>r. ro_id r = room \<and> now < ro_expires_at r \<and> ro_state r \<notin> {CLOSED, EXPIRED})
      (wv_rooms db) = Some row"
    and rest: "(case find (\<lambda>r. ro_id r = room \<and> now < ro_expires_at r \<and> ro_state r \<notin> {CLOSED, EXPIRED}) (wv_rooms db) of
      None \<Rightarrow> Inl NoResultFound | Some row \<Rightarrow> bind_result (require_membership room p now db) (\<lambda>db1. Inr db1)) = Inr db'"
    by (auto simp: room_snapshot_def bind_result_eq_Inr split: option.splits)
  from find_eq_Some_unique [OF row] row rest assms that show ?thesis
    by (auto simp: room_snapshot_def bind_result_eq_Inr terminal_room_def split: option.splits)
qed

lemma room_snapshot_inv: "room_snapshot room p now db = Inr (value, db') \<Longrightarrow> wave_inv db \<Longrightarrow> wave_inv db'"
  by (erule room_snapshot_Inr) (rule require_membership_inv)

lemma membership_frame:
  assumes "require_membership room p now db = Inr db'"
  shows "wv_rooms db' = wv_rooms db" "wv_commands db' = wv_commands db" "wv_queue db' = wv_queue db"
    "wv_invitations db' = wv_invitations db" "wv_guests db' = wv_guests db" "wv_devices db' = wv_devices db"
    "wv_invited db' = wv_invited db" "wv_preflights db' = wv_preflights db" "wv_timings db' = wv_timings db"
    "wv_guest_preflights db' = wv_guest_preflights db" "wv_guest_timings db' = wv_guest_timings db"
    "wv_accounts db' = wv_accounts db" "wv_recordings db' = wv_recordings db"
  using assms by (simp_all add: require_membership_Inr)

lemma require_room_host_Inr:
  assumes "require_room_host room p now db = Inr (value, db')" and "wave_inv db"
  obtains row where "room_snapshot room p now db = Inr (value, db')" and "row \<in> set (wv_rooms db)"
    and "ro_id row = room" and "ro_state row = OPEN" and "ro_host_user row = pr_user p"
    and "ro_host_device row = pr_device p" and "ro_host_lost_at row = None" and "now < ro_expires_at row"
    and "wr_version value = ro_version row" and "wr_sequence value = ro_sequence row"
    and "wr_queue value = room_queue room db'" and "wr_command value = read_playback_command room db'"
proof -
  from assms(1) obtain row' where snap: "room_snapshot room p now db = Inr (value, db')"
    and row': "the_room room db' = Inr row'" "wr_host value = pr_user p" "ro_host_device row' = pr_device p"
      "wr_host_lost_at value = None" "wr_state value = OPEN"
    by (auto simp: require_room_host_def bind_result_eq_Inr split: if_splits)
  from snap obtain row where r: "require_membership room p now db = Inr db'" "row \<in> set (wv_rooms db)" "ro_id row = room"
    "now < ro_expires_at row" "wr_host value = ro_host_user row" "wr_version value = ro_version row"
    "wr_sequence value = ro_sequence row" "wr_host_lost_at value = ro_host_lost_at row"
    "wr_state value = ro_state row" "wr_queue value = room_queue room db'"
    "wr_command value = read_playback_command room db'"
    by (rule room_snapshot_Inr)
  from row'(1) have "find_room room db' = Some row'" by (simp add: the_room_def split: option.splits)
  from find_room_Some [OF this] have "row' \<in> set (wv_rooms db)" "ro_id row' = room"
    using membership_frame(1) [OF r(1)] by simp_all
  then have "row' = row" using room_unique [OF wave_invD(1) [OF assms(2)]] r(2,3) by blast
  with row' r snap that show ?thesis by auto
qed

subsection \<open>Commands\<close>

lemma insert_command_Inr:
  "insert_command c db = Inr db' \<longleftrightarrow>
     db' = db\<lparr>wv_commands := wv_commands db @ [c]\<rparr> \<and> command_row_checks c
     \<and> \<not> list_ex (\<lambda>d. wc_room d = wc_room c \<and> wc_sequence d = wc_sequence c) (wv_commands db)
     \<and> \<not> list_ex (\<lambda>d. wc_room d = wc_room c \<and> wc_key d = wc_key c) (wv_commands db)
     \<and> known_actor (wc_user c) (wc_device c) db"
  by (auto simp: insert_command_def)

text \<open>
  The room takes the next sequence number and the log the command with it; a queued entry comes with
  the next version.
\<close>

lemma command_write_inv:
  assumes "wave_inv db" and "r \<in> set (wv_rooms db)"
    and "wc_room c = ro_id r" and "wc_sequence c = ro_sequence r + 1" and "command_row_checks c"
    and "\<not> list_ex (\<lambda>d. wc_room d = wc_room c \<and> wc_key d = wc_key c) (wv_commands db)"
    and "ro_code_sha256 (f r) = ro_code_sha256 r" and "host_view (f r) = host_view r"
    and "ro_sequence (f r) = ro_sequence r + 1" and "room_row_checks (f r)" and "ro_closed_at (f r) = ro_closed_at r"
    and "qs = [] \<and> ro_version (f r) = ro_version r
      \<or> (\<exists>q. qs = [q] \<and> wq_room q = ro_id r \<and> wq_position q = ro_version r - 1 \<and> queue_row_checks q
           \<and> wq_removed_at q = None \<and> \<not> list_ex (\<lambda>p. wq_id p = wq_id q) (wv_queue db)
           \<and> ro_version (f r) = ro_version r + 1)"
  shows "wave_inv (db\<lparr>wv_rooms := update_rows (\<lambda>s. ro_id s = ro_id r) f (wv_rooms db),
    wv_commands := wv_commands db @ [c], wv_queue := wv_queue db @ qs\<rparr>)"
proof -
  note inv = wave_invD [OF assms(1)]
  from assms(8) have same: "ro_id (f r) = ro_id r" "terminal_room (f r) = terminal_room r"
    by (auto simp: host_view_def)
  have closed: "ro_closed_at (f r) \<noteq> None \<longleftrightarrow> terminal_room (f r)"
    using inv(1) assms(2,11) same(2) by (auto simp: rooms_ok_def)
  have queue: "queue_ok (version_view ` set (update_rows (\<lambda>s. ro_id s = ro_id r) f (wv_rooms db))) (wv_queue db @ qs)"
    using assms(12)
  proof
    assume "qs = [] \<and> ro_version (f r) = ro_version r"
    then show ?thesis
      using view_kept [OF inv(1) assms(2), of version_view f] inv(5) same by (simp add: version_view_def)
  next
    assume "\<exists>q. qs = [q] \<and> wq_room q = ro_id r \<and> wq_position q = ro_version r - 1 \<and> queue_row_checks q
           \<and> wq_removed_at q = None \<and> \<not> list_ex (\<lambda>p. wq_id p = wq_id q) (wv_queue db)
           \<and> ro_version (f r) = ro_version r + 1"
    then show ?thesis using queue_ok_append [where f = f, OF inv(1,5) assms(2) _ _ _ _ _ same(1)] by auto
  qed
  have views: "host_view ` set (update_rows (\<lambda>s. ro_id s = ro_id r) f (wv_rooms db)) = host_view ` set (wv_rooms db)"
    "state_view ` set (update_rows (\<lambda>s. ro_id s = ro_id r) f (wv_rooms db)) = state_view ` set (wv_rooms db)"
    by (rule view_kept [OF inv(1) assms(2)]; use assms(8) same in \<open>simp add: state_view_def\<close>)+
  show ?thesis
    using inv queue views rooms_ok_rewrite [where f = f, OF inv(1) assms(2) same(1) assms(7,10) closed]
      log_ok_append [where f = f, OF inv(1,4) assms(2-6) same(1) assms(9)]
    by (intro wave_invI) simp_all
qed

lemma append_lifecycle_Inr:
  assumes "append_lifecycle sha256 room user device kind doc now db = Inr db'"
  obtains row where "find_room room db = Some row"
    and "insert_command (lifecycle_command sha256 row user device kind doc now) db =
      Inr (db\<lparr>wv_commands := wv_commands db @ [lifecycle_command sha256 row user device kind doc now]\<rparr>)"
    and "db' = db\<lparr>wv_rooms := update_rows (\<lambda>s. ro_id s = room) (\<lambda>r. r\<lparr>ro_sequence := ro_sequence row + 1\<rparr>) (wv_rooms db),
      wv_commands := wv_commands db @ [lifecycle_command sha256 row user device kind doc now]\<rparr>"
  using assms
  by (auto simp: append_lifecycle_def the_room_def bind_result_eq_Inr insert_command_Inr update_room_def
      split: option.splits)

lemma append_lifecycle_inv:
  assumes "append_lifecycle sha256 room user device kind doc now db = Inr db'" and "wave_inv db"
  shows "wave_inv db'"
proof -
  from assms(1) obtain row where row: "find_room room db = Some row"
    and ins: "insert_command (lifecycle_command sha256 row user device kind doc now) db =
      Inr (db\<lparr>wv_commands := wv_commands db @ [lifecycle_command sha256 row user device kind doc now]\<rparr>)"
    and eq: "db' = db\<lparr>wv_rooms := update_rows (\<lambda>s. ro_id s = room) (\<lambda>r. r\<lparr>ro_sequence := ro_sequence row + 1\<rparr>) (wv_rooms db),
      wv_commands := wv_commands db @ [lifecycle_command sha256 row user device kind doc now]\<rparr>"
    by (rule append_lifecycle_Inr)
  note r = find_room_Some [OF row]
  have checks: "room_row_checks row" using wave_invD(1) [OF assms(2)] r(1) by (simp add: rooms_ok_def)
  have "wave_inv (db\<lparr>wv_rooms := update_rows (\<lambda>s. ro_id s = ro_id row) (\<lambda>r. r\<lparr>ro_sequence := ro_sequence row + 1\<rparr>)
      (wv_rooms db), wv_commands := wv_commands db @ [lifecycle_command sha256 row user device kind doc now],
      wv_queue := wv_queue db @ []\<rparr>)"
    by (rule command_write_inv [OF assms(2) r(1)])
      (use ins checks in \<open>auto simp: insert_command_Inr lifecycle_command_def Let_def host_view_def
         terminal_room_def room_row_checks_def\<close>)
  then show ?thesis unfolding eq r(2) by simp
qed

subsection \<open>The state of a room\<close>

lemma update_room_simps [simp]:
  "wv_rooms (update_room i f db) = update_rows (\<lambda>s. ro_id s = i) f (wv_rooms db)"
  "wv_members (update_room i f db) = wv_members db" "wv_commands (update_room i f db) = wv_commands db"
  "wv_queue (update_room i f db) = wv_queue db" "wv_invitations (update_room i f db) = wv_invitations db"
  "wv_guests (update_room i f db) = wv_guests db" "wv_receipts (update_room i f db) = wv_receipts db"
  by (simp_all add: update_room_def)

lemma find_updated_room:
  assumes "rooms_ok (wv_rooms db)" and "r \<in> set (wv_rooms db)" and "ro_id (f r) = ro_id r"
  shows "find_room (ro_id r) (update_room (ro_id r) f db) = Some (f r)"
proof -
  have "map ro_id (update_rows (\<lambda>s. ro_id s = ro_id r) f (wv_rooms db)) = map ro_id (wv_rooms db)"
    by (rule map_update_rows_same) (use room_unique [OF assms(1) _ assms(2)] assms(3) in metis)
  moreover have "f r \<in> set (update_rows (\<lambda>s. ro_id s = ro_id r) f (wv_rooms db))"
    using assms(2) by (force simp: in_update_rows)
  ultimately show ?thesis
    unfolding find_room_def update_room_simps
    by (intro find_keyI) (use assms(1,3) in \<open>auto simp: rooms_ok_def\<close>)
qed

lemma update_invitations_simps [simp]:
  "wv_rooms (update_invitations clk P g db) = wv_rooms db"
  "wv_members (update_invitations clk P g db) = wv_members db"
  "wv_commands (update_invitations clk P g db) = wv_commands db"
  "wv_queue (update_invitations clk P g db) = wv_queue db"
  "wv_receipts (update_invitations clk P g db) = wv_receipts db"
  "wv_preflights (update_invitations clk P g db) = wv_preflights db"
  "wv_timings (update_invitations clk P g db) = wv_timings db"
  "wv_guest_preflights (update_invitations clk P g db) = wv_guest_preflights db"
  "wv_guest_timings (update_invitations clk P g db) = wv_guest_timings db"
  "wv_rates (update_invitations clk P g db) = wv_rates db"
  "wv_invitations (update_invitations clk P g db) = update_rows P g (wv_invitations db)"
  "wv_guests (update_invitations clk P g db) = retire_each clk g (filter P (wv_invitations db)) (wv_guests db)"
  by (simp_all add: update_invitations_def)

lemma retire_sessions_ids: "gs_id ` set (retire_sessions clk i j guests) = gs_id ` set guests"
  unfolding retire_sessions_def by (simp add: image_update_rows_same retired_guest_def)

lemma retire_each_ids: "gs_id ` set (retire_each clk g rows guests) = gs_id ` set guests"
  by (induction rows arbitrary: guests) (simp_all add: retire_sessions_ids)

lemma retire_ids:
  assumes "\<And>i. gi_id (g i) = gi_id i"
  shows "gi_id ` set (update_rows P g invitations) = gi_id ` set invitations"
  by (rule image_update_rows_same) (rule assms)

text \<open>
  A living room is rewritten with its identity, its numbers and its code kept; it may become terminal,
  and the trigger then ends its invitations. The members that go with it are given.
\<close>

lemma state_write_inv:
  assumes "wave_inv db" and "r \<in> set (wv_rooms db)"
    and "ro_code_sha256 (f r) = ro_code_sha256 r" and "sequence_view (f r) = sequence_view r"
    and "version_view (f r) = version_view r" and "room_row_checks (f r)"
    and "ro_closed_at (f r) \<noteq> None \<longleftrightarrow> terminal_room (f r)" and "terminal_room r \<Longrightarrow> terminal_room (f r)"
    and "members_ok ms" and "hosts_ok (host_view ` set (update_rows (\<lambda>s. ro_id s = ro_id r) f (wv_rooms db))) ms"
  shows "wave_inv ((update_room_state clk (ro_id r) f db)\<lparr>wv_members := ms\<rparr>)"
proof -
  note inv = wave_invD [OF assms(1)]
  let ?rooms = "update_rows (\<lambda>s. ro_id s = ro_id r) f (wv_rooms db)"
  let ?P = "\<lambda>i. gi_room i = ro_id r \<and> live_invitation i"
  let ?g = "room_retired (f r) clk"
  have same: "ro_id (f r) = ro_id r" using assms(4) by (simp add: sequence_view_def)
  have rooms: "rooms_ok ?rooms" by (rule rooms_ok_rewrite [where f = f, OF inv(1) assms(2) same assms(3,6,7)])
  have views: "sequence_view ` set ?rooms = sequence_view ` set (wv_rooms db)"
    "version_view ` set ?rooms = version_view ` set (wv_rooms db)"
    by (rule view_kept [where f = f, OF inv(1) assms(2)]; use assms(4,5) in simp)+
  have ids: "fst ` state_view ` set ?rooms = fst ` state_view ` set (wv_rooms db)"
    by (rule updated_ids [where f = f, OF inv(1) assms(2) view_fst(4) same])
  have ended: "(i, True) \<in> state_view ` set (wv_rooms db)
      \<or> (\<forall>v \<in> set (wv_invitations db). gi_room v = i \<longrightarrow> live_invitation v \<longrightarrow> ?P v) \<and> terminal_room (f r)"
    if "(i, True) \<in> state_view ` set ?rooms" for i
    using updated_view [where f = f, OF inv(1) assms(2) view_fst(4) same that] same by (auto simp: state_view_def)
  show ?thesis
  proof (cases "terminal_room (f r) \<or> ro_expires_at (f r) \<le> clk")
    case True
    have live: "invitations_ok (state_view ` set ?rooms) (update_rows ?P ?g (wv_invitations db))"
      by (rule room_closes.invitations_ok_retire [OF inv(6) ids]) (use ended in blast)
    have guests: "guests_ok (update_rows ?P ?g (wv_invitations db))
        (retire_each clk ?g (filter ?P (wv_invitations db)) (wv_guests db))"
      by (rule room_closes.guests_ok_retire [OF inv(7)]) blast
    have "update_room_state clk (ro_id r) f db = update_invitations clk ?P ?g (update_room (ro_id r) f db)"
      using True by (simp add: update_room_state_def find_updated_room [where f = f, OF inv(1) assms(2) same]
          Let_def retire_room_def terminal_room_def same)
    with inv rooms views live guests assms(9,10) show ?thesis
      by (intro wave_invI)
        (simp_all add: update_room_def update_invitations_def retire_each_ids retire_ids room_closes.keeps)
  next
    case False
    then have "update_room_state clk (ro_id r) f db = update_room (ro_id r) f db"
      by (simp add: update_room_state_def find_updated_room [where f = f, OF inv(1) assms(2) same]
          Let_def retire_room_def terminal_room_def)
    moreover have "state_view ` set ?rooms = state_view ` set (wv_rooms db)"
      by (rule view_kept [where f = f, OF inv(1) assms(2)]) (use same False assms(8) in \<open>auto simp: state_view_def\<close>)
    ultimately show ?thesis
      using inv rooms views assms(9,10) by (intro wave_invI) (simp_all add: update_room_def)
  qed
qed

text \<open>With the host and the members as they were.\<close>

lemma close_hosts:
  assumes "hosts_ok (host_view ` set rooms) ms" and "rooms_ok rooms" and "r \<in> set rooms"
    and "ro_id (f r) = ro_id r" "ro_host_user (f r) = ro_host_user r" "ro_host_device (f r) = ro_host_device r"
    and "terminal_room r \<Longrightarrow> terminal_room (f r)"
    and "\<And>m. m \<in> set ms \<Longrightarrow> P m \<Longrightarrow> wm_room (g m) = wm_room m \<and> wm_device (g m) = wm_device m
      \<and> wm_user (g m) = wm_user m \<and> wm_role (g m) = wm_role m"
    and "\<And>i user device m. (i, user, device, False) \<in> host_view ` set (update_rows (\<lambda>s. ro_id s = ro_id r) f rooms) \<Longrightarrow>
      m \<in> set ms \<Longrightarrow> P m \<Longrightarrow> wm_room m = i \<Longrightarrow> wm_device m = device \<Longrightarrow> wm_status m = MsJoined \<Longrightarrow>
      wm_status (g m) = MsJoined"
  shows "hosts_ok (host_view ` set (update_rows (\<lambda>s. ro_id s = ro_id r) f rooms)) (update_rows P g ms)"
proof (rule hosts_ok_update [OF assms(1,8)])
  show "fst ` host_view ` set (update_rows (\<lambda>s. ro_id s = ro_id r) f rooms) = fst ` host_view ` set rooms"
    by (rule updated_ids [where f = f, OF assms(2,3) view_fst(1) assms(4)])
  fix i user device terminal
  assume v: "(i, user, device, terminal) \<in> host_view ` set (update_rows (\<lambda>s. ro_id s = ro_id r) f rooms)"
  have "\<exists>t. (i, user, device, t) \<in> host_view ` set rooms \<and> (t \<longrightarrow> terminal)"
    using updated_view [where f = f, OF assms(2,3) view_fst(1) assms(4) v]
  proof
    assume "(i, user, device, terminal) = host_view (f r)"
    then have "(i, user, device, terminal_room r) = host_view r" "terminal_room r \<longrightarrow> terminal"
      using assms(4-7) by (auto simp: host_view_def)
    with assms(3) show ?thesis by (metis image_eqI)
  qed blast
  moreover have "terminal \<or> (\<forall>m \<in> set ms. P m \<longrightarrow> wm_room m = i \<longrightarrow> wm_device m = device \<longrightarrow>
      wm_status m = MsJoined \<longrightarrow> wm_status (g m) = MsJoined)"
    using assms(9) v by (cases terminal) auto
  ultimately show "\<exists>t. (i, user, device, t) \<in> host_view ` set rooms \<and> (t \<longrightarrow> terminal)
      \<and> (terminal \<or> (\<forall>m \<in> set ms. P m \<longrightarrow> wm_room m = i \<longrightarrow> wm_device m = device \<longrightarrow>
           wm_status m = MsJoined \<longrightarrow> wm_status (g m) = MsJoined))" by blast
qed auto

lemma state_change_inv:
  assumes "wave_inv db" and "r \<in> set (wv_rooms db)"
    and "ro_code_sha256 (f r) = ro_code_sha256 r" and "sequence_view (f r) = sequence_view r"
    and "version_view (f r) = version_view r" and "room_row_checks (f r)"
    and "ro_closed_at (f r) \<noteq> None \<longleftrightarrow> terminal_room (f r)" and "terminal_room r \<Longrightarrow> terminal_room (f r)"
    and "ro_host_user (f r) = ro_host_user r" "ro_host_device (f r) = ro_host_device r"
  shows "wave_inv (update_room_state clk (ro_id r) f db)"
proof -
  note inv = wave_invD [OF assms(1)]
  have id: "ro_id (f r) = ro_id r" using assms(4) by (simp add: sequence_view_def)
  have "hosts_ok (host_view ` set (update_rows (\<lambda>s. ro_id s = ro_id r) f (wv_rooms db)))
      (update_rows (\<lambda>_. False) id (wv_members db))"
    by (rule close_hosts [where f = f, OF inv(3,1) assms(2) id assms(9,10,8)]) auto
  then have hosts: "hosts_ok (host_view ` set (update_rows (\<lambda>s. ro_id s = ro_id r) f (wv_rooms db))) (wv_members db)"
    by (simp add: update_rows_id)
  have "(update_room_state clk (ro_id r) f db)\<lparr>wv_members := wv_members db\<rparr> = update_room_state clk (ro_id r) f db"
    by (simp add: update_room_state_def Let_def retire_room_def update_invitations_def update_room_def split: option.splits)
  with state_write_inv [where f = f, OF assms(1-8) inv(2) hosts, of clk] show ?thesis by simp
qed

subsection \<open>Creating and joining\<close>

lemma insert_room_Inr:
  "insert_room r db = Inr db' \<longleftrightarrow>
     db' = db\<lparr>wv_rooms := wv_rooms db @ [r]\<rparr> \<and> room_row_checks r
     \<and> \<not> list_ex (\<lambda>s. ro_id s = ro_id r) (wv_rooms db)
     \<and> \<not> list_ex (\<lambda>s. ro_code_sha256 s = ro_code_sha256 r) (wv_rooms db)
     \<and> known_actor (ro_host_user r) (ro_host_device r) db"
  by (auto simp: insert_room_def)

lemma insert_member_Inr:
  "insert_member m db = Inr db' \<longleftrightarrow>
     db' = db\<lparr>wv_members := wv_members db @ [m]\<rparr> \<and> member_row_checks m
     \<and> \<not> list_ex (\<lambda>n. member_key n = member_key m) (wv_members db)
     \<and> known_actor (wm_user m) (wm_device m) db"
  by (auto simp: insert_member_def)

lemma members_ok_append:
  "members_ok ms \<Longrightarrow> member_row_checks m \<Longrightarrow> \<not> list_ex (\<lambda>n. member_key n = member_key m) ms \<Longrightarrow>
   members_ok (ms @ [m])"
  by (auto simp: members_ok_def list_ex_iff)

lemma create_inv:
  assumes "wave_inv db" and "insert_room r db = Inr db1" and "insert_member m db1 = Inr db2"
    and "ro_sequence r = 0" "ro_version r = 1" "ro_closed_at r = None" "ro_state r = OPEN"
    and "wm_room m = ro_id r" "wm_device m = ro_host_device r" "wm_user m = ro_host_user r"
    and "wm_role m = HostRole" "wm_status m = MsJoined"
  shows "wave_inv db2"
proof -
  note inv = wave_invD [OF assms(1)]
  from assms(2,3) have eq: "db2 = db\<lparr>wv_rooms := wv_rooms db @ [r], wv_members := wv_members db @ [m]\<rparr>"
    and r: "room_row_checks r" "ro_id r \<notin> ro_id ` set (wv_rooms db)" "ro_code_sha256 r \<notin> ro_code_sha256 ` set (wv_rooms db)"
    and m: "member_row_checks m" "\<not> list_ex (\<lambda>n. member_key n = member_key m) (wv_members db)"
    by (auto simp: insert_room_Inr insert_member_Inr list_ex_iff)
  have open_room: "\<not> terminal_room r" using assms(7) by (simp add: terminal_room_def)
  have rooms: "rooms_ok (wv_rooms db @ [r])"
    using inv(1) r assms(6) open_room by (auto simp: rooms_ok_def)
  have fresh: "wc_room c \<noteq> ro_id r" if "c \<in> set (wv_commands db)" for c
    using log_okD(2) [OF inv(4) that] r(2) by (auto simp: image_image)
  have fresh_queue: "wq_room q \<noteq> ro_id r" if "q \<in> set (wv_queue db)" for q
    using queue_okD(2) [OF inv(5) that] r(2) by (auto simp: image_image)
  have log: "log_ok (sequence_view ` set (wv_rooms db @ [r])) (wv_commands db)"
  proof (rule log_okI)
    fix i n assume "(i, n) \<in> sequence_view ` set (wv_rooms db @ [r])"
    then consider "(i, n) \<in> sequence_view ` set (wv_rooms db)" | "i = ro_id r" "n = 0"
      by (auto simp: sequence_view_def assms(4))
    then show "map wc_sequence (log_of i (wv_commands db)) = [1..n]"
      by cases (use log_okD(1) [OF inv(4)] in blast, use fresh in \<open>auto simp: log_of_def filter_empty_conv\<close>)
  qed (use log_okD(2,3) [OF inv(4)] in auto)
  have queue: "queue_ok (version_view ` set (wv_rooms db @ [r])) (wv_queue db)"
  proof (rule queue_okI)
    fix i n assume "(i, n) \<in> version_view ` set (wv_rooms db @ [r])"
    then consider "(i, n) \<in> version_view ` set (wv_rooms db)" | "i = ro_id r" "n = 1"
      by (auto simp: version_view_def assms(5))
    then show "map wq_position (queue_of i (wv_queue db)) = [0..n - 2]"
      by cases (use queue_okD(1) [OF inv(5)] in blast, use fresh_queue in \<open>auto simp: queue_of_def filter_empty_conv\<close>)
  qed (use queue_okD(2,3) [OF inv(5)] in auto)
  have "invitations_ok (state_view ` set (wv_rooms db @ [r])) (wv_invitations db)"
    using inv(6) open_room by (auto simp: invitations_ok_def state_view_def)
  then show ?thesis
    unfolding eq using inv rooms log queue members_ok_append [OF inv(2) m]
      hosts_ok_create [OF inv(3) r(2) assms(8-12)]
    by (intro wave_invI) simp_all
qed

lemma invite_each_Inr: "invite_each room host users db = Inr db' \<Longrightarrow> \<exists>is. db' = db\<lparr>wv_invited := is\<rparr>"
proof (induction users arbitrary: db)
  case Nil
  then show ?case by (intro exI [of _ "wv_invited db"]) simp
next
  case (Cons u users)
  then show ?case
    by (fastforce simp: bind_result_eq_Inr insert_invited_def split: if_splits)
qed

lemma wave_create_inv:
  assumes "wave_create sha256 fresh bits p now users db = Inr (value, db')" and "wave_inv db"
  shows "wave_inv db'"
proof -
  from assms(1) obtain db1 db2 where
    steps: "insert_room (new_room_row sha256 fresh (new_room_code bits) p now) db = Inr db1"
      "insert_member (new_member fresh p HostRole now) db1 = Inr db2"
      "invite_each fresh (pr_user p) users db2 = Inr db'"
    by (auto simp: wave_create_def bind_result_eq_Inr split: if_splits)
  have "wave_inv db2"
    by (rule create_inv [OF assms(2) steps(1,2)]) (simp_all add: new_room_row_def new_member_def)
  with invite_each_Inr [OF steps(3)] show ?thesis by auto
qed

lemma join_member_cases:
  assumes "join_member room p now db = Inr db'"
  obtains (unchanged) "db' = db"
    | (again) "checked_update member_row_checks ''ck_wave_member_presence''
        (\<lambda>m. wm_room m = room \<and> wm_device m = pr_device p) (rejoined now) (wv_members db) = Inr (wv_members db')"
        "db' = db\<lparr>wv_members := wv_members db'\<rparr>"
    | (first) "insert_member (new_member room p MemberRole now) db = Inr db'"
proof -
  let ?P = "\<lambda>m. wm_room m = room \<and> wm_device m = pr_device p"
  show thesis
  proof (cases "(room, pr_user p) \<in> set (wv_invited db)")
    case False
    with assms unchanged show thesis by (simp add: join_member_def)
  next
    case invited: True
    show thesis
    proof (cases "list_ex ?P (wv_members db)")
      case False
      with assms invited first show thesis by (simp add: join_member_def)
    next
      case True
      with assms invited obtain rows where rows: "checked_update member_row_checks ''ck_wave_member_presence''
          ?P (rejoined now) (wv_members db) = Inr rows" and eq: "db' = db\<lparr>wv_members := rows\<rparr>"
        by (simp add: join_member_def bind_result_eq_Inr) blast
      show thesis by (rule again) (use rows eq in simp_all)
    qed
  qed
qed

lemma join_member_inv:
  assumes "join_member room p now db = Inr db'" and "wave_inv db" and "room \<in> ro_id ` set (wv_rooms db)"
  shows "wave_inv db'"
proof -
  note inv = wave_invD [OF assms(2)]
  let ?P = "\<lambda>m. wm_room m = room \<and> wm_device m = pr_device p"
  from assms(1) show ?thesis
  proof (cases rule: join_member_cases)
    case unchanged
    with assms(2) show ?thesis by simp
  next
    case again
    from again(1) have rows: "wv_members db' = update_rows ?P (rejoined now) (wv_members db)"
      "\<forall>m \<in> set (wv_members db). ?P m \<longrightarrow> member_row_checks (rejoined now m)"
      by (simp_all add: checked_update_Inr)
    have "members_ok (update_rows ?P (rejoined now) (wv_members db))"
      by (rule members_ok_update [OF inv(2)]) (use rows(2) in \<open>auto simp: member_key_def rejoined_def\<close>)
    moreover have "hosts_ok (host_view ` set (wv_rooms db)) (update_rows ?P (rejoined now) (wv_members db))"
      by (rule hosts_ok_update [OF inv(3)]) (auto simp: rejoined_def)
    ultimately show ?thesis using inv_members [OF assms(2)] again(2) rows(1) by metis
  next
    case first
    then have m: "db' = db\<lparr>wv_members := wv_members db @ [new_member room p MemberRole now]\<rparr>"
      "member_row_checks (new_member room p MemberRole now)"
      "\<not> list_ex (\<lambda>n. member_key n = member_key (new_member room p MemberRole now)) (wv_members db)"
      by (simp_all add: insert_member_Inr)
    have "hosts_ok (host_view ` set (wv_rooms db)) (wv_members db @ [new_member room p MemberRole now])"
      by (rule hosts_ok_insert [OF inv(3) _ _ m(3)]) (use assms(3) in \<open>auto simp: new_member_def image_image\<close>)
    with members_ok_append [OF inv(2) m(2,3)] show ?thesis unfolding m(1) by (rule inv_members [OF assms(2)])
  qed
qed

lemma wave_join_Inr:
  assumes "wave_join sha256 code p now db = Inr (value, db')"
  obtains r db1 where "r \<in> set (wv_rooms db)" and "ro_code_sha256 r = sha256 (text_bytes (map upper_char code))"
    and "ro_state r = OPEN" and "now < ro_expires_at r"
    and "list_ex (\<lambda>m. joined (ro_id r) m \<and> wm_device m = pr_device p) (wv_members db)
      \<or> participants (ro_id r) now db < 8"
    and "join_member (ro_id r) p now db = Inr db1" and "room_snapshot (ro_id r) p now db1 = Inr (value, db')"
proof -
  let ?P = "\<lambda>r. ro_code_sha256 r = sha256 (text_bytes (map upper_char code)) \<and> ro_state r = OPEN
    \<and> now < ro_expires_at r"
  from assms obtain r where r: "find ?P (wv_rooms db) = Some r"
    by (auto simp: wave_join_def split: option.splits)
  have body: "(if \<not> list_ex (\<lambda>m. joined (ro_id r) m \<and> wm_device m = pr_device p) (wv_members db)
      \<and> 8 \<le> participants (ro_id r) now db then Inl WaveConflict
    else bind_result (join_member (ro_id r) p now db) (\<lambda>db1.
      if \<not> list_ex (\<lambda>m. joined (ro_id r) m \<and> wm_user m = pr_user p \<and> wm_device m = pr_device p) (wv_members db1)
      then Inl WaveForbidden else room_snapshot (ro_id r) p now db1)) = Inr (value, db')"
    using assms unfolding wave_join_def r option.case Let_def .
  then have room: "list_ex (\<lambda>m. joined (ro_id r) m \<and> wm_device m = pr_device p) (wv_members db)
      \<or> participants (ro_id r) now db < 8"
    by (simp only: if_Inl_eq_Inr not_le de_Morgan_conj not_not)
  from body obtain db1 where "join_member (ro_id r) p now db = Inr db1"
    "room_snapshot (ro_id r) p now db1 = Inr (value, db')"
    unfolding if_Inl_eq_Inr bind_result_eq_Inr by blast
  with room that find_eq_Some_unique [OF r] show ?thesis by blast
qed

lemma wave_join_inv:
  assumes "wave_join sha256 code p now db = Inr (value, db')" and "wave_inv db"
  shows "wave_inv db'"
  using assms(1) by (rule wave_join_Inr) (use join_member_inv [OF _ assms(2)] room_snapshot_inv in \<open>meson imageI\<close>)

subsection \<open>Leaving and closing\<close>

text \<open>What an appended lifecycle command leaves for the writes after it.\<close>

lemma append_lifecycle_row:
  assumes "append_lifecycle sha256 room user device kind doc now db = Inr db'" and "rooms_ok (wv_rooms db)"
    and "r \<in> set (wv_rooms db)" and "ro_id r = room"
  shows "r\<lparr>ro_sequence := ro_sequence r + 1\<rparr> \<in> set (wv_rooms db')"
    and "wv_members db' = wv_members db" and "wv_devices db' = wv_devices db"
    and "wv_invitations db' = wv_invitations db" and "wv_guests db' = wv_guests db"
proof -
  from assms(1) obtain row where row: "find_room room db = Some row"
    and eq: "db' = db\<lparr>wv_rooms := update_rows (\<lambda>s. ro_id s = room) (\<lambda>r. r\<lparr>ro_sequence := ro_sequence row + 1\<rparr>) (wv_rooms db),
      wv_commands := wv_commands db @ [lifecycle_command sha256 row user device kind doc now]\<rparr>"
    by (rule append_lifecycle_Inr)
  have "row = r" using room_unique [OF assms(2)] find_room_Some [OF row] assms(3,4) by blast
  with eq assms(3,4) show "r\<lparr>ro_sequence := ro_sequence r + 1\<rparr> \<in> set (wv_rooms db')"
    by (force simp: in_update_rows)
  from eq show "wv_members db' = wv_members db" "wv_devices db' = wv_devices db"
    "wv_invitations db' = wv_invitations db" "wv_guests db' = wv_guests db" by simp_all
qed

lemma state_members_commute:
  "update_room_state clk i f (db\<lparr>wv_members := ms\<rparr>) = (update_room_state clk i f db)\<lparr>wv_members := ms\<rparr>"
  by (simp add: update_room_state_def Let_def retire_room_def update_invitations_def update_room_def find_room_def
      split: option.splits)

lemma close_room_view [simp]:
  "ro_id (close_room now r) = ro_id r" "ro_code_sha256 (close_room now r) = ro_code_sha256 r"
  "sequence_view (close_room now r) = sequence_view r" "version_view (close_room now r) = version_view r"
  "room_row_checks (close_room now r) = room_row_checks r" "terminal_room (close_room now r)"
  "ro_closed_at (close_room now r) = Some now" "ro_host_user (close_room now r) = ro_host_user r"
  "ro_host_device (close_room now r) = ro_host_device r"
  by (simp_all add: close_room_def sequence_view_def version_view_def room_row_checks_def terminal_room_def)

lemma left_members_ok: "members_ok ms \<Longrightarrow> members_ok (update_rows P (left_member now) ms)"
  by (rule members_ok_update) (auto simp: member_key_def left_member_def members_ok_def member_row_checks_def
      split: option.splits)

lemma wave_leave_Inr:
  assumes "wave_leave sha256 room p now clk db = Inr db'" and "wave_inv db"
  obtains val db1 db2 row kind where "room_snapshot room p now db = Inr (val, db1)"
    and "row \<in> set (wv_rooms db)" and "ro_id row = room" and "\<not> terminal_room row"
    and "pr_device p = ro_host_device row \<Longrightarrow> count_rows (joined room) (wv_members db1) \<le> 1"
    and "append_lifecycle sha256 room (pr_user p) (pr_device p) kind [(KStr ''device_left'', JBool True)] now db1 = Inr db2"
    and "db' = (let ms = update_rows (\<lambda>m. wm_room m = room \<and> wm_device m = pr_device p) (left_member now) (wv_members db2)
      in if pr_device p = ro_host_device row then (update_room_state clk room (close_room now) db2)\<lparr>wv_members := ms\<rparr>
         else db2\<lparr>wv_members := ms\<rparr>)"
proof -
  from assms(1) obtain val db1 row' where snap: "room_snapshot room p now db = Inr (val, db1)"
    and row': "the_room room db1 = Inr row'"
    and rest: "(if pr_device p = ro_host_device row' \<and> 1 < count_rows (joined room) (wv_members db1)
     then Inl WaveConflict
     else let kind = (if pr_device p = ro_host_device row' then ''CLOSE'' else ''LEAVE'') in
       bind_result (append_lifecycle sha256 room (pr_user p) (pr_device p) kind
                      [(KStr ''device_left'', JBool True)] now db1) (\<lambda>db2.
       let db3 = db2\<lparr>wv_members := update_rows (\<lambda>m. wm_room m = room \<and> wm_device m = pr_device p)
                                    (left_member now) (wv_members db2)\<rparr>
       in Inr (if kind = ''CLOSE'' then update_room_state clk room (close_room now) db3 else db3))) = Inr db'"
    unfolding wave_leave_def bind_pair_Inr unfolding bind_result_eq_Inr by blast
  from snap obtain row where r: "require_membership room p now db = Inr db1" "row \<in> set (wv_rooms db)" "ro_id row = room"
    "\<not> terminal_room row" by (rule room_snapshot_Inr)
  from row' have "find_room room db1 = Some row'" by (simp add: the_room_def split: option.splits)
  from find_room_Some [OF this] have "row' = row"
    using membership_frame(1) [OF r(1)] room_unique [OF wave_invD(1) [OF assms(2)]] r(2,3) by simp
  with rest obtain db2 where db2: "append_lifecycle sha256 room (pr_user p) (pr_device p)
      (if pr_device p = ro_host_device row then ''CLOSE'' else ''LEAVE'') [(KStr ''device_left'', JBool True)] now db1 = Inr db2"
    and few: "pr_device p = ro_host_device row \<Longrightarrow> count_rows (joined room) (wv_members db1) \<le> 1"
    and eq: "db' = (let ms = update_rows (\<lambda>m. wm_room m = room \<and> wm_device m = pr_device p) (left_member now) (wv_members db2)
      in if pr_device p = ro_host_device row then (update_room_state clk room (close_room now) db2)\<lparr>wv_members := ms\<rparr>
         else db2\<lparr>wv_members := ms\<rparr>)"
    by (cases "pr_device p = ro_host_device row")
      (auto simp: bind_result_eq_Inr Let_def state_members_commute split: if_splits)
  from that [OF snap r(2-4) few db2 eq] show ?thesis by blast
qed

lemma wave_leave_inv:
  assumes "wave_leave sha256 room p now clk db = Inr db'" and "wave_inv db"
  shows "wave_inv db'"
proof -
  from assms obtain val db1 db2 row kind where snap: "room_snapshot room p now db = Inr (val, db1)"
    and row: "row \<in> set (wv_rooms db)" "ro_id row = room" "\<not> terminal_room row"
    and db2: "append_lifecycle sha256 room (pr_user p) (pr_device p) kind [(KStr ''device_left'', JBool True)] now db1 = Inr db2"
    and eq: "db' = (let ms = update_rows (\<lambda>m. wm_room m = room \<and> wm_device m = pr_device p) (left_member now) (wv_members db2)
      in if pr_device p = ro_host_device row then (update_room_state clk room (close_room now) db2)\<lparr>wv_members := ms\<rparr>
         else db2\<lparr>wv_members := ms\<rparr>)"
    by (rule wave_leave_Inr) blast
  have inv1: "wave_inv db1" by (rule room_snapshot_inv [OF snap assms(2)])
  have inv2: "wave_inv db2" by (rule append_lifecycle_inv [OF db2 inv1])
  have row1: "row \<in> set (wv_rooms db1)" using row(1) snap by (auto elim!: room_snapshot_Inr simp: membership_frame)
  note r2 = append_lifecycle_row(1) [OF db2 wave_invD(1) [OF inv1] row1 row(2)]
  let ?r = "row\<lparr>ro_sequence := ro_sequence row + 1\<rparr>"
  let ?P = "\<lambda>m. wm_room m = room \<and> wm_device m = pr_device p"
  let ?ms = "update_rows ?P (left_member now) (wv_members db2)"
  have r: "ro_id ?r = room" "\<not> terminal_room ?r" using row by (simp_all add: terminal_room_def)
  note ms = left_members_ok [OF wave_invD(2) [OF inv2], of ?P now]
  note hosts = wave_invD(3) [OF inv2]
  have checks: "room_row_checks ?r" using wave_invD(1) [OF inv2] r2 by (simp add: rooms_ok_def)
  show ?thesis
  proof (cases "pr_device p = ro_host_device row")
    case True
    have "hosts_ok (host_view ` set (update_rows (\<lambda>s. ro_id s = ro_id ?r) (close_room now) (wv_rooms db2))) ?ms"
    proof (rule close_hosts [where f = "close_room now", OF hosts wave_invD(1) [OF inv2] r2])
      fix i user device and m :: member_row
      assume v: "(i, user, device, False) \<in> host_view ` set (update_rows (\<lambda>s. ro_id s = ro_id ?r) (close_room now) (wv_rooms db2))"
        and m: "?P m" "wm_room m = i"
      from updated_view [where f = "close_room now", OF wave_invD(1) [OF inv2] r2 view_fst(1) close_room_view(1) v] m r(1)
      show "wm_status (left_member now m) = MsJoined" by (auto simp: host_view_def)
    qed (auto simp: left_member_def)
    from state_write_inv [where f = "close_room now", OF inv2 r2 _ _ _ _ _ _ ms this, of clk] checks
    have "wave_inv ((update_room_state clk room (close_room now) db2)\<lparr>wv_members := ?ms\<rparr>)" by (simp add: r(1))
    with True show ?thesis by (simp add: eq Let_def)
  next
    case False
    have "hosts_ok (host_view ` set (wv_rooms db2)) ?ms"
    proof (rule hosts_ok_update [OF hosts])
      fix i user device terminal
      assume v: "(i, user, device, terminal) \<in> host_view ` set (wv_rooms db2)"
      have "ro_host_device x = ro_host_device row" if "x \<in> set (wv_rooms db2)" "ro_id x = room" for x
      proof -
        have "x = ?r" using room_unique [OF wave_invD(1) [OF inv2] that(1) r2] that(2) r(1) by simp
        then show ?thesis by simp
      qed
      then have "device \<noteq> pr_device p" if "i = room" using v False that by (auto simp: host_view_def)
      with v show "\<exists>t. (i, user, device, t) \<in> host_view ` set (wv_rooms db2) \<and> (t \<longrightarrow> terminal)
          \<and> (terminal \<or> (\<forall>m \<in> set (wv_members db2). ?P m \<longrightarrow> wm_room m = i \<longrightarrow> wm_device m = device \<longrightarrow>
             wm_status m = MsJoined \<longrightarrow> wm_status (left_member now m) = MsJoined))" by blast
    qed (auto simp: left_member_def)
    from inv_members [OF inv2 ms this] False show ?thesis by (simp add: eq Let_def)
  qed
qed

lemma wave_close_inv:
  assumes "wave_close sha256 room p now clk db = Inr db'" and "wave_inv db"
  shows "wave_inv db'"
proof -
  from assms(1) obtain val db1 db2 where host: "require_room_host room p now db = Inr (val, db1)"
    and db2: "append_lifecycle sha256 room (pr_user p) (pr_device p) ''CLOSE'' [] now db1 = Inr db2"
    and eq: "db' = update_room_state clk room (close_room now) db2"
    by (auto simp: wave_close_def bind_result_eq_Inr)
  from host assms(2) obtain row where row: "row \<in> set (wv_rooms db)" "ro_id row = room"
    and snap: "room_snapshot room p now db = Inr (val, db1)"
    by (rule require_room_host_Inr) blast
  have inv1: "wave_inv db1" by (rule room_snapshot_inv [OF snap assms(2)])
  have inv2: "wave_inv db2" by (rule append_lifecycle_inv [OF db2 inv1])
  have row1: "row \<in> set (wv_rooms db1)" using row(1) snap by (auto elim!: room_snapshot_Inr simp: membership_frame)
  note r2 = append_lifecycle_row(1) [OF db2 wave_invD(1) [OF inv1] row1 row(2)]
  have checks: "room_row_checks (row\<lparr>ro_sequence := ro_sequence row + 1\<rparr>)"
    using wave_invD(1) [OF inv2] r2 by (simp add: rooms_ok_def)
  from state_change_inv [where f = "close_room now", OF inv2 r2, of clk] checks row(2)
  show ?thesis by (simp add: eq)
qed

subsection \<open>Expiry\<close>

lemma expired_room_view [simp]:
  "ro_id (expired_room now r) = ro_id r" "ro_code_sha256 (expired_room now r) = ro_code_sha256 r"
  "sequence_view (expired_room now r) = sequence_view r" "version_view (expired_room now r) = version_view r"
  "room_row_checks (expired_room now r) = room_row_checks r" "terminal_room (expired_room now r)"
  "ro_closed_at (expired_room now r) = Some now" "ro_host_user (expired_room now r) = ro_host_user r"
  "ro_host_device (expired_room now r) = ro_host_device r"
  by (simp_all add: expired_room_def sequence_view_def version_view_def room_row_checks_def terminal_room_def)

lemma expire_one_inv:
  assumes "append_lifecycle sha256 room user device kind doc now db = Inr db1" and "wave_inv db"
  shows "wave_inv (update_room_state clk room (expired_room now) db1)"
proof -
  from assms(1) obtain row where "find_room room db = Some row" by (rule append_lifecycle_Inr)
  note row = find_room_Some [OF this]
  have inv1: "wave_inv db1" by (rule append_lifecycle_inv [OF assms])
  note r1 = append_lifecycle_row(1) [OF assms(1) wave_invD(1) [OF assms(2)] row]
  have "room_row_checks (row\<lparr>ro_sequence := ro_sequence row + 1\<rparr>)"
    using wave_invD(1) [OF inv1] r1 by (simp add: rooms_ok_def)
  with state_change_inv [where f = "expired_room now", OF inv1 r1, of clk] row(2) show ?thesis by simp
qed

lemma expire_rooms_inv: "expire_rooms sha256 now clk rooms db = Inr db' \<Longrightarrow> wave_inv db \<Longrightarrow> wave_inv db'"
  by (induction rooms arbitrary: db) (auto simp: bind_result_eq_Inr dest: expire_one_inv)

lemma wave_expire_due_inv: "wave_expire_due sha256 locked now clk limit db = Inr (n, db') \<Longrightarrow> wave_inv db \<Longrightarrow> wave_inv db'"
  by (auto simp: wave_expire_due_def Let_def bind_result_eq_Inr intro: expire_rooms_inv split: if_splits)

end
