(* ===== verification/Wave_Steps.thy ===== *)
theory Wave_Steps
  imports Wave_Preservation
begin

text \<open>
  The remaining operations of the room service keep the invariant: the host's transfer and recovery,
  commands, the strict start, readiness and timing.
\<close>

subsection \<open>The host passes on\<close>

text \<open>The new host has joined; the room keeps the rest of what the projections read.\<close>

lemma host_write_inv:
  assumes "wave_inv db" and "r \<in> set (wv_rooms db)" and "m \<in> set (wv_members db)" and "joined (ro_id r) m"
    and "host_view (f r) = (ro_id r, wm_user m, wm_device m, terminal_room r)"
    and "ro_code_sha256 (f r) = ro_code_sha256 r" and "sequence_view (f r) = sequence_view r"
    and "version_view (f r) = version_view r" and "room_row_checks (f r)" and "ro_closed_at (f r) = ro_closed_at r"
  shows "wave_inv (assign_roles (ro_id r) (wm_device m) (update_room (ro_id r) f db))"
proof -
  note inv = wave_invD [OF assms(1)]
  let ?rooms = "update_rows (\<lambda>s. ro_id s = ro_id r) f (wv_rooms db)"
  have same: "ro_id (f r) = ro_id r" "terminal_room (f r) = terminal_room r"
    using assms(5) by (simp_all add: host_view_def)
  have closed: "ro_closed_at (f r) \<noteq> None \<longleftrightarrow> terminal_room (f r)"
    using inv(1) assms(2,10) same(2) by (simp add: rooms_ok_def)
  have rooms: "rooms_ok ?rooms" by (rule rooms_ok_rewrite [where f = f, OF inv(1) assms(2) same(1) assms(6,9) closed])
  have views: "sequence_view ` set ?rooms = sequence_view ` set (wv_rooms db)"
    "version_view ` set ?rooms = version_view ` set (wv_rooms db)"
    "state_view ` set ?rooms = state_view ` set (wv_rooms db)"
    by (rule view_kept [where f = f, OF inv(1) assms(2)]; use assms(7,8) same in \<open>simp add: state_view_def\<close>)+
  let ?ms = "update_rows (\<lambda>n. wm_room n = ro_id r)
       (\<lambda>n. n\<lparr>wm_role := (if wm_device n = wm_device m then HostRole else MemberRole)\<rparr>) (wv_members db)"
  have "members_ok ?ms"
    by (rule members_ok_update [OF inv(2)])
      (use inv(2) in \<open>auto simp: member_key_def members_ok_def member_row_checks_def split: option.splits\<close>)
  with hosts_ok_transfer [where f = f, OF inv(1,3) assms(2-5)] rooms views inv show ?thesis
    by (intro wave_invI) (simp_all add: assign_roles_def update_room_def)
qed

lemma wave_transfer_host_Inr:
  assumes "wave_transfer_host sha256 room p target now db = Inr db'"
  obtains val db1 db2 m where "require_room_host room p now db = Inr (val, db1)" and "m \<in> set (wv_members db1)"
    and "joined room m" and "wm_device m = target" and "target \<noteq> pr_device p"
    and "present_since (now - seconds 30) (wm_present_at m)" and "member_device m db1 \<noteq> None"
    and "append_lifecycle sha256 room (pr_user p) (pr_device p) ''TRANSFER''
      [str_value ''target_device_id'' (uuid_str target)] now db1 = Inr db2"
    and "db' = assign_roles room target (update_room room (\<lambda>r. r\<lparr>ro_host_user := wm_user m,
      ro_host_device := target, ro_epoch := ro_epoch r + 1\<rparr>) db2)"
proof -
  let ?P = "\<lambda>db1 m. joined room m \<and> wm_device m = target \<and> wm_device m \<noteq> pr_device p
    \<and> present_since (now - seconds 30) (wm_present_at m) \<and> member_device m db1 \<noteq> None"
  from assms obtain val db1 where host: "require_room_host room p now db = Inr (val, db1)"
    and rest: "(case find (?P db1) (wv_members db1) of None \<Rightarrow> Inl WaveForbidden
      | Some m \<Rightarrow> bind_result (append_lifecycle sha256 room (pr_user p) (pr_device p) ''TRANSFER''
          [str_value ''target_device_id'' (uuid_str target)] now db1) (\<lambda>db2.
         Inr (assign_roles room target
           (update_room room (\<lambda>r. r\<lparr>ro_host_user := wm_user m, ro_host_device := target,
                                    ro_epoch := ro_epoch r + 1\<rparr>) db2)))) = Inr db'"
    unfolding wave_transfer_host_def bind_pair_Inr by blast
  from rest obtain m where m: "find (?P db1) (wv_members db1) = Some m" by (auto split: option.splits)
  from rest [unfolded m option.case bind_result_eq_Inr] find_eq_Some_unique [OF m] host that show ?thesis
    by auto
qed

lemma snapshot_room: "room_snapshot room p now db = Inr (val, db1) \<Longrightarrow> wv_rooms db1 = wv_rooms db"
  by (auto elim!: room_snapshot_Inr simp: membership_frame)

lemma wave_transfer_host_inv:
  assumes "wave_transfer_host sha256 room p target now db = Inr db'" and "wave_inv db"
  shows "wave_inv db'"
proof -
  from assms(1) obtain val db1 db2 m where host: "require_room_host room p now db = Inr (val, db1)"
    and m: "m \<in> set (wv_members db1)" "joined room m" "wm_device m = target"
    and db2: "append_lifecycle sha256 room (pr_user p) (pr_device p) ''TRANSFER''
      [str_value ''target_device_id'' (uuid_str target)] now db1 = Inr db2"
    and eq: "db' = assign_roles room target (update_room room (\<lambda>r. r\<lparr>ro_host_user := wm_user m,
      ro_host_device := target, ro_epoch := ro_epoch r + 1\<rparr>) db2)"
    by (rule wave_transfer_host_Inr)
  from host assms(2) obtain row where row: "row \<in> set (wv_rooms db)" "ro_id row = room"
    and snap: "room_snapshot room p now db = Inr (val, db1)"
    by (rule require_room_host_Inr) blast
  have inv1: "wave_inv db1" by (rule room_snapshot_inv [OF snap assms(2)])
  have inv2: "wave_inv db2" by (rule append_lifecycle_inv [OF db2 inv1])
  have row1: "row \<in> set (wv_rooms db1)" using row(1) snapshot_room [OF snap] by simp
  note after = append_lifecycle_row [OF db2 wave_invD(1) [OF inv1] row1 row(2)]
  let ?r = "row\<lparr>ro_sequence := ro_sequence row + 1\<rparr>"
  let ?f = "\<lambda>r. r\<lparr>ro_host_user := wm_user m, ro_host_device := target, ro_epoch := ro_epoch r + 1\<rparr>"
  have checks: "room_row_checks ?r" using wave_invD(1) [OF inv2] after(1) by (simp add: rooms_ok_def)
  have "wave_inv (assign_roles (ro_id ?r) (wm_device m) (update_room (ro_id ?r) ?f db2))"
    by (rule host_write_inv [where f = ?f, OF inv2 after(1)])
      (use m after(2) row(2) checks in \<open>auto simp: host_view_def sequence_view_def version_view_def terminal_room_def
         room_row_checks_def\<close>)
  then show ?thesis by (simp add: eq row(2) m(3))
qed

subsection \<open>Recovery\<close>

lemma host_missing_inv: "wave_inv db \<Longrightarrow> wave_inv (update_room room (host_missing now) db)"
proof -
  assume inv: "wave_inv db"
  let ?rooms = "update_rows (\<lambda>s. ro_id s = room) (host_missing now) (wv_rooms db)"
  note parts = wave_invD [OF inv]
  have views: "host_view ` set ?rooms = host_view ` set (wv_rooms db)"
    "sequence_view ` set ?rooms = sequence_view ` set (wv_rooms db)"
    "version_view ` set ?rooms = version_view ` set (wv_rooms db)"
    "state_view ` set ?rooms = state_view ` set (wv_rooms db)"
    by (rule image_update_rows_same, simp add: host_missing_def host_view_def sequence_view_def version_view_def
        state_view_def terminal_room_def)+
  have "rooms_ok ?rooms"
    by (rule rooms_ok_update [OF parts(1)])
      (use parts(1) in \<open>auto simp: rooms_ok_def host_missing_def room_row_checks_def terminal_room_def\<close>)
  with parts views show ?thesis by (intro wave_invI) (simp_all add: update_room_def)
qed

text \<open>The four outcomes of a recovery that writes.\<close>

lemma wave_recover_host_cases:
  assumes "wave_recover_host sha256 room now clk db = Inr (result, db')"
  obtains (idle) "db' = db"
    | (returned) row db1 where "row \<in> set (wv_rooms db)" and "ro_id row = room" and "\<not> terminal_room row"
        and "append_lifecycle sha256 room (ro_host_user row) (ro_host_device row) ''TRANSFER''
          [(KStr ''recovered'', JBool True)] now db = Inr db1"
        and "db' = update_room_state clk room host_returned db1" and "result = Some (ro_host_user row)"
    | (away) row where "row \<in> set (wv_rooms db)" and "ro_id row = room" and "\<not> terminal_room row"
        and "db' = update_room room (host_missing now) db" and "result = None"
    | (orphaned) row db2 where "row \<in> set (wv_rooms db)" and "ro_id row = room" and "\<not> terminal_room row"
        and "append_lifecycle sha256 room (ro_host_user row) (ro_host_device row) ''PAUSE''
          [str_value ''reason'' ''host_unavailable''] now (update_room room (host_missing now) db) = Inr db2"
        and "db' = update_room_state clk room (\<lambda>r. r\<lparr>ro_state := ORPHANED, ro_playback := PlaybackPaused\<rparr>) db2"
        and "result = None"
    | (replaced) row m db2 where "row \<in> set (wv_rooms db)" and "ro_id row = room" and "\<not> terminal_room row"
        and "elected room now (update_room room (host_missing now) db) = Some m"
        and "append_lifecycle sha256 room (ro_host_user row) (ro_host_device row) ''TRANSFER''
          [str_value ''target_device_id'' (uuid_str (wm_device m)), (KStr ''automatic'', JBool True)] now
          (update_room room (host_missing now) db) = Inr db2"
        and "db' = assign_roles room (wm_device m) (update_room_state clk room (host_replaced m) db2)"
        and "result = Some (wm_user m)"
proof -
  let ?P = "\<lambda>r. ro_id r = room \<and> ro_state r \<in> {OPEN, ORPHANED}"
  from assms obtain row where row: "find ?P (wv_rooms db) = Some row"
    by (auto simp: wave_recover_host_def split: option.splits)
  from find_eq_Some_unique [OF row]
  have r: "row \<in> set (wv_rooms db)" "ro_id row = room" "\<not> terminal_room row" by (auto simp: terminal_room_def)
  note body = assms [unfolded wave_recover_host_def row option.case Let_def]
  let ?db1 = "update_room room (host_missing now) db"
  show thesis
  proof (cases "list_ex (\<lambda>m. joined room m \<and> wm_device m = ro_host_device row
      \<and> present_since (now - seconds 30) (wm_present_at m)) (wv_members db)")
    case True
    show thesis
    proof (cases "ro_host_lost_at row \<noteq> None \<or> ro_state row = ORPHANED")
      case again: True
      from body [unfolded if_P [OF True] if_P [OF again] bind_result_eq_Inr] returned [OF r] show thesis by auto
    next
      case False
      from body [unfolded if_P [OF True] if_not_P [OF False]] idle show thesis by simp
    qed
  next
    case False
    note body = body [unfolded if_not_P [OF False]]
    show thesis
    proof (cases "now < (case ro_host_lost_at row of None \<Rightarrow> now | Some t \<Rightarrow> t) + seconds 30")
      case True
      from body [unfolded if_P [OF True]] away [OF r] show thesis by simp
    next
      case late: False
      note body = body [unfolded if_not_P [OF late]]
      show thesis
      proof (cases "elected room now ?db1")
        case None
        note body = body [unfolded None option.case]
        show thesis
        proof (cases "ro_state row \<noteq> ORPHANED")
          case True
          from body [unfolded if_P [OF True] bind_result_eq_Inr] orphaned [OF r] show thesis by auto
        next
          case False
          from body [unfolded if_not_P [OF False]] away [OF r] show thesis by simp
        qed
      next
        case (Some m)
        from body [unfolded Some option.case bind_result_eq_Inr] replaced [OF r Some] show thesis by auto
      qed
    qed
  qed
qed

lemma elected_Some:
  assumes "elected room now db = Some m"
  shows "m \<in> set (wv_members db)" and "joined room m" and "present_since (now - seconds 30) (wm_present_at m)"
proof -
  let ?ms = "filter (\<lambda>m. joined room m \<and> present_since (now - seconds 30) (wm_present_at m)) (wv_members db)"
  from assms obtain rest where "sort_key (\<lambda>m. (wm_joined_at m, wm_device m)) ?ms = m # rest"
    by (auto simp: elected_def split: list.splits)
  then have "m \<in> set (sort_key (\<lambda>m. (wm_joined_at m, wm_device m)) ?ms)" by simp
  then show "m \<in> set (wv_members db)" "joined room m" "present_since (now - seconds 30) (wm_present_at m)" by auto
qed

lemma host_missing_row:
  assumes "r \<in> set (wv_rooms db)" and "ro_id r = room"
  shows "host_missing now r \<in> set (wv_rooms (update_room room (host_missing now) db))"
    and "ro_id (host_missing now r) = room"
  using assms by (force simp: in_update_rows, simp add: host_missing_def)

lemma wave_recover_host_inv:
  assumes "wave_recover_host sha256 room now clk db = Inr (result, db')" and "wave_inv db"
  shows "wave_inv db'"
  using assms(1)
proof (cases rule: wave_recover_host_cases)
  case idle
  with assms(2) show ?thesis by simp
next
  case (returned row db1)
  have inv1: "wave_inv db1" by (rule append_lifecycle_inv [OF returned(4) assms(2)])
  note r1 = append_lifecycle_row(1) [OF returned(4) wave_invD(1) [OF assms(2)] returned(1,2)]
  let ?r = "row\<lparr>ro_sequence := ro_sequence row + 1\<rparr>"
  have "room_row_checks ?r" "ro_closed_at ?r \<noteq> None \<longleftrightarrow> terminal_room ?r"
    using wave_invD(1) [OF inv1] r1 unfolding rooms_ok_def by blast+
  with returned(3) have "wave_inv (update_room_state clk (ro_id ?r) host_returned db1)"
    by (intro state_change_inv [where f = host_returned, OF inv1 r1])
      (auto simp: host_returned_def sequence_view_def version_view_def room_row_checks_def terminal_room_def)
  then show ?thesis by (simp add: returned(2,5))
next
  case (away row)
  with host_missing_inv [OF assms(2)] show ?thesis by simp
next
  case (orphaned row db2)
  note inv1 = host_missing_inv [OF assms(2), of room now]
  note missing = host_missing_row [OF orphaned(1,2), of now]
  have inv2: "wave_inv db2" by (rule append_lifecycle_inv [OF orphaned(4) inv1])
  note r2 = append_lifecycle_row(1) [OF orphaned(4) wave_invD(1) [OF inv1] missing]
  let ?r = "(host_missing now row)\<lparr>ro_sequence := ro_sequence (host_missing now row) + 1\<rparr>"
  let ?f = "\<lambda>r. r\<lparr>ro_state := ORPHANED, ro_playback := PlaybackPaused\<rparr>"
  have "room_row_checks ?r" "ro_closed_at ?r \<noteq> None \<longleftrightarrow> terminal_room ?r"
    using wave_invD(1) [OF inv2] r2 unfolding rooms_ok_def by blast+
  with orphaned(3) have "wave_inv (update_room_state clk (ro_id ?r) ?f db2)"
    by (intro state_change_inv [where f = ?f, OF inv2 r2])
      (auto simp: host_missing_def sequence_view_def version_view_def room_row_checks_def terminal_room_def)
  then show ?thesis using missing(2) by (simp add: orphaned(5))
next
  case (replaced row m db2)
  note inv1 = host_missing_inv [OF assms(2), of room now]
  note missing = host_missing_row [OF replaced(1,2), of now]
  have inv2: "wave_inv db2" by (rule append_lifecycle_inv [OF replaced(5) inv1])
  note after = append_lifecycle_row [OF replaced(5) wave_invD(1) [OF inv1] missing]
  note m = elected_Some [OF replaced(4)]
  let ?r = "(host_missing now row)\<lparr>ro_sequence := ro_sequence (host_missing now row) + 1\<rparr>"
  have r: "ro_id ?r = room" "\<not> terminal_room ?r"
    using missing(2) replaced(3) by (simp_all add: host_missing_def terminal_room_def)
  have checks: "room_row_checks ?r" "ro_closed_at ?r \<noteq> None \<longleftrightarrow> terminal_room ?r"
    using wave_invD(1) [OF inv2] after(1) unfolding rooms_ok_def by blast+
  let ?ms = "update_rows (\<lambda>n. wm_room n = ro_id ?r)
       (\<lambda>n. n\<lparr>wm_role := (if wm_device n = wm_device m then HostRole else MemberRole)\<rparr>) (wv_members db2)"
  have "members_ok ?ms"
    by (rule members_ok_update [OF wave_invD(2) [OF inv2]])
      (use wave_invD(2) [OF inv2] in \<open>auto simp: member_key_def members_ok_def member_row_checks_def split: option.splits\<close>)
  moreover have "hosts_ok (host_view ` set (update_rows (\<lambda>s. ro_id s = ro_id ?r) (host_replaced m) (wv_rooms db2))) ?ms"
    by (rule hosts_ok_transfer [where f = "host_replaced m" and terminal = False, OF wave_invD(1,3) [OF inv2] after(1)])
      (use m after(2) r in \<open>auto simp: host_view_def host_replaced_def terminal_room_def\<close>)
  ultimately have "wave_inv ((update_room_state clk (ro_id ?r) (host_replaced m) db2)\<lparr>wv_members := ?ms\<rparr>)"
    using r checks
    by (intro state_write_inv [where f = "host_replaced m", OF inv2 after(1)])
      (auto simp: host_replaced_def sequence_view_def version_view_def room_row_checks_def terminal_room_def)
  moreover have "wv_members (update_room_state clk room (host_replaced m) db2) = wv_members db2"
    by (simp add: update_room_state_def Let_def retire_room_def split: option.splits)
  ultimately show ?thesis by (simp add: replaced(6) assign_roles_def r(1))
qed

lemma wave_snapshot_inv: "wave_snapshot sha256 room p now clk db = (result, db') \<Longrightarrow> wave_inv db \<Longrightarrow> wave_inv db'"
  by (auto simp: wave_snapshot_def split: sum.splits dest!: room_snapshot_inv wave_recover_host_inv)

subsection \<open>Commands\<close>

lemma insert_queue_Inr:
  "insert_queue q db = Inr db' \<longleftrightarrow>
     db' = db\<lparr>wv_queue := wv_queue db @ [q]\<rparr> \<and> queue_row_checks q
     \<and> \<not> list_ex (\<lambda>p. wq_id p = wq_id q) (wv_queue db) \<and> wq_recording q \<in> set (wv_recordings db)"
  by (auto simp: insert_queue_def)

lemma command_effect_Inr:
  assumes "command_effect fresh room kind val recording db = Inr (version, doc, db')"
  obtains (queue) rec where "kind = ''QUEUE''" and "recording = Some rec" and "version = wr_version val + 1"
      and "insert_queue \<lparr>wq_id = fresh, wq_room = room, wq_recording = rec, wq_position = len (wr_queue val),
        wq_removed_at = None\<rparr> db = Inr db'"
    | (other) "kind \<in> {''SKIP'', ''PAUSE'', ''SEEK'', ''TRANSFER''}" and "version = wr_version val" and "db' = db"
proof (cases "kind = ''QUEUE'' \<and> recording \<noteq> None")
  case True
  then obtain rec where "recording = Some rec" by auto
  with True assms queue show thesis by (auto simp: command_effect_def Let_def bind_result_eq_Inr)
next
  case False
  note body = assms [unfolded command_effect_def Let_def if_not_P [OF False]]
  then have "kind \<in> {''SKIP'', ''PAUSE'', ''SEEK'', ''TRANSFER''}" by (auto split: if_splits)
  moreover from body have "version = wr_version val" "db' = db" by (auto split: if_splits)
  ultimately show thesis by (rule other)
qed

definition host_command ::
  "uuid \<Rightarrow> principal \<Rightarrow> string \<Rightarrow> 8 word list \<Rightarrow> int \<Rightarrow> int \<Rightarrow> string \<Rightarrow> document \<Rightarrow> instant option \<Rightarrow> instant
   \<Rightarrow> command_row" where
  "host_command room p key digest version sequence kind doc effective now =
     \<lparr>wc_room = room, wc_sequence = sequence + 1, wc_user = pr_user p, wc_device = pr_device p, wc_key = key,
      wc_sha256 = digest, wc_expected_version = version, wc_expected_sequence = sequence, wc_kind = kind,
      wc_document = doc, wc_effective_at = effective, wc_created_at = now\<rparr>"

lemma host_command_simps [simp]:
  "wc_room (host_command room p key digest version sequence kind doc effective now) = room"
  "wc_sequence (host_command room p key digest version sequence kind doc effective now) = sequence + 1"
  "wc_key (host_command room p key digest version sequence kind doc effective now) = key"
  "wc_kind (host_command room p key digest version sequence kind doc effective now) = kind"
  "wc_document (host_command room p key digest version sequence kind doc effective now) = doc"
  "wc_effective_at (host_command room p key digest version sequence kind doc effective now) = effective"
  by (simp_all add: host_command_def)

text \<open>What a command that is no replay was accepted under.\<close>

lemma wave_command_Inr:
  assumes "wave_command fresh room p kind key request version sequence recording now db = Inr (result, db')"
    and "\<not> list_ex (\<lambda>c. wc_room c = room \<and> wc_key c = key) (wv_commands db)"
  obtains val db1 version' doc db2 where "require_room_host room p now db = Inr (val, db1)"
    and "wr_version val = version" and "wr_sequence val = sequence"
    and "command_effect fresh room kind val recording db1 = Inr (version', doc, db2)"
    and "insert_command (host_command room p key request version sequence kind doc None now)
      (update_room room (after_command version' (sequence + 1) kind) db2) = Inr db'"
    and "result = \<lparr>cr_sequence = sequence + 1, cr_version = Some version', cr_idempotent = False\<rparr>"
proof -
  have none: "find (\<lambda>c. wc_room c = room \<and> wc_key c = key) (wv_commands db) = None"
    using assms(2) by (auto simp: find_None_iff list_ex_iff)
  from assms(1) [unfolded wave_command_def none option.case bind_pair_Inr] obtain val db1 where
    host: "require_room_host room p now db = Inr (val, db1)"
    and rest: "(if wr_version val \<noteq> version \<or> wr_sequence val \<noteq> sequence then Inl WaveConflict
      else bind_result (command_effect fresh room kind val recording db1) (\<lambda>(version', doc, db2).
        bind_result (insert_command (host_command room p key request version sequence kind doc None now)
           (update_room room (after_command version' (sequence + 1) kind) db2)) (\<lambda>db3.
        Inr (\<lparr>cr_sequence = sequence + 1, cr_version = Some version', cr_idempotent = False\<rparr>, db3)))) = Inr (result, db')"
    unfolding host_command_def by blast
  from rest obtain version' doc db2 where "wr_version val = version" "wr_sequence val = sequence"
    "command_effect fresh room kind val recording db1 = Inr (version', doc, db2)"
    "bind_result (insert_command (host_command room p key request version sequence kind doc None now)
       (update_room room (after_command version' (sequence + 1) kind) db2)) (\<lambda>db3.
        Inr (\<lparr>cr_sequence = sequence + 1, cr_version = Some version', cr_idempotent = False\<rparr>, db3)) = Inr (result, db')"
    unfolding if_Inl_eq_Inr by (auto simp: bind_result_eq_Inr)
  with host that show ?thesis by (auto simp: bind_result_eq_Inr)
qed

lemma wave_command_replay:
  assumes "wave_command fresh room p kind key request version sequence recording now db = Inr (result, db')"
    and "list_ex (\<lambda>c. wc_room c = room \<and> wc_key c = key) (wv_commands db)"
  shows "db' = db"
proof -
  from assms(2) obtain c where "find (\<lambda>c. wc_room c = room \<and> wc_key c = key) (wv_commands db) = Some c"
    by (cases "find (\<lambda>c. wc_room c = room \<and> wc_key c = key) (wv_commands db)") (auto simp: list_ex_iff find_None_iff)
  with assms(1) show ?thesis by (auto simp: wave_command_def split: if_splits)
qed

lemma after_command_view:
  "ro_id (after_command v s k r) = ro_id r" "ro_code_sha256 (after_command v s k r) = ro_code_sha256 r"
  "host_view (after_command v s k r) = host_view r" "ro_sequence (after_command v s k r) = s"
  "ro_version (after_command v s k r) = v" "ro_closed_at (after_command v s k r) = ro_closed_at r"
  "room_row_checks r \<Longrightarrow> 1 \<le> v \<Longrightarrow> 0 \<le> s \<Longrightarrow> room_row_checks (after_command v s k r)"
  by (simp_all add: after_command_def host_view_def terminal_room_def room_row_checks_def)

lemma room_queue_length:
  assumes "wave_inv db" and "r \<in> set (wv_rooms db)"
  shows "len (room_queue (ro_id r) db) = ro_version r - 1"
proof -
  note inv = wave_invD [OF assms(1)]
  have "filter (\<lambda>q. wq_room q = ro_id r \<and> wq_removed_at q = None) (wv_queue db) = queue_of (ro_id r) (wv_queue db)"
    unfolding queue_of_def by (rule filter_cong) (use queue_okD(2) [OF inv(5)] in auto)
  then show ?thesis using queue_length [OF inv(1,5) assms(2)] by (simp add: room_queue_def)
qed

lemma wave_command_inv:
  assumes "wave_command fresh room p kind key request version sequence recording now db = Inr (result, db')"
    and "wave_inv db"
  shows "wave_inv db'"
proof (cases "list_ex (\<lambda>c. wc_room c = room \<and> wc_key c = key) (wv_commands db)")
  case True
  from wave_command_replay [OF assms(1) this] assms(2) show ?thesis by simp
next
  case False
  from assms(1) False obtain val db1 version' doc db2 where host: "require_room_host room p now db = Inr (val, db1)"
    and expected: "wr_version val = version" "wr_sequence val = sequence"
    and effect: "command_effect fresh room kind val recording db1 = Inr (version', doc, db2)"
    and ins: "insert_command (host_command room p key request version sequence kind doc None now)
      (update_room room (after_command version' (sequence + 1) kind) db2) = Inr db'"
    by (rule wave_command_Inr)
  from host assms(2) obtain row where row: "row \<in> set (wv_rooms db)" "ro_id row = room"
    and snap: "room_snapshot room p now db = Inr (val, db1)" and seen: "wr_version val = ro_version row"
      "wr_sequence val = ro_sequence row" "wr_queue val = room_queue room db1"
    by (rule require_room_host_Inr) blast
  have inv1: "wave_inv db1" by (rule room_snapshot_inv [OF snap assms(2)])
  have row1: "row \<in> set (wv_rooms db1)" using row(1) snapshot_room [OF snap] by simp
  have checks: "room_row_checks row" using wave_invD(1) [OF inv1] row1 by (simp add: rooms_ok_def)
  then have bounds: "1 \<le> ro_version row" "0 \<le> ro_sequence row" by (simp_all add: room_row_checks_def)
  let ?c = "host_command room p key request version sequence kind doc None now"
  let ?f = "after_command version' (sequence + 1) kind"
  obtain qs where eq: "db2 = db1\<lparr>wv_queue := wv_queue db1 @ qs\<rparr>"
    and qs: "qs = [] \<and> version' = version
      \<or> (\<exists>q. qs = [q] \<and> wq_room q = ro_id row \<and> wq_position q = ro_version row - 1 \<and> queue_row_checks q
           \<and> wq_removed_at q = None \<and> \<not> list_ex (\<lambda>p. wq_id p = wq_id q) (wv_queue db1)
           \<and> version' = version + 1)"
    using effect
  proof (cases rule: command_effect_Inr)
    case (queue rec)
    let ?q = "\<lparr>wq_id = fresh, wq_room = room, wq_recording = rec, wq_position = len (wr_queue val), wq_removed_at = None\<rparr>"
    show thesis
      by (rule that [of "[?q]"])
        (use queue(3,4) row(2) expected seen room_queue_length [OF inv1 row1] in \<open>auto simp: insert_queue_Inr\<close>)
  next
    case other
    show thesis by (rule that [of "[]"]) (use other expected in auto)
  qed
  have "db' = db1\<lparr>wv_rooms := update_rows (\<lambda>s. ro_id s = ro_id row) ?f (wv_rooms db1),
      wv_commands := wv_commands db1 @ [?c], wv_queue := wv_queue db1 @ qs\<rparr>"
    using ins by (simp add: insert_command_Inr eq update_room_def row(2))
  moreover have "wave_inv \<dots>"
    by (rule command_write_inv [where f = ?f, OF inv1 row1])
      (use ins row(2) expected seen qs checks bounds in \<open>auto simp: insert_command_Inr eq after_command_view\<close>)
  ultimately show ?thesis by simp
qed

subsection \<open>The strict start\<close>

definition gates_ready :: "start_request \<Rightarrow> instant \<Rightarrow> wave_db \<Rightarrow> bool" where
  "gates_ready q now db \<longleftrightarrow>
     queued (sr_room q) (sr_entry q) (sr_recording q) db \<and> participant_gates q now db \<noteq> []
     \<and> list_all pg_ready (participant_gates q now db) \<and> list_all gate_clocked (participant_gates q now db)"

definition started_room :: "int \<Rightarrow> instant option \<Rightarrow> room_row \<Rightarrow> room_row" where
  "started_room sequence effective r =
     r\<lparr>ro_sequence := sequence, ro_playback := (if effective \<noteq> None then PLAYING else PlaybackPaused),
       ro_effective_at := effective\<rparr>"

lemma wave_start_Inr:
  assumes "wave_start sha256 p q now db = Inr (result, db')"
  obtains val db1 effective where "require_room_host (sr_room q) p now db = Inr (val, db1)"
    and "wr_version val = sr_version q" and "wr_sequence val = sr_sequence q"
    and "effective = (if gates_ready q now db1 \<and> lead_ms (participant_gates q now db1) \<le> 8000
      then Some (now + milliseconds (lead_ms (participant_gates q now db1))) else None)"
    and "insert_command (host_command (sr_room q) p (''start-'' @ number_text (sr_sequence q + 1))
        (sha256 (text_bytes (uuid_str (sr_room q) @ '':'' @ number_text (sr_sequence q + 1))))
        (sr_version q) (sr_sequence q) (if effective \<noteq> None then ''PLAY'' else ''START_ABORTED'')
        (start_document q effective) effective now)
      (update_room (sr_room q) (started_room (sr_sequence q + 1) effective) db1) = Inr db'"
    and "result = \<lparr>st_sequence = sr_sequence q + 1, st_started = (effective \<noteq> None), st_effective_at = effective\<rparr>"
proof -
  from assms [unfolded wave_start_def bind_pair_Inr] obtain val db1 where
    host: "require_room_host (sr_room q) p now db = Inr (val, db1)"
    and "(if wr_version val \<noteq> sr_version q \<or> wr_sequence val \<noteq> sr_sequence q then Inl WaveConflict
     else
       let gates = participant_gates q now db1;
           sequence = sr_sequence q + 1;
           ready = queued (sr_room q) (sr_entry q) (sr_recording q) db1 \<and> gates \<noteq> []
                   \<and> list_all pg_ready gates \<and> list_all gate_clocked gates;
           play = (ready \<and> lead_ms gates \<le> 8000);
           effective = (if play then Some (now + milliseconds (lead_ms gates)) else None)
       in bind_result
            (insert_command
               \<lparr>wc_room = sr_room q, wc_sequence = sequence, wc_user = pr_user p, wc_device = pr_device p,
                wc_key = ''start-'' @ number_text sequence,
                wc_sha256 = sha256 (text_bytes (uuid_str (sr_room q) @ '':'' @ number_text sequence)),
                wc_expected_version = sr_version q, wc_expected_sequence = sr_sequence q,
                wc_kind = (if play then ''PLAY'' else ''START_ABORTED''),
                wc_document = start_document q effective, wc_effective_at = effective, wc_created_at = now\<rparr>
               (update_room (sr_room q)
                  (\<lambda>r. r\<lparr>ro_sequence := sequence, ro_playback := (if play then PLAYING else PlaybackPaused),
                         ro_effective_at := effective\<rparr>) db1)) (\<lambda>db2.
          Inr (\<lparr>st_sequence = sequence, st_started = play, st_effective_at = effective\<rparr>, db2))) = Inr (result, db')"
    by blast
  then have versions: "wr_version val = sr_version q" "wr_sequence val = sr_sequence q"
    and body: "(let gates = participant_gates q now db1;
           sequence = sr_sequence q + 1;
           play = (gates_ready q now db1 \<and> lead_ms gates \<le> 8000);
           effective = (if play then Some (now + milliseconds (lead_ms gates)) else None)
       in bind_result
            (insert_command (host_command (sr_room q) p (''start-'' @ number_text sequence)
               (sha256 (text_bytes (uuid_str (sr_room q) @ '':'' @ number_text sequence)))
               (sr_version q) (sr_sequence q) (if play then ''PLAY'' else ''START_ABORTED'')
               (start_document q effective) effective now)
              (update_room (sr_room q)
                  (\<lambda>r. r\<lparr>ro_sequence := sequence, ro_playback := (if play then PLAYING else PlaybackPaused),
                         ro_effective_at := effective\<rparr>) db1)) (\<lambda>db2.
          Inr (\<lparr>st_sequence = sequence, st_started = play, st_effective_at = effective\<rparr>, db2))) = Inr (result, db')"
    unfolding if_Inl_eq_Inr gates_ready_def host_command_def Let_def by blast+
  show ?thesis
    by (rule that [OF host versions refl])
      (use body in \<open>auto simp: Let_def bind_result_eq_Inr started_room_def [abs_def] split: if_splits\<close>)
qed

lemma wave_start_inv:
  assumes "wave_start sha256 p q now db = Inr (result, db')" and "wave_inv db"
  shows "wave_inv db'"
proof -
  from assms(1) obtain val db1 effective where host: "require_room_host (sr_room q) p now db = Inr (val, db1)"
    and expected: "wr_version val = sr_version q" "wr_sequence val = sr_sequence q"
    and ins: "insert_command (host_command (sr_room q) p (''start-'' @ number_text (sr_sequence q + 1))
        (sha256 (text_bytes (uuid_str (sr_room q) @ '':'' @ number_text (sr_sequence q + 1))))
        (sr_version q) (sr_sequence q) (if effective \<noteq> None then ''PLAY'' else ''START_ABORTED'')
        (start_document q effective) effective now)
      (update_room (sr_room q) (started_room (sr_sequence q + 1) effective) db1) = Inr db'"
    by (rule wave_start_Inr)
  from host assms(2) obtain row where row: "row \<in> set (wv_rooms db)" "ro_id row = sr_room q"
    and snap: "room_snapshot (sr_room q) p now db = Inr (val, db1)" and seen: "wr_version val = ro_version row"
      "wr_sequence val = ro_sequence row"
    by (rule require_room_host_Inr) blast
  have inv1: "wave_inv db1" by (rule room_snapshot_inv [OF snap assms(2)])
  have row1: "row \<in> set (wv_rooms db1)" using row(1) snapshot_room [OF snap] by simp
  have checks: "room_row_checks row" using wave_invD(1) [OF inv1] row1 by (simp add: rooms_ok_def)
  let ?c = "host_command (sr_room q) p (''start-'' @ number_text (sr_sequence q + 1))
        (sha256 (text_bytes (uuid_str (sr_room q) @ '':'' @ number_text (sr_sequence q + 1))))
        (sr_version q) (sr_sequence q) (if effective \<noteq> None then ''PLAY'' else ''START_ABORTED'')
        (start_document q effective) effective now"
  let ?f = "started_room (sr_sequence q + 1) effective"
  have "db' = db1\<lparr>wv_rooms := update_rows (\<lambda>s. ro_id s = ro_id row) ?f (wv_rooms db1),
      wv_commands := wv_commands db1 @ [?c], wv_queue := wv_queue db1 @ []\<rparr>"
    using ins by (simp add: insert_command_Inr update_room_def row(2))
  moreover have "wave_inv \<dots>"
    by (rule command_write_inv [where f = ?f, OF inv1 row1])
      (use ins row(2) expected seen checks in \<open>auto simp: insert_command_Inr started_room_def host_view_def
         terminal_room_def room_row_checks_def\<close>)
  ultimately show ?thesis by simp
qed

subsection \<open>Readiness, timing, catching up\<close>

lemma distinct_upsert:
  assumes "distinct (map key rows)"
  shows "distinct (map key (upsert key row rows))"
proof (cases "list_ex (\<lambda>r. key r = key row) rows")
  case True
  have "map key (update_rows (\<lambda>r. key r = key row) (\<lambda>_. row) rows) = map key rows"
    by (rule map_update_rows_same) simp
  with True assms show ?thesis by (simp add: upsert_def)
next
  case False
  with assms show ?thesis by (auto simp: upsert_def list_ex_iff)
qed

lemma upsert_ball: "\<forall>r \<in> set rows. P r \<Longrightarrow> P row \<Longrightarrow> \<forall>r \<in> set (upsert key row rows). P r"
  by (auto simp: upsert_def elim!: in_update_rowsE)

lemma reports_ok_preflight:
  "reports_ok ps ts \<Longrightarrow> preflight_row_checks p \<Longrightarrow> reports_ok (upsert preflight_key p ps) ts"
  unfolding reports_ok_def by (intro conjI distinct_upsert upsert_ball) simp_all

lemma reports_ok_timing:
  "reports_ok ps ts \<Longrightarrow> timing_row_checks t \<Longrightarrow> reports_ok ps (upsert timing_key t ts)"
  unfolding reports_ok_def by (intro conjI distinct_upsert upsert_ball) simp_all

lemma wave_preflight_inv:
  assumes "wave_preflight room p entry recording version a ready now db = Inr db'" and "wave_inv db"
  shows "wave_inv db'"
proof -
  from assms(1) obtain db1 where db1: "require_membership room p now db = Inr db1"
    and checks: "preflight_row_checks (preflight_report room (pr_device p) entry recording version a ready now)"
    and eq: "db' = db1\<lparr>wv_preflights := upsert preflight_key
      (preflight_report room (pr_device p) entry recording version a ready now) (wv_preflights db1)\<rparr>"
    by (auto simp: wave_preflight_def bind_result_eq_Inr Let_def split: if_splits)
  note inv = require_membership_inv [OF db1 assms(2)]
  from inv_reports [OF inv reports_ok_preflight [OF wave_invD(8) [OF inv] checks]] show ?thesis
    by (simp add: eq)
qed

lemma wave_timing_inv:
  assumes "wave_timing room p sequence rtt offset uncertainty skew drift now db = Inr db'" and "wave_inv db"
  shows "wave_inv db'"
proof -
  from assms(1) obtain db1 t where db1: "require_membership room p now db = Inr db1"
    and checks: "timing_row_checks t" and eq: "db' = db1\<lparr>wv_timings := upsert timing_key t (wv_timings db1)\<rparr>"
    by (auto simp: wave_timing_def bind_result_eq_Inr Let_def split: if_splits)
  note inv = require_membership_inv [OF db1 assms(2)]
  from inv_reports [OF inv reports_ok_timing [OF wave_invD(8) [OF inv] checks]] show ?thesis
    by (simp add: eq)
qed

lemma wave_catch_up_inv: "wave_catch_up room p n now db = Inr (events, db') \<Longrightarrow> wave_inv db \<Longrightarrow> wave_inv db'"
  by (auto simp: wave_catch_up_def bind_result_eq_Inr dest: require_membership_inv)

end
