(* ===== verification/Guest_Steps.thy ===== *)
theory Guest_Steps
  imports Wave_Steps
begin

text \<open>
  The operations on guests keep the invariant of the tables: invitations end with their sessions, a
  redemption counts, evidence refers to sessions that exist.
\<close>

subsection \<open>Frames\<close>

lemma inv_receipts:
  "wave_inv db \<Longrightarrow> receipts_ok rs \<Longrightarrow>
   references_ok (gs_id ` set (wv_guests db)) (gi_id ` set (wv_invitations db)) (wv_guest_preflights db)
     (wv_guest_timings db) rs \<Longrightarrow> wave_inv (db\<lparr>wv_receipts := rs\<rparr>)"
  by (simp add: wave_inv_def)

lemma inv_guests:
  "wave_inv db \<Longrightarrow> guests_ok (wv_invitations db) gs \<Longrightarrow> gs_id ` set gs = gs_id ` set (wv_guests db) \<Longrightarrow>
   wave_inv (db\<lparr>wv_guests := gs\<rparr>)"
  by (simp add: wave_inv_def)

lemma inv_guest_reports:
  "wave_inv db \<Longrightarrow> reports_ok ps ts \<Longrightarrow>
   references_ok (gs_id ` set (wv_guests db)) (gi_id ` set (wv_invitations db)) ps ts (wv_receipts db) \<Longrightarrow>
   wave_inv (db\<lparr>wv_guest_preflights := ps, wv_guest_timings := ts\<rparr>)"
  by (simp add: wave_inv_def)

lemma inv_rates: "wave_inv db \<Longrightarrow> distinct (map rw_key ws) \<Longrightarrow> wave_inv (db\<lparr>wv_rates := ws\<rparr>)"
  by (simp add: wave_inv_def)

lemma inv_world [simp]:
  "wave_inv (db\<lparr>wv_accounts := as\<rparr>) = wave_inv db" "wave_inv (db\<lparr>wv_devices := ds\<rparr>) = wave_inv db"
  "wave_inv (db\<lparr>wv_sessions := ss\<rparr>) = wave_inv db" "wave_inv (db\<lparr>wv_recordings := rs\<rparr>) = wave_inv db"
  by (simp_all add: wave_inv_def)

context retirement
begin

lemma retire_inv:
  assumes "wave_inv db" and "\<And>i. i \<in> set (wv_invitations db) \<Longrightarrow> P i \<Longrightarrow> live_invitation i"
  shows "wave_inv (update_invitations clk P f db)"
proof -
  note inv = wave_invD [OF assms(1)]
  have "gi_id ` set (update_rows P f (wv_invitations db)) = gi_id ` set (wv_invitations db)"
    by (rule retire_ids) (simp add: keeps)
  with inv invitations_ok_retire [OF inv(6) refl, of P] guests_ok_retire [where clk = clk, OF inv(7) assms(2)] show ?thesis
    by (intro wave_invI) (simp_all add: retire_each_ids)
qed

end

subsection \<open>Sessions, rates, receipts\<close>

lemma set_guest_Inr:
  "set_guest i f db = Inr db' \<longleftrightarrow>
     db' = db\<lparr>wv_guests := update_rows (\<lambda>s. gs_id s = i) f (wv_guests db)\<rparr>
     \<and> (\<forall>s \<in> set (wv_guests db). gs_id s = i \<longrightarrow> guest_session_checks (f s))"
  by (auto simp: set_guest_def bind_result_eq_Inr checked_update_Inr)

lemma set_guest_inv:
  assumes "set_guest i f db = Inr db'" and "wave_inv db"
    and "\<And>s. gs_id (f s) = gs_id s \<and> gs_secret (f s) = gs_secret s \<and> gs_invitation (f s) = gs_invitation s
      \<and> gs_room (f s) = gs_room s \<and> gs_epoch (f s) = gs_epoch s \<and> gs_expires_at (f s) = gs_expires_at s
      \<and> (gs_state (f s) = GsActive \<longrightarrow> gs_state s = GsActive)"
  shows "wave_inv db'"
proof -
  note inv = wave_invD [OF assms(2)]
  from assms(1) have eq: "db' = db\<lparr>wv_guests := update_rows (\<lambda>s. gs_id s = i) f (wv_guests db)\<rparr>"
    and checks: "\<forall>s \<in> set (wv_guests db). gs_id s = i \<longrightarrow> guest_session_checks (f s)"
    by (simp_all add: set_guest_Inr)
  have "session_of (wv_invitations db) (f s)" if "s \<in> set (wv_guests db)" for s
    using inv(7) that assms(3) [of s] by (fastforce simp: guests_ok_def session_of_def)
  then have "guests_ok (wv_invitations db) (update_rows (\<lambda>s. gs_id s = i) f (wv_guests db))"
    using checks assms(3) by (intro guests_ok_update [OF inv(7)]) auto
  moreover have "gs_id ` set (update_rows (\<lambda>s. gs_id s = i) f (wv_guests db)) = gs_id ` set (wv_guests db)"
    by (rule image_update_rows_same) (simp add: assms(3))
  ultimately show ?thesis unfolding eq by (rule inv_guests [OF assms(2)])
qed

lemma guest_access_Inr:
  assumes "guest_access secret room action now db = Inr (g, db')"
  obtains s i r where "s \<in> set (wv_guests db)" and "gs_secret s = secret" and "gs_room s = room"
    and "i \<in> set (wv_invitations db)" and "gi_id i = gs_invitation s"
    and "now < gs_expires_at s" and "now < gi_expires_at i" and "live_invitation i" and "host_active i now db"
    and "gs_state s = GsActive" and "open_room room now db = Inr r" and "gs_epoch s = ro_epoch r"
    and "gi_epoch i = ro_epoch r" and "action \<in> set (gs_actions s)"
    and "set_guest (gs_id s) (\<lambda>s. s\<lparr>gs_present_at := Some now\<rparr>) db = Inr db'"
    and "g = \<lparr>gp_session = gs_id s, gp_invitation = gs_invitation s, gp_room = gs_room s, gp_epoch = gs_epoch s,
      gp_actions = gs_actions s, gp_expires_at = gs_expires_at s\<rparr>"
proof -
  from assms obtain s where s: "find_guest secret db = Some s"
    by (auto simp: guest_access_def split: option.splits)
  note body = assms [unfolded guest_access_def s option.case if_Inl_eq_Inr]
  then obtain i where i: "find_invitation (gs_invitation s) db = Some i" by (auto split: option.splits)
  from body [unfolded i option.case if_Inl_eq_Inr] obtain r where
    "gs_room s = room" "now < gs_expires_at s" "now < gi_expires_at i" "gi_state i \<notin> {GiRevoked, GiRoomClosed, GiExpired}"
    "host_active i now db" "gs_state s = GsActive" "open_room room now db = Inr r" "gs_epoch s = ro_epoch r"
    "gi_epoch i = ro_epoch r" "action \<in> set (gs_actions s)"
    "set_guest (gs_id s) (\<lambda>s. s\<lparr>gs_present_at := Some now\<rparr>) db = Inr db'"
    "g = \<lparr>gp_session = gs_id s, gp_invitation = gs_invitation s, gp_room = gs_room s, gp_epoch = gs_epoch s,
      gp_actions = gs_actions s, gp_expires_at = gs_expires_at s\<rparr>"
    by (auto simp: bind_result_eq_Inr split: if_splits)
  moreover from this have "live_invitation i" by (cases "gi_state i") (auto simp: live_invitation_def)
  ultimately show thesis
    using that find_eq_Some_unique [OF s [unfolded find_guest_def]]
      find_eq_Some_unique [OF i [unfolded find_invitation_def]] by blast
qed

lemma guest_access_inv: "guest_access secret room action now db = Inr (g, db') \<Longrightarrow> wave_inv db \<Longrightarrow> wave_inv db'"
  by (erule guest_access_Inr) (rule set_guest_inv, auto)

lemma guest_authenticate_inv:
  "guest_authenticate sha256 bearer room action now db = Inr (g, db') \<Longrightarrow> wave_inv db \<Longrightarrow> wave_inv db'"
  by (auto simp: guest_authenticate_def bind_result_eq_Inr dest: guest_access_inv)

text \<open>The guest that acts has a row, and authenticating it keeps the other tables.\<close>

lemma guest_authenticate_frame:
  assumes "guest_authenticate sha256 bearer room action now db = Inr (g, db')"
  shows "gp_session g \<in> gs_id ` set (wv_guests db')" and "wv_guest_preflights db' = wv_guest_preflights db"
    and "wv_guest_timings db' = wv_guest_timings db" and "wv_rooms db' = wv_rooms db"
    and "wv_commands db' = wv_commands db" and "gp_room g = room"
proof -
  from assms obtain secret where "guest_access secret room action now db = Inr (g, db')"
    by (auto simp: guest_authenticate_def bind_result_eq_Inr)
  then obtain s where s: "s \<in> set (wv_guests db)" "gs_room s = room"
    "set_guest (gs_id s) (\<lambda>s. s\<lparr>gs_present_at := Some now\<rparr>) db = Inr db'" "gp_session g = gs_id s"
    "gp_room g = gs_room s"
    by (rule guest_access_Inr) auto
  then show "gp_session g \<in> gs_id ` set (wv_guests db')" "wv_guest_preflights db' = wv_guest_preflights db"
    "wv_guest_timings db' = wv_guest_timings db" "wv_rooms db' = wv_rooms db"
    "wv_commands db' = wv_commands db" "gp_room g = room"
    by (auto simp: set_guest_Inr image_update_rows_same)
qed

lemma rate_inv:
  assumes "rate sha256 scope subject limit now db = Inr db'" and "wave_inv db"
  shows "wave_inv db'"
proof -
  let ?key = "rate_key sha256 scope subject"
  have keep: "distinct (map rw_key (update_rows (\<lambda>v. rw_key v = ?key) (\<lambda>_. w) (wv_rates db)))" if "rw_key w = ?key" for w
  proof -
    have "map rw_key (update_rows (\<lambda>v. rw_key v = ?key) (\<lambda>_. w) (wv_rates db)) = map rw_key (wv_rates db)"
      by (rule map_update_rows_same) (simp add: that)
    with wave_invD(12) [OF assms(2)] show ?thesis by simp
  qed
  show ?thesis
  proof (cases "find (\<lambda>w. rw_key w = ?key) (wv_rates db)")
    case None
    then have "distinct (map rw_key (wv_rates db @ [fresh_window ?key scope now]))"
      using wave_invD(12) [OF assms(2)] by (auto simp: find_None_iff fresh_window_def)
    with assms None show ?thesis by (auto simp: rate_def Let_def intro: inv_rates)
  next
    case (Some w)
    with find_eq_Some_unique [OF Some] assms show ?thesis
      by (auto simp: rate_def Let_def fresh_window_def intro!: inv_rates keep split: if_splits)
  qed
qed

lemma rate_frame:
  assumes "rate sha256 scope subject limit now db = Inr db'"
  shows "wv_invitations db' = wv_invitations db" "wv_guests db' = wv_guests db" "wv_rooms db' = wv_rooms db"
    "wv_members db' = wv_members db" "wv_receipts db' = wv_receipts db"
  using assms by (auto simp: rate_def Let_def split: option.splits if_splits)

lemma insert_receipt_Inr:
  "insert_receipt r db = Inr db' \<longleftrightarrow>
     db' = db\<lparr>wv_receipts := wv_receipts db @ [r]\<rparr> \<and> length (gr_sha256 r) = 32 \<and> 1 \<le> len (gr_code r)
     \<and> len (gr_code r) \<le> 64 \<and> gr_created_at r < gr_expires_at r
     \<and> \<not> list_ex (\<lambda>q. gr_operation q = gr_operation r) (wv_receipts db)"
  by (auto simp: insert_receipt_def)

lemma insert_receipt_inv:
  assumes "insert_receipt r db = Inr db'" and "wave_inv db"
    and "set_option (gr_session r) \<subseteq> gs_id ` set (wv_guests db)"
    and "set_option (gr_invitation r) \<subseteq> gi_id ` set (wv_invitations db)"
  shows "wave_inv db'"
proof -
  from assms(1) have eq: "db' = db\<lparr>wv_receipts := wv_receipts db @ [r]\<rparr>" and r: "length (gr_sha256 r) = 32"
    "\<not> list_ex (\<lambda>q. gr_operation q = gr_operation r) (wv_receipts db)" by (simp_all add: insert_receipt_Inr)
  show ?thesis unfolding eq
    by (rule inv_receipts [OF assms(2)])
      (use wave_invD(10,11) [OF assms(2)] r assms(3,4) in \<open>auto simp: receipts_ok_def references_ok_def list_ex_iff\<close>)
qed

lemma new_receipt_simps [simp]:
  "gr_session (new_receipt operation actor action request result now invitation session room) = session"
  "gr_invitation (new_receipt operation actor action request result now invitation session room) = invitation"
  "gr_operation (new_receipt operation actor action request result now invitation session room) = operation"
  "gr_result (new_receipt operation actor action request result now invitation session room) = result"
  "gr_actor (new_receipt operation actor action request result now invitation session room) = actor"
  "gr_action (new_receipt operation actor action request result now invitation session room) = action"
  "gr_sha256 (new_receipt operation actor action request result now invitation session room) = request"
  "gr_room (new_receipt operation actor action request result now invitation session room) = Some room"
  by (simp_all add: new_receipt_def)

subsection \<open>Issuing and revoking\<close>

lemma insert_invitation_Inr:
  "insert_invitation i db = Inr db' \<longleftrightarrow>
     db' = db\<lparr>wv_invitations := wv_invitations db @ [i]\<rparr> \<and> guest_invitation_checks i
     \<and> \<not> list_ex (\<lambda>j. gi_id j = gi_id i) (wv_invitations db) \<and> \<not> list_ex (\<lambda>j. gi_secret j = gi_secret i) (wv_invitations db)
     \<and> list_ex (\<lambda>s. us_id s = gi_host_session i \<and> us_user s = gi_host_user i \<and> us_device s = gi_host_device i)
         (wv_sessions db)"
  by (auto simp: insert_invitation_def)

lemma insert_invitation_inv:
  assumes "insert_invitation i db = Inr db'" and "wave_inv db"
    and "r \<in> set (wv_rooms db)" "gi_room i = ro_id r" "\<not> terminal_room r"
    and "gi_consumed i = 0" and "1 \<le> gi_max_uses i"
  shows "wave_inv db'"
proof -
  note inv = wave_invD [OF assms(2)]
  from assms(1) have eq: "db' = db\<lparr>wv_invitations := wv_invitations db @ [i]\<rparr>" and checks: "guest_invitation_checks i"
    and fresh: "gi_id i \<notin> gi_id ` set (wv_invitations db)" "gi_secret i \<notin> gi_secret ` set (wv_invitations db)"
    by (auto simp: insert_invitation_Inr list_ex_iff)
  have "(ro_id r, True) \<notin> state_view ` set (wv_rooms db)"
    using room_unique [OF inv(1) _ assms(3)] assms(5) by (auto simp: state_view_def)
  then have "invitations_ok (state_view ` set (wv_rooms db)) (wv_invitations db @ [i])"
    using inv(6) checks fresh assms(4,6,7) in_ids [OF assms(3) view_fst(4)] by (auto simp: invitations_ok_def)
  moreover have none: "gs_invitation s \<noteq> gi_id i" if "s \<in> set (wv_guests db)" for s
    using inv(7) that fresh(1) by (auto simp: guests_ok_def session_of_def image_iff) metis
  have "guests_ok (wv_invitations db @ [i]) (wv_guests db)"
  proof (rule guests_okI)
    show "guest_session_checks s \<and> session_of (wv_invitations db @ [i]) s" if "s \<in> set (wv_guests db)" for s
      using inv(7) that by (auto simp: guests_ok_def session_of_def)
    have "count_rows (\<lambda>s. gs_invitation s = gi_id i) (wv_guests db) = 0"
      using none by (simp add: count_rows_def filter_empty_conv)
    then show "int (count_rows (\<lambda>s. gs_invitation s = gi_id j) (wv_guests db)) \<le> gi_consumed j"
      if "j \<in> set (wv_invitations db @ [i])" for j
      using that inv(7) assms(6) by (auto simp: guests_ok_def)
  qed (use inv(7) in \<open>simp_all add: guests_ok_def\<close>)
  moreover have "references_ok (gs_id ` set (wv_guests db)) (gi_id ` set (wv_invitations db @ [i]))
      (wv_guest_preflights db) (wv_guest_timings db) (wv_receipts db)"
    using inv(11) by (auto simp: references_ok_def)
  ultimately show ?thesis unfolding eq using inv by (intro wave_invI) simp_all
qed

lemma host_room_Inr:
  assumes "host_room p room now terminal db = Inr r"
  shows "r \<in> set (wv_rooms db)" "ro_id r = room" "\<not> terminal \<Longrightarrow> ro_state r = OPEN \<and> now < ro_expires_at r"
    "list_ex (\<lambda>m. joined room m \<and> wm_user m = pr_user p \<and> wm_device m = pr_device p \<and> wm_role m = HostRole)
       (wv_members db)"
  using assms by (auto simp: host_room_def dest: find_room_Some split: option.splits if_splits)

lemma guest_issue_Inr:
  assumes "guest_issue sha256 canonical fresh p room operation bearer ttl uses now db = Inr (doc, db')"
    and "find_receipt operation db = None"
  obtains secret r db1 db2 i where "secret_hash sha256 bearer = Inr secret" and "1 \<le> uses" and "uses \<le> 8"
    and "host_room p room now False db = Inr r"
    and "rate sha256 ''ISSUE_HOST'' (sha256 (text_bytes (uuid_str (pr_user p) @ '':'' @ uuid_str (pr_device p)))) 20 now db = Inr db1"
    and "i = new_invitation fresh r p secret uses (min (now + seconds ttl) (ro_expires_at r)) now"
    and "insert_invitation i db1 = Inr db2" and "doc = invitation_view i operation"
    and "insert_receipt (new_receipt operation (HostActor (pr_user p) (pr_device p)) ''ISSUE''
      (canonical (issue_request room secret ttl uses)) doc now (Some fresh) None room) db2 = Inr db'"
proof -
  from assms(1) obtain secret where secret: "secret_hash sha256 bearer = Inr secret"
    by (auto simp: guest_issue_def bind_result_eq_Inr)
  note body = assms(1) [unfolded guest_issue_def secret bind_result_simps if_Inl_eq_Inr Let_def]
  from body obtain r where r: "host_room p room now False db = Inr r" by (auto simp: bind_result_eq_Inr)
  from body [unfolded r bind_result_simps assms(2) option.case] obtain db1 db2 where
    "1 \<le> uses" "uses \<le> 8"
    "rate sha256 ''ISSUE_HOST'' (sha256 (text_bytes (uuid_str (pr_user p) @ '':'' @ uuid_str (pr_device p)))) 20 now db = Inr db1"
    "insert_invitation (new_invitation fresh r p secret uses (min (now + seconds ttl) (ro_expires_at r)) now) db1 = Inr db2"
    "insert_receipt (new_receipt operation (HostActor (pr_user p) (pr_device p)) ''ISSUE''
      (canonical (issue_request room secret ttl uses))
      (invitation_view (new_invitation fresh r p secret uses (min (now + seconds ttl) (ro_expires_at r)) now) operation)
      now (Some fresh) None room) db2 = Inr db'"
    "doc = invitation_view (new_invitation fresh r p secret uses (min (now + seconds ttl) (ro_expires_at r)) now) operation"
    by (auto simp: bind_result_eq_Inr max_guest_uses_def split: if_splits)
  with that [OF secret _ _ r _ refl] show thesis by blast
qed

lemma guest_issue_replay:
  assumes "guest_issue sha256 canonical fresh p room operation bearer ttl uses now db = Inr (doc, db')"
    and "find_receipt operation db = Some r"
  shows "db' = db" and "doc = gr_result r"
  using assms by (auto simp: guest_issue_def bind_result_eq_Inr Let_def host_replay_def split: if_splits)

lemma guest_issue_inv:
  assumes "guest_issue sha256 canonical fresh p room operation bearer ttl uses now db = Inr (doc, db')" and "wave_inv db"
  shows "wave_inv db'"
proof (cases "find_receipt operation db")
  case (Some r)
  from guest_issue_replay(1) [OF assms(1) this] assms(2) show ?thesis by simp
next
  case None
  from assms(1) None obtain secret r db1 db2 i where s: "1 \<le> uses" "host_room p room now False db = Inr r"
    "rate sha256 ''ISSUE_HOST'' (sha256 (text_bytes (uuid_str (pr_user p) @ '':'' @ uuid_str (pr_device p)))) 20 now db = Inr db1"
    "i = new_invitation fresh r p secret uses (min (now + seconds ttl) (ro_expires_at r)) now"
    "insert_invitation i db1 = Inr db2"
    "insert_receipt (new_receipt operation (HostActor (pr_user p) (pr_device p)) ''ISSUE''
      (canonical (issue_request room secret ttl uses)) doc now (Some fresh) None room) db2 = Inr db'"
    by (rule guest_issue_Inr) blast
  note r = host_room_Inr [OF s(2)]
  have inv1: "wave_inv db1" by (rule rate_inv [OF s(3) assms(2)])
  have row: "r \<in> set (wv_rooms db1)" "\<not> terminal_room r"
    using r(1,3) rate_frame [OF s(3)] by (simp_all add: terminal_room_def)
  have inv2: "wave_inv db2"
    by (rule insert_invitation_inv [OF s(5) inv1 row(1) _ row(2)]) (use s(1) in \<open>simp_all add: s(4) new_invitation_def\<close>)
  show ?thesis
    by (rule insert_receipt_inv [OF s(6) inv2]) (use s(5) in \<open>simp_all add: s(4) new_invitation_def insert_invitation_Inr\<close>)
qed

lemma invitation_unique:
  assumes "wave_inv db" and "i \<in> set (wv_invitations db)" and "j \<in> set (wv_invitations db)" and "gi_id i = gi_id j"
  shows "i = j"
proof -
  have "distinct (map gi_id (wv_invitations db))" using wave_invD(6) [OF assms(1)] by (simp add: invitations_ok_def)
  with assms(2-4) show ?thesis by (auto simp: distinct_map dest: inj_onD)
qed

lemma find_invitation_Some:
  assumes "find_invitation k db = Some i"
  shows "i \<in> set (wv_invitations db)" and "gi_id i = k"
  using find_eq_Some_unique [OF assms [unfolded find_invitation_def]] by auto

lemma guest_revoke_inv:
  assumes "guest_revoke canonical p invitation operation now clk db = Inr (doc, db')" and "wave_inv db"
  shows "wave_inv db'"
proof -
  from assms(1) obtain i where i: "find_invitation invitation db = Some i"
    by (auto simp: guest_revoke_def Let_def split: option.splits)
  note found = find_invitation_Some [OF i]
  show ?thesis
  proof (cases "find_receipt operation db")
    case (Some r)
    with assms i show ?thesis by (auto simp: guest_revoke_def Let_def bind_result_eq_Inr)
  next
    case None
    let ?db1 = "if live_invitation i then update_invitations clk (\<lambda>j. gi_id j = invitation) (revoked_invitation now) db else db"
    from assms(1) i None obtain r where r: "insert_receipt r ?db1 = Inr db'" "gr_session r = None"
      "gr_invitation r = Some invitation"
      by (auto simp: guest_revoke_def Let_def bind_result_eq_Inr split: if_splits)
    have inv1: "wave_inv ?db1"
    proof (cases "live_invitation i")
      case True
      have "wave_inv (update_invitations clk (\<lambda>j. gi_id j = invitation) (revoked_invitation now) db)"
        by (rule host_revokes.retire_inv [OF assms(2)]) (use invitation_unique [OF assms(2) found(1)] found(2) True in auto)
      with True show ?thesis by simp
    qed (use assms(2) in simp)
    have ids: "gi_id ` set (wv_invitations ?db1) = gi_id ` set (wv_invitations db)"
      by (simp add: retire_ids host_revokes.keeps)
    show ?thesis
      by (rule insert_receipt_inv [OF r(1) inv1]) (use r(2,3) found in \<open>auto simp: ids\<close>)
  qed
qed

subsection \<open>Redeeming\<close>

lemma insert_guest_Inr:
  "insert_guest s db = Inr db' \<longleftrightarrow>
     db' = db\<lparr>wv_guests := wv_guests db @ [s]\<rparr> \<and> guest_session_checks s
     \<and> \<not> list_ex (\<lambda>t. gs_id t = gs_id s) (wv_guests db) \<and> \<not> list_ex (\<lambda>t. gs_secret t = gs_secret s) (wv_guests db)"
  by (auto simp: insert_guest_def)

lemma consumed_invitation_simps [simp]:
  "gi_id (consumed_invitation now i) = gi_id i" "gi_room (consumed_invitation now i) = gi_room i"
  "gi_epoch (consumed_invitation now i) = gi_epoch i" "gi_secret (consumed_invitation now i) = gi_secret i"
  "gi_expires_at (consumed_invitation now i) = gi_expires_at i"
  "gi_consumed (consumed_invitation now i) = gi_consumed i + 1"
  "gi_max_uses (consumed_invitation now i) = gi_max_uses i"
  "gi_state i = GiPending \<Longrightarrow> live_invitation (consumed_invitation now i)"
  by (auto simp: consumed_invitation_def Let_def live_invitation_def)

lemma redeem_write_inv:
  assumes "wave_inv db" and "i \<in> set (wv_invitations db)" and "gi_state i = GiPending"
    and "insert_guest s db = Inr db1" and "gs_invitation s = gi_id i" and "gs_room s = gi_room i"
    and "gs_epoch s = gi_epoch i" and "gs_expires_at s \<le> gi_expires_at i"
  shows "wave_inv (update_invitations clk (\<lambda>j. gi_id j = gi_id i) (consumed_invitation now) db1)"
proof -
  note inv = wave_invD [OF assms(1)]
  let ?f = "consumed_invitation now" and ?P = "\<lambda>j. gi_id j = gi_id i"
  let ?is = "update_rows ?P ?f (wv_invitations db)"
  from assms(4) have eq: "db1 = db\<lparr>wv_guests := wv_guests db @ [s]\<rparr>" and s: "guest_session_checks s"
    "gs_id s \<notin> gs_id ` set (wv_guests db)" "gs_secret s \<notin> gs_secret ` set (wv_guests db)"
    by (auto simp: insert_guest_Inr list_ex_iff)
  have only: "j = i" if "j \<in> set (wv_invitations db)" "?P j" for j
    using invitation_unique [OF assms(1) that(1) assms(2)] that(2) by simp
  have i: "guest_invitation_checks i" "gi_consumed i < gi_max_uses i" "(gi_room i, True) \<notin> state_view ` set (wv_rooms db)"
    "gi_room i \<in> fst ` state_view ` set (wv_rooms db)"
    using inv(6) assms(2,3) by (auto simp: invitations_ok_def live_invitation_def)
  have idle: "retire_each clk ?f (filter ?P (wv_invitations db)) guests = guests" for guests
  proof (rule retire_each_idle)
    fix j assume "j \<in> set (filter ?P (wv_invitations db))"
    then have "j = i" using only by simp
    with assms(3) show "gi_state (?f j) \<notin> {GiRevoked, GiExpired, GiRoomClosed}"
      by (simp add: consumed_invitation_def Let_def)
  qed
  have cases: "j \<in> set (wv_invitations db) \<and> gi_id j \<noteq> gi_id i \<or> j = ?f i" if "j \<in> set ?is" for j
    using that by (rule in_update_rowsE) (use only in auto)
  have new: "guest_invitation_checks (?f i)" "gi_state (?f i) = GiPending \<Longrightarrow> gi_consumed (?f i) < gi_max_uses (?f i)"
    using i(1,2) assms(3) by (auto simp: guest_invitation_checks_def consumed_invitation_def Let_def)
  have invitations: "invitations_ok (state_view ` set (wv_rooms db)) ?is"
  proof -
    have row: "guest_invitation_checks j \<and> gi_room j \<in> fst ` state_view ` set (wv_rooms db)
        \<and> (live_invitation j \<longrightarrow> (gi_room j, True) \<notin> state_view ` set (wv_rooms db))
        \<and> (gi_state j = GiPending \<longrightarrow> gi_consumed j < gi_max_uses j)" if "j \<in> set ?is" for j
      using cases [OF that]
    proof
      assume "j \<in> set (wv_invitations db) \<and> gi_id j \<noteq> gi_id i"
      with inv(6) show ?thesis unfolding invitations_ok_def by blast
    qed (use new i(3,4) in simp)
    then show ?thesis using inv(6) by (simp add: invitations_ok_def map_update_rows_same)
  qed
  have mine: "?f i \<in> set ?is" using assms(2) by (auto simp: in_update_rows)
  have "guests_ok ?is (wv_guests db @ [s])"
  proof (rule guests_okI)
    show "distinct (map gs_id (wv_guests db @ [s]))" "distinct (map gs_secret (wv_guests db @ [s]))"
      using inv(7) s by (simp_all add: guests_ok_def)
    have old: "session_of ?is t" if "t \<in> set (wv_guests db)" for t
    proof -
      from inv(7) that obtain j where j: "j \<in> set (wv_invitations db)" "gi_id j = gs_invitation t"
        "gi_room j = gs_room t" "gi_epoch j = gs_epoch t" "gs_expires_at t \<le> gi_expires_at j"
        "gs_state t = GsActive \<longrightarrow> live_invitation j" by (auto simp: guests_ok_def session_of_def)
      show ?thesis
      proof (cases "?P j")
        case True
        with only j assms(3) mine show ?thesis unfolding session_of_def by (intro bexI [OF _ mine]) auto
      next
        case False
        with j(1) have "j \<in> set ?is" unfolding in_update_rows by (intro bexI [of _ j]) simp_all
        with j show ?thesis unfolding session_of_def by blast
      qed
    qed
    have "session_of ?is s"
      unfolding session_of_def by (intro bexI [OF _ mine]) (use assms(3,5-8) in simp)
    with old s(1) inv(7) show "guest_session_checks t \<and> session_of ?is t" if "t \<in> set (wv_guests db @ [s])" for t
      using that by (auto simp: guests_ok_def)
    show "int (count_rows (\<lambda>t. gs_invitation t = gi_id j) (wv_guests db @ [s])) \<le> gi_consumed j" if "j \<in> set ?is" for j
    proof -
      have bound: "int (count_rows (\<lambda>t. gs_invitation t = gi_id k) (wv_guests db)) \<le> gi_consumed k"
        if "k \<in> set (wv_invitations db)" for k using inv(7) that unfolding guests_ok_def by blast
      have split: "count_rows P (wv_guests db @ [s]) = count_rows P (wv_guests db) + (if P s then 1 else 0)" for P
        by (simp add: count_rows_def)
      from cases [OF that] show ?thesis
      proof
        assume "j \<in> set (wv_invitations db) \<and> gi_id j \<noteq> gi_id i"
        with bound [of j] assms(5) show ?thesis by (simp add: split)
      qed (use bound [OF assms(2)] assms(5) in \<open>simp add: split\<close>)
    qed
  qed
  moreover have "gi_id ` set ?is = gi_id ` set (wv_invitations db)" by (rule retire_ids) simp
  moreover have "references_ok (gs_id ` set (wv_guests db @ [s])) (gi_id ` set (wv_invitations db))
      (wv_guest_preflights db) (wv_guest_timings db) (wv_receipts db)"
    using inv(11) by (auto simp: references_ok_def)
  ultimately show ?thesis using inv invitations unfolding eq
    by (intro wave_invI) (simp_all add: idle)
qed

lemma redeem_body_Inr:
  assumes "redeem_body fresh invitation room operation document_hash access name request now clk db = Inr (doc, db')"
  obtains i r db1 where "i \<in> set (wv_invitations db)" and "gi_id i = invitation" and "gi_room i = room"
    and "gi_secret i = document_hash" and "now < gi_expires_at i" and "gi_state i = GiPending"
    and "open_room room now db = Inr r" and "ro_epoch r = gi_epoch i" and "participants room now db < 8"
    and "insert_guest (new_guest fresh i r access name now) db = Inr db1"
    and "doc = redeem_result operation (new_guest fresh i r access name now)"
    and "insert_receipt (new_receipt operation (DocumentActor document_hash) ''REDEEM'' request doc now
        (Some invitation) (Some fresh) room)
      (update_invitations clk (\<lambda>j. gi_id j = invitation) (consumed_invitation now) db1) = Inr db'"
proof -
  from assms obtain i where
    i: "find (\<lambda>i. gi_id i = invitation \<and> gi_room i = room \<and> gi_secret i = document_hash) (wv_invitations db) = Some i"
    by (auto simp: redeem_body_def split: option.splits)
  note body = assms [unfolded redeem_body_def i option.case if_Inl_eq_Inr]
  then obtain r where r: "open_room room now db = Inr r" by (auto simp: bind_result_eq_Inr)
  note rest = body [unfolded r bind_result_simps if_Inl_eq_Inr Let_def]
  then obtain db1 db2 where "insert_guest (new_guest fresh i r access name now) db = Inr db1"
    "insert_receipt (new_receipt operation (DocumentActor document_hash) ''REDEEM'' request
        (redeem_result operation (new_guest fresh i r access name now)) now (Some invitation) (Some fresh) room)
      (update_invitations clk (\<lambda>j. gi_id j = invitation) (consumed_invitation now) db1) = Inr db2"
    "(redeem_result operation (new_guest fresh i r access name now), db2) = (doc, db')"
    by (auto simp: bind_result_eq_Inr)
  with rest find_eq_Some_unique [OF i] that [OF _ _ _ _ _ _ r] show thesis
    by (auto simp: max_room_participants_def)
qed

lemma open_room_Inr:
  assumes "open_room room now db = Inr r"
  shows "r \<in> set (wv_rooms db)" and "ro_id r = room" and "ro_state r = OPEN" and "now < ro_expires_at r"
  using assms by (auto simp: open_room_def dest: find_room_Some split: option.splits if_splits)

lemma redeem_body_inv:
  assumes "redeem_body fresh invitation room operation document_hash access name request now clk db = Inr (doc, db')"
    and "wave_inv db"
  shows "wave_inv db'"
proof -
  from assms(1) obtain i r db1 where i: "i \<in> set (wv_invitations db)" "gi_id i = invitation" "gi_room i = room"
    "gi_state i = GiPending" and r: "open_room room now db = Inr r" "ro_epoch r = gi_epoch i"
    and db1: "insert_guest (new_guest fresh i r access name now) db = Inr db1"
    and receipt: "insert_receipt (new_receipt operation (DocumentActor document_hash) ''REDEEM'' request doc now
        (Some invitation) (Some fresh) room)
      (update_invitations clk (\<lambda>j. gi_id j = invitation) (consumed_invitation now) db1) = Inr db'"
    by (rule redeem_body_Inr) blast
  let ?db2 = "update_invitations clk (\<lambda>j. gi_id j = gi_id i) (consumed_invitation now) db1"
  note room = open_room_Inr [OF r(1)]
  have inv2: "wave_inv ?db2"
    by (rule redeem_write_inv [OF assms(2) i(1,4) db1]) (use room r(2) i in \<open>simp_all add: new_guest_def\<close>)
  have "gs_id ` set (wv_guests ?db2) = insert fresh (gs_id ` set (wv_guests db))"
    using db1 by (simp add: retire_each_ids insert_guest_Inr new_guest_def)
  moreover have "gi_id ` set (wv_invitations ?db2) = gi_id ` set (wv_invitations db)"
    using db1 by (simp add: retire_ids insert_guest_Inr)
  ultimately show ?thesis
    using insert_receipt_inv [OF receipt [folded i(2)] inv2] i(1,2) by auto
qed

lemma document_replay_inv:
  "document_replay r document_hash access request room now db = Inr (doc, db') \<Longrightarrow> wave_inv db \<Longrightarrow> wave_inv db'"
  by (auto simp: document_replay_def bind_result_eq_Inr dest: guest_access_inv split: if_splits option.splits)

text \<open>Whatever a redemption returns, it leaves consistent tables.\<close>

lemma guest_redeem_cases:
  assumes "guest_redeem sha256 canonical uc fresh invitation room operation document_bearer session_bearer display
     source now clk db = (result, db')"
  obtains (unchanged) "db' = db" and "\<exists>e. result = Inl e"
    | (replayed) r document_hash access request doc where "find_receipt operation db = Some r"
        and "document_replay r document_hash access request room now db = Inr (doc, db')" and "result = Inr doc"
    | (counted) document_hash where
        "bind_result (rate sha256 ''REDEEM_SOURCE'' source 30 now db)
           (rate sha256 ''REDEEM_DOCUMENT'' document_hash 10 now) = Inr db'" and "\<exists>e. result = Inl e"
    | (redeemed) document_hash access name request db1 doc where
        "bind_result (rate sha256 ''REDEEM_SOURCE'' source 30 now db)
           (rate sha256 ''REDEEM_DOCUMENT'' document_hash 10 now) = Inr db1"
        and "find_receipt operation db = None" and "secret_hash sha256 document_bearer = Inr document_hash"
        and "secret_hash sha256 session_bearer = Inr access"
        and "redeem_body fresh invitation room operation document_hash access name request now clk db1 = Inr (doc, db')"
        and "result = Inr doc"
proof (cases "bind_result (secret_hash sha256 document_bearer) (\<lambda>document_hash.
           bind_result (secret_hash sha256 session_bearer) (\<lambda>access.
           bind_result (display_name uc display) (\<lambda>name. Inr (document_hash, access, name))))")
  case (Inl e)
  with assms have "db' = db" "result = Inl e" by (auto simp: guest_redeem_def)
  then show thesis using unchanged by blast
next
  case (Inr x)
  then obtain document_hash access name where x: "x = (document_hash, access, name)"
    and hashes: "secret_hash sha256 document_bearer = Inr document_hash" "secret_hash sha256 session_bearer = Inr access"
    by (auto simp: bind_result_eq_Inr)
  let ?request = "canonical (redeem_request invitation room document_hash access name)"
  note body = assms [unfolded guest_redeem_def Inr x sum.case prod.case Let_def]
  show thesis
  proof (cases "find_receipt operation db")
    case (Some r)
    show thesis
    proof (cases "document_replay r document_hash access ?request room now db")
      case (Inl e)
      with body Some unchanged show thesis by auto
    next
      case (Inr y)
      with body Some replayed show thesis by (cases y) simp
    qed
  next
    case None
    show thesis
    proof (cases "bind_result (rate sha256 ''REDEEM_SOURCE'' source 30 now db)
           (rate sha256 ''REDEEM_DOCUMENT'' document_hash 10 now)")
      case (Inl e)
      with body None unchanged show thesis by auto
    next
      case rated: (Inr db1)
      then have "find_receipt operation db1 = None"
        using None rate_frame(5) by (fastforce simp: bind_result_eq_Inr find_receipt_def)
      with body None rated have rest: "(case redeem_body fresh invitation room operation document_hash access name
          ?request now clk db1 of Inl e \<Rightarrow> (Inl e, db1) | Inr (doc, db') \<Rightarrow> (Inr doc, db')) = (result, db')" by simp
      show thesis
      proof (cases "redeem_body fresh invitation room operation document_hash access name ?request now clk db1")
        case (Inl e)
        with rest rated counted show thesis by auto
      next
        case (Inr y)
        with rest rated None hashes redeemed show thesis by (cases y) simp
      qed
    qed
  qed
qed

lemma rates_inv:
  "bind_result (rate sha256 a x m now db) (rate sha256 b y n now) = Inr db' \<Longrightarrow> wave_inv db \<Longrightarrow> wave_inv db'"
  by (auto simp: bind_result_eq_Inr dest: rate_inv)

lemma guest_redeem_inv:
  assumes "guest_redeem sha256 canonical uc fresh invitation room operation document_bearer session_bearer display
     source now clk db = (result, db')" and "wave_inv db"
  shows "wave_inv db'"
  using assms(1)
proof (cases rule: guest_redeem_cases)
  case unchanged
  with assms(2) show ?thesis by simp
next
  case (replayed r document_hash access request doc)
  from document_replay_inv [OF replayed(2) assms(2)] show ?thesis .
next
  case (counted document_hash)
  from rates_inv [OF counted(1) assms(2)] show ?thesis .
next
  case (redeemed document_hash access name request db1 doc)
  from redeem_body_inv [OF redeemed(5) rates_inv [OF redeemed(1) assms(2)]] show ?thesis .
qed

end
