(* ===== verification/Guest_Activity.thy ===== *)
theory Guest_Activity
  imports Guest_Steps
begin

text \<open>
  What a guest does in its room, and the periodic cleanup, keep the invariant: readiness and timing refer
  to the acting session, expiry ends invitations with their sessions, and only rows that nothing refers
  to are deleted.
\<close>

subsection \<open>Presence, readiness, timing, events\<close>

lemma guest_view_Inr:
  assumes "guest_view g now db = Inr val"
  obtains r where "open_room (gp_room g) now db = Inr r" and "wr_version val = ro_version r"
    and "wr_sequence val = ro_sequence r" and "wr_epoch val = ro_epoch r"
    and "wr_queue val = room_queue (gp_room g) db" and "wr_role val = GuestRole"
  using assms by (auto simp: guest_view_def bind_result_eq_Inr)

lemma guest_snapshot_inv:
  assumes "guest_snapshot sha256 bearer room now db = Inr (val, db')" and "wave_inv db"
  shows "wave_inv db'"
proof -
  from assms(1) obtain g where "guest_authenticate sha256 bearer room ''ROOM_SNAPSHOT'' now db = Inr (g, db')"
    by (auto simp: guest_snapshot_def bind_result_eq_Inr)
  with assms(2) show ?thesis by (rule guest_authenticate_inv [rotated])
qed

lemma guest_presence_inv: "guest_presence sha256 bearer room now db = Inr db' \<Longrightarrow> wave_inv db \<Longrightarrow> wave_inv db'"
  by (auto simp: guest_presence_def bind_result_eq_Inr dest: guest_authenticate_inv)

lemma guest_catch_up_inv:
  "guest_catch_up sha256 bearer room n now db = Inr (events, db') \<Longrightarrow> wave_inv db \<Longrightarrow> wave_inv db'"
  by (auto simp: guest_catch_up_def bind_result_eq_Inr dest: guest_authenticate_inv)

lemma set_upsert: "set (upsert key row rows) \<subseteq> insert row (set rows)"
  by (auto simp: upsert_def elim!: in_update_rowsE)

lemma references_ok_preflight:
  "references_ok S I ps ts rs \<Longrightarrow> wp_participant p \<in> S \<Longrightarrow> references_ok S I (upsert preflight_key p ps) ts rs"
  by (auto simp: references_ok_def image_subset_iff dest!: set_upsert [THEN subsetD])

lemma references_ok_timing:
  "references_ok S I ps ts rs \<Longrightarrow> wt_participant t \<in> S \<Longrightarrow> references_ok S I ps (upsert timing_key t ts) rs"
  by (auto simp: references_ok_def image_subset_iff dest!: set_upsert [THEN subsetD])

lemma guest_preflight_inv:
  assumes "guest_preflight sha256 bearer room entry recording version a ready now db = Inr db'" and "wave_inv db"
  shows "wave_inv db'"
proof -
  from assms(1) obtain g db1 where g: "guest_authenticate sha256 bearer room ''ROOM_PREFLIGHT'' now db = Inr (g, db1)"
    and checks: "preflight_row_checks (preflight_report room (gp_session g) entry recording version a ready now)"
    and eq: "db' = db1\<lparr>wv_guest_preflights := upsert preflight_key
      (preflight_report room (gp_session g) entry recording version a ready now) (wv_guest_preflights db1)\<rparr>"
    by (auto simp: guest_preflight_def bind_result_eq_Inr Let_def split: if_splits)
  note inv = guest_authenticate_inv [OF g assms(2)]
  have "references_ok (gs_id ` set (wv_guests db1)) (gi_id ` set (wv_invitations db1))
      (upsert preflight_key (preflight_report room (gp_session g) entry recording version a ready now)
        (wv_guest_preflights db1)) (wv_guest_timings db1) (wv_receipts db1)"
    by (rule references_ok_preflight [OF wave_invD(11) [OF inv]])
      (use guest_authenticate_frame(1) [OF g] in \<open>simp add: preflight_report_def\<close>)
  from inv_guest_reports [OF inv reports_ok_preflight [OF wave_invD(9) [OF inv] checks] this] show ?thesis
    by (simp add: eq)
qed

lemma guest_timing_Inr:
  assumes "guest_timing sha256 bearer room sequence rtt offset uncertainty skew drift now db = Inr db'"
  obtains g db1 t where "guest_authenticate sha256 bearer room ''ROOM_TIMING'' now db = Inr (g, db1)"
    and "timing_row_checks t" and "wt_participant t = gp_session g"
    and "db' = db1\<lparr>wv_guest_timings := upsert timing_key t (wv_guest_timings db1)\<rparr>"
proof -
  from assms obtain g db1 where g: "guest_authenticate sha256 bearer room ''ROOM_TIMING'' now db = Inr (g, db1)"
    and "0 \<le> rtt" "rtt \<le> 1000" "0 \<le> uncertainty" "uncertainty \<le> 100" "\<bar>offset\<bar> \<le> 86400000"
    and "db' = db1\<lparr>wv_guest_timings := upsert timing_key
               \<lparr>wt_room = room, wt_participant = gp_session g, wt_sequence = sequence, wt_rtt_ms = rtt,
                wt_offset_ms = offset, wt_uncertainty_ms = uncertainty, wt_skew_ms = skew,
                wt_drift_ms = drift, wt_reported_at = now\<rparr> (wv_guest_timings db1)\<rparr>"
    by (auto simp: guest_timing_def bind_result_eq_Inr split: if_splits)
  then show thesis by (intro that [OF g]) (simp_all add: timing_row_checks_def)
qed

lemma guest_timing_inv:
  assumes "guest_timing sha256 bearer room sequence rtt offset uncertainty skew drift now db = Inr db'"
    and "wave_inv db"
  shows "wave_inv db'"
proof -
  from assms(1) obtain g db1 t where g: "guest_authenticate sha256 bearer room ''ROOM_TIMING'' now db = Inr (g, db1)"
    and t: "timing_row_checks t" "wt_participant t = gp_session g"
    and eq: "db' = db1\<lparr>wv_guest_timings := upsert timing_key t (wv_guest_timings db1)\<rparr>"
    by (rule guest_timing_Inr) blast
  note inv = guest_authenticate_inv [OF g assms(2)]
  have "references_ok (gs_id ` set (wv_guests db1)) (gi_id ` set (wv_invitations db1)) (wv_guest_preflights db1)
      (upsert timing_key t (wv_guest_timings db1)) (wv_receipts db1)"
    by (rule references_ok_timing [OF wave_invD(11) [OF inv]]) (use guest_authenticate_frame(1) [OF g] t(2) in simp)
  from inv_guest_reports [OF inv reports_ok_timing [OF wave_invD(9) [OF inv] t(1)] this] show ?thesis
    by (simp add: eq)
qed

subsection \<open>Leaving\<close>

lemma guest_leave_cases:
  assumes "guest_leave sha256 canonical bearer room operation now db = Inr (doc, db')"
  obtains (replayed) "db' = db"
    | (left) secret s g db1 db2 where "secret_hash sha256 bearer = Inr secret"
        and "guest_access secret room ''ROOM_LEAVE'' now db = Inr (g, db1)" and "gs_secret s = secret"
        and "s \<in> set (wv_guests db)" and "set_guest (gs_id s) (left_guest now) db1 = Inr db2"
        and "insert_receipt (new_receipt operation (SessionActor (gp_session g)) ''LEAVE''
              (canonical [str_value ''room_id'' (uuid_str room)]) doc now None (Some (gp_session g)) room) db2 = Inr db'"
proof -
  from assms obtain secret where secret: "secret_hash sha256 bearer = Inr secret"
    by (auto simp: guest_leave_def bind_result_eq_Inr)
  note body = assms [unfolded guest_leave_def secret bind_result_simps Let_def]
  from body obtain s where s: "find (\<lambda>s. gs_secret s = secret \<and> gs_room s = room) (wv_guests db) = Some s"
    by (auto split: option.splits)
  show thesis
  proof (cases "find_receipt operation db")
    case (Some r)
    with body s replayed show thesis by (auto split: if_splits)
  next
    case None
    with body s obtain g db1 db2 where "guest_access secret room ''ROOM_LEAVE'' now db = Inr (g, db1)"
      "set_guest (gs_id s) (left_guest now) db1 = Inr db2"
      "insert_receipt (new_receipt operation (SessionActor (gp_session g)) ''LEAVE''
              (canonical [str_value ''room_id'' (uuid_str room)]) doc now None (Some (gp_session g)) room) db2 = Inr db'"
      by (auto simp: bind_result_eq_Inr)
    with find_eq_Some_unique [OF s] secret left show thesis by blast
  qed
qed

lemma guest_leave_inv:
  assumes "guest_leave sha256 canonical bearer room operation now db = Inr (doc, db')" and "wave_inv db"
  shows "wave_inv db'"
  using assms(1)
proof (cases rule: guest_leave_cases)
  case replayed
  with assms(2) show ?thesis by simp
next
  case (left secret s g db1 db2)
  have inv1: "wave_inv db1" by (rule guest_access_inv [OF left(2) assms(2)])
  have inv2: "wave_inv db2" by (rule set_guest_inv [OF left(5) inv1]) (simp add: left_guest_def)
  have "gp_session g \<in> gs_id ` set (wv_guests db1)"
    using left(2) by (rule guest_access_Inr) (auto simp: set_guest_Inr image_update_rows_same)
  moreover have "gs_id ` set (wv_guests db2) = gs_id ` set (wv_guests db1)"
    using left(5) by (simp add: set_guest_Inr image_update_rows_same left_guest_def)
  ultimately show ?thesis by (intro insert_receipt_inv [OF left(6) inv2]) simp_all
qed

subsection \<open>Cleaning up\<close>

lemma first_keys_set:
  "k \<in> set (first_keys limit order P key rows) \<Longrightarrow> \<exists>r \<in> set rows. P r \<and> key r = k"
  by (auto simp: first_keys_def dest!: in_set_takeD)

lemma length_first_keys: "length (first_keys limit order P key rows) \<le> limit"
  by (simp add: first_keys_def)

lemma expired_guest_inv:
  assumes "wave_inv db"
  shows "wave_inv (db\<lparr>wv_guests := update_rows (\<lambda>s. gs_id s \<in> ids) (expired_guest now) (wv_guests db)\<rparr>)"
proof (rule inv_guests [OF assms])
  note inv = wave_invD(7) [OF assms]
  show "guests_ok (wv_invitations db) (update_rows (\<lambda>s. gs_id s \<in> ids) (expired_guest now) (wv_guests db))"
  proof (rule guests_ok_update [OF inv])
    fix s assume "s \<in> set (wv_guests db)"
    with inv have s: "guest_session_checks s" "session_of (wv_invitations db) s" by (simp_all add: guests_ok_def)
    from s(1) have "guest_session_checks (expired_guest now s)"
      by (simp add: guest_session_checks_def expired_guest_def split: option.splits)
    moreover from s(2) have "session_of (wv_invitations db) (expired_guest now s)"
      unfolding session_of_def by (auto simp: expired_guest_def)
    ultimately show "gs_id (expired_guest now s) = gs_id s \<and> gs_secret (expired_guest now s) = gs_secret s
        \<and> gs_invitation (expired_guest now s) = gs_invitation s \<and> guest_session_checks (expired_guest now s)
        \<and> session_of (wv_invitations db) (expired_guest now s)"
      by (simp add: expired_guest_def)
  qed
  show "gs_id ` set (update_rows (\<lambda>s. gs_id s \<in> ids) (expired_guest now) (wv_guests db)) = gs_id ` set (wv_guests db)"
    by (rule image_update_rows_same) (simp add: expired_guest_def)
qed

lemma expire_guests_inv:
  assumes "expire_guests now clk limit db = (n, m, db')" and "wave_inv db"
  shows "wave_inv db'"
proof -
  let ?ids = "first_keys limit gi_expires_at (\<lambda>i. gi_state i = GiPending \<and> gi_expires_at i \<le> now) gi_id
                (wv_invitations db)"
  have "wave_inv (update_invitations clk (\<lambda>i. gi_id i \<in> set ?ids) (expired_invitation now) db)"
  proof (rule time_passes.retire_inv [OF assms(2)])
    fix i assume i: "i \<in> set (wv_invitations db)" "gi_id i \<in> set ?ids"
    from first_keys_set [OF i(2)] obtain j where j: "j \<in> set (wv_invitations db)" "gi_state j = GiPending" "gi_id j = gi_id i"
      by auto
    from invitation_unique [OF assms(2) i(1) j(1)] j show "live_invitation i" by (simp add: live_invitation_def)
  qed
  from expired_guest_inv [OF this] assms(1) show ?thesis by (auto simp: expire_guests_def Let_def)
qed

lemma delete_first_frame:
  assumes "delete_first limit order P key rows = (n, rows')"
  shows "set rows' \<subseteq> set rows" and "distinct (map f rows) \<Longrightarrow> distinct (map f rows')" and "n \<le> limit"
  using assms by (auto simp: delete_first_def Let_def distinct_delete_rows length_first_keys)

lemma references_okI:
  assumes "\<And>p. p \<in> set ps \<Longrightarrow> wp_participant p \<in> S" and "\<And>t. t \<in> set ts \<Longrightarrow> wt_participant t \<in> S"
    and "\<And>r. r \<in> set rs \<Longrightarrow> set_option (gr_session r) \<subseteq> S" and "\<And>r. r \<in> set rs \<Longrightarrow> set_option (gr_invitation r) \<subseteq> I"
  shows "references_ok S I ps ts rs"
  unfolding references_ok_def using assms by (intro conjI ballI image_subsetI)

lemma references_okD:
  assumes "references_ok S I ps ts rs"
  shows "p \<in> set ps \<Longrightarrow> wp_participant p \<in> S" and "t \<in> set ts \<Longrightarrow> wt_participant t \<in> S"
    and "r \<in> set rs \<Longrightarrow> set_option (gr_session r) \<subseteq> S" and "r \<in> set rs \<Longrightarrow> set_option (gr_invitation r) \<subseteq> I"
  using assms unfolding references_ok_def image_subset_iff by simp_all

lemma references_ok_subset:
  assumes "references_ok S I ps ts rs" and "set ps' \<subseteq> set ps" and "set ts' \<subseteq> set ts" and "set rs' \<subseteq> set rs"
  shows "references_ok S I ps' ts' rs'"
  by (rule references_okI; drule assms(2-4) [THEN subsetD]; rule references_okD [OF assms(1)])

lemma drop_evidence_inv:
  assumes "drop_evidence now limit db = (ns, db')" and "wave_inv db"
  shows "wave_inv db'"
proof -
  note inv = wave_invD [OF assms(2)]
  obtain n1 ps where ps: "delete_first limit wp_expires_at (\<lambda>p. wp_expires_at p \<le> now) preflight_key
      (wv_guest_preflights db) = (n1, ps)" by fastforce
  obtain n2 ts where ts: "delete_first limit wt_reported_at (\<lambda>t. wt_reported_at t \<le> now - days 30) timing_key
      (wv_guest_timings db) = (n2, ts)" by fastforce
  obtain n3 ws where ws: "delete_first limit rw_expires_at (\<lambda>w. rw_expires_at w \<le> now) rw_key (wv_rates db) = (n3, ws)"
    by fastforce
  obtain n4 rs where rs: "delete_first limit gr_expires_at (\<lambda>r. gr_expires_at r \<le> now) gr_operation
      (wv_receipts db) = (n4, rs)" by fastforce
  from assms(1) have eq: "db' = db\<lparr>wv_guest_preflights := ps, wv_guest_timings := ts, wv_rates := ws, wv_receipts := rs\<rparr>"
    by (simp only: drop_evidence_def Let_def ps ts ws rs prod.case prod.inject)
  note frames = delete_first_frame [OF ps] delete_first_frame [OF ts] delete_first_frame [OF ws] delete_first_frame [OF rs]
  have "reports_ok ps ts" using inv(9) frames unfolding reports_ok_def by blast
  moreover have "receipts_ok rs" using inv(10) frames unfolding receipts_ok_def by blast
  moreover have "references_ok (gs_id ` set (wv_guests db)) (gi_id ` set (wv_invitations db)) ps ts rs"
    by (rule references_ok_subset [OF inv(11) frames(1,4,10)])
  moreover have "distinct (map rw_key ws)" using inv(12) frames by blast
  ultimately show ?thesis using inv unfolding eq by (intro wave_invI) simp_all
qed

lemma count_rows_deleted:
  assumes "\<And>r. r \<in> set rows \<Longrightarrow> P r \<Longrightarrow> Q r"
  shows "count_rows P (delete_rows D rows) \<le> count_rows Q rows"
  using assms by (induction rows) (auto simp: count_rows_def delete_rows_def)

lemma delete_sessions_inv:
  assumes "delete_sessions ids db = Inr db'" and "wave_inv db"
    and "\<And>i. i \<in> set ids \<Longrightarrow> \<not> list_ex (\<lambda>r. gr_session r = Some i) (wv_receipts db)"
  shows "wave_inv db'"
proof -
  note inv = wave_invD [OF assms(2)]
  from assms(1) have eq: "db' = db\<lparr>wv_guests := delete_rows (\<lambda>s. gs_id s \<in> set ids) (wv_guests db)\<rparr>"
    and free: "\<forall>p \<in> set (wv_guest_preflights db). wp_participant p \<notin> set ids"
      "\<forall>t \<in> set (wv_guest_timings db). wt_participant t \<notin> set ids"
    by (auto simp: delete_sessions_def list_ex_iff split: if_splits)
  let ?gs = "delete_rows (\<lambda>s. gs_id s \<in> set ids) (wv_guests db)"
  have "guests_ok (wv_invitations db) ?gs"
  proof (rule guests_okI)
    show "distinct (map gs_id ?gs)" "distinct (map gs_secret ?gs)"
      using inv(7) by (auto simp: guests_ok_def intro: distinct_delete_rows)
    show "guest_session_checks s \<and> session_of (wv_invitations db) s" if "s \<in> set ?gs" for s
      using that inv(7) by (simp add: guests_ok_def)
    show "int (count_rows (\<lambda>s. gs_invitation s = gi_id i) ?gs) \<le> gi_consumed i" if "i \<in> set (wv_invitations db)" for i
    proof -
      have "count_rows (\<lambda>s. gs_invitation s = gi_id i) ?gs \<le> count_rows (\<lambda>s. gs_invitation s = gi_id i) (wv_guests db)"
        by (rule count_rows_deleted)
      with that inv(7) show ?thesis unfolding guests_ok_def by fastforce
    qed
  qed
  moreover have "references_ok (gs_id ` set ?gs) (gi_id ` set (wv_invitations db)) (wv_guest_preflights db)
      (wv_guest_timings db) (wv_receipts db)"
  proof -
    have keep: "i \<in> gs_id ` set ?gs" if "i \<in> gs_id ` set (wv_guests db)" "i \<notin> set ids" for i using that by auto
    show ?thesis
    proof (rule references_okI)
      fix r assume r: "r \<in> set (wv_receipts db)"
      have "i \<in> gs_id ` set ?gs" if "gr_session r = Some i" for i
      proof (rule keep)
        show "i \<in> gs_id ` set (wv_guests db)" using references_okD(3) [OF inv(11) r] that by simp
        show "i \<notin> set ids" using assms(3) [of i] r that by (auto simp: list_ex_iff)
      qed
      then show "set_option (gr_session r) \<subseteq> gs_id ` set ?gs" by (auto simp del: in_delete_rows)
    qed (use free references_okD [OF inv(11)] in \<open>blast intro: keep\<close>)+
  qed
  ultimately show ?thesis using inv unfolding eq by (intro wave_invI) simp_all
qed

lemma delete_invitations_inv:
  assumes "wave_inv db"
    and "\<And>i. i \<in> ids \<Longrightarrow> (\<forall>s \<in> set (wv_guests db). gs_invitation s \<noteq> i)
      \<and> (\<forall>r \<in> set (wv_receipts db). gr_invitation r \<noteq> Some i)"
  shows "wave_inv (db\<lparr>wv_invitations := delete_rows (\<lambda>i. gi_id i \<in> ids) (wv_invitations db)\<rparr>)"
proof -
  note inv = wave_invD [OF assms(1)]
  let ?is = "delete_rows (\<lambda>i. gi_id i \<in> ids) (wv_invitations db)"
  have "invitations_ok (state_view ` set (wv_rooms db)) ?is"
    using inv(6) by (auto simp: invitations_ok_def intro: distinct_delete_rows)
  moreover have "guests_ok ?is (wv_guests db)"
    using inv(7) assms(2) unfolding guests_ok_def session_of_def by fastforce
  moreover have "references_ok (gs_id ` set (wv_guests db)) (gi_id ` set ?is) (wv_guest_preflights db)
      (wv_guest_timings db) (wv_receipts db)"
    using inv(11) assms(2) by (fastforce simp: references_ok_def)
  ultimately show ?thesis using inv by (intro wave_invI) simp_all
qed

lemma guest_cleanup_Inr:
  assumes "guest_cleanup now clk limit db = Inr (ns, db')"
  obtains n m db1 ks db2 db3 where "1 \<le> limit" and "limit \<le> 1000" and "expire_guests now clk (nat limit) db = (n, m, db1)"
    and "drop_evidence now (nat limit) db1 = (ks, db2)"
    and "delete_sessions (forgettable_sessions (now - days 30) (nat limit) db2) db2 = Inr db3"
    and "db' = db3\<lparr>wv_invitations := delete_rows
      (\<lambda>i. gi_id i \<in> set (forgettable_invitations (now - days 30) (nat limit) db3)) (wv_invitations db3)\<rparr>"
proof -
  obtain n m db1 where one: "expire_guests now clk (nat limit) db = (n, m, db1)" by (metis surj_pair)
  obtain ks db2 where two: "drop_evidence now (nat limit) db1 = (ks, db2)" by fastforce
  from assms that one two show thesis
    by (auto simp: guest_cleanup_def Let_def bind_result_eq_Inr split: if_splits)
qed

lemma guest_cleanup_inv:
  assumes "guest_cleanup now clk limit db = Inr (ns, db')" and "wave_inv db"
  shows "wave_inv db'"
proof -
  from assms(1) obtain n m db1 ks db2 db3 where steps: "expire_guests now clk (nat limit) db = (n, m, db1)"
    "drop_evidence now (nat limit) db1 = (ks, db2)"
    and sessions: "delete_sessions (forgettable_sessions (now - days 30) (nat limit) db2) db2 = Inr db3"
    and eq: "db' = db3\<lparr>wv_invitations := delete_rows
      (\<lambda>i. gi_id i \<in> set (forgettable_invitations (now - days 30) (nat limit) db3)) (wv_invitations db3)\<rparr>"
    by (rule guest_cleanup_Inr)
  have inv2: "wave_inv db2" using steps assms(2) by (intro drop_evidence_inv [OF steps(2)] expire_guests_inv [OF steps(1)])
  have inv3: "wave_inv db3"
    by (rule delete_sessions_inv [OF sessions inv2])
      (auto simp: forgettable_sessions_def list_ex_iff dest!: first_keys_set)
  show ?thesis unfolding eq
    by (rule delete_invitations_inv [OF inv3])
      (auto simp: forgettable_invitations_def list_ex_iff dest!: first_keys_set)
qed

end
