(* ===== verification/Wave_Progress.thy ===== *)
theory Wave_Progress
  imports Guest_Activity
begin

text \<open>
  What the operations change for good. A step is \<open>quiet\<close> when it only appends to the command log, moves
  the numbers of a room forward, leaves closed and expired rooms as they are, and takes no seat in a
  room. Every operation is quiet, but for the three that seat a participant: creating a room, joining it
  and redeeming an invitation.
\<close>

definition room_advances :: "room_row \<Rightarrow> room_row \<Rightarrow> bool" where
  "room_advances r r' \<longleftrightarrow>
     ro_id r' = ro_id r \<and> ro_code_sha256 r' = ro_code_sha256 r \<and> ro_expires_at r' = ro_expires_at r
     \<and> ro_sequence r \<le> ro_sequence r' \<and> ro_version r \<le> ro_version r' \<and> ro_epoch r \<le> ro_epoch r'
     \<and> (terminal_room r \<longrightarrow> r' = r)"

definition tables_advance :: "wave_db \<Rightarrow> wave_db \<Rightarrow> bool" where
  "tables_advance db db' \<longleftrightarrow>
     (\<exists>cs. wv_commands db' = wv_commands db @ cs)
     \<and> (\<forall>r \<in> set (wv_rooms db). \<exists>r' \<in> set (wv_rooms db'). room_advances r r')"

definition no_new_seats :: "wave_db \<Rightarrow> wave_db \<Rightarrow> bool" where
  "no_new_seats db db' \<longleftrightarrow>
     (\<forall>room. count_rows (joined room) (wv_members db') \<le> count_rows (joined room) (wv_members db))
     \<and> (\<forall>room now. count_rows (active_guest room now) (wv_guests db') \<le> count_rows (active_guest room now) (wv_guests db))"

definition quiet :: "wave_db \<Rightarrow> wave_db \<Rightarrow> bool" where
  "quiet db db' \<longleftrightarrow> tables_advance db db' \<and> no_new_seats db db'"

subsection \<open>Preorders\<close>

lemma room_advances_refl [simp]: "room_advances r r"
  by (simp add: room_advances_def)

lemma room_advances_stays [simp]: "r \<in> set rooms \<Longrightarrow> \<exists>r' \<in> set rooms. room_advances r r'"
  by (rule bexI [of _ r]) simp_all

lemma room_advances_trans: "room_advances r s \<Longrightarrow> room_advances s t \<Longrightarrow> room_advances r t"
  by (auto simp: room_advances_def)

lemma tables_advance_refl [simp]: "tables_advance db db"
  by (auto simp: tables_advance_def)

lemma tables_advance_trans:
  assumes "tables_advance a b" and "tables_advance b c"
  shows "tables_advance a c"
proof -
  have "\<exists>t \<in> set (wv_rooms c). room_advances r t" if "r \<in> set (wv_rooms a)" for r
  proof -
    from assms(1) that obtain s where s: "s \<in> set (wv_rooms b)" "room_advances r s" by (auto simp: tables_advance_def)
    with assms(2) obtain t where "t \<in> set (wv_rooms c)" "room_advances s t" by (auto simp: tables_advance_def)
    with s(2) room_advances_trans show ?thesis by blast
  qed
  with assms show ?thesis by (auto simp: tables_advance_def)
qed

lemma no_new_seats_trans: "no_new_seats a b \<Longrightarrow> no_new_seats b c \<Longrightarrow> no_new_seats a c"
  unfolding no_new_seats_def by (meson order_trans)

lemma quiet_refl [simp]: "quiet db db"
  by (simp add: quiet_def no_new_seats_def)

lemma quiet_trans: "quiet a b \<Longrightarrow> quiet b c \<Longrightarrow> quiet a c"
  unfolding quiet_def using tables_advance_trans no_new_seats_trans by blast

subsection \<open>Writes\<close>

lemma count_rows_update:
  "(\<And>r. r \<in> set rows \<Longrightarrow> P r \<Longrightarrow> Q (f r) \<Longrightarrow> Q r) \<Longrightarrow> count_rows Q (update_rows P f rows) \<le> count_rows Q rows"
  by (induction rows) (auto simp: count_rows_def)

lemma quiet_frame:
  assumes "wv_rooms db' = wv_rooms db" and "wv_commands db' = wv_commands db @ cs"
    and "wv_members db' = wv_members db" and "wv_guests db' = wv_guests db"
  shows "quiet db db'"
  using assms by (auto simp: quiet_def tables_advance_def no_new_seats_def)

lemma quiet_members:
  assumes "\<And>m. P m \<Longrightarrow> wm_room (f m) = wm_room m \<and> (wm_status (f m) = MsJoined \<longrightarrow> wm_status m = MsJoined)"
  shows "quiet db (db\<lparr>wv_members := update_rows P f (wv_members db)\<rparr>)"
proof -
  have "count_rows (joined room) (update_rows P f (wv_members db)) \<le> count_rows (joined room) (wv_members db)" for room
    by (rule count_rows_update) (use assms in \<open>auto simp: joined_def\<close>)
  then show ?thesis by (auto simp: quiet_def tables_advance_def no_new_seats_def)
qed

lemma quiet_guests:
  assumes "\<And>room now. count_rows (active_guest room now) gs \<le> count_rows (active_guest room now) (wv_guests db)"
  shows "quiet db (db\<lparr>wv_guests := gs\<rparr>)"
  using assms by (auto simp: quiet_def tables_advance_def no_new_seats_def)

lemma quiet_guest_update:
  assumes "\<And>s. P s \<Longrightarrow> gs_room (f s) = gs_room s \<and> gs_expires_at (f s) = gs_expires_at s
    \<and> (gs_state (f s) = GsActive \<longrightarrow> gs_state s = GsActive)"
  shows "quiet db (db\<lparr>wv_guests := update_rows P f (wv_guests db)\<rparr>)"
  by (rule quiet_guests, rule count_rows_update) (use assms in \<open>auto simp: active_guest_def\<close>)

lemma retire_each_seats:
  "count_rows (active_guest room now) (retire_each clk f rows guests) \<le> count_rows (active_guest room now) guests"
proof (induction rows arbitrary: guests)
  case (Cons i rows)
  have "count_rows (active_guest room now) (retire_sessions clk i (f i) guests) \<le> count_rows (active_guest room now) guests"
    unfolding retire_sessions_def
    by (auto intro!: count_rows_update simp: active_guest_def retired_guest_def retired_guest_state_def)
  with Cons [of "retire_sessions clk i (f i) guests"] show ?case by simp
qed simp

lemma quiet_update_invitations: "quiet db (update_invitations clk P f db)"
proof -
  have "quiet db (db\<lparr>wv_guests := retire_each clk f (filter P (wv_invitations db)) (wv_guests db)\<rparr>)"
    by (rule quiet_guests) (rule retire_each_seats)
  moreover have "quiet (db\<lparr>wv_guests := retire_each clk f (filter P (wv_invitations db)) (wv_guests db)\<rparr>)
      (update_invitations clk P f db)"
    by (rule quiet_frame [of _ _ "[]"]) (simp_all add: update_invitations_def)
  ultimately show ?thesis by (rule quiet_trans)
qed

lemma quiet_update_room:
  assumes "\<And>r. r \<in> set (wv_rooms db) \<Longrightarrow> ro_id r = i \<Longrightarrow> room_advances r (f r)"
  shows "quiet db (update_room i f db)"
proof -
  have "\<exists>r' \<in> set (update_rows (\<lambda>s. ro_id s = i) f (wv_rooms db)). room_advances r r'" if "r \<in> set (wv_rooms db)" for r
    using that assms [OF that] by (cases "ro_id r = i") (force simp: in_update_rows)+
  then show ?thesis by (simp add: quiet_def tables_advance_def no_new_seats_def update_room_def)
qed

lemma quiet_update_state:
  assumes "\<And>r. r \<in> set (wv_rooms db) \<Longrightarrow> ro_id r = i \<Longrightarrow> room_advances r (f r)"
  shows "quiet db (update_room_state clk i f db)"
proof (cases "find_room i (update_room i f db)")
  case None
  with quiet_update_room [OF assms] show ?thesis by (simp add: update_room_state_def Let_def)
next
  case (Some r)
  have "quiet (update_room i f db) (retire_room clk r (update_room i f db))"
    by (simp add: retire_room_def quiet_update_invitations)
  with quiet_trans [OF quiet_update_room [where f = f and i = i, OF assms]] Some show ?thesis
    by (simp add: update_room_state_def Let_def)
qed

lemma quiet_command: "insert_command c db = Inr db' \<Longrightarrow> quiet db db'"
  by (rule quiet_frame [of _ _ "[c]"]) (auto simp: insert_command_Inr)

lemma quiet_lifecycle:
  assumes "append_lifecycle sha256 room user device kind doc now db = Inr db'" and "wave_inv db"
    and "r \<in> set (wv_rooms db)" and "ro_id r = room" and "\<not> terminal_room r"
  shows "quiet db db'"
proof -
  from assms(1) obtain row where row: "find_room room db = Some row"
    and ins: "insert_command (lifecycle_command sha256 row user device kind doc now) db =
      Inr (db\<lparr>wv_commands := wv_commands db @ [lifecycle_command sha256 row user device kind doc now]\<rparr>)"
    and eq: "db' = db\<lparr>wv_rooms := update_rows (\<lambda>s. ro_id s = room) (\<lambda>r. r\<lparr>ro_sequence := ro_sequence row + 1\<rparr>) (wv_rooms db),
      wv_commands := wv_commands db @ [lifecycle_command sha256 row user device kind doc now]\<rparr>"
    by (rule append_lifecycle_Inr) blast
  have only: "s = r" if "s \<in> set (wv_rooms db)" "ro_id s = room" for s
    using room_unique [OF wave_invD(1) [OF assms(2)] that(1) assms(3)] that(2) assms(4) by simp
  with find_room_Some [OF row] have "row = r" by blast
  have "quiet db (update_room room (\<lambda>r. r\<lparr>ro_sequence := ro_sequence row + 1\<rparr>) db)"
    by (rule quiet_update_room) (use only \<open>row = r\<close> assms(5) in \<open>auto simp: room_advances_def\<close>)
  moreover have "quiet (update_room room (\<lambda>r. r\<lparr>ro_sequence := ro_sequence row + 1\<rparr>) db) db'"
    by (rule quiet_frame [of _ _ "[lifecycle_command sha256 row user device kind doc now]"])
      (simp_all add: eq)
  ultimately show ?thesis by (rule quiet_trans)
qed

text \<open>A living room may become anything that keeps its identity and does not turn its numbers back.\<close>

lemma quiet_living_state:
  assumes "wave_inv db" and "r \<in> set (wv_rooms db)" and "\<not> terminal_room r" and "room_advances r (f r)"
  shows "quiet db (update_room_state clk (ro_id r) f db)"
  by (rule quiet_update_state)
    (use room_unique [OF wave_invD(1) [OF assms(1)] _ assms(2)] assms(4) in metis)

lemma quiet_living_room:
  assumes "wave_inv db" and "r \<in> set (wv_rooms db)" and "room_advances r (f r)"
  shows "quiet db (update_room (ro_id r) f db)"
  by (rule quiet_update_room)
    (use room_unique [OF wave_invD(1) [OF assms(1)] _ assms(2)] assms(3) in metis)

end
