(* ===== verification/Wave_Quiet.thy ===== *)
theory Wave_Quiet
  imports Wave_Progress
begin

text \<open>The operations that are quiet, each from the case lemma its invariance was proved with.\<close>

lemma quiet_membership: "require_membership room p now db = Inr db' \<Longrightarrow> quiet db db'"
  unfolding require_membership_Inr touch_members_def by (auto intro!: quiet_members)

lemma quiet_snapshot_read: "room_snapshot room p now db = Inr (val, db') \<Longrightarrow> quiet db db'"
  by (erule room_snapshot_Inr) (rule quiet_membership)

lemma living_advance:
  "\<not> terminal_room r \<Longrightarrow> ro_id r' = ro_id r \<Longrightarrow> ro_code_sha256 r' = ro_code_sha256 r \<Longrightarrow>
   ro_expires_at r' = ro_expires_at r \<Longrightarrow> ro_sequence r \<le> ro_sequence r' \<Longrightarrow> ro_version r \<le> ro_version r' \<Longrightarrow>
   ro_epoch r \<le> ro_epoch r' \<Longrightarrow> room_advances r r'"
  by (simp add: room_advances_def)

lemma quiet_assign_roles: "quiet db (assign_roles room device db)"
  unfolding assign_roles_def by (rule quiet_members) simp

lemma assign_roles_quiet: "quiet db db' \<Longrightarrow> quiet db (assign_roles room device db')"
  by (rule quiet_trans [OF _ quiet_assign_roles])

text \<open>A lifecycle command and then a change of the living room it is about.\<close>

lemma quiet_lifecycle_change:
  assumes "append_lifecycle sha256 room user device kind doc now db = Inr db1" and "wave_inv db"
    and "r \<in> set (wv_rooms db)" and "ro_id r = room" and "\<not> terminal_room r"
    and "room_advances (r\<lparr>ro_sequence := ro_sequence r + 1\<rparr>) (f (r\<lparr>ro_sequence := ro_sequence r + 1\<rparr>))"
  shows "quiet db (update_room_state clk room f db1)" and "quiet db (update_room room f db1)"
proof -
  let ?r = "r\<lparr>ro_sequence := ro_sequence r + 1\<rparr>"
  have inv1: "wave_inv db1" by (rule append_lifecycle_inv [OF assms(1,2)])
  have r1: "?r \<in> set (wv_rooms db1)" "ro_id ?r = room" "\<not> terminal_room ?r"
    using append_lifecycle_row(1) [OF assms(1) wave_invD(1) [OF assms(2)] assms(3,4)] assms(4,5)
    by (simp_all add: terminal_room_def)
  note first = quiet_lifecycle [OF assms(1-5)]
  show "quiet db (update_room_state clk room f db1)"
    using quiet_trans [OF first quiet_living_state [where f = f, OF inv1 r1(1,3) assms(6)]] r1(2) by simp
  show "quiet db (update_room room f db1)"
    using quiet_trans [OF first quiet_living_room [where f = f, OF inv1 r1(1) assms(6)]] r1(2) by simp
qed

subsection \<open>Members\<close>

lemma wave_leave_quiet:
  assumes "wave_leave sha256 room p now clk db = Inr db'" and "wave_inv db"
  shows "quiet db db'"
proof -
  from assms obtain val db1 db2 row kind where snap: "room_snapshot room p now db = Inr (val, db1)"
    and row: "row \<in> set (wv_rooms db)" "ro_id row = room" "\<not> terminal_room row"
    and db2: "append_lifecycle sha256 room (pr_user p) (pr_device p) kind [(KStr ''device_left'', JBool True)] now db1 = Inr db2"
    and eq: "db' = (let ms = update_rows (\<lambda>m. wm_room m = room \<and> wm_device m = pr_device p) (left_member now) (wv_members db2)
      in if pr_device p = ro_host_device row then (update_room_state clk room (close_room now) db2)\<lparr>wv_members := ms\<rparr>
         else db2\<lparr>wv_members := ms\<rparr>)"
    by (rule wave_leave_Inr) blast
  have inv1: "wave_inv db1" by (rule room_snapshot_inv [OF snap assms(2)])
  have row1: "row \<in> set (wv_rooms db1)" using row(1) snapshot_room [OF snap] by simp
  have "quiet db1 db2" by (rule quiet_lifecycle [OF db2 inv1 row1 row(2,3)])
  moreover have "quiet db1 (update_room_state clk room (close_room now) db2)"
    by (rule quiet_lifecycle_change(1) [where f = "close_room now", OF db2 inv1 row1 row(2,3)])
      (use row(3) in \<open>simp add: room_advances_def close_room_def terminal_room_def\<close>)
  moreover have members: "wv_members (update_room_state clk room (close_room now) db2) = wv_members db2"
    by (simp add: update_room_state_def Let_def retire_room_def split: option.splits)
  moreover have leaving: "quiet d (d\<lparr>wv_members := update_rows (\<lambda>m. wm_room m = room \<and> wm_device m = pr_device p)
      (left_member now) (wv_members d)\<rparr>)" for d
    by (rule quiet_members) (simp add: left_member_def)
  ultimately have "quiet db1 db'"
    using quiet_trans [OF _ leaving, of db1 db2]
      quiet_trans [OF _ leaving, of db1 "update_room_state clk room (close_room now) db2", unfolded members]
    unfolding eq Let_def by (cases "pr_device p = ro_host_device row") simp_all
  with quiet_snapshot_read [OF snap] show ?thesis by (rule quiet_trans)
qed

lemma wave_close_quiet:
  assumes "wave_close sha256 room p now clk db = Inr db'" and "wave_inv db"
  shows "quiet db db'"
proof -
  from assms(1) obtain val db1 db2 where host: "require_room_host room p now db = Inr (val, db1)"
    and db2: "append_lifecycle sha256 room (pr_user p) (pr_device p) ''CLOSE'' [] now db1 = Inr db2"
    and eq: "db' = update_room_state clk room (close_room now) db2"
    by (auto simp: wave_close_def bind_result_eq_Inr)
  from host assms(2) obtain row where snap: "room_snapshot room p now db = Inr (val, db1)"
    and row: "row \<in> set (wv_rooms db)" "ro_id row = room" "ro_state row = OPEN"
    by (rule require_room_host_Inr)
  have row1: "row \<in> set (wv_rooms db1)" "\<not> terminal_room row"
    using row(1,3) snapshot_room [OF snap] by (simp_all add: terminal_room_def)
  have "quiet db1 db'" unfolding eq
    by (rule quiet_lifecycle_change(1) [where f = "close_room now", OF db2 room_snapshot_inv [OF snap assms(2)] row1(1) row(2) row1(2)])
      (use row1(2) in \<open>simp add: room_advances_def close_room_def terminal_room_def\<close>)
  with quiet_snapshot_read [OF snap] show ?thesis by (rule quiet_trans)
qed

lemma wave_transfer_host_quiet:
  assumes "wave_transfer_host sha256 room p target now db = Inr db'" and "wave_inv db"
  shows "quiet db db'"
proof -
  from assms(1) obtain val db1 db2 m where host: "require_room_host room p now db = Inr (val, db1)"
    and "m \<in> set (wv_members db1)" "joined room m" "wm_device m = target" "target \<noteq> pr_device p"
    and "present_since (now - seconds 30) (wm_present_at m)" "member_device m db1 \<noteq> None"
    and db2: "append_lifecycle sha256 room (pr_user p) (pr_device p) ''TRANSFER''
      [str_value ''target_device_id'' (uuid_str target)] now db1 = Inr db2"
    and eq: "db' = assign_roles room target (update_room room (\<lambda>r. r\<lparr>ro_host_user := wm_user m,
      ro_host_device := target, ro_epoch := ro_epoch r + 1\<rparr>) db2)"
    by (rule wave_transfer_host_Inr)
  from host assms(2) obtain row where snap: "room_snapshot room p now db = Inr (val, db1)"
    and row: "row \<in> set (wv_rooms db)" "ro_id row = room" "ro_state row = OPEN"
    by (rule require_room_host_Inr)
  have row1: "row \<in> set (wv_rooms db1)" "\<not> terminal_room row"
    using row(1,3) snapshot_room [OF snap] by (simp_all add: terminal_room_def)
  have "quiet db1 db'" unfolding eq
    by (rule assign_roles_quiet,
        rule quiet_lifecycle_change(2) [OF db2 room_snapshot_inv [OF snap assms(2)] row1(1) row(2) row1(2)])
      (use row1(2) in \<open>simp add: room_advances_def terminal_room_def\<close>)
  with quiet_snapshot_read [OF snap] show ?thesis by (rule quiet_trans)
qed

lemma host_missing_advances: "\<not> terminal_room r \<Longrightarrow> room_advances r (host_missing now r)"
  by (simp add: room_advances_def host_missing_def)

lemma wave_recover_host_quiet:
  assumes "wave_recover_host sha256 room now clk db = Inr (result, db')" and "wave_inv db"
  shows "quiet db db'"
proof -
  let ?missing = "update_room room (host_missing now) db"
  have missing: "quiet db ?missing" "host_missing now row \<in> set (wv_rooms ?missing)" "ro_id (host_missing now row) = room"
    "\<not> terminal_room (host_missing now row)"
    if "row \<in> set (wv_rooms db)" "ro_id row = room" "\<not> terminal_room row" for row
    using quiet_living_room [where f = "host_missing now", OF assms(2) that(1) host_missing_advances [OF that(3)]]
      host_missing_row [OF that(1,2)] that(2,3)
    by (simp_all add: terminal_room_def host_missing_def)
  from assms(1) show ?thesis
  proof (cases rule: wave_recover_host_cases)
    case (returned row db1)
    show ?thesis unfolding returned(5)
      by (rule quiet_lifecycle_change(1) [where f = host_returned, OF returned(4) assms(2) returned(1-3)])
        (use returned(3) in \<open>simp add: room_advances_def host_returned_def terminal_room_def\<close>)
  next
    case (away row)
    with missing(1) [OF away(1-3)] show ?thesis by simp
  next
    case (orphaned row db2)
    note m = missing [OF orphaned(1-3)]
    show ?thesis unfolding orphaned(5)
      by (rule quiet_trans [OF m(1)],
          rule quiet_lifecycle_change(1) [OF orphaned(4) host_missing_inv [OF assms(2)] m(2-4)])
        (use m(4) in \<open>simp add: room_advances_def terminal_room_def\<close>)
  next
    case (replaced row m db2)
    note m = missing [OF replaced(1-3)]
    show ?thesis unfolding replaced(6)
      by (rule quiet_trans [OF m(1)], rule assign_roles_quiet,
          rule quiet_lifecycle_change(1) [where f = "host_replaced m" for m, OF replaced(5) host_missing_inv [OF assms(2)] m(2-4)])
        (use m(4) in \<open>simp add: room_advances_def host_replaced_def terminal_room_def\<close>)
  qed simp
qed

lemma wave_snapshot_quiet:
  assumes "wave_snapshot sha256 room p now clk db = (result, db')" and "wave_inv db"
  shows "quiet db db'"
proof (cases "room_snapshot room p now db")
  case (Inl e)
  with assms(1) show ?thesis by (simp add: wave_snapshot_def)
next
  case first: (Inr x)
  then obtain val db1 where x: "room_snapshot room p now db = Inr (val, db1)" by (cases x) auto
  note inv1 = room_snapshot_inv [OF x assms(2)] and q1 = quiet_snapshot_read [OF x]
  show ?thesis
  proof (cases "wave_recover_host sha256 room now clk db1")
    case (Inl e)
    with assms(1) x q1 show ?thesis by (simp add: wave_snapshot_def)
  next
    case (Inr y)
    then obtain r db2 where y: "wave_recover_host sha256 room now clk db1 = Inr (r, db2)" by (cases y) auto
    note q2 = quiet_trans [OF q1 wave_recover_host_quiet [OF y inv1]]
    with assms(1) x y show ?thesis
      by (auto simp: wave_snapshot_def dest: quiet_snapshot_read intro: quiet_trans [OF q2] split: sum.splits)
  qed
qed

subsection \<open>Expiry\<close>

lemma lifecycle_others:
  assumes "append_lifecycle sha256 room user device kind doc now db = Inr db1" and "r \<in> set (wv_rooms db)" and "ro_id r \<noteq> room"
  shows "r \<in> set (wv_rooms (update_room_state clk room f db1))"
proof -
  from assms(1) obtain row where "db1 = db\<lparr>wv_rooms := update_rows (\<lambda>s. ro_id s = room)
      (\<lambda>r. r\<lparr>ro_sequence := ro_sequence row + 1\<rparr>) (wv_rooms db),
      wv_commands := wv_commands db @ [lifecycle_command sha256 row user device kind doc now]\<rparr>"
    by (rule append_lifecycle_Inr)
  with assms(2,3) have "r \<in> set (wv_rooms db1)" by (auto simp: in_update_rows)
  with assms(3) have "r \<in> set (wv_rooms (update_room room f db1))" by (auto simp: in_update_rows)
  then show ?thesis by (simp add: update_room_state_def Let_def retire_room_def split: option.splits)
qed

lemma expire_rooms_quiet:
  assumes "expire_rooms sha256 now clk rooms db = Inr db'" and "wave_inv db" and "distinct (map ro_id rooms)"
    and "\<And>r. r \<in> set rooms \<Longrightarrow> r \<in> set (wv_rooms db) \<and> \<not> terminal_room r"
  shows "quiet db db'"
  using assms
proof (induction rooms arbitrary: db)
  case (Cons r rooms)
  from Cons.prems(1) obtain db1 where
    db1: "append_lifecycle sha256 (ro_id r) (ro_host_user r) (ro_host_device r) ''EXPIRE'' [] now db = Inr db1"
    and rest: "expire_rooms sha256 now clk rooms (update_room_state clk (ro_id r) (expired_room now) db1) = Inr db'"
    by (auto simp: bind_result_eq_Inr)
  have r: "r \<in> set (wv_rooms db)" "\<not> terminal_room r" using Cons.prems(4) [of r] by simp_all
  let ?db2 = "update_room_state clk (ro_id r) (expired_room now) db1"
  have "quiet db ?db2"
    by (rule quiet_lifecycle_change(1) [where f = "expired_room now", OF db1 Cons.prems(2) r(1) refl r(2)])
      (use r(2) in \<open>simp add: room_advances_def expired_room_def terminal_room_def\<close>)
  moreover have "quiet ?db2 db'"
  proof (rule Cons.IH [OF rest expire_one_inv [OF db1 Cons.prems(2)]])
    fix s assume "s \<in> set rooms"
    moreover from this have "ro_id s \<noteq> ro_id r" using Cons.prems(3) by (auto simp: image_iff)
    ultimately show "s \<in> set (wv_rooms ?db2) \<and> \<not> terminal_room s"
      using lifecycle_others [OF db1, of s] Cons.prems(4) [of s] by simp
  qed (use Cons.prems(3) in simp)
  ultimately show ?case by (rule quiet_trans)
qed simp

lemma due_rooms_in:
  "r \<in> set (due_rooms locked now limit db) \<Longrightarrow> r \<in> set (wv_rooms db) \<and> \<not> terminal_room r \<and> ro_expires_at r \<le> now"
  by (auto simp: due_rooms_def terminal_room_def dest!: in_set_takeD)

lemma due_rooms_distinct:
  assumes "rooms_ok (wv_rooms db)"
  shows "distinct (map ro_id (due_rooms locked now limit db))"
proof -
  have "distinct (wv_rooms db)" using assms by (auto simp: rooms_ok_def distinct_map)
  then have "distinct (due_rooms locked now limit db)" by (simp add: due_rooms_def)
  moreover have "inj_on ro_id (set (due_rooms locked now limit db))"
    by (rule inj_onI) (use room_unique [OF assms] due_rooms_in in blast)
  ultimately show ?thesis by (simp add: distinct_map)
qed

lemma wave_expire_due_quiet:
  assumes "wave_expire_due sha256 locked now clk limit db = Inr (n, db')" and "wave_inv db"
  shows "quiet db db'"
proof -
  from assms(1) have "expire_rooms sha256 now clk (due_rooms locked now limit db) db = Inr db'"
    by (auto simp: wave_expire_due_def Let_def bind_result_eq_Inr split: if_splits)
  from expire_rooms_quiet [OF this assms(2) due_rooms_distinct [OF wave_invD(1) [OF assms(2)]]] due_rooms_in
  show ?thesis by blast
qed

subsection \<open>Commands, readiness, timing\<close>

text \<open>A command of the host writes the room and the log, and maybe the queue.\<close>

lemma quiet_host_write:
  assumes "insert_command c (update_room room f db2) = Inr db'" and "wave_inv db1"
    and "row \<in> set (wv_rooms db1)" and "ro_id row = room" and "room_advances row (f row)"
    and "wv_rooms db2 = wv_rooms db1" "wv_commands db2 = wv_commands db1" "wv_members db2 = wv_members db1"
      "wv_guests db2 = wv_guests db1"
  shows "quiet db1 db'"
proof -
  have "quiet db1 db2" by (rule quiet_frame [of _ _ "[]"]) (simp_all add: assms(6-9))
  moreover have "quiet db2 (update_room room f db2)"
  proof (rule quiet_update_room)
    fix r assume "r \<in> set (wv_rooms db2)" "ro_id r = room"
    with room_unique [OF wave_invD(1) [OF assms(2)] _ assms(3)] assms(4,6) have "r = row" by simp
    with assms(5) show "room_advances r (f r)" by simp
  qed
  ultimately show ?thesis using quiet_command [OF assms(1)] quiet_trans by blast
qed

lemma wave_command_quiet:
  assumes "wave_command fresh room p kind key request version sequence recording now db = Inr (result, db')"
    and "wave_inv db"
  shows "quiet db db'"
proof (cases "list_ex (\<lambda>c. wc_room c = room \<and> wc_key c = key) (wv_commands db)")
  case True
  from wave_command_replay [OF assms(1) this] show ?thesis by simp
next
  case False
  from assms(1) False obtain val db1 version' doc db2 where host: "require_room_host room p now db = Inr (val, db1)"
    and seen: "wr_version val = version" "wr_sequence val = sequence"
    and effect: "command_effect fresh room kind val recording db1 = Inr (version', doc, db2)"
    and ins: "insert_command (host_command room p key request version sequence kind doc None now)
      (update_room room (after_command version' (sequence + 1) kind) db2) = Inr db'"
    by (rule wave_command_Inr)
  from host assms(2) obtain row where snap: "room_snapshot room p now db = Inr (val, db1)"
    and row: "row \<in> set (wv_rooms db)" "ro_id row = room" "ro_state row = OPEN"
      "wr_version val = ro_version row" "wr_sequence val = ro_sequence row"
    by (rule require_room_host_Inr)
  have frame: "wv_rooms db2 = wv_rooms db1 \<and> wv_commands db2 = wv_commands db1 \<and> wv_members db2 = wv_members db1
      \<and> wv_guests db2 = wv_guests db1 \<and> wr_version val \<le> version'"
    using effect by (cases rule: command_effect_Inr) (auto simp: insert_queue_Inr)
  have "quiet db1 db'"
    by (rule quiet_host_write [OF ins room_snapshot_inv [OF snap assms(2)], of row])
      (use row seen frame snapshot_room [OF snap] in \<open>auto simp: after_command_def room_advances_def terminal_room_def\<close>)
  with quiet_snapshot_read [OF snap] show ?thesis by (rule quiet_trans)
qed

lemma wave_start_quiet:
  assumes "wave_start sha256 p q now db = Inr (result, db')" and "wave_inv db"
  shows "quiet db db'"
proof -
  from assms(1) obtain val db1 effective where host: "require_room_host (sr_room q) p now db = Inr (val, db1)"
    and seen: "wr_version val = sr_version q" "wr_sequence val = sr_sequence q"
    and ins: "insert_command (host_command (sr_room q) p (''start-'' @ number_text (sr_sequence q + 1))
        (sha256 (text_bytes (uuid_str (sr_room q) @ '':'' @ number_text (sr_sequence q + 1))))
        (sr_version q) (sr_sequence q) (if effective \<noteq> None then ''PLAY'' else ''START_ABORTED'')
        (start_document q effective) effective now)
      (update_room (sr_room q) (started_room (sr_sequence q + 1) effective) db1) = Inr db'"
    by (rule wave_start_Inr) blast
  from host assms(2) obtain row where snap: "room_snapshot (sr_room q) p now db = Inr (val, db1)"
    and row: "row \<in> set (wv_rooms db)" "ro_id row = sr_room q" "ro_state row = OPEN"
      "wr_sequence val = ro_sequence row"
    by (rule require_room_host_Inr)
  have "quiet db1 db'"
    by (rule quiet_host_write [OF ins room_snapshot_inv [OF snap assms(2)], of row])
      (use row seen snapshot_room [OF snap] in \<open>auto simp: started_room_def room_advances_def terminal_room_def\<close>)
  with quiet_snapshot_read [OF snap] show ?thesis by (rule quiet_trans)
qed

text \<open>A report changes no table that \<open>quiet\<close> speaks of.\<close>

lemma quiet_report:
  assumes "quiet db db1" and "wv_rooms db' = wv_rooms db1" and "wv_commands db' = wv_commands db1"
    and "wv_members db' = wv_members db1" and "wv_guests db' = wv_guests db1"
  shows "quiet db db'"
  by (rule quiet_trans [OF assms(1) quiet_frame [of _ _ "[]"]]) (simp_all add: assms)

lemma wave_preflight_quiet:
  "wave_preflight room p entry recording version a ready now db = Inr db' \<Longrightarrow> quiet db db'"
  by (auto simp: wave_preflight_def bind_result_eq_Inr Let_def dest!: quiet_membership intro: quiet_report split: if_splits)

lemma wave_timing_quiet:
  "wave_timing room p sequence rtt offset uncertainty skew drift now db = Inr db' \<Longrightarrow> quiet db db'"
  by (auto simp: wave_timing_def bind_result_eq_Inr Let_def dest!: quiet_membership intro: quiet_report split: if_splits)

lemma wave_catch_up_quiet: "wave_catch_up room p n now db = Inr (events, db') \<Longrightarrow> quiet db db'"
  by (auto simp: wave_catch_up_def bind_result_eq_Inr dest!: quiet_membership)

subsection \<open>Guests\<close>

lemma set_guest_quiet:
  assumes "set_guest i f db = Inr db'"
    and "\<And>s. gs_room (f s) = gs_room s \<and> gs_expires_at (f s) = gs_expires_at s
      \<and> (gs_state (f s) = GsActive \<longrightarrow> gs_state s = GsActive)"
  shows "quiet db db'"
proof -
  from assms(1) have eq: "db' = db\<lparr>wv_guests := update_rows (\<lambda>s. gs_id s = i) f (wv_guests db)\<rparr>"
    by (simp add: set_guest_Inr)
  show ?thesis unfolding eq by (rule quiet_guest_update) (rule assms(2))
qed

lemma guest_access_quiet: "guest_access secret room action now db = Inr (g, db') \<Longrightarrow> quiet db db'"
  by (erule guest_access_Inr) (erule set_guest_quiet, simp)

lemma guest_authenticate_quiet: "guest_authenticate sha256 bearer room action now db = Inr (g, db') \<Longrightarrow> quiet db db'"
  by (auto simp: guest_authenticate_def bind_result_eq_Inr dest: guest_access_quiet)

lemma guest_snapshot_quiet: "guest_snapshot sha256 bearer room now db = Inr (val, db') \<Longrightarrow> quiet db db'"
  by (auto simp: guest_snapshot_def bind_result_eq_Inr dest: guest_authenticate_quiet)

lemma guest_presence_quiet: "guest_presence sha256 bearer room now db = Inr db' \<Longrightarrow> quiet db db'"
  by (auto simp: guest_presence_def bind_result_eq_Inr dest: guest_authenticate_quiet)

lemma guest_catch_up_quiet: "guest_catch_up sha256 bearer room n now db = Inr (events, db') \<Longrightarrow> quiet db db'"
  by (auto simp: guest_catch_up_def bind_result_eq_Inr dest: guest_authenticate_quiet)

lemma guest_preflight_quiet:
  "guest_preflight sha256 bearer room entry recording version a ready now db = Inr db' \<Longrightarrow> quiet db db'"
  by (auto simp: guest_preflight_def bind_result_eq_Inr Let_def dest!: guest_authenticate_quiet
      intro: quiet_report split: if_splits)

lemma guest_timing_quiet:
  "guest_timing sha256 bearer room sequence rtt offset uncertainty skew drift now db = Inr db' \<Longrightarrow> quiet db db'"
  by (erule guest_timing_Inr) (auto dest!: guest_authenticate_quiet intro: quiet_report)

lemma rate_quiet: "rate sha256 scope subject limit now db = Inr db' \<Longrightarrow> quiet db db'"
  by (rule quiet_frame [of _ _ "[]"]) (auto simp: rate_def Let_def split: option.splits if_splits)

lemma insert_receipt_quiet: "insert_receipt r db = Inr db' \<Longrightarrow> quiet db db'"
  by (rule quiet_frame [of _ _ "[]"]) (auto simp: insert_receipt_Inr)

lemma guest_leave_quiet:
  assumes "guest_leave sha256 canonical bearer room operation now db = Inr (doc, db')"
  shows "quiet db db'"
  using assms
proof (cases rule: guest_leave_cases)
  case (left secret s g db1 db2)
  have "quiet db1 db2" by (rule set_guest_quiet [OF left(5)]) (simp add: left_guest_def)
  with guest_access_quiet [OF left(2)] insert_receipt_quiet [OF left(6)] show ?thesis
    using quiet_trans by blast
qed simp

lemma guest_issue_quiet:
  assumes "guest_issue sha256 canonical fresh p room operation bearer ttl uses now db = Inr (doc, db')"
  shows "quiet db db'"
proof (cases "find_receipt operation db")
  case (Some r)
  from guest_issue_replay(1) [OF assms this] show ?thesis by simp
next
  case None
  from assms None obtain db1 i db2 r where "rate sha256 ''ISSUE_HOST''
      (sha256 (text_bytes (uuid_str (pr_user p) @ '':'' @ uuid_str (pr_device p)))) 20 now db = Inr db1"
    "insert_invitation i db1 = Inr db2" "insert_receipt r db2 = Inr db'"
    by (rule guest_issue_Inr) blast
  moreover from this(2) have "quiet db1 db2" by (intro quiet_frame [of _ _ "[]"]) (auto simp: insert_invitation_Inr)
  ultimately show ?thesis by (meson rate_quiet insert_receipt_quiet quiet_trans)
qed

lemma guest_revoke_quiet:
  assumes "guest_revoke canonical p invitation operation now clk db = Inr (doc, db')"
  shows "quiet db db'"
proof -
  from assms obtain i where i: "find_invitation invitation db = Some i"
    by (auto simp: guest_revoke_def Let_def split: option.splits)
  let ?db1 = "if live_invitation i then update_invitations clk (\<lambda>j. gi_id j = invitation) (revoked_invitation now) db else db"
  have quiet1: "quiet db ?db1" by (simp add: quiet_update_invitations)
  show ?thesis
  proof (cases "find_receipt operation db")
    case (Some r)
    with assms i show ?thesis by (auto simp: guest_revoke_def Let_def bind_result_eq_Inr)
  next
    case None
    with assms i obtain r where "insert_receipt r ?db1 = Inr db'"
      by (auto simp: guest_revoke_def Let_def bind_result_eq_Inr split: if_splits)
    from quiet_trans [OF quiet1 insert_receipt_quiet [OF this]] show ?thesis .
  qed
qed

lemma count_rows_delete: "count_rows Q (delete_rows P rows) \<le> count_rows Q rows"
  by (rule count_rows_deleted)

lemma guest_cleanup_quiet:
  assumes "guest_cleanup now clk limit db = Inr (ns, db')"
  shows "quiet db db'"
proof -
  from assms obtain n m db1 ks db2 db3 where steps: "expire_guests now clk (nat limit) db = (n, m, db1)"
    "drop_evidence now (nat limit) db1 = (ks, db2)"
    and sessions: "delete_sessions (forgettable_sessions (now - days 30) (nat limit) db2) db2 = Inr db3"
    and eq: "db' = db3\<lparr>wv_invitations := delete_rows
      (\<lambda>i. gi_id i \<in> set (forgettable_invitations (now - days 30) (nat limit) db3)) (wv_invitations db3)\<rparr>"
    by (rule guest_cleanup_Inr)
  have expired: "quiet d (d\<lparr>wv_guests := update_rows P (expired_guest now) (wv_guests d)\<rparr>)" for d P
    by (rule quiet_guest_update) (simp add: expired_guest_def)
  have "quiet db db1"
    using steps(1) quiet_trans [OF quiet_update_invitations expired] by (auto simp: expire_guests_def Let_def)
  moreover have "quiet db1 db2"
    using steps(2) by (intro quiet_frame [of _ _ "[]"]) (auto simp: drop_evidence_def Let_def split: prod.splits)
  moreover have "quiet db2 db3"
    using sessions by (auto simp: delete_sessions_def intro!: quiet_guests count_rows_delete split: if_splits)
  moreover have "quiet db3 db'" unfolding eq by (rule quiet_frame [of _ _ "[]"]) simp_all
  ultimately show ?thesis using quiet_trans by blast
qed

subsection \<open>The accounts and devices behind a room\<close>

lemma retire_quiet:
  "quiet db (retire_device clk d d' db)" "quiet db (retire_session clk s s' db)" "quiet db (retire_account clk u db)"
  by (simp_all add: retire_device_def retire_session_def retire_account_def quiet_update_invitations)

end
