(* ===== verification/Wave_System.thy ===== *)
theory Wave_System
  imports Wave_Quiet Transitions
begin

text \<open>
  Rooms as one transition system: the operations of both services and the changes of accounts, devices
  and sessions that fire triggers, under a clock that does not turn back. A refused operation writes
  nothing and is no step; a redemption and a snapshot commit what they wrote before failing. The
  transaction timestamp \<open>clk\<close> of a trigger is any instant.
\<close>

inductive room_operation :: "digest \<Rightarrow> canonical \<Rightarrow> unicode \<Rightarrow> instant \<Rightarrow> wave_db \<Rightarrow> wave_db \<Rightarrow> bool"
  for sha256 canonical uc now where
  op_create: "wave_create sha256 fresh bits p now users db = Inr (val, db') \<Longrightarrow>
    room_operation sha256 canonical uc now db db'"
| op_join: "wave_join sha256 code p now db = Inr (val, db') \<Longrightarrow> room_operation sha256 canonical uc now db db'"
| op_leave: "wave_leave sha256 room p now clk db = Inr db' \<Longrightarrow> room_operation sha256 canonical uc now db db'"
| op_close: "wave_close sha256 room p now clk db = Inr db' \<Longrightarrow> room_operation sha256 canonical uc now db db'"
| op_transfer: "wave_transfer_host sha256 room p target now db = Inr db' \<Longrightarrow>
    room_operation sha256 canonical uc now db db'"
| op_recover: "wave_recover_host sha256 room now clk db = Inr (user, db') \<Longrightarrow>
    room_operation sha256 canonical uc now db db'"
| op_snapshot: "wave_snapshot sha256 room p now clk db = (result, db') \<Longrightarrow>
    room_operation sha256 canonical uc now db db'"
| op_expire: "wave_expire_due sha256 locked now clk limit db = Inr (n, db') \<Longrightarrow>
    room_operation sha256 canonical uc now db db'"
| op_command: "wave_command fresh room p kind key request version sequence recording now db = Inr (res, db') \<Longrightarrow>
    room_operation sha256 canonical uc now db db'"
| op_preflight: "wave_preflight room p entry recording version a ready now db = Inr db' \<Longrightarrow>
    room_operation sha256 canonical uc now db db'"
| op_timing: "wave_timing room p sequence rtt offset uncertainty skew drift now db = Inr db' \<Longrightarrow>
    room_operation sha256 canonical uc now db db'"
| op_start: "wave_start sha256 p q now db = Inr (started, db') \<Longrightarrow> room_operation sha256 canonical uc now db db'"
| op_catch_up: "wave_catch_up room p sequence now db = Inr (events, db') \<Longrightarrow>
    room_operation sha256 canonical uc now db db'"
| op_issue: "guest_issue sha256 canonical fresh p room operation bearer ttl uses now db = Inr (doc, db') \<Longrightarrow>
    room_operation sha256 canonical uc now db db'"
| op_revoke: "guest_revoke canonical p invitation operation now clk db = Inr (doc, db') \<Longrightarrow>
    room_operation sha256 canonical uc now db db'"
| op_redeem: "guest_redeem sha256 canonical uc fresh invitation room operation document_bearer session_bearer display
    source now clk db = (redeemed, db') \<Longrightarrow> room_operation sha256 canonical uc now db db'"
| op_guest_snapshot: "guest_snapshot sha256 bearer room now db = Inr (val, db') \<Longrightarrow>
    room_operation sha256 canonical uc now db db'"
| op_guest_presence: "guest_presence sha256 bearer room now db = Inr db' \<Longrightarrow>
    room_operation sha256 canonical uc now db db'"
| op_guest_preflight: "guest_preflight sha256 bearer room entry recording version a ready now db = Inr db' \<Longrightarrow>
    room_operation sha256 canonical uc now db db'"
| op_guest_timing: "guest_timing sha256 bearer room sequence rtt offset uncertainty skew drift now db = Inr db' \<Longrightarrow>
    room_operation sha256 canonical uc now db db'"
| op_guest_catch_up: "guest_catch_up sha256 bearer room sequence now db = Inr (events, db') \<Longrightarrow>
    room_operation sha256 canonical uc now db db'"
| op_guest_leave: "guest_leave sha256 canonical bearer room operation now db = Inr (doc, db') \<Longrightarrow>
    room_operation sha256 canonical uc now db db'"
| op_cleanup: "guest_cleanup now clk limit db = Inr (counts, db') \<Longrightarrow> room_operation sha256 canonical uc now db db'"
| op_device: "d \<in> set (wv_devices db) \<Longrightarrow> dv_id d' = dv_id d \<Longrightarrow> dv_user d' = dv_user d \<Longrightarrow>
    room_operation sha256 canonical uc now db (retire_device clk d d'
      (db\<lparr>wv_devices := update_rows (\<lambda>x. dv_id x = dv_id d) (\<lambda>_. d') (wv_devices db)\<rparr>))"
| op_session: "s \<in> set (wv_sessions db) \<Longrightarrow> us_id s' = us_id s \<Longrightarrow> us_user s' = us_user s \<Longrightarrow>
    us_device s' = us_device s \<Longrightarrow>
    room_operation sha256 canonical uc now db (retire_session clk s s'
      (db\<lparr>wv_sessions := update_rows (\<lambda>x. us_id x = us_id s) (\<lambda>_. s') (wv_sessions db)\<rparr>))"
| op_account: "u \<in> set (wv_accounts db) \<Longrightarrow> ua_id u' = ua_id u \<Longrightarrow>
    room_operation sha256 canonical uc now db (retire_account clk u'
      (db\<lparr>wv_accounts := update_rows (\<lambda>x. ua_id x = ua_id u) (\<lambda>_. u') (wv_accounts db)\<rparr>))"
| op_enrol: "room_operation sha256 canonical uc now db (db\<lparr>wv_accounts := wv_accounts db @ us,
    wv_devices := wv_devices db @ ds, wv_sessions := wv_sessions db @ ss, wv_recordings := wv_recordings db @ rs\<rparr>)"

inductive wave_step :: "digest \<Rightarrow> canonical \<Rightarrow> unicode \<Rightarrow> instant \<times> wave_db \<Rightarrow> instant \<times> wave_db \<Rightarrow> bool"
  for sha256 canonical uc where
  wave_tick: "t \<le> now \<Longrightarrow> room_operation sha256 canonical uc now db db' \<Longrightarrow>
    wave_step sha256 canonical uc (t, db) (now, db')"

inductive_cases wave_stepE: "wave_step sha256 canonical uc (t, db) (now, db')"

abbreviation wave_run :: "digest \<Rightarrow> canonical \<Rightarrow> unicode \<Rightarrow> instant \<times> wave_db \<Rightarrow> instant \<times> wave_db \<Rightarrow> bool" where
  "wave_run sha256 canonical uc \<equiv> (wave_step sha256 canonical uc)\<^sup>*\<^sup>*"

subsection \<open>Consistency\<close>

lemma host_retire_inv:
  "wave_inv db \<Longrightarrow> wave_inv (retire_device clk d d' db)"
  "wave_inv db \<Longrightarrow> wave_inv (retire_session clk s s' db)"
  "wave_inv db \<Longrightarrow> wave_inv (retire_account clk u db)"
  by (auto simp: retire_device_def retire_session_def retire_account_def intro!: host_leaves.retire_inv)

lemma room_operation_inv: "room_operation sha256 canonical uc now db db' \<Longrightarrow> wave_inv db \<Longrightarrow> wave_inv db'"
  by (induction rule: room_operation.induct)
    (erule (1) wave_create_inv, erule (1) wave_join_inv, erule (1) wave_leave_inv,
     erule (1) wave_close_inv, erule (1) wave_transfer_host_inv, erule (1) wave_recover_host_inv,
     erule (1) wave_snapshot_inv, erule (1) wave_expire_due_inv, erule (1) wave_command_inv,
     erule (1) wave_preflight_inv, erule (1) wave_timing_inv, erule (1) wave_start_inv,
     erule (1) wave_catch_up_inv, erule (1) guest_issue_inv, erule (1) guest_revoke_inv,
     erule (1) guest_redeem_inv, erule (1) guest_snapshot_inv, erule (1) guest_presence_inv,
     erule (1) guest_preflight_inv, erule (1) guest_timing_inv, erule (1) guest_catch_up_inv,
     erule (1) guest_leave_inv, erule (1) guest_cleanup_inv,
     rule host_retire_inv, simp, rule host_retire_inv, simp, rule host_retire_inv, simp, simp)

subsection \<open>Progress\<close>

lemma wave_create_advances:
  assumes "wave_create sha256 fresh bits p now users db = Inr (val, db')"
  shows "tables_advance db db'" and "wv_members db' = wv_members db @ [new_member fresh p HostRole now]"
    and "wv_guests db' = wv_guests db" and "fresh \<notin> ro_id ` set (wv_rooms db)"
    and "wv_rooms db' = wv_rooms db @ [new_room_row sha256 fresh (new_room_code bits) p now]"
    and "wv_commands db' = wv_commands db"
proof -
  from assms obtain db1 db2 where
    steps: "insert_room (new_room_row sha256 fresh (new_room_code bits) p now) db = Inr db1"
      "insert_member (new_member fresh p HostRole now) db1 = Inr db2"
      "invite_each fresh (pr_user p) users db2 = Inr db'"
    by (auto simp: wave_create_def bind_result_eq_Inr split: if_splits)
  note parts = steps(1,2) [unfolded insert_room_Inr insert_member_Inr] invite_each_Inr [OF steps(3)]
  from parts show "wv_members db' = wv_members db @ [new_member fresh p HostRole now]"
    "wv_guests db' = wv_guests db" "wv_commands db' = wv_commands db"
    "wv_rooms db' = wv_rooms db @ [new_room_row sha256 fresh (new_room_code bits) p now]" by auto
  then show "tables_advance db db'" by (auto simp: tables_advance_def intro: room_advances_stays)
  from parts show "fresh \<notin> ro_id ` set (wv_rooms db)" by (auto simp: list_ex_iff new_room_row_def)
qed

lemma join_member_frame:
  assumes "join_member room p now db = Inr db'"
  shows "wv_rooms db' = wv_rooms db" and "wv_commands db' = wv_commands db" and "wv_guests db' = wv_guests db"
proof -
  from assms have "wv_rooms db' = wv_rooms db \<and> wv_commands db' = wv_commands db \<and> wv_guests db' = wv_guests db"
  proof (cases rule: join_member_cases)
    case again
    from arg_cong [OF again(2), of wv_rooms] arg_cong [OF again(2), of wv_commands] arg_cong [OF again(2), of wv_guests]
    show ?thesis by simp
  qed (simp_all add: insert_member_Inr)
  then show "wv_rooms db' = wv_rooms db" "wv_commands db' = wv_commands db" "wv_guests db' = wv_guests db" by simp_all
qed

lemma wave_join_advances: "wave_join sha256 code p now db = Inr (val, db') \<Longrightarrow> tables_advance db db'"
  by (erule wave_join_Inr, drule quiet_snapshot_read, frule join_member_frame, drule join_member_frame(2))
    (simp add: quiet_def tables_advance_def)

lemma redeem_body_advances:
  assumes "redeem_body fresh invitation room operation document_hash access name request now clk db = Inr (doc, db')"
  obtains i r db1 where "insert_guest (new_guest fresh i r access name now) db = Inr db1" and "quiet db1 db'"
    and "ro_id r = room" and "participants room now db < 8"
proof -
  from assms obtain i r db1 rc where "insert_guest (new_guest fresh i r access name now) db = Inr db1"
    "open_room room now db = Inr r" "participants room now db < 8"
    and last: "insert_receipt rc (update_invitations clk (\<lambda>j. gi_id j = invitation) (consumed_invitation now) db1) = Inr db'"
    by (rule redeem_body_Inr) blast
  moreover have "quiet db1 db'"
    by (rule quiet_trans [OF quiet_update_invitations insert_receipt_quiet [OF last]])
  ultimately show thesis using that open_room_Inr(2) by blast
qed

lemma rates_quiet:
  "bind_result (rate sha256 a x m now db) (rate sha256 b y n now) = Inr db' \<Longrightarrow> quiet db db'"
  by (auto simp: bind_result_eq_Inr intro: quiet_trans dest!: rate_quiet)

lemma document_replay_quiet:
  "document_replay r document_hash access request room now db = Inr (doc, db') \<Longrightarrow> quiet db db'"
  by (auto simp: document_replay_def bind_result_eq_Inr dest: guest_access_quiet split: if_splits option.splits)

lemma guest_redeem_advances:
  assumes "guest_redeem sha256 canonical uc fresh invitation room operation document_bearer session_bearer display
     source now clk db = (result, db')"
  obtains (without) "quiet db db'"
    | (seated) i r access name db1 db2 where "quiet db db1"
        and "insert_guest (new_guest fresh i r access name now) db1 = Inr db2" and "quiet db2 db'"
        and "ro_id r = room" and "participants room now db1 < 8"
  using assms
proof (cases rule: guest_redeem_cases)
  case unchanged
  with without show thesis by simp
next
  case (replayed r document_hash access request doc)
  with without document_replay_quiet show thesis by blast
next
  case (counted document_hash)
  with without rates_quiet show thesis by blast
next
  case (redeemed document_hash access name request db1 doc)
  from redeem_body_advances [OF redeemed(5)] rates_quiet [OF redeemed(1)] seated show thesis by metis
qed

lemma insert_guest_advances: "insert_guest s db = Inr db' \<Longrightarrow> tables_advance db db'"
  by (auto simp: insert_guest_Inr tables_advance_def)

lemma guest_redeem_tables:
  "guest_redeem sha256 canonical uc fresh invitation room operation document_bearer session_bearer display
     source now clk db = (result, db') \<Longrightarrow> tables_advance db db'"
  by (erule guest_redeem_advances) (auto simp: quiet_def dest!: insert_guest_advances intro: tables_advance_trans)

text \<open>Every operation is quiet, or one of the three that seat a participant.\<close>

lemma room_operation_quiet:
  assumes "room_operation sha256 canonical uc now db db'" and "wave_inv db"
  shows "quiet db db' \<or> (\<exists>fresh bits p users val. wave_create sha256 fresh bits p now users db = Inr (val, db'))
    \<or> (\<exists>code p val. wave_join sha256 code p now db = Inr (val, db'))
    \<or> (\<exists>fresh invitation room operation document_bearer session_bearer display source clk result.
         guest_redeem sha256 canonical uc fresh invitation room operation document_bearer session_bearer display
           source now clk db = (result, db'))"
  using assms
  by (induction rule: room_operation.induct)
    (rule disjI2, rule disjI1, intro exI, assumption,
     rule disjI2, rule disjI2, rule disjI1, intro exI, assumption,
     rule disjI1, erule (1) wave_leave_quiet,
     rule disjI1, erule (1) wave_close_quiet,
     rule disjI1, erule (1) wave_transfer_host_quiet,
     rule disjI1, erule (1) wave_recover_host_quiet,
     rule disjI1, erule (1) wave_snapshot_quiet,
     rule disjI1, erule (1) wave_expire_due_quiet,
     rule disjI1, erule (1) wave_command_quiet,
     rule disjI1, erule wave_preflight_quiet,
     rule disjI1, erule wave_timing_quiet,
     rule disjI1, erule (1) wave_start_quiet,
     rule disjI1, erule wave_catch_up_quiet,
     rule disjI1, erule guest_issue_quiet,
     rule disjI1, erule guest_revoke_quiet,
     rule disjI2, rule disjI2, rule disjI2, intro exI, assumption,
     rule disjI1, erule guest_snapshot_quiet,
     rule disjI1, erule guest_presence_quiet,
     rule disjI1, erule guest_preflight_quiet,
     rule disjI1, erule guest_timing_quiet,
     rule disjI1, erule guest_catch_up_quiet,
     rule disjI1, erule guest_leave_quiet,
     rule disjI1, erule guest_cleanup_quiet,
     (rule disjI1, rule quiet_trans [OF quiet_frame [of _ _ "[]"] retire_quiet(1)], simp_all)[1],
     (rule disjI1, rule quiet_trans [OF quiet_frame [of _ _ "[]"] retire_quiet(2)], simp_all)[1],
     (rule disjI1, rule quiet_trans [OF quiet_frame [of _ _ "[]"] retire_quiet(3)], simp_all)[1],
     (rule disjI1, rule quiet_frame [of _ _ "[]"], simp_all)[1])

lemma room_operation_advances:
  "room_operation sha256 canonical uc now db db' \<Longrightarrow> wave_inv db \<Longrightarrow> tables_advance db db'"
  by (drule (1) room_operation_quiet)
    (auto simp: quiet_def dest: wave_create_advances(1) wave_join_advances guest_redeem_tables)

subsection \<open>Seats\<close>

definition seats_ok :: "instant \<Rightarrow> wave_db \<Rightarrow> bool" where
  "seats_ok now db \<longleftrightarrow> (\<forall>room. participants room now db \<le> 8)"

lemma quiet_participants:
  assumes "quiet db db'"
  shows "participants room now db' \<le> participants room now db"
  using assms unfolding quiet_def no_new_seats_def participants_def by (meson add_mono)

lemma quiet_seats: "quiet db db' \<Longrightarrow> seats_ok now db \<Longrightarrow> seats_ok now db'"
  unfolding seats_ok_def using quiet_participants order_trans by blast

lemma seats_later:
  assumes "t \<le> now" and "seats_ok t db"
  shows "seats_ok now db"
proof -
  have "count_rows (active_guest room now) (wv_guests db) \<le> count_rows (active_guest room t) (wv_guests db)" for room
    using assms(1) by (intro Prelude.count_rows_mono) (auto simp: active_guest_def)
  with assms(2) show ?thesis unfolding seats_ok_def participants_def by (meson add_left_mono order_trans)
qed

lemma create_seats:
  assumes "wave_create sha256 fresh bits p now users db = Inr (val, db')" and "wave_inv db" and "seats_ok now db"
  shows "seats_ok now db'"
proof -
  note inv = wave_invD [OF assms(2)] and new = wave_create_advances [OF assms(1)]
  have "wm_room m \<noteq> fresh" if "m \<in> set (wv_members db)" for m
    using hosts_okD(3) [OF inv(3) that] new(4) by (auto simp: image_image)
  then have "count_rows (joined fresh) (wv_members db) = 0"
    by (auto simp: count_rows_def filter_empty_conv joined_def)
  moreover have "gs_room s \<noteq> fresh" if "s \<in> set (wv_guests db)" for s
  proof -
    from inv(7) that obtain i where "i \<in> set (wv_invitations db)" "gi_room i = gs_room s"
      by (auto simp: guests_ok_def session_of_def)
    moreover from this inv(6) have "gi_room i \<in> fst ` state_view ` set (wv_rooms db)"
      unfolding invitations_ok_def by blast
    ultimately show ?thesis using new(4) by (auto simp: image_image)
  qed
  then have "count_rows (active_guest fresh now) (wv_guests db) = 0"
    by (auto simp: count_rows_def filter_empty_conv active_guest_def)
  ultimately have "participants fresh now db' \<le> 8"
    by (simp add: participants_def new(2,3))
  moreover have "participants room now db' = participants room now db" if "room \<noteq> fresh" for room
    using that by (simp add: participants_def new(2,3) joined_def new_member_def)
  ultimately show ?thesis using assms(3) unfolding seats_ok_def by metis
qed

lemma count_rows_update_one:
  assumes "distinct (map key rows)" and "\<And>r s. P r \<Longrightarrow> P s \<Longrightarrow> key r = key s"
  shows "count_rows Q (update_rows P f rows) \<le> Suc (count_rows Q rows)"
proof -
  have "count_rows P rows \<le> 1" using assms
  proof (induction rows)
    case (Cons r rows)
    have "\<not> P s" if "P r" "s \<in> set rows" for s
    proof
      assume "P s"
      from Cons.prems(2) [OF that(1) this] have "key r = key s" .
      with Cons.prems(1) that(2) show False by simp
    qed
    then have "count_rows P rows = 0" if "P r" using that by (simp add: count_rows_def filter_empty_conv)
    moreover have "count_rows P rows \<le> 1"
      by (rule Cons.IH [OF _ Cons.prems(2)]) (use Cons.prems(1) in simp_all)
    ultimately show ?case by simp
  qed simp
  moreover have "count_rows Q (update_rows P f rows) \<le> count_rows Q rows + count_rows P rows"
    by (induction rows) auto
  ultimately show ?thesis by simp
qed

lemma join_seats:
  assumes "wave_join sha256 code p now db = Inr (val, db')" and "wave_inv db" and "seats_ok now db"
  shows "seats_ok now db'"
proof -
  from assms(1) obtain r db1 where "r \<in> set (wv_rooms db)" "ro_code_sha256 r = sha256 (text_bytes (map upper_char code))"
    "ro_state r = OPEN" "now < ro_expires_at r"
    and free: "list_ex (\<lambda>m. joined (ro_id r) m \<and> wm_device m = pr_device p) (wv_members db)
      \<or> participants (ro_id r) now db < 8"
    and join: "join_member (ro_id r) p now db = Inr db1" and snap: "room_snapshot (ro_id r) p now db1 = Inr (val, db')"
    by (rule wave_join_Inr)
  let ?P = "\<lambda>m. wm_room m = ro_id r \<and> wm_device m = pr_device p"
  note members = wave_invD(2) [OF assms(2)]
  have "seats_ok now db1"
    using join
  proof (cases rule: join_member_cases)
    case again
    from again(1) have rows: "wv_members db1 = update_rows ?P (rejoined now) (wv_members db)"
      by (simp add: checked_update_Inr)
    note guests = join_member_frame(3) [OF join]
    have other: "count_rows (joined room) (wv_members db1) \<le> count_rows (joined room) (wv_members db)" if "room \<noteq> ro_id r" for room
      unfolding rows by (rule count_rows_update) (use that in \<open>auto simp: joined_def rejoined_def\<close>)
    have one: "count_rows (joined (ro_id r)) (wv_members db1) \<le> Suc (count_rows (joined (ro_id r)) (wv_members db))"
      unfolding rows by (rule count_rows_update_one [of member_key])
        (use members in \<open>auto simp: members_ok_def member_key_def\<close>)
    have again_there: "count_rows (joined (ro_id r)) (wv_members db1) \<le> count_rows (joined (ro_id r)) (wv_members db)"
      if "list_ex (\<lambda>m. joined (ro_id r) m \<and> wm_device m = pr_device p) (wv_members db)"
    proof -
      from that obtain m where m: "m \<in> set (wv_members db)" "?P m" "joined (ro_id r) m"
        by (auto simp: list_ex_iff joined_def)
      have "n = m" if "n \<in> set (wv_members db)" "?P n" for n
        using member_unique [OF members that(1) m(1)] that(2) m(2) by (simp add: member_key_def)
      with m(3) have "\<forall>n \<in> set (wv_members db). ?P n \<longrightarrow> joined (ro_id r) n" by blast
      then show ?thesis unfolding rows by (intro count_rows_update) blast
    qed
    show ?thesis unfolding seats_ok_def
    proof
      fix room
      have old: "participants room now db \<le> 8" using assms(3) by (simp add: seats_ok_def)
      show "participants room now db1 \<le> 8"
      proof (cases "room = ro_id r")
        case True
        from free show ?thesis
        proof
          assume "list_ex (\<lambda>m. joined (ro_id r) m \<and> wm_device m = pr_device p) (wv_members db)"
          from again_there [OF this] old True show ?thesis by (simp add: participants_def guests)
        next
          assume "participants (ro_id r) now db < 8"
          with one True show ?thesis by (simp add: participants_def guests)
        qed
      next
        case False
        from other [OF this] old show ?thesis by (simp add: participants_def guests)
      qed
    qed
  next
    case first
    then have "wv_members db1 = wv_members db @ [new_member (ro_id r) p MemberRole now]" "wv_guests db1 = wv_guests db"
      and new: "\<not> list_ex ?P (wv_members db)"
      by (auto simp: insert_member_Inr member_key_def new_member_def list_ex_iff)
    moreover from new free have "participants (ro_id r) now db < 8" by (auto simp: list_ex_iff joined_def)
    ultimately show ?thesis using assms(3)
      by (auto simp: seats_ok_def participants_def joined_def new_member_def)
  qed (use assms(3) in simp)
  with quiet_snapshot_read [OF snap] show ?thesis by (rule quiet_seats)
qed

lemma redeem_seats:
  assumes "guest_redeem sha256 canonical uc fresh invitation room operation document_bearer session_bearer display
     source now clk db = (result, db')" and "seats_ok now db"
  shows "seats_ok now db'"
  using assms(1)
proof (cases rule: guest_redeem_advances)
  case without
  from quiet_seats [OF this assms(2)] show ?thesis .
next
  case (seated i r access name db1 db2)
  have "participants q now db2 \<le> 8" for q
    using seated(2,4,5) quiet_seats [OF seated(1) assms(2)]
    by (auto simp: seats_ok_def participants_def insert_guest_Inr active_guest_def new_guest_def)
  then have "seats_ok now db2" by (simp add: seats_ok_def)
  with seated(3) show ?thesis by (rule quiet_seats)
qed

lemma room_operation_seats:
  "room_operation sha256 canonical uc now db db' \<Longrightarrow> wave_inv db \<Longrightarrow> seats_ok now db \<Longrightarrow> seats_ok now db'"
  by (drule (1) room_operation_quiet) (auto dest: quiet_seats create_seats join_seats redeem_seats)

subsection \<open>Runs\<close>

interpretation rooms: component "wave_step sha256 canonical uc" "\<lambda>(now, db). wave_inv db"
  for sha256 canonical uc
  by unfold_locales (auto elim!: wave_stepE dest: room_operation_inv)

interpretation seats: component "wave_step sha256 canonical uc" "\<lambda>(now, db). wave_inv db \<and> seats_ok now db"
  for sha256 canonical uc
  by unfold_locales (auto elim!: wave_stepE dest: room_operation_inv room_operation_seats seats_later)

interpretation history: monotone_component "wave_step sha256 canonical uc" "\<lambda>(now, db). wave_inv db"
  "\<lambda>(t, db) (now, db'). t \<le> now \<and> tables_advance db db'" for sha256 canonical uc
  by unfold_locales (auto elim!: wave_stepE dest: room_operation_advances intro: tables_advance_trans)

definition empty_wave :: wave_db where
  "empty_wave = \<lparr>wv_rooms = [], wv_members = [], wv_invited = [], wv_queue = [], wv_commands = [],
     wv_preflights = [], wv_timings = [], wv_invitations = [], wv_guests = [], wv_receipts = [],
     wv_guest_preflights = [], wv_guest_timings = [], wv_rates = [], wv_accounts = [], wv_devices = [],
     wv_sessions = [], wv_recordings = []\<rparr>"

lemma empty_wave_inv: "wave_inv empty_wave" and empty_wave_seats: "seats_ok now empty_wave"
  by (simp_all add: empty_wave_def wave_inv_def rooms_ok_def members_ok_def hosts_ok_def log_ok_def queue_ok_def
      invitations_ok_def guests_ok_def reports_ok_def receipts_ok_def references_ok_def seats_ok_def participants_def)

end
