(* ===== verification/Wave_Facts.thy ===== *)
theory Wave_Facts
  imports Wave_System
begin

text \<open>What the room properties rest on: the order of the log and the queue, the sweep, a start's gates.\<close>

subsection \<open>The log in order\<close>

lemma take_upto: "take n [i..j] = [i..min j (i + int n - 1)]"
proof (rule nth_equalityI)
  show "length (take n [i..j]) = length [i..min j (i + int n - 1)]" by (auto simp: min_def)
qed (auto simp: nth_upto)

lemma filter_after_upto: "0 \<le> n \<Longrightarrow> filter (\<lambda>x. n < x) [1..s] = [n + 1..s]" for n s :: int
proof (cases "n \<le> s")
  case True
  assume "0 \<le> n"
  then have "[1..s] = [1..n] @ [n + 1..s]" using True by (cases "n = 0") (simp_all add: upto_split2)
  moreover have "filter (\<lambda>x. n < x) [1..n] = []" by (auto simp: filter_empty_conv)
  moreover have "filter (\<lambda>x. n < x) [n + 1..s] = [n + 1..s]" by (auto simp: filter_id_conv)
  ultimately show ?thesis by simp
next
  case False
  then show ?thesis by (auto simp: filter_empty_conv)
qed

lemma log_after:
  assumes "wave_inv db" and "r \<in> set (wv_rooms db)" and "0 \<le> n"
  shows "map wc_sequence (events_after (ro_id r) n db) = [n + 1..min (ro_sequence r) (n + 100)]"
proof -
  let ?log = "log_of (ro_id r) (wv_commands db)"
  have log: "map wc_sequence ?log = [1..ro_sequence r]"
    by (rule log_okD(1) [OF wave_invD(4) [OF assms(1)]]) (use assms(2) in \<open>force simp: sequence_view_def\<close>)
  let ?after = "filter (\<lambda>c. n < wc_sequence c) ?log"
  have numbers: "map wc_sequence ?after = [n + 1..ro_sequence r]"
  proof -
    have "map wc_sequence ?after = filter (\<lambda>x. n < x) (map wc_sequence ?log)" by (simp add: filter_map comp_def)
    with filter_after_upto [OF assms(3)] log show ?thesis by simp
  qed
  have "filter (\<lambda>c. wc_room c = ro_id r \<and> n < wc_sequence c) (wv_commands db) = ?after"
    unfolding log_of_def filter_filter by (rule filter_cong) auto
  moreover have "sort_key wc_sequence ?after = ?after"
    by (rule sort_key_id_if_sorted) (simp only: numbers, simp add: sorted_wrt_upto)
  ultimately show ?thesis by (simp add: events_after_def numbers take_upto algebra_simps flip: take_map)
qed

subsection \<open>The sweep\<close>

definition due :: "instant \<Rightarrow> room_row \<Rightarrow> bool" where
  "due now r \<longleftrightarrow> ro_state r \<in> {OPEN, ORPHANED} \<and> ro_expires_at r \<le> now"

lemma count_rows_rewrite:
  assumes "distinct (map key rows)" and "r \<in> set rows" and "Q r" and "\<not> Q (f r)"
  shows "Suc (count_rows Q (update_rows (\<lambda>s. key s = key r) f rows)) = count_rows Q rows"
  using assms
proof (induction rows)
  case (Cons s rows)
  show ?case
  proof (cases "s = r")
    case True
    have "update_rows (\<lambda>s. key s = key r) f rows = rows"
      unfolding update_rows_def by (rule map_idI) (use Cons.prems(1) True in \<open>auto simp: image_iff\<close>)
    with True Cons.prems(3,4) show ?thesis by simp
  next
    case False
    with Cons.prems have "key s \<noteq> key r" "r \<in> set rows" by (auto simp: image_iff)
    with Cons show ?thesis by simp
  qed
qed simp

lemma count_rows_update_same:
  "(\<And>r. r \<in> set rows \<Longrightarrow> P r \<Longrightarrow> Q (f r) = Q r) \<Longrightarrow> count_rows Q (update_rows P f rows) = count_rows Q rows"
  by (induction rows) auto

lemma expire_one_due:
  assumes "append_lifecycle sha256 (ro_id r) user device kind doc t db = Inr db1" and "wave_inv db"
    and "r \<in> set (wv_rooms db)" and "due now r"
  shows "Suc (count_rows (due now) (wv_rooms (update_room_state clk (ro_id r) (expired_room t) db1)))
    = count_rows (due now) (wv_rooms db)"
proof -
  let ?r = "r\<lparr>ro_sequence := ro_sequence r + 1\<rparr>"
  have inv1: "wave_inv db1" by (rule append_lifecycle_inv [OF assms(1,2)])
  note r1 = append_lifecycle_row(1) [OF assms(1) wave_invD(1) [OF assms(2)] assms(3) refl]
  have "count_rows (due now) (wv_rooms db1) = count_rows (due now) (wv_rooms db)"
    using assms(1) by (rule append_lifecycle_Inr) (auto intro: count_rows_update_same simp: due_def)
  moreover have "Suc (count_rows (due now) (update_rows (\<lambda>s. ro_id s = ro_id ?r) (expired_room t) (wv_rooms db1)))
      = count_rows (due now) (wv_rooms db1)"
    by (rule count_rows_rewrite [of ro_id, OF _ r1])
      (use wave_invD(1) [OF inv1] assms(4) in \<open>simp_all add: rooms_ok_def due_def expired_room_def\<close>)
  ultimately show ?thesis
    by (simp add: update_room_state_def Let_def retire_room_def split: option.splits)
qed

lemma expire_rooms_due:
  assumes "expire_rooms sha256 t clk rooms db = Inr db'" and "wave_inv db" and "distinct (map ro_id rooms)"
    and "\<And>r. r \<in> set rooms \<Longrightarrow> r \<in> set (wv_rooms db) \<and> due now r"
  shows "count_rows (due now) (wv_rooms db') + length rooms = count_rows (due now) (wv_rooms db)"
  using assms
proof (induction rooms arbitrary: db)
  case (Cons r rooms)
  from Cons.prems(1) obtain db1 where
    db1: "append_lifecycle sha256 (ro_id r) (ro_host_user r) (ro_host_device r) ''EXPIRE'' [] t db = Inr db1"
    and rest: "expire_rooms sha256 t clk rooms (update_room_state clk (ro_id r) (expired_room t) db1) = Inr db'"
    by (auto simp: bind_result_eq_Inr)
  have r: "r \<in> set (wv_rooms db)" "due now r" using Cons.prems(4) [of r] by simp_all
  have "count_rows (due now) (wv_rooms db') + length rooms
      = count_rows (due now) (wv_rooms (update_room_state clk (ro_id r) (expired_room t) db1))"
  proof (rule Cons.IH [OF rest expire_one_inv [OF db1 Cons.prems(2)]])
    fix s assume "s \<in> set rooms"
    moreover from this have "ro_id s \<noteq> ro_id r" using Cons.prems(3) by (auto simp: image_iff)
    ultimately show "s \<in> set (wv_rooms (update_room_state clk (ro_id r) (expired_room t) db1)) \<and> due now s"
      using lifecycle_others [OF db1, of s] Cons.prems(4) [of s] by simp
  qed (use Cons.prems(3) in simp)
  with expire_one_due [OF db1 Cons.prems(2) r, of clk] show ?case by simp
qed simp

lemma due_rooms_length:
  "length (due_rooms (\<lambda>_. False) now limit db) = min (nat limit) (count_rows (due now) (wv_rooms db))"
  by (simp add: due_rooms_def count_rows_def due_def [abs_def])

subsection \<open>Gates\<close>

lemma list_max_bounds:
  fixes x :: int
  assumes "\<And>y. y \<in> set (x # xs) \<Longrightarrow> lo \<le> y \<and> y \<le> hi"
  shows "lo \<le> foldl max x xs \<and> foldl max x xs \<le> hi"
  using assms
proof (induction xs arbitrary: x)
  case (Cons a xs)
  have "lo \<le> y \<and> y \<le> hi" if "y \<in> set (max x a # xs)" for y
    using that Cons.prems [of y] Cons.prems [of x] Cons.prems [of a] by (auto simp: max_def split: if_splits)
  from Cons.IH [OF this] show ?case by simp
qed simp

lemma max_or_zero_bounds:
  assumes "\<And>v. Some v \<in> set vs \<Longrightarrow> 0 \<le> v \<and> v \<le> hi" and "0 \<le> hi"
  shows "0 \<le> max_or_zero vs" and "max_or_zero vs \<le> hi"
proof -
  have in_vs: "Some v \<in> set vs" if "v \<in> set (List.map_filter (\<lambda>v. v) vs)" for v
    using that by (auto simp: List.map_filter_def)
  show "0 \<le> max_or_zero vs" "max_or_zero vs \<le> hi"
  proof (atomize (full), cases "List.map_filter (\<lambda>v. v) vs")
    case Nil
    with assms(2) show "0 \<le> max_or_zero vs \<and> max_or_zero vs \<le> hi" by (simp add: max_or_zero_def)
  next
    case (Cons x xs)
    then have "0 \<le> y \<and> y \<le> hi" if "y \<in> set (x # xs)" for y using assms(1) in_vs that by metis
    with Cons list_max_bounds [of x xs 0 hi] show "0 \<le> max_or_zero vs \<and> max_or_zero vs \<le> hi"
      by (simp add: max_or_zero_def)
  qed
qed

lemma lead_bounds:
  assumes "list_all gate_clocked gates"
  shows "2000 \<le> lead_ms gates" and "lead_ms gates \<le> 3450"
proof -
  have bounds: "\<exists>r u. pg_rtt g = Some r \<and> pg_uncertainty g = Some u \<and> 0 \<le> r \<and> r \<le> 1000 \<and> 0 \<le> u \<and> u \<le> 100"
    if "g \<in> set gates" for g
    using assms that by (cases "pg_rtt g"; cases "pg_uncertainty g") (auto simp: list_all_iff gate_clocked_def)
  have "0 \<le> v \<and> v \<le> 1000" if "Some v \<in> set (map pg_rtt gates)" for v
    using that bounds by fastforce
  from max_or_zero_bounds(2) [of "map pg_rtt gates", OF this] have rtt: "max_or_zero (map pg_rtt gates) \<le> 1000" by simp
  have "0 \<le> v \<and> v \<le> 100" if "Some v \<in> set (map pg_uncertainty gates)" for v
    using that bounds by fastforce
  from max_or_zero_bounds(2) [of "map pg_uncertainty gates", OF this] have "max_or_zero (map pg_uncertainty gates) \<le> 100" by simp
  with rtt show "2000 \<le> lead_ms gates" "lead_ms gates \<le> 3450" by (simp_all add: lead_ms_def)
qed

text \<open>What a gate that is ready and clocked says of its participant.\<close>

definition prepared :: "start_request \<Rightarrow> uuid \<Rightarrow> instant \<Rightarrow> preflight_row list \<Rightarrow> timing_row list \<Rightarrow> bool" where
  "prepared q participant now preflights timings \<longleftrightarrow>
     (\<exists>p \<in> set preflights. wp_room p = sr_room q \<and> wp_participant p = participant \<and> wp_entry p = sr_entry q
        \<and> wp_recording p = sr_recording q \<and> wp_version p = sr_version q \<and> wp_ready p
        \<and> wp_availability p \<noteq> UNAVAILABLE \<and> now < wp_expires_at p)
     \<and> (\<exists>t \<in> set timings. wt_room t = sr_room q \<and> wt_participant t = participant \<and> wt_sequence t = sr_sequence q
        \<and> now - seconds 60 \<le> wt_reported_at t \<and> 0 \<le> wt_rtt_ms t \<and> wt_rtt_ms t \<le> 1000
        \<and> 0 \<le> wt_uncertainty_ms t \<and> wt_uncertainty_ms t \<le> 100)"

lemma gate_prepared:
  assumes "pg_ready (gate_of q i now ps ts)" and "gate_clocked (gate_of q i now ps ts)"
  shows "prepared q i now ps ts"
proof -
  let ?ts = "filter (\<lambda>t. wt_room t = sr_room q \<and> wt_participant t = i \<and> wt_sequence t = sr_sequence q
    \<and> now - seconds 60 \<le> wt_reported_at t) ts"
  from assms(2) obtain t where t: "gate_timing q i now ts = Some t"
    by (cases "gate_timing q i now ts") (auto simp: gate_of_def gate_clocked_def)
  then obtain rest where "sort_key (\<lambda>t. - wt_reported_at t) ?ts = t # rest"
    by (auto simp: gate_timing_def split: list.splits)
  then have "t \<in> set (sort_key (\<lambda>t. - wt_reported_at t) ?ts)" by simp
  then have timed: "t \<in> set ts" "wt_room t = sr_room q" "wt_participant t = i" "wt_sequence t = sr_sequence q"
    "now - seconds 60 \<le> wt_reported_at t" by simp_all
  have "0 \<le> wt_rtt_ms t \<and> wt_rtt_ms t \<le> 1000 \<and> 0 \<le> wt_uncertainty_ms t \<and> wt_uncertainty_ms t \<le> 100"
    using assms(2) by (simp add: gate_of_def gate_clocked_def t)
  moreover have "gate_ready q i now ps" using assms(1) by (simp add: gate_of_def)
  ultimately show ?thesis
    using timed unfolding prepared_def gate_ready_def list_ex_iff by blast
qed

lemma participant_gates_prepared:
  assumes "list_all pg_ready (participant_gates q now db)" and "list_all gate_clocked (participant_gates q now db)"
  shows "m \<in> set (wv_members db) \<Longrightarrow> present_member (sr_room q) now m \<Longrightarrow>
      prepared q (wm_device m) now (wv_preflights db) (wv_timings db)"
    and "s \<in> set (wv_guests db) \<Longrightarrow> present_guest (sr_room q) now db s \<Longrightarrow>
      prepared q (gs_id s) now (wv_guest_preflights db) (wv_guest_timings db)"
proof -
  have gates: "prepared q i now ps ts" if "gate_of q i now ps ts \<in> set (participant_gates q now db)" for i ps ts
    by (rule gate_prepared) (use assms that in \<open>simp_all add: list_all_iff\<close>)
  show "prepared q (wm_device m) now (wv_preflights db) (wv_timings db)"
    if "m \<in> set (wv_members db)" "present_member (sr_room q) now m"
    by (rule gates) (use that in \<open>force simp: participant_gates_def\<close>)
  show "prepared q (gs_id s) now (wv_guest_preflights db) (wv_guest_timings db)"
    if "s \<in> set (wv_guests db)" "present_guest (sr_room q) now db s"
    by (rule gates) (use that in \<open>force simp: participant_gates_def\<close>)
qed

subsection \<open>A room that is shut\<close>

definition shut :: "uuid \<Rightarrow> wave_db \<Rightarrow> bool" where
  "shut room db \<longleftrightarrow> (\<exists>r \<in> set (wv_rooms db). ro_id r = room \<and> terminal_room r)"

lemma shut_stays: "tables_advance db db' \<Longrightarrow> shut room db \<Longrightarrow> shut room db'"
  unfolding shut_def tables_advance_def room_advances_def by metis

lemma shut_not_open:
  assumes "rooms_ok (wv_rooms db)" and "shut room db" and "wv_rooms db' = wv_rooms db"
  shows "open_room room now db' \<noteq> Inr r"
proof
  assume "open_room room now db' = Inr r"
  from open_room_Inr [OF this] have r: "r \<in> set (wv_rooms db)" "ro_id r = room" "ro_state r = OPEN"
    by (simp_all add: assms(3))
  from assms(2) obtain s where s: "s \<in> set (wv_rooms db)" "ro_id s = room" "terminal_room s" by (auto simp: shut_def)
  have "s = r" by (rule room_unique [OF assms(1) s(1) r(1)]) (simp add: s(2) r(2))
  with s(3) r(3) show False by (simp add: terminal_room_def)
qed

lemma shut_without_guests:
  assumes "wave_inv db" and "shut room db" and "s \<in> set (wv_guests db)" and "gs_room s = room"
  shows "gs_state s \<noteq> GsActive"
proof
  assume "gs_state s = GsActive"
  with wave_invD(7) [OF assms(1)] assms(3,4) obtain i where "i \<in> set (wv_invitations db)" "gi_room i = room" "live_invitation i"
    by (auto simp: guests_ok_def session_of_def)
  moreover from assms(2) have "(room, True) \<in> state_view ` set (wv_rooms db)" by (force simp: shut_def state_view_def)
  ultimately show False using wave_invD(6) [OF assms(1)] by (auto simp: invitations_ok_def)
qed

lemma shut_access:
  assumes "rooms_ok (wv_rooms db)" and "shut room db" and "wv_rooms db' = wv_rooms db"
  shows "guest_access secret room action now db' \<noteq> Inr x"
proof
  assume "guest_access secret room action now db' = Inr x"
  then obtain g db'' where "guest_access secret room action now db' = Inr (g, db'')" by (cases x) simp
  then obtain r where "open_room room now db' = Inr r" by (rule guest_access_Inr)
  then show False using shut_not_open [OF assms] by blast
qed

lemma shut_redeem:
  assumes "rooms_ok (wv_rooms db)" and "shut room db"
    and "guest_redeem sha256 canonical uc fresh invitation room operation document session display source now clk db = (result, db')"
  shows "\<exists>e. result = Inl e"
  using assms(3)
proof (cases rule: guest_redeem_cases)
  case (replayed r document_hash access request doc)
  then obtain x where "guest_access access room ''ROOM_SNAPSHOT'' now db = Inr x"
    by (auto simp: document_replay_def bind_result_eq_Inr split: option.splits if_splits)
  with shut_access [OF assms(1,2) refl] show ?thesis by blast
next
  case (redeemed document_hash access name request db1 doc)
  have rooms: "wv_rooms db1 = wv_rooms db" using redeemed(1) by (auto simp: bind_result_eq_Inr rate_frame(3))
  from redeemed(5) obtain r where "open_room room now db1 = Inr r" by (rule redeem_body_Inr)
  with shut_not_open [OF assms(1,2) rooms] show ?thesis by blast
qed

lemma close_shuts:
  assumes "wave_close sha256 room p now clk db = Inr db'" and "wave_inv db"
  shows "shut room db'"
proof -
  from assms(1) obtain val db1 db2 where host: "require_room_host room p now db = Inr (val, db1)"
    and db2: "append_lifecycle sha256 room (pr_user p) (pr_device p) ''CLOSE'' [] now db1 = Inr db2"
    and eq: "db' = update_room_state clk room (close_room now) db2"
    by (auto simp: wave_close_def bind_result_eq_Inr)
  from host assms(2) obtain row where row: "row \<in> set (wv_rooms db)" "ro_id row = room"
    and snap: "room_snapshot room p now db = Inr (val, db1)"
    by (rule require_room_host_Inr) blast
  have inv1: "wave_inv db1" by (rule room_snapshot_inv [OF snap assms(2)])
  from snap have "wv_rooms db1 = wv_rooms db" by (rule room_snapshot_Inr) (simp add: membership_frame)
  then have "row\<lparr>ro_sequence := ro_sequence row + 1\<rparr> \<in> set (wv_rooms db2)"
    using append_lifecycle_row(1) [OF db2 wave_invD(1) [OF inv1] _ row(2)] row(1) by simp
  then have closed: "close_room now (row\<lparr>ro_sequence := ro_sequence row + 1\<rparr>)
      \<in> set (update_rows (\<lambda>r. ro_id r = room) (close_room now) (wv_rooms db2))"
    using row(2) by (auto simp: in_update_rows intro!: bexI)
  have "wv_rooms db' = update_rows (\<lambda>r. ro_id r = room) (close_room now) (wv_rooms db2)"
    by (simp add: eq update_room_state_def update_room_def retire_room_def Let_def split: option.splits)
  with closed show ?thesis unfolding shut_def by (intro bexI) (simp_all add: row(2) close_room_def terminal_room_def)
qed

end
