(* ===== verification/Wave_Refinement.thy ===== *)
theory Wave_Refinement
  imports Wave_Facts
begin

text \<open>
  The durable service against the policy of \<open>domain/wave.py\<close>: the snapshot a member reads is the room
  value, and queueing a track is the policy's \<open>enqueue\<close> on it; a room code opens its room.
\<close>

subsection \<open>Snapshots\<close>

lemma room_snapshot_accepted:
  assumes "wave_inv db" and "r \<in> set (wv_rooms db)" and "now < ro_expires_at r" and "\<not> terminal_room r"
    and "m \<in> set (wv_members db)" and "joined (ro_id r) m" and "wm_user m = pr_user p" and "wm_device m = pr_device p"
    and "wm_joined_at m \<le> now"
  obtains val db' where "room_snapshot (ro_id r) p now db = Inr (val, db')"
proof -
  note inv = wave_invD [OF assms(1)]
  have only: "n = m" if "n \<in> set (wv_members db)" "wm_room n = ro_id r" "wm_device n = pr_device p" for n
    using member_unique [OF inv(2) that(1) assms(5)] that(2,3) assms(6,8) by (simp add: member_key_def joined_def)
  have "member_row_checks (m\<lparr>wm_present_at := Some now\<rparr>)"
    using inv(2) assms(5,9) by (auto simp: members_ok_def member_row_checks_def)
  then have seen: "require_membership (ro_id r) p now db =
      Inr (db\<lparr>wv_members := touch_members (ro_id r) (pr_device p) now (wv_members db)\<rparr>)"
    unfolding require_membership_Inr using assms(5-8) only by blast
  have found: "find (\<lambda>s. ro_id s = ro_id r \<and> now < ro_expires_at s \<and> ro_state s \<notin> {CLOSED, EXPIRED}) (wv_rooms db) \<noteq> None"
    using assms(2-4) by (auto simp: find_None_iff terminal_room_def)
  have "m\<lparr>wm_present_at := Some now\<rparr> \<in> set (touch_members (ro_id r) (pr_device p) now (wv_members db))"
    unfolding touch_members_def in_update_rows using assms(5-8) by (intro bexI [of _ m]) (simp_all add: joined_def)
  moreover have "wm_room m = ro_id r" using assms(6) by (simp add: joined_def)
  ultimately have "find (\<lambda>n. wm_room n = ro_id r \<and> wm_user n = pr_user p \<and> wm_device n = pr_device p)
      (touch_members (ro_id r) (pr_device p) now (wv_members db)) \<noteq> None"
    using assms(7,8) unfolding find_None_iff by fastforce
  with found seen that show thesis
    by (auto simp: room_snapshot_def)
qed

lemma room_users_touch: "room_users room (db\<lparr>wv_members := touch_members i device now (wv_members db)\<rparr>) = room_users room db"
proof -
  have "map wm_user (filter (joined room) (update_rows P (\<lambda>m. m\<lparr>wm_present_at := Some now\<rparr>) ms))
      = map wm_user (filter (joined room) ms)" for P and ms :: "member_row list"
    by (induction ms) (simp_all add: joined_def)
  then show ?thesis by (simp add: room_users_def touch_members_def)
qed

text \<open>A snapshot repeats what the tables say of the room; reading it does not change that.\<close>

lemma snapshot_reads:
  assumes "room_snapshot (ro_id r) p now db = Inr (val, db')" and "wave_inv db" and "r \<in> set (wv_rooms db)"
  shows "wr_id val = ro_id r" and "wr_host val = ro_host_user r" and "wr_version val = ro_version r"
    and "wr_sequence val = ro_sequence r" and "wr_state val = ro_state r" and "wr_closed_at val = ro_closed_at r"
    and "wr_expires_at val = ro_expires_at r" and "wr_epoch val = ro_epoch r"
    and "wr_queue val = room_queue (ro_id r) db" and "wr_members val = room_users (ro_id r) db"
    and "now < ro_expires_at r" and "\<not> terminal_room r"
    and "require_membership (ro_id r) p now db = Inr db'"
proof -
  from assms(1) obtain row where seen: "require_membership (ro_id r) p now db = Inr db'" "row \<in> set (wv_rooms db)"
    "ro_id row = ro_id r" and row: "now < ro_expires_at row" "\<not> terminal_room row" "wr_host val = ro_host_user row"
    "wr_version val = ro_version row" "wr_sequence val = ro_sequence row" "wr_state val = ro_state row"
    "wr_queue val = room_queue (ro_id r) db'" "wr_members val = room_users (ro_id r) db'"
    "wr_closed_at val = ro_closed_at row" "wr_expires_at val = ro_expires_at row" "wr_id val = ro_id r"
    "wr_epoch val = ro_epoch row"
    by (rule room_snapshot_Inr)
  have "row = r" by (rule room_unique [OF wave_invD(1) [OF assms(2)] seen(2) assms(3) seen(3)])
  moreover have "room_queue (ro_id r) db' = room_queue (ro_id r) db" using membership_frame(3) [OF seen(1)] by (simp add: room_queue_def)
  moreover have "room_users (ro_id r) db' = room_users (ro_id r) db"
    using seen(1) room_users_touch by (auto simp: require_membership_Inr)
  ultimately show "wr_id val = ro_id r" "wr_host val = ro_host_user r" "wr_version val = ro_version r"
    "wr_sequence val = ro_sequence r" "wr_state val = ro_state r" "wr_closed_at val = ro_closed_at r"
    "wr_expires_at val = ro_expires_at r" "wr_epoch val = ro_epoch r"
    "wr_queue val = room_queue (ro_id r) db" "wr_members val = room_users (ro_id r) db"
    "now < ro_expires_at r" "\<not> terminal_room r" "require_membership (ro_id r) p now db = Inr db'"
    using row seen(1) by simp_all
qed

lemma room_queue_in_order:
  assumes "wave_inv db" and "r \<in> set (wv_rooms db)"
  shows "room_queue (ro_id r) db = map (\<lambda>q. \<lparr>qe_id = wq_id q, qe_recording = wq_recording q, qe_position = wq_position q\<rparr>)
    (queue_of (ro_id r) (wv_queue db))"
proof -
  note inv = wave_invD [OF assms(1)]
  have "filter (\<lambda>q. wq_room q = ro_id r \<and> wq_removed_at q = None) (wv_queue db) = queue_of (ro_id r) (wv_queue db)"
    unfolding queue_of_def by (rule filter_cong) (use queue_okD(2) [OF inv(5)] in auto)
  moreover have "map wq_position (queue_of (ro_id r) (wv_queue db)) = [0..ro_version r - 2]"
    by (rule queue_okD(1) [OF inv(5)]) (use assms(2) in \<open>force simp: version_view_def\<close>)
  then have "sort_key wq_position (queue_of (ro_id r) (wv_queue db)) = queue_of (ro_id r) (wv_queue db)"
    by (intro sort_key_id_if_sorted) (simp add: sorted_wrt_upto)
  ultimately show ?thesis by (simp add: room_queue_def)
qed

subsection \<open>Queueing refines the policy\<close>

lemma queue_command_parts:
  assumes "wave_command fresh room p ''QUEUE'' key request version sequence (Some rec) now db = Inr (res, db')"
    and "wave_inv db" and "\<not> list_ex (\<lambda>c. wc_room c = room \<and> wc_key c = key) (wv_commands db)"
  obtains val db1 r where "room_snapshot room p now db = Inr (val, db1)" and "r \<in> set (wv_rooms db)" and "ro_id r = room"
    and "ro_state r = OPEN" and "ro_host_user r = pr_user p" and "version = ro_version r" and "sequence = ro_sequence r"
    and "after_command (ro_version r + 1) (ro_sequence r + 1) ''QUEUE'' r \<in> set (wv_rooms db')"
    and "wv_members db' = wv_members db1" and "len (room_queue room db) < 100"
    and "wv_queue db' = wv_queue db @ [\<lparr>wq_id = fresh, wq_room = room, wq_recording = rec,
      wq_position = len (room_queue room db), wq_removed_at = None\<rparr>]"
    and "res = \<lparr>cr_sequence = sequence + 1, cr_version = Some (version + 1), cr_idempotent = False\<rparr>"
proof -
  from assms(1,3) obtain val db1 version' doc db2 where host: "require_room_host room p now db = Inr (val, db1)"
    and seen: "wr_version val = version" "wr_sequence val = sequence"
    and effect: "command_effect fresh room ''QUEUE'' val (Some rec) db1 = Inr (version', doc, db2)"
    and ins: "insert_command (host_command room p key request version sequence ''QUEUE'' doc None now)
      (update_room room (after_command version' (sequence + 1) ''QUEUE'') db2) = Inr db'"
    and res: "res = \<lparr>cr_sequence = sequence + 1, cr_version = Some version', cr_idempotent = False\<rparr>"
    by (rule wave_command_Inr)
  from host assms(2) obtain r where snap: "room_snapshot room p now db = Inr (val, db1)"
    and r: "r \<in> set (wv_rooms db)" "ro_id r = room" "ro_state r = OPEN" "ro_host_user r = pr_user p"
      "wr_version val = ro_version r" "wr_sequence val = ro_sequence r"
    by (rule require_room_host_Inr)
  note reads = snapshot_reads [OF snap [folded r(2)] assms(2) r(1), unfolded r(2)]
  note frame = membership_frame [OF reads(13)]
  from effect have entry: "insert_queue \<lparr>wq_id = fresh, wq_room = room, wq_recording = rec,
        wq_position = len (room_queue room db), wq_removed_at = None\<rparr> db1 = Inr db2" and version': "version' = version + 1"
    by (cases rule: command_effect_Inr; simp add: seen reads(9))+
  from entry have few: "len (room_queue room db) < 100" and db2: "wv_rooms db2 = wv_rooms db1" "wv_members db2 = wv_members db1"
      "wv_queue db2 = wv_queue db1 @ [\<lparr>wq_id = fresh, wq_room = room, wq_recording = rec,
        wq_position = len (room_queue room db), wq_removed_at = None\<rparr>]"
    by (auto simp: insert_queue_Inr queue_row_checks_def)
  from ins have db': "wv_rooms db' = update_rows (\<lambda>s. ro_id s = room) (after_command version' (sequence + 1) ''QUEUE'') (wv_rooms db2)"
    "wv_members db' = wv_members db2" "wv_queue db' = wv_queue db2"
    by (auto simp: insert_command_Inr)
  have numbers: "version = ro_version r" "sequence = ro_sequence r" using seen r(5,6) by simp_all
  have "after_command (ro_version r + 1) (ro_sequence r + 1) ''QUEUE'' r \<in> set (wv_rooms db')"
    unfolding db'(1) db2(1) frame(1) in_update_rows using r(1,2) by (intro bexI [of _ r]) (simp_all add: version' numbers)
  moreover have "wv_members db' = wv_members db1" by (simp add: db'(2) db2(2))
  moreover have "wv_queue db' = wv_queue db @ [\<lparr>wq_id = fresh, wq_room = room, wq_recording = rec,
      wq_position = len (room_queue room db), wq_removed_at = None\<rparr>]" by (simp add: db'(3) db2(3) frame(3))
  ultimately show thesis using that [OF snap r(1-4) numbers] few res version' by blast
qed

lemma queue_refines:
  assumes "wave_inv db" and "room_snapshot room p now db = Inr (v, db1)"
    and "\<not> list_ex (\<lambda>c. wc_room c = room \<and> wc_key c = key) (wv_commands db)"
    and "wave_command fresh room p ''QUEUE'' key request version sequence (Some rec) now db = Inr (res, db')"
  obtains entry v' w db2 where "enqueue_room fresh v (pr_user p) rec version now = Inr (entry, v')"
    and "room_snapshot room p now db' = Inr (w, db2)"
    and "wr_queue w = wr_queue v'" and "wr_version w = wr_version v'" and "wr_host w = wr_host v'"
    and "wr_members w = wr_members v'" and "wr_state w = wr_state v'" and "wr_epoch w = wr_epoch v'"
    and "wr_sequence w = wr_sequence v' + 1" and "cr_version res = Some (wr_version v')" and "cr_sequence res = wr_sequence w"
proof -
  from assms(4,1,3) obtain val db1' r where snap: "room_snapshot room p now db = Inr (val, db1')"
    and r: "r \<in> set (wv_rooms db)" "ro_id r = room" "ro_state r = OPEN" "ro_host_user r = pr_user p"
    and numbers: "version = ro_version r" "sequence = ro_sequence r"
    and r': "after_command (ro_version r + 1) (ro_sequence r + 1) ''QUEUE'' r \<in> set (wv_rooms db')"
    and members: "wv_members db' = wv_members db1'" and few: "len (room_queue room db) < 100"
    and queue: "wv_queue db' = wv_queue db @ [\<lparr>wq_id = fresh, wq_room = room, wq_recording = rec,
      wq_position = len (room_queue room db), wq_removed_at = None\<rparr>]"
    and res: "res = \<lparr>cr_sequence = sequence + 1, cr_version = Some (version + 1), cr_idempotent = False\<rparr>"
    by (rule queue_command_parts)
  have same: "val = v" "db1' = db1" using snap assms(2) by simp_all
  note inv' = wave_command_inv [OF assms(4,1)]
  note reads = snapshot_reads [OF assms(2) [folded r(2)] assms(1) r(1), unfolded r(2)]
  let ?r = "after_command (ro_version r + 1) (ro_sequence r + 1) ''QUEUE'' r"
  have id': "ro_id ?r = room" by (simp add: after_command_def r(2))
  from reads(13) obtain m where m: "m \<in> set (wv_members db)" "joined room m" "wm_user m = pr_user p" "wm_device m = pr_device p"
    and checks: "member_row_checks (m\<lparr>wm_present_at := Some now\<rparr>)"
    and db1: "db1 = db\<lparr>wv_members := touch_members room (pr_device p) now (wv_members db)\<rparr>"
    by (auto simp: require_membership_Inr joined_def)
  let ?m = "m\<lparr>wm_present_at := Some now\<rparr>"
  have there: "?m \<in> set (wv_members db')"
    unfolding members same db1 using m by (auto simp: touch_members_def in_update_rows joined_def)
  obtain w db2 where again: "room_snapshot room p now db' = Inr (w, db2)"
    by (rule room_snapshot_accepted [OF inv' r' _ _ there, of now p, unfolded id'])
      (use m checks reads(11,12) in \<open>auto simp: after_command_def terminal_room_def joined_def member_row_checks_def\<close>)
  note reads' = snapshot_reads [OF again [folded id'] inv' r', unfolded id']
  let ?e = "\<lparr>qe_id = fresh, qe_recording = rec, qe_position = len (room_queue room db)\<rparr>"
  have longer: "room_queue room db' = room_queue room db @ [?e]"
    using room_queue_in_order [OF inv' r', unfolded id'] room_queue_in_order [OF assms(1) r(1), unfolded r(2)]
    by (simp add: queue queue_of_def)
  have users: "room_users room db' = room_users room db"
    using room_users_touch [where room = room and db = db and i = room and device = "pr_device p" and now = now] by (simp add: room_users_def members same db1)
  have "wr_closed_at v = None"
    using reads(6,12) wave_invD(1) [OF assms(1)] r(1) unfolding rooms_ok_def by force
  moreover have "pr_user p \<in> wr_members v" using m by (force simp: reads(10) room_users_def)
  ultimately have policy: "enqueue_room fresh v (pr_user p) rec version now =
      Inr (?e, v\<lparr>wr_queue := wr_queue v @ [?e], wr_version := wr_version v + 1\<rparr>)"
    using few reads r(4) numbers
    by (simp add: enqueue_room_def require_host_def require_member_def room_active_def require_def max_queue_def Let_def)
  let ?v = "v\<lparr>wr_queue := wr_queue v @ [?e], wr_version := wr_version v + 1\<rparr>"
  have "wr_queue w = wr_queue ?v" by (simp add: reads'(9) reads(9) longer)
  moreover have "wr_version w = wr_version ?v" by (simp add: reads'(3) reads(3) after_command_def)
  moreover have "wr_host w = wr_host ?v" by (simp add: reads'(2) reads(2) after_command_def)
  moreover have "wr_members w = wr_members ?v" by (simp add: reads'(10) reads(10) users)
  moreover have "wr_state w = wr_state ?v" by (simp add: reads'(5) reads(5) after_command_def)
  moreover have "wr_epoch w = wr_epoch ?v" by (simp add: reads'(8) reads(8) after_command_def)
  moreover have "wr_sequence w = wr_sequence ?v + 1" by (simp add: reads'(4) reads(4) after_command_def)
  moreover have "cr_version res = Some (wr_version ?v)" by (simp add: res reads(3) numbers)
  moreover have "cr_sequence res = wr_sequence w" by (simp add: res reads'(4) after_command_def numbers)
  ultimately show thesis by (rule that [OF policy again])
qed

subsection \<open>A code opens its room\<close>

lemma upper_lower_char:
  "\<not> (97 \<le> (of_char c :: nat) \<and> (of_char c :: nat) \<le> 122) \<Longrightarrow> upper_char (lower_char c) = c"
  by (auto simp: upper_char_def lower_char_def is_upper_def in_range_def Let_def)

lemma upper_lower_code: "map upper_char (map lower_char (new_room_code bits)) = new_room_code bits"
proof -
  have "list_all (\<lambda>c. upper_char (lower_char c) = c) room_alphabet" by (simp add: room_alphabet_def upper_lower_char)
  then have "map upper_char (map lower_char xs) = xs" if "set xs \<subseteq> set room_alphabet" for xs
    using that unfolding list_all_iff by (induction xs) auto
  moreover have "set (new_room_code bits) \<subseteq> set room_alphabet" using new_room_code_characters by blast
  ultimately show ?thesis by blast
qed

lemma upper_code: "map upper_char (new_room_code bits) = new_room_code bits"
proof -
  have "list_all (\<lambda>c. upper_char c = c) room_alphabet" by (simp add: room_alphabet_def upper_char_def)
  with new_room_code_characters show ?thesis by (intro map_idI) (auto simp: list_all_iff)
qed

lemma insert_invited_Inr: "insert_invited room user db = Inr db' \<Longrightarrow> db' = db\<lparr>wv_invited := wv_invited db @ [(room, user)]\<rparr>"
  by (auto simp: insert_invited_def split: if_splits)

lemma invite_each_invited:
  "invite_each room host users db = Inr db' \<Longrightarrow> user \<in> set users \<Longrightarrow> user \<noteq> host \<Longrightarrow> (room, user) \<in> set (wv_invited db')"
proof (induction users arbitrary: db)
  case (Cons u users)
  have grows: "invite_each room host us d = Inr d' \<Longrightarrow> set (wv_invited d) \<subseteq> set (wv_invited d')" for us d d'
    by (induction us arbitrary: d) (force simp: bind_result_eq_Inr dest!: insert_invited_Inr split: if_splits)+
  show ?case
  proof (cases "u = user")
    case True
    with Cons.prems obtain db1 where "insert_invited room user db = Inr db1" "invite_each room host users db1 = Inr db'"
      by (auto simp: bind_result_eq_Inr)
    with grows insert_invited_Inr show ?thesis by fastforce
  next
    case False
    with Cons show ?thesis by (auto simp: bind_result_eq_Inr split: if_splits)
  qed
qed simp

lemma wave_create_parts:
  assumes "wave_create sha256 fresh bits p now users db = Inr (val, db')"
  shows "val = create_room fresh bits (pr_user p) now"
    and "\<forall>user \<in> set users. user \<noteq> pr_user p \<longrightarrow> (fresh, user) \<in> set (wv_invited db')"
    and "wv_accounts db' = wv_accounts db" and "wv_devices db' = wv_devices db"
    and "\<forall>r \<in> set (wv_rooms db). ro_code_sha256 r \<noteq> sha256 (text_bytes (new_room_code bits))"
proof -
  from assms obtain db1 db2 where
    steps: "insert_room (new_room_row sha256 fresh (new_room_code bits) p now) db = Inr db1"
      "insert_member (new_member fresh p HostRole now) db1 = Inr db2"
      "invite_each fresh (pr_user p) users db2 = Inr db'" and val: "val = create_room fresh bits (pr_user p) now"
    by (auto simp: wave_create_def bind_result_eq_Inr split: if_splits)
  show "val = create_room fresh bits (pr_user p) now" by (rule val)
  show "\<forall>user \<in> set users. user \<noteq> pr_user p \<longrightarrow> (fresh, user) \<in> set (wv_invited db')"
    using invite_each_invited [OF steps(3)] by blast
  note parts = steps(1,2) [unfolded insert_room_Inr insert_member_Inr] invite_each_Inr [OF steps(3)]
  from parts show "wv_accounts db' = wv_accounts db" "wv_devices db' = wv_devices db" by auto
  from parts show "\<forall>r \<in> set (wv_rooms db). ro_code_sha256 r \<noteq> sha256 (text_bytes (new_room_code bits))"
    by (auto simp: list_ex_iff new_room_row_def)
qed

lemma find_last: "(\<And>x. x \<in> set xs \<Longrightarrow> \<not> P x) \<Longrightarrow> P y \<Longrightarrow> find P (xs @ [y]) = Some y"
  by (induction xs) auto

text \<open>The invited device joins with the code, in whatever case it typed it.\<close>

lemma code_joins:
  assumes "wave_inv db" and "wave_create sha256 fresh bits p now users db = Inr (val, db1)"
    and "pr_user q \<in> set users" and "pr_user q \<noteq> pr_user p" and "pr_device q \<noteq> pr_device p"
    and "known_actor (pr_user q) (pr_device q) db" and "now \<le> t" and "t < now + hours 6"
    and "map upper_char code = wr_code val"
  obtains w db2 where "wave_join sha256 code q t db1 = Inr (w, db2)" and "wr_id w = wr_id val"
    and "wr_members w = {pr_user p, pr_user q}"
proof -
  note new = wave_create_advances [OF assms(2)] and parts = wave_create_parts [OF assms(2)]
  note inv1 = wave_create_inv [OF assms(2,1)]
  let ?r = "new_room_row sha256 fresh (new_room_code bits) p now"
  have code: "map upper_char code = new_room_code bits" using assms(9) by (simp add: parts(1) create_room_def)
  have r: "?r \<in> set (wv_rooms db1)" "ro_id ?r = fresh" "ro_state ?r = OPEN" "ro_expires_at ?r = now + hours 6" "\<not> terminal_room ?r"
    by (simp_all add: new(5) new_room_row_def terminal_room_def)
  have found: "find (\<lambda>r. ro_code_sha256 r = sha256 (text_bytes (map upper_char code)) \<and> ro_state r = OPEN
      \<and> t < ro_expires_at r) (wv_rooms db1) = Some ?r"
    unfolding new(5) code
    by (rule find_last) (use parts(5) assms(8) in \<open>simp_all add: new_room_row_def\<close>)
  have empty: "wm_room m \<noteq> fresh" if "m \<in> set (wv_members db)" for m
    using hosts_okD(3) [OF wave_invD(3) [OF assms(1)] that] new(4) by (auto simp: image_image)
  have none: "count_rows (joined fresh) (wv_members db) = 0"
    using empty by (auto simp: count_rows_def filter_empty_conv joined_def)
  have noguest: "count_rows (active_guest fresh t) (wv_guests db) = 0"
  proof -
    have "gs_room s \<noteq> fresh" if "s \<in> set (wv_guests db)" for s
    proof -
      from wave_invD(7) [OF assms(1)] that obtain i where "i \<in> set (wv_invitations db)" "gi_room i = gs_room s"
        by (auto simp: guests_ok_def session_of_def)
      moreover from this wave_invD(6) [OF assms(1)] have "gi_room i \<in> fst ` state_view ` set (wv_rooms db)"
        unfolding invitations_ok_def by blast
      ultimately show ?thesis using new(4) by (auto simp: image_image)
    qed
    then show ?thesis by (auto simp: count_rows_def filter_empty_conv active_guest_def)
  qed
  have seats: "participants fresh t db1 < 8"
    using none noguest by (simp add: participants_def new(2,3))
  let ?m = "new_member fresh q MemberRole t"
  let ?db = "db1\<lparr>wv_members := wv_members db1 @ [?m]\<rparr>"
  have insert: "insert_member ?m db1 = Inr ?db"
    using empty assms(5,6) parts(3,4)
    by (auto simp: insert_member_Inr list_ex_iff new(2) member_key_def new_member_def member_row_checks_def known_actor_def)
  moreover have "\<not> list_ex (\<lambda>m. wm_room m = fresh \<and> wm_device m = pr_device q) (wv_members db1)"
    using empty assms(5) by (auto simp: list_ex_iff new(2) new_member_def)
  ultimately have join: "join_member fresh q t db1 = Inr ?db"
    using parts(2) assms(3,4) by (simp add: join_member_def)
  have inv2: "wave_inv ?db"
    by (rule join_member_inv [OF join inv1]) (use r in force)
  obtain w db2 where snap: "room_snapshot (ro_id ?r) q t ?db = Inr (w, db2)"
    by (rule room_snapshot_accepted [OF inv2, of ?r t ?m q])
      (use r assms(8) in \<open>simp_all add: new_member_def joined_def\<close>)
  have "wave_join sha256 code q t db1 = Inr (w, db2)"
    unfolding wave_join_def found option.case Let_def r(2) join bind_result_simps using seats snap [unfolded r(2)]
    by (simp add: joined_def new_member_def)
  moreover note reads = snapshot_reads [OF snap inv2, unfolded r(2)]
  have "wr_id w = wr_id val" using reads(1) r(1) by (simp add: parts(1) create_room_def)
  moreover have "filter (joined fresh) (wv_members db) = []" using none by (simp add: count_rows_def)
  then have "room_users fresh ?db = {pr_user p, pr_user q}"
    by (simp add: room_users_def new(2) joined_def new_member_def)
  then have "wr_members w = {pr_user p, pr_user q}" using reads(10) r(1) by simp
  ultimately show thesis by (rule that)
qed

end
