(* ===== verification/Wave_Examples.thy ===== *)
theory Wave_Examples
  imports Wave_System
begin

text \<open>
  A concrete room, run by the operations themselves: the host creates it and invites a member, who joins
  with its code; a track is queued, both report readiness and timing, and playback starts. In another
  course of events the room expires, or its host closes it. The digest pads or truncates to 32 bytes. The
  witnesses of the room properties evaluate the operations here.
\<close>

definition wx_sha256 :: digest where "wx_sha256 bs = take 32 (bs @ replicate 32 0)"
definition wx_canonical :: canonical where "wx_canonical _ = replicate 32 0"

text \<open>The digits of an identifier by repeated division, which evaluation can run.\<close>

fun hex_digits :: "nat \<Rightarrow> nat \<Rightarrow> string" where
  "hex_digits 0 n = []"
| "hex_digits (Suc k) n = hex_digits k (n div 16) @ [Resource_Tables.hex_char (n mod 16)]"

lemma hex_digits_map: "hex_digits k n = map (\<lambda>i. Resource_Tables.hex_char (n div 16 ^ (k - Suc i) mod 16)) [0..<k]"
proof (induction k arbitrary: n)
  case (Suc k)
  have "n div 16 div 16 ^ (k - Suc i) = n div 16 ^ (k - i)" if "i < k" for i
  proof -
    have "n div 16 div 16 ^ (k - Suc i) = n div 16 ^ Suc (k - Suc i)" by (simp only: div_mult2_eq power_Suc)
    with that show ?thesis by (simp add: Suc_diff_Suc)
  qed
  then show ?case by (simp add: Suc)
qed simp

lemma uuid_hex_digits [code]: "uuid_hex n = hex_digits 32 n"
  by (simp add: uuid_hex_def hex_digits_map)

lemma start_document_cases [code]:
  "start_document q None =
     [str_value ''queue_entry_id'' (uuid_str (sr_entry q)), str_value ''recording_id'' (uuid_str (sr_recording q)),
      (KStr ''effective_at'', JNull)]"
  "start_document q (Some t) =
     [str_value ''queue_entry_id'' (uuid_str (sr_entry q)), str_value ''recording_id'' (uuid_str (sr_recording q)),
      (KStr ''effective_at'', JStr (isoformat t))]"
  by (simp_all add: start_document_def)

text \<open>The code drawn from no bits, as evaluation reads it.\<close>

lemma new_room_code_zero [code]:
  "new_room_code bits =
     (if bits = 0 then ''0000000000''
      else map (\<lambda>i. room_alphabet ! (bits div 2 ^ (5 * i) mod 32)) [9, 8, 7, 6, 5, 4, 3, 2, 1, 0])"
  by (simp add: new_room_code_def room_alphabet_def)

definition entry_key :: "queue_entry \<Rightarrow> json option" where
  "entry_key e = Some (JStr (uuid_str (qe_id e)))"

lemma current_index_keys [code]:
  "current_index room =
     (let keys = map entry_key (wr_queue room);
          current = (case wr_command room of None \<Rightarrow> None | Some c \<Rightarrow> map_of (pc_payload c) (KStr ''queue_entry_id''));
          before = length (takeWhile (\<lambda>t. t \<noteq> current) keys)
      in if before < length keys then before else 0)"
  by (simp add: current_index_def Let_def takeWhile_map comp_def entry_key_def)

definition wx_host :: principal where "wx_host = \<lparr>pr_user = 3, pr_device = 31, pr_session = 32\<rparr>"
definition wx_member :: principal where "wx_member = \<lparr>pr_user = 4, pr_device = 41, pr_session = 42\<rparr>"

definition wx_account :: "uuid \<Rightarrow> account_row" where
  "wx_account i = \<lparr>ua_id = i, ua_role = ''USER'', ua_status = ''ACTIVE'', ua_deleted_at = None, ua_generation = 1\<rparr>"

definition wx_device :: "uuid \<Rightarrow> uuid \<Rightarrow> named_device" where
  "wx_device i user = \<lparr>dv_id = i, dv_user = user, dv_revoked_at = None, dv_name = ''phone''\<rparr>"

definition wx_session :: "uuid \<Rightarrow> uuid \<Rightarrow> uuid \<Rightarrow> session_row" where
  "wx_session i user device =
     \<lparr>us_id = i, us_user = user, us_device = device, us_mode = ''V2'', us_family = None, us_revoked_at = None, us_expires_at = days 30,
      us_hash = replicate 32 (word_of_nat (i mod 256)), us_issued_at = 0\<rparr>"

definition wx0 :: wave_db where
  "wx0 = empty_wave\<lparr>wv_accounts := [wx_account 3, wx_account 4], wv_devices := [wx_device 31 3, wx_device 41 4],
     wv_sessions := [wx_session 32 3 31, wx_session 42 4 41], wv_recordings := [70]\<rparr>"

text \<open>The tables an operation commits, when it is not refused.\<close>

definition accepted :: "wave_exn + 'a \<Rightarrow> bool" where
  "accepted r = (case r of Inl _ \<Rightarrow> False | Inr _ \<Rightarrow> True)"

definition tables_of :: "wave_exn + 'a \<times> wave_db \<Rightarrow> wave_db" where
  "tables_of r = (case r of Inl _ \<Rightarrow> empty_wave | Inr (_, db) \<Rightarrow> db)"

definition wx_create where "wx_create = wave_create wx_sha256 100 0 wx_host (seconds 10) [4] wx0"
definition wx1 :: wave_db where "wx1 = tables_of wx_create"

definition wx_join where "wx_join = wave_join wx_sha256 (new_room_code 0) wx_member (seconds 11) wx1"
definition wx2 :: wave_db where "wx2 = tables_of wx_join"

definition wx_queue where
  "wx_queue = wave_command 200 100 wx_host ''QUEUE'' ''queue-1'' (replicate 32 0) 1 0 (Some 70) (seconds 12) wx2"
definition wx3 :: wave_db where "wx3 = tables_of wx_queue"

text \<open>Both report that the queued track is ready and how far their clocks are apart.\<close>

definition committed_tables :: "wave_exn + wave_db \<Rightarrow> wave_db" where
  "committed_tables r = (case r of Inl _ \<Rightarrow> empty_wave | Inr db \<Rightarrow> db)"

definition wx_ready where
  "wx_ready p t db = wave_preflight 100 p 200 70 2 VAULT_STREAMABLE True (seconds t) db"
definition wx_timed where
  "wx_timed p rtt t db = wave_timing 100 p 1 rtt 0 20 None None (seconds t) db"

definition wx4 :: wave_db where "wx4 = committed_tables (wx_ready wx_host 13 wx3)"
definition wx5 :: wave_db where "wx5 = committed_tables (wx_ready wx_member 14 wx4)"
definition wx6 :: wave_db where "wx6 = committed_tables (wx_timed wx_host 40 15 wx5)"
definition wx7 :: wave_db where "wx7 = committed_tables (wx_timed wx_member 500 16 wx6)"

definition wx_request :: start_request where
  "wx_request = \<lparr>sr_room = 100, sr_entry = 200, sr_recording = 70, sr_version = 2, sr_sequence = 1\<rparr>"

definition wx_read where "wx_read = require_room_host 100 wx_host (seconds 17) wx7"

definition wx_play :: command_row where
  "wx_play = host_command 100 wx_host (''start-'' @ number_text 2)
     (wx_sha256 (text_bytes (uuid_str 100 @ '':'' @ number_text 2))) 2 1 ''PLAY''
     (start_document wx_request (Some (seconds 17 + milliseconds 2000))) (Some (seconds 17 + milliseconds 2000)) (seconds 17)"

definition wx_write where
  "wx_write = insert_command wx_play
     (update_room 100 (started_room 2 (Some (seconds 17 + milliseconds 2000))) (tables_of wx_read))"
definition wx8 :: wave_db where "wx8 = committed_tables wx_write"

text \<open>How a start is accepted, from its parts.\<close>

lemma wave_start_accepted:
  assumes "require_room_host (sr_room q) p now db = Inr (val, db1)" and "wr_version val = sr_version q"
    and "wr_sequence val = sr_sequence q" and "gates_ready q now db1" and "lead = lead_ms (participant_gates q now db1)"
    and "lead \<le> 8000"
    and "insert_command (host_command (sr_room q) p (''start-'' @ number_text (sr_sequence q + 1))
        (hash (text_bytes (uuid_str (sr_room q) @ '':'' @ number_text (sr_sequence q + 1))))
        (sr_version q) (sr_sequence q) ''PLAY'' (start_document q (Some (now + milliseconds lead)))
        (Some (now + milliseconds lead)) now)
      (update_room (sr_room q) (started_room (sr_sequence q + 1) (Some (now + milliseconds lead))) db1) = Inr db'"
  shows "wave_start hash p q now db =
    Inr (\<lparr>st_sequence = sr_sequence q + 1, st_started = True, st_effective_at = Some (now + milliseconds lead)\<rparr>, db')"
  using assms
  by (simp add: wave_start_def gates_ready_def host_command_def started_room_def [abs_def] Let_def)

lemma wx_create_ok: "accepted wx_create" by code_simp
lemma wx_join_ok: "accepted wx_join" by code_simp
lemma wx_queue_ok: "accepted wx_queue" by code_simp
lemma wx_ready_ok: "accepted (wx_ready wx_host 13 wx3)" "accepted (wx_ready wx_member 14 wx4)" by code_simp+
lemma wx_timed_ok: "accepted (wx_timed wx_host 40 15 wx5)" "accepted (wx_timed wx_member 500 16 wx6)" by code_simp+
lemma wx_read_ok: "accepted wx_read" by code_simp
lemma wx_read_value: "wr_version (fst (projr wx_read)) = 2" "wr_sequence (fst (projr wx_read)) = 1" by code_simp+
lemma wx_gates: "gates_ready wx_request (seconds 17) (tables_of wx_read)" by code_simp
lemma wx_lead: "lead_ms (participant_gates wx_request (seconds 17) (tables_of wx_read)) = 2000" by code_simp
lemma wx_write_ok: "accepted wx_write" by code_simp

lemma accepted_tables: "accepted r \<Longrightarrow> r = Inr (fst (projr r), tables_of r)"
  by (cases r) (auto simp: accepted_def tables_of_def)

lemma accepted_committed: "accepted r \<Longrightarrow> r = Inr (committed_tables r)"
  by (cases r) (simp_all add: accepted_def committed_tables_def)

lemma wx_start: "wave_start wx_sha256 wx_host wx_request (seconds 17) wx7 =
  Inr (\<lparr>st_sequence = 2, st_started = True, st_effective_at = Some (seconds 17 + milliseconds 2000)\<rparr>, wx8)"
proof -
  have put: "insert_command wx_play (update_room 100 (started_room 2 (Some (seconds 17 + milliseconds 2000)))
      (tables_of wx_read)) = Inr wx8"
    using accepted_committed [OF wx_write_ok] by (simp add: wx_write_def wx8_def)
  have fields: "sr_room wx_request = 100" "sr_version wx_request = 2" "sr_sequence wx_request = 1"
    by (simp_all add: wx_request_def)
  have read: "require_room_host 100 wx_host (seconds 17) wx7 = Inr (fst (projr wx_read), tables_of wx_read)"
    using accepted_tables [OF wx_read_ok] by (simp only: wx_read_def)
  show ?thesis
    using wave_start_accepted [where q = wx_request and p = wx_host and now = "seconds 17" and hash = wx_sha256
        and lead = 2000, unfolded fields one_add_one, OF read wx_read_value wx_gates
        wx_lead [symmetric] _ put [unfolded wx_play_def]]
    by (simp add: fields)
qed

lemma wx_step: "room_operation sha256 canonical uc now db db' \<Longrightarrow> t \<le> now \<Longrightarrow>
    wave_run sha256 canonical uc (t0, db0) (t, db) \<Longrightarrow> wave_run sha256 canonical uc (t0, db0) (now, db')"
  by (erule rtranclp.rtrancl_into_rtrancl) (rule wave_tick)

text \<open>The history as a run from the empty tables.\<close>

lemma wx_run:
  "wave_run wx_sha256 wx_canonical uc (0, empty_wave) (0, wx0)"
  "wave_run wx_sha256 wx_canonical uc (0, empty_wave) (seconds 10, wx1)"
  "wave_run wx_sha256 wx_canonical uc (0, empty_wave) (seconds 11, wx2)"
  "wave_run wx_sha256 wx_canonical uc (0, empty_wave) (seconds 12, wx3)"
  "wave_run wx_sha256 wx_canonical uc (0, empty_wave) (seconds 16, wx7)"
  "wave_run wx_sha256 wx_canonical uc (0, empty_wave) (seconds 17, wx8)"
proof -
  have "room_operation wx_sha256 wx_canonical uc 0 empty_wave wx0"
    using op_enrol [where us = "[wx_account 3, wx_account 4]" and ds = "[wx_device 31 3, wx_device 41 4]"
        and ss = "[wx_session 32 3 31, wx_session 42 4 41]" and rs = "[70]" and db = empty_wave]
    by (simp add: wx0_def empty_wave_def)
  then show r0: "wave_run wx_sha256 wx_canonical uc (0, empty_wave) (0, wx0)"
    by (rule wx_step [where t = 0]) simp_all
  have "room_operation wx_sha256 wx_canonical uc (seconds 10) wx0 wx1"
    using op_create accepted_tables [OF wx_create_ok] by (simp only: wx_create_def wx1_def)
  then show r1: "wave_run wx_sha256 wx_canonical uc (0, empty_wave) (seconds 10, wx1)" by (rule wx_step [OF _ _ r0]) simp
  have "room_operation wx_sha256 wx_canonical uc (seconds 11) wx1 wx2"
    using op_join accepted_tables [OF wx_join_ok] by (simp only: wx_join_def wx2_def)
  then show r2: "wave_run wx_sha256 wx_canonical uc (0, empty_wave) (seconds 11, wx2)" by (rule wx_step [OF _ _ r1]) simp
  have "room_operation wx_sha256 wx_canonical uc (seconds 12) wx2 wx3"
    using op_command accepted_tables [OF wx_queue_ok] by (simp only: wx_queue_def wx3_def)
  then show r3: "wave_run wx_sha256 wx_canonical uc (0, empty_wave) (seconds 12, wx3)" by (rule wx_step [OF _ _ r2]) simp
  have r4: "room_operation wx_sha256 wx_canonical uc (seconds 13) wx3 wx4"
    "room_operation wx_sha256 wx_canonical uc (seconds 14) wx4 wx5"
    using op_preflight accepted_committed [OF wx_ready_ok(1)] accepted_committed [OF wx_ready_ok(2)]
    by (simp_all only: wx_ready_def wx4_def wx5_def)
  have r6: "room_operation wx_sha256 wx_canonical uc (seconds 15) wx5 wx6"
    "room_operation wx_sha256 wx_canonical uc (seconds 16) wx6 wx7"
    using op_timing accepted_committed [OF wx_timed_ok(1)] accepted_committed [OF wx_timed_ok(2)]
    by (simp_all only: wx_timed_def wx6_def wx7_def)
  show r7: "wave_run wx_sha256 wx_canonical uc (0, empty_wave) (seconds 16, wx7)"
    by (rule wx_step [OF r6(2) _ wx_step [OF r6(1) _ wx_step [OF r4(2) _ wx_step [OF r4(1) _ r3]]]]) simp_all
  show "wave_run wx_sha256 wx_canonical uc (0, empty_wave) (seconds 17, wx8)"
    by (rule wx_step [OF op_start [OF wx_start] _ r7]) simp
qed

lemma wx_inv: "wave_inv wx0" "wave_inv wx1" "wave_inv wx2" "wave_inv wx3" "wave_inv wx7" "wave_inv wx8"
  using wx_run [THEN rooms.run_inv] empty_wave_inv by auto

text \<open>The room seven hours later, when its deadline has passed, and closed by its host.\<close>

definition wx_row :: room_row where
  "wx_row = new_room_row wx_sha256 100 (new_room_code 0) wx_host (seconds 10)"

definition wx_expiry where
  "wx_expiry = insert_command (lifecycle_command wx_sha256 wx_row 3 31 ''EXPIRE'' [] (hours 7)) wx1"

lemma wx_expiry_ok: "accepted wx_expiry" by code_simp

lemma append_lifecycle_accepted:
  assumes "the_room room db = Inr row" and "insert_command (lifecycle_command hash row user device kind doc now) db = Inr db1"
  shows "append_lifecycle hash room user device kind doc now db =
    Inr (update_room room (\<lambda>r. r\<lparr>ro_sequence := ro_sequence row + 1\<rparr>) db1)"
  using assms by (simp add: append_lifecycle_def)

lemma wx1_rooms: "wv_rooms wx1 = [wx_row]"
proof -
  have "wave_create wx_sha256 100 0 wx_host (seconds 10) [4] wx0 = Inr (fst (projr wx_create), wx1)"
    using accepted_tables [OF wx_create_ok] by (simp only: wx_create_def wx1_def)
  from wave_create_advances(5) [OF this] show ?thesis by (simp add: wx_row_def wx0_def empty_wave_def)
qed

lemma wx1_room: "the_room 100 wx1 = Inr wx_row"
  by (simp add: the_room_def find_room_def wx1_rooms wx_row_def new_room_row_def)

lemma wx_expire: "\<exists>db'. wave_expire_due wx_sha256 (\<lambda>_. False) (hours 7) (hours 7) 100 wx1 = Inr (1, db')"
proof -
  have "append_lifecycle wx_sha256 100 3 31 ''EXPIRE'' [] (hours 7) wx1 =
      Inr (update_room 100 (\<lambda>r. r\<lparr>ro_sequence := ro_sequence wx_row + 1\<rparr>) (committed_tables wx_expiry))"
    by (rule append_lifecycle_accepted [OF wx1_room]) (use accepted_committed [OF wx_expiry_ok] in \<open>simp only: wx_expiry_def\<close>)
  moreover have "due_rooms (\<lambda>_. False) (hours 7) 100 wx1 = [wx_row]"
    by (simp add: due_rooms_def wx1_rooms wx_row_def new_room_row_def)
  moreover have "ro_id wx_row = 100" "ro_host_user wx_row = 3" "ro_host_device wx_row = 31"
    by (simp_all add: wx_row_def new_room_row_def wx_host_def)
  ultimately show ?thesis by (simp add: wave_expire_due_def)
qed

definition wx_closing where "wx_closing = require_room_host 100 wx_host (seconds 12) wx1"
definition wx_closed where
  "wx_closed = insert_command (lifecycle_command wx_sha256 wx_row 3 31 ''CLOSE'' [] (seconds 12)) (tables_of wx_closing)"

lemma wx_closing_ok: "accepted wx_closing" by code_simp
lemma wx_closed_ok: "accepted wx_closed" by code_simp

lemma wx_close: "\<exists>db'. wave_close wx_sha256 100 wx_host (seconds 12) (seconds 12) wx1 = Inr db'"
proof -
  have host: "require_room_host 100 wx_host (seconds 12) wx1 = Inr (fst (projr wx_closing), tables_of wx_closing)"
    using accepted_tables [OF wx_closing_ok] by (simp only: wx_closing_def)
  then obtain r where "require_membership 100 wx_host (seconds 12) wx1 = Inr (tables_of wx_closing)"
    by (auto simp: require_room_host_def bind_result_eq_Inr room_snapshot_def split: if_splits option.splits)
  then have "the_room 100 (tables_of wx_closing) = Inr wx_row"
    using wx1_room by (simp add: the_room_def find_room_def membership_frame)
  then have "append_lifecycle wx_sha256 100 3 31 ''CLOSE'' [] (seconds 12) (tables_of wx_closing) =
      Inr (update_room 100 (\<lambda>r. r\<lparr>ro_sequence := ro_sequence wx_row + 1\<rparr>) (committed_tables wx_closed))"
    by (rule append_lifecycle_accepted) (use accepted_committed [OF wx_closed_ok] in \<open>simp only: wx_closed_def\<close>)
  moreover have "pr_user wx_host = 3" "pr_device wx_host = 31" by (simp_all add: wx_host_def)
  ultimately show ?thesis unfolding wave_close_def host by simp
qed

end
