(* ===== verification/Wave_Properties.thy ===== *)
theory Wave_Properties
  imports Wave_Refinement Wave_Examples
begin

text \<open>The properties of rooms and their guests.\<close>







text \<open>C7. A start is strict. The room starts to play exactly when the entry is in the queue, somebody is
  present, and every member and guest who is present has reported readiness for this very entry and queue
  version, not yet expired, and a clock measurement for this very sequence within the last minute and
  within its bounds; playback then begins between 2 and 3.45 seconds from now. Otherwise the attempt is
  logged as aborted and the room is paused.\<close>

theorem start_is_strict:
  assumes "wave_start sha256 p q now db = Inr (res, db')"
  shows "\<exists>val db1. require_room_host (sr_room q) p now db = Inr (val, db1)
    \<and> (st_started res \<longleftrightarrow> queued (sr_room q) (sr_entry q) (sr_recording q) db1 \<and> participant_gates q now db1 \<noteq> []
         \<and> list_all pg_ready (participant_gates q now db1) \<and> list_all gate_clocked (participant_gates q now db1))
    \<and> (st_started res \<longrightarrow>
         (\<forall>m \<in> set (wv_members db1). present_member (sr_room q) now m \<longrightarrow>
            prepared q (wm_device m) now (wv_preflights db1) (wv_timings db1))
         \<and> (\<forall>s \<in> set (wv_guests db1). present_guest (sr_room q) now db1 s \<longrightarrow>
            prepared q (gs_id s) now (wv_guest_preflights db1) (wv_guest_timings db1))
         \<and> (\<exists>lead. st_effective_at res = Some (now + milliseconds lead) \<and> 2000 \<le> lead \<and> lead \<le> 3450))
    \<and> (\<exists>c. wv_commands db' = wv_commands db @ [c] \<and> wc_sequence c = st_sequence res
         \<and> wc_effective_at c = st_effective_at res \<and> wc_kind c = (if st_started res then ''PLAY'' else ''START_ABORTED''))
    \<and> (\<forall>r \<in> set (wv_rooms db'). ro_id r = sr_room q \<longrightarrow> ro_playback r = (if st_started res then PLAYING else PlaybackPaused))"
proof -
  from assms obtain val db1 effective where host: "require_room_host (sr_room q) p now db = Inr (val, db1)"
    and effective: "effective = (if gates_ready q now db1 \<and> lead_ms (participant_gates q now db1) \<le> 8000
      then Some (now + milliseconds (lead_ms (participant_gates q now db1))) else None)"
    and ins: "insert_command (host_command (sr_room q) p (''start-'' @ number_text (sr_sequence q + 1))
        (sha256 (text_bytes (uuid_str (sr_room q) @ '':'' @ number_text (sr_sequence q + 1))))
        (sr_version q) (sr_sequence q) (if effective \<noteq> None then ''PLAY'' else ''START_ABORTED'')
        (start_document q effective) effective now)
      (update_room (sr_room q) (started_room (sr_sequence q + 1) effective) db1) = Inr db'"
    and res: "res = \<lparr>st_sequence = sr_sequence q + 1, st_started = (effective \<noteq> None), st_effective_at = effective\<rparr>"
    by (rule wave_start_Inr)
  let ?gates = "participant_gates q now db1"
  have lead: "2000 \<le> lead_ms ?gates \<and> lead_ms ?gates \<le> 3450" if "gates_ready q now db1"
    using lead_bounds that by (simp add: gates_ready_def)
  have started: "st_started res \<longleftrightarrow> gates_ready q now db1"
    using lead by (auto simp: res effective)
  have "st_started res \<longrightarrow> (\<exists>lead. st_effective_at res = Some (now + milliseconds lead) \<and> 2000 \<le> lead \<and> lead \<le> 3450)"
    using lead by (auto simp: res effective)
  moreover have "(\<forall>m \<in> set (wv_members db1). present_member (sr_room q) now m \<longrightarrow>
            prepared q (wm_device m) now (wv_preflights db1) (wv_timings db1))
         \<and> (\<forall>s \<in> set (wv_guests db1). present_guest (sr_room q) now db1 s \<longrightarrow>
            prepared q (gs_id s) now (wv_guest_preflights db1) (wv_guest_timings db1))" if "st_started res"
    using that participant_gates_prepared unfolding started gates_ready_def by blast
  moreover have "wv_commands db1 = wv_commands db"
  proof -
    from host have "room_snapshot (sr_room q) p now db = Inr (val, db1)"
      by (auto simp: require_room_host_def bind_result_eq_Inr split: if_splits)
    then show ?thesis by (rule room_snapshot_Inr) (simp add: membership_frame)
  qed
  then have "\<exists>c. wv_commands db' = wv_commands db @ [c] \<and> wc_sequence c = st_sequence res
         \<and> wc_effective_at c = st_effective_at res \<and> wc_kind c = (if st_started res then ''PLAY'' else ''START_ABORTED'')"
    using ins by (auto simp: insert_command_Inr res)
  moreover have "\<forall>r \<in> set (wv_rooms db'). ro_id r = sr_room q \<longrightarrow> ro_playback r = (if st_started res then PLAYING else PlaybackPaused)"
    using ins by (auto simp: insert_command_Inr in_update_rows started_room_def res)
  ultimately show ?thesis using host started unfolding gates_ready_def by blast
qed

theorem start_is_strict_witness:
  "\<exists>val db1. require_room_host 100 wx_host (seconds 17) wx7 = Inr (val, db1) \<and> queued 100 200 70 db1"
  using start_is_strict [OF wx_start] by (auto simp: wx_request_def)

text \<open>C19. Catching up is gapless. A member who asks for the events after a number gets the next ones in
  order, none missing and none twice, up to one hundred or to the room's last command.\<close>

theorem catch_up_is_gapless:
  assumes "wave_catch_up room p n now db = Inr (events, db')" and "wave_inv db"
    and "r \<in> set (wv_rooms db)" and "ro_id r = room" and "0 \<le> n"
  shows "map ev_sequence events = [n + 1..min (ro_sequence r) (n + 100)]"
proof -
  from assms(1) obtain db1 where "require_membership room p now db = Inr db1"
    and events: "events = map (event_of isoformat) (events_after room n db1)"
    by (auto simp: wave_catch_up_def bind_result_eq_Inr)
  then have "events_after room n db1 = events_after room n db" by (simp add: events_after_def membership_frame)
  with log_after [OF assms(2,3,5)] show ?thesis by (simp add: events assms(4) event_of_def comp_def)
qed

theorem catch_up_is_gapless_witness:
  "\<exists>events db'. wave_catch_up 100 wx_member 0 (seconds 18) wx8 = Inr (events, db') \<and> map ev_sequence events = [1, 2]"
proof -
  have "list_ex (\<lambda>r. ro_id r = 100 \<and> ro_sequence r = 2) (wv_rooms wx8)" by code_simp
  then obtain r where r: "r \<in> set (wv_rooms wx8)" "ro_id r = 100" "ro_sequence r = 2" by (auto simp: list_ex_iff)
  have "accepted (wave_catch_up 100 wx_member 0 (seconds 18) wx8)" by code_simp
  then obtain events db' where ok: "wave_catch_up 100 wx_member 0 (seconds 18) wx8 = Inr (events, db')"
    by (cases "wave_catch_up 100 wx_member 0 (seconds 18) wx8") (auto simp: accepted_def)
  from catch_up_is_gapless [OF ok wx_inv(6) r(1,2)] have "map ev_sequence events = [1, 2]"
    by (simp add: r(3) upto.simps)
  with ok show ?thesis by (intro exI conjI)
qed

text \<open>C12. Queueing refines the policy. Against the room value its snapshot reads, the durable service's
  queue command does what the policy's \<open>enqueue\<close> does: when it is accepted the policy accepts it with the
  same entry, and the snapshot read afterwards has the policy's queue, version, host, members and state,
  with the sequence advanced by the logged command.\<close>

theorem queueing_refines_the_policy:
  assumes "wave_inv db" and "room_snapshot room p now db = Inr (v, db1)"
    and "\<not> list_ex (\<lambda>c. wc_room c = room \<and> wc_key c = key) (wv_commands db)"
    and "wave_command fresh room p ''QUEUE'' key request version sequence (Some rec) now db = Inr (res, db')"
  shows "\<exists>entry v' w db2. enqueue_room fresh v (pr_user p) rec version now = Inr (entry, v')
    \<and> room_snapshot room p now db' = Inr (w, db2)
    \<and> wr_queue w = wr_queue v' \<and> wr_version w = wr_version v' \<and> wr_host w = wr_host v' \<and> wr_members w = wr_members v'
    \<and> wr_state w = wr_state v' \<and> wr_epoch w = wr_epoch v' \<and> wr_sequence w = wr_sequence v' + 1
    \<and> cr_version res = Some (wr_version v') \<and> cr_sequence res = wr_sequence w"
  by (rule queue_refines [OF assms]) blast

theorem queueing_refines_the_policy_witness:
  "\<exists>v entry v'. enqueue_room 200 (v :: playback_command wave_room) 3 70 1 (seconds 12) = Inr (entry, v')"
proof -
  have "accepted (room_snapshot 100 wx_host (seconds 12) wx2)" by code_simp
  from accepted_tables [OF this] obtain v db1 where snap: "room_snapshot 100 wx_host (seconds 12) wx2 = Inr (v, db1)" by blast
  have none: "\<not> list_ex (\<lambda>c. wc_room c = 100 \<and> wc_key c = ''queue-1'') (wv_commands wx2)" by code_simp
  from accepted_tables [OF wx_queue_ok] have
    "wave_command 200 100 wx_host ''QUEUE'' ''queue-1'' (replicate 32 0) 1 0 (Some 70) (seconds 12) wx2 = Inr (fst (projr wx_queue), wx3)"
    by (simp only: wx_queue_def wx3_def)
  from queueing_refines_the_policy [OF wx_inv(3) snap none this] show ?thesis by (auto simp: wx_host_def)
qed

text \<open>C18. A room code opens its room. The code a host gets for a new room, typed by an invited user in any
  case within the room's six hours, leads that user's device into exactly this room, and the host and the
  user are then its members.\<close>

theorem room_codes_open_their_room:
  assumes "wave_inv db" and "wave_create sha256 fresh bits p now users db = Inr (val, db1)"
    and "pr_user q \<in> set users" and "pr_user q \<noteq> pr_user p" and "pr_device q \<noteq> pr_device p"
    and "known_actor (pr_user q) (pr_device q) db" and "now \<le> t" and "t < now + hours 6"
  shows "(\<exists>w db2. wave_join sha256 (map lower_char (wr_code val)) q t db1 = Inr (w, db2)
      \<and> wr_id w = wr_id val \<and> wr_members w = {pr_user p, pr_user q})
    \<and> (\<exists>w db2. wave_join sha256 (wr_code val) q t db1 = Inr (w, db2)
      \<and> wr_id w = wr_id val \<and> wr_members w = {pr_user p, pr_user q})"
proof -
  have code: "wr_code val = new_room_code bits" using wave_create_parts(1) [OF assms(2)] by (simp add: create_room_def)
  have lower: "map upper_char (map lower_char (wr_code val)) = wr_code val" unfolding code by (rule upper_lower_code)
  have upper: "map upper_char (wr_code val) = wr_code val" unfolding code by (rule upper_code)
  from code_joins [OF assms lower] code_joins [OF assms upper] show ?thesis by metis
qed

theorem room_codes_open_their_room_witness:
  "\<exists>w db2. wave_join wx_sha256 (wr_code (fst (projr wx_create))) wx_member (seconds 11) wx1 = Inr (w, db2)"
proof -
  have create: "wave_create wx_sha256 100 0 wx_host (seconds 10) [4] wx0 = Inr (fst (projr wx_create), wx1)"
    using accepted_tables [OF wx_create_ok] by (simp only: wx_create_def wx1_def)
  have "known_actor 4 41 wx0" by code_simp
  then show ?thesis
    using room_codes_open_their_room [OF wx_inv(1) create, of wx_member "seconds 11"]
    by (auto simp: wx_member_def wx_host_def)
qed



text \<open>C10. Closed rooms shut guests out. Once its host has closed a room, whatever operations follow, the
  room stays closed, no guest session in it is active, no guest is let into it with any secret, for any
  action at any time, and no invitation to it can be redeemed.\<close>

theorem closed_rooms_shut_guests_out:
  assumes "wave_close sha256 room p now clk db = Inr db1" and "wave_inv db"
    and "wave_run sha256 canonical uc (t, db1) (t', db2)"
  shows "(\<exists>r \<in> set (wv_rooms db2). ro_id r = room \<and> ro_state r \<in> {CLOSED, EXPIRED})
    \<and> (\<forall>s \<in> set (wv_guests db2). gs_room s = room \<longrightarrow> gs_state s \<noteq> GsActive)
    \<and> (\<forall>bearer action later x. guest_authenticate sha256 bearer room action later db2 \<noteq> Inr x)
    \<and> (\<forall>fresh invitation operation document session display source later clk' doc db3.
         guest_redeem sha256 canonical uc fresh invitation room operation document session display source later clk' db2
           \<noteq> (Inr doc, db3))"
proof -
  have inv1: "wave_inv db1" by (rule wave_close_inv [OF assms(1,2)])
  have inv2: "wave_inv db2" using rooms.run_inv [OF assms(3)] inv1 by simp
  have "tables_advance db1 db2" using history.run_above [OF assms(3)] inv1 by simp
  then have shut: "shut room db2" using close_shuts [OF assms(1,2)] by (rule shut_stays)
  have "guest_authenticate sha256 bearer room action later db2 \<noteq> Inr x" for bearer action later x
    using shut_access [OF wave_invD(1) [OF inv2] shut refl] by (auto simp: guest_authenticate_def bind_result_eq_Inr)
  moreover have "guest_redeem sha256 canonical uc fresh invitation room operation document session display source later
      clk' db2 \<noteq> (Inr doc, db3)" for fresh invitation operation document session display source later clk' doc db3
    using shut_redeem [OF wave_invD(1) [OF inv2] shut] by blast
  ultimately show ?thesis
    using shut shut_without_guests [OF inv2 shut] by (auto simp: shut_def terminal_room_def)
qed

theorem closed_rooms_shut_guests_out_witness:
  "\<exists>db1. wave_close wx_sha256 100 wx_host (seconds 12) (seconds 12) wx1 = Inr db1
    \<and> (\<forall>s \<in> set (wv_guests db1). gs_room s = 100 \<longrightarrow> gs_state s \<noteq> GsActive)"
proof -
  obtain db1 where close: "wave_close wx_sha256 100 wx_host (seconds 12) (seconds 12) wx1 = Inr db1"
    using wx_close by blast
  from closed_rooms_shut_guests_out [OF close wx_inv(2) rtranclp.rtrancl_refl] close show ?thesis by blast
qed

end
