(* ===== verification/Wave_Memory.thy ===== *)
theory Wave_Memory
  imports Wave_Domain
begin

text \<open>
  The in-process room service, \<open>InMemoryWaveService\<close> of \<open>server/src/autplay/application/wave.py\<close>: the
  reference whose policy the durable service is to preserve. Its four dictionaries are maps; a room in
  it is the object its methods mutate, so each operation returns the service with that room replaced.
\<close>

record memory_result =
  mr_sequence :: int
  mr_version :: int
  mr_entry :: "uuid option"

record scheduled_start =
  ms_sequence :: int
  ms_scheduled_at :: instant
  ms_lead_ms :: int

record memory_service =
  mem_rooms :: "uuid \<rightharpoonup> unit wave_room"
  mem_commands :: "uuid \<times> string \<rightharpoonup> memory_result"
  mem_presence :: "uuid \<times> uuid \<rightharpoonup> instant"
  mem_availability :: "uuid \<times> uuid \<times> uuid \<rightharpoonup> availability"

definition empty_memory :: memory_service where
  "empty_memory = \<lparr>mem_rooms = Map.empty, mem_commands = Map.empty, mem_presence = Map.empty,
     mem_availability = Map.empty\<rparr>"

definition memory_room :: "memory_service \<Rightarrow> uuid \<Rightarrow> wave_exn + unit wave_room" where
  "memory_room m room = (case mem_rooms m room of None \<Rightarrow> Inl WaveKeyError | Some r \<Rightarrow> Inr r)"

definition set_memory_room :: "unit wave_room \<Rightarrow> uuid \<Rightarrow> memory_service \<Rightarrow> memory_service" where
  "set_memory_room r room m = m\<lparr>mem_rooms := (mem_rooms m)(room \<mapsto> r)\<rparr>"

definition memory_create ::
  "uuid \<Rightarrow> nat \<Rightarrow> uuid \<Rightarrow> instant \<Rightarrow> memory_service \<Rightarrow> unit wave_room \<times> memory_service" where
  "memory_create fresh bits user now m =
     (let r = create_room fresh bits user now in (r, set_memory_room r (wr_id r) m))"

definition memory_get ::
  "uuid \<Rightarrow> uuid \<Rightarrow> instant \<Rightarrow> memory_service \<Rightarrow> wave_exn + unit wave_room" where
  "memory_get room user now m =
     bind_result (memory_room m room) (\<lambda>r.
     bind_result (require_member r user now) (\<lambda>_. Inr r))"

definition memory_join ::
  "uuid \<Rightarrow> uuid \<Rightarrow> instant \<Rightarrow> memory_service \<Rightarrow> wave_exn + (unit wave_room \<times> memory_service)" where
  "memory_join room user now m =
     bind_result (memory_room m room) (\<lambda>r.
     bind_result (join_room r user now) (\<lambda>r'. Inr (r', set_memory_room r' room m)))"

text \<open>
  \<open>command\<close>: a key seen before returns the first result. An \<open>enqueue\<close> reports the next sequence number
  and leaves the room's own counter where it was; the playback commands advance the counter.
\<close>

definition memory_command ::
  "uuid \<Rightarrow> uuid \<Rightarrow> uuid \<Rightarrow> string \<Rightarrow> string \<Rightarrow> int \<Rightarrow> uuid option \<Rightarrow> instant \<Rightarrow> memory_service
   \<Rightarrow> wave_exn + (memory_result \<times> memory_service)" where
  "memory_command fresh room user kind key base_version recording now m =
     (case mem_commands m (room, key) of
        Some result \<Rightarrow> Inr (result, m)
      | None \<Rightarrow>
          bind_result (memory_room m room) (\<lambda>r.
          bind_result
            (if kind = ''enqueue'' then
               (case recording of
                  None \<Rightarrow> Inl (WaveValueError ''recording is required'')
                | Some rec \<Rightarrow>
                    bind_result (enqueue_room fresh r user rec base_version now) (\<lambda>(entry, r').
                    Inr (\<lparr>mr_sequence = wr_sequence r' + 1, mr_version = wr_version r',
                          mr_entry = Some (qe_id entry)\<rparr>, r')))
             else if kind \<in> {''play'', ''pause'', ''seek'', ''skip''} then
               bind_result (require_host r user now) (\<lambda>_.
               if base_version \<noteq> wr_version r then Inl WaveConflict
               else let r' = r\<lparr>wr_sequence := wr_sequence r + 1\<rparr>
                    in Inr (\<lparr>mr_sequence = wr_sequence r', mr_version = wr_version r', mr_entry = None\<rparr>, r'))
             else Inl (WaveValueError ''unsupported Wave command''))
            (\<lambda>(result, r').
             Inr (result, (set_memory_room r' room m)
               \<lparr>mem_commands := (mem_commands m)((room, key) \<mapsto> result)\<rparr>))))"

definition memory_report_availability ::
  "uuid \<Rightarrow> uuid \<Rightarrow> uuid \<Rightarrow> availability \<Rightarrow> instant \<Rightarrow> memory_service \<Rightarrow> wave_exn + memory_service" where
  "memory_report_availability room user recording value now m =
     bind_result (memory_get room user now m) (\<lambda>_.
     Inr (m\<lparr>mem_availability := (mem_availability m)((room, user, recording) \<mapsto> value),
            mem_presence := (mem_presence m)((room, user) \<mapsto> now)\<rparr>))"

text \<open>
  A member is present when it reported within thirty seconds; one that never reported compares as
  \<open>datetime.min\<close>, before every such limit. \<open>scheduled_at\<close> is the instant whose POSIX timestamp the
  code returns.
\<close>

definition memory_present :: "memory_service \<Rightarrow> uuid \<Rightarrow> instant \<Rightarrow> uuid \<Rightarrow> bool" where
  "memory_present m room now user =
     (case mem_presence m (room, user) of None \<Rightarrow> False | Some t \<Rightarrow> now - seconds 30 \<le> t)"

definition memory_playable :: "memory_service \<Rightarrow> uuid \<Rightarrow> uuid \<Rightarrow> uuid \<Rightarrow> bool" where
  "memory_playable m room recording user =
     (case mem_availability m (room, user, recording) of
        None \<Rightarrow> False | Some a \<Rightarrow> a \<noteq> UNAVAILABLE)"

definition memory_schedule ::
  "uuid \<Rightarrow> uuid \<Rightarrow> uuid \<Rightarrow> int list \<Rightarrow> instant \<Rightarrow> int \<Rightarrow> memory_service
   \<Rightarrow> wave_exn + (scheduled_start \<times> memory_service)" where
  "memory_schedule room user recording rtts now uncertainty m =
     bind_result (memory_get room user now m) (\<lambda>r.
     bind_result (require_host r user now) (\<lambda>_.
     let active = Set.filter (memory_present m room now) (wr_members r) in
     if card active \<noteq> card (wr_members r) \<or> \<not> (\<forall>u \<in> active. memory_playable m room recording u)
     then Inl WaveConflict
     else if rtts = [] \<or> 7 < length rtts \<or> 100 < uncertainty then Inl WaveConflict
     else let lead = min 8000 (max 2000 (3 * Max (set rtts) + 2 * uncertainty + 250));
              r' = r\<lparr>wr_sequence := wr_sequence r + 1\<rparr>
          in Inr (\<lparr>ms_sequence = wr_sequence r', ms_scheduled_at = now + milliseconds lead,
                   ms_lead_ms = lead\<rparr>, set_memory_room r' room m)))"

end
