(* ===== verification/Spec2Isabelle.thy ===== *)
theory Spec2Isabelle
  imports Job_Properties Job_Worker_Properties Resource_Properties Resource_Gate_Properties Wave_Properties Wave_Memory
begin

text \<open>
  A verification library for the server of AutPlay, a shared music library. It models three subsystems
  under \<open>server/src/autplay\<close> and proves what makes them correct; the directories named below are relative
  to that one.

  \<^bold>\<open>The program.\<close> The server keeps all its state in PostgreSQL. Long work is a row of the \<open>jobs\<close> schema: a
  caller enqueues it, a worker process claims it under a lease, and a heartbeat, a completion, a failure
  or the recovery of expired leases moves it on. Work and playback that touch the stored music need
  capacity: an account asks for an admission, a scheduler grants it within the limits of the server, the
  account and the device, and the holder opens permits and executions for its I/O; the worker that waits
  for an admission defers its job, and the scheduler's grant wakes it. Wave rooms let up to eight people
  listen together: a host creates a room, members join with its code, a log of commands orders what
  happens, playback starts only when everybody present is ready; guests without an account enter with an
  invitation of the host.

  \<^bold>\<open>Shared theories.\<close> \<open>Prelude\<close>: identifiers, instants in microseconds, results as sums with
  \<open>bind_result\<close>, tables as lists of rows with \<open>update_rows\<close> and \<open>delete_rows\<close>, and the locale of updates
  that keep a key. \<open>Transitions\<close>: the locales \<open>component\<close> (an invariant survives every step) and
  \<open>monotone_component\<close> (every step goes up in a preorder), whose lemmas on runs every subsystem
  interprets. \<open>Patterns\<close>: the regular expressions of the source as data, with a matcher. \<open>Timestamps\<close>:
  the texts of instants.

  \<^bold>\<open>Durable jobs.\<close> \<open>Job_Documents\<close> and \<open>Jobs_Domain\<close> model \<open>domain/jobs.py\<close>; \<open>Jobs_Tables\<close> the rows and
  constraints of \<open>adapters/postgresql/models/jobs.py\<close>; \<open>Jobs_Runtime\<close> and \<open>Job_Deferral\<close> the operations of
  \<open>PostgresJobRepository\<close> in \<open>adapters/postgresql/jobs_runtime.py\<close>; \<open>Job_Worker\<close> the worker of
  \<open>application/job_worker.py\<close>. A row is a record with the columns of the table, an operation a function
  from the schema to its result and the schema after it, or to the exception that rolls it back.
  \<open>Jobs_Invariants\<close>, \<open>Jobs_Correct\<close>, \<open>Jobs_Recovery\<close> and \<open>Job_Lifecycle\<close> show that every operation keeps
  \<open>jobs_inv\<close> and how it moves a row; \<open>Job_System\<close> makes them one step relation; \<open>Job_Facts\<close> and
  \<open>Job_Worker_Facts\<close> hold what the properties in \<open>Job_Properties\<close> and \<open>Job_Worker_Properties\<close> rest on:
  fences, retries, cancellation, recovery, claims, replays, and that a worker's iteration is a run of
  repository operations whose reported outcome is the durable one.

  \<^bold>\<open>Resource admission.\<close> \<open>Resource_Domain\<close> models \<open>domain/resource_admission.py\<close> and
  \<open>domain/resource_policy.py\<close>; \<open>Resource_Tables\<close> the rows; \<open>Resource_Authority\<close> the gate of
  \<open>adapters/postgresql/resource_authority.py\<close>; \<open>Resource_Repository\<close> and \<open>Resource_Permits\<close> the repository
  of \<open>adapters/postgresql/resource_admission.py\<close> and \<open>resource_limits.py\<close>; \<open>Resource_Execution\<close> the
  executions of \<open>resource_execution.py\<close>; \<open>Resource_Service\<close> the transactions of
  \<open>application/resource_admission.py\<close>. \<open>Resource_System\<close> describes every committed transaction as guarded
  writes; \<open>Resource_Invariants\<close> and \<open>Resource_Capacity\<close> show the invariant and the budget to be kept;
  \<open>Resource_Facts\<close> and \<open>Resource_Behaviour\<close> carry \<open>Resource_Properties\<close> and \<open>Resource_Gate_Properties\<close>.

  \<^bold>\<open>Wave rooms and guests.\<close> \<open>Wave_Domain\<close> models the policy of \<open>domain/wave.py\<close>, \<open>Wave_Memory\<close> the
  in-process service of \<open>application/wave.py\<close>. \<open>Wave_Tables\<close> holds the rows of
  \<open>adapters/postgresql/models/wave.py\<close> and of the guest half of \<open>models/social.py\<close>, with the constraints
  and triggers of the migrations \<open>0015_wave_runtime\<close> and \<open>0026_s1d_guest_room_access\<close>. \<open>Wave_Service\<close>
  (statements, snapshots, the command log) and \<open>Wave_Operations\<close> (the public operations) model
  \<open>SqlAlchemyWaveService\<close> of \<open>adapters/postgresql/wave.py\<close>; \<open>Guest_Secrets\<close> and \<open>Guest_Access\<close> model
  \<open>GuestRoomService\<close> of \<open>application/guest_room.py\<close>. \<open>Wave_Invariants\<close> states \<open>wave_inv\<close>, and
  \<open>Wave_Preservation\<close>, \<open>Wave_Steps\<close>, \<open>Guest_Steps\<close> and \<open>Guest_Activity\<close> show that every operation and
  trigger keeps it. \<open>Wave_Progress\<close> and \<open>Wave_Quiet\<close> show which operations take a seat and that history is
  only extended. \<open>Wave_System\<close> makes one step relation of both services and of the changes of accounts,
  devices and sessions that fire triggers. \<open>Wave_Facts\<close> and \<open>Wave_Refinement\<close> carry \<open>Wave_Properties\<close>; in
  particular the durable queue command refines the policy's \<open>enqueue\<close>.

  The theories named \<open>\<dots>_Examples\<close> run the operations on concrete tables; the witnesses of the properties
  are taken there, evaluated in the kernel.

  \<^bold>\<open>What PostgreSQL and SQLAlchemy mean.\<close> A transaction is atomic and serialised by the row locks its
  statements take; one that raises writes nothing. \<open>SKIP LOCKED\<close> is a predicate on identifiers, \<open>now()\<close>
  and the readings of \<open>clock_timestamp()\<close> are arguments, \<open>CHECK\<close>, unique and foreign keys are verified by
  the writes that can break them, and triggers are applied with the write that fires them. An order the
  query leaves open is the order of the table.

  \<^bold>\<open>Parameters.\<close> Code outside the repository is an argument: SHA-256, the canonical JSON digest, the
  decimal text of floats, the Unicode tables, the random identifiers and bits, and what the vault and the
  discovery adapters answer to the authority gate. No theorem assumes anything of them that its
  statement does not say.

  \<^bold>\<open>Bounds.\<close> The recursion of every definition is structural or has its termination proof; the loops of
  the source run over rows already fetched, and the scheduler's over the number of grants one pass may
  make, 64, which is the bound in the source. Sequence numbers, versions and attempts are integers; the
  columns are \<open>bigint\<close>, and the properties that need it say that an attempt number stays below its limit.

  \<^bold>\<open>Not modelled.\<close> The polling loop, threads and signals of the worker process, whose iterations are
  modelled; HTTP and the web interface. Pairing, accounts and passkeys (cryptography of third-party
  packages), library synchronisation, the social graph, recommendations and discovery are subsystems of
  their own; the modelled ones read their rows of accounts, devices, sessions and uploads only. Of the
  guest tables, the deletion of an account with all its evidence and the limit of 2048 bytes on a stored
  result, which no result reaches, are left out.
\<close>

end
